(* ===== verification/Prelude.thy ===== *)
theory Prelude
  imports Main "HOL-Library.Word"
begin

text \<open>
  Shared vocabulary of the development: the machine integer types of the C code,
  the byte-order conversions of its headers, the collections of simplification
  rules the component theories add to, and the list and word lemmas that more than
  one component uses.
\<close>

unbundle bit_operations_syntax

section \<open>Machine types\<close>

type_synonym u8 = "8 word"
type_synonym u16 = "16 word"
type_synonym u32 = "32 word"
type_synonym u64 = "64 word"

text \<open>
  Rule collections: \<open>be_simps\<close> for byte-order conversions, \<open>len_simps\<close> for the
  lengths of encoded buffers.
\<close>

named_theorems be_simps "byte order conversions"
named_theorems len_simps "lengths of buffers"

section \<open>Byte order\<close>

text \<open>
  A \<open>uint32_t\<close> stored most significant byte first, as the code does with shifts
  or with \<open>cpu_to_be32\<close> on the target; and its inverse.
\<close>

definition be32 :: "u32 \<Rightarrow> u8 list" where
  "be32 w = [ucast (drop_bit 24 w), ucast (drop_bit 16 w), ucast (drop_bit 8 w), ucast w]"

definition from_be32 :: "u8 \<Rightarrow> u8 \<Rightarrow> u8 \<Rightarrow> u8 \<Rightarrow> u32" where
  "from_be32 a b c d =
     push_bit 24 (ucast a) OR push_bit 16 (ucast b) OR push_bit 8 (ucast c) OR ucast d"

definition be64 :: "u64 \<Rightarrow> u8 list" where
  "be64 w = map (\<lambda>i. ucast (drop_bit ((7 - i) * 8) w)) [0..<8]"

lemma length_be32 [simp, len_simps]: "length (be32 w) = 4"
  by (simp add: be32_def)

lemma length_be64 [simp, len_simps]: "length (be64 w) = 8"
  by (simp add: be64_def)

lemma from_be32_bytes [be_simps]:
  "from_be32 (ucast (drop_bit 24 w)) (ucast (drop_bit 16 w)) (ucast (drop_bit 8 w)) (ucast w) = w"
proof (rule bit_word_eqI)
  fix n assume "n < LENGTH(32)"
  then have n: "n < 32" by simp
  consider "n < 8" | "8 \<le> n" "n < 16" | "16 \<le> n" "n < 24" | "24 \<le> n" by linarith
  then show "bit (from_be32 (ucast (drop_bit 24 w)) (ucast (drop_bit 16 w)) (ucast (drop_bit 8 w)) (ucast w)) n = bit w n"
    using n by cases (auto simp: from_be32_def bit_simps)
qed

lemma bit_u8_ge [simp]: "8 \<le> n \<Longrightarrow> \<not> bit (b :: u8) n"
  using bit_imp_le_length [of b n] by auto

lemma be32_from_be32 [be_simps]: "be32 (from_be32 a b c d) = [a, b, c, d]"
  by (auto simp: be32_def from_be32_def bit_simps intro!: bit_word_eqI)
lemma from_be32_be32 [be_simps]:
  "from_be32 (be32 w ! 0) (be32 w ! 1) (be32 w ! 2) (be32 w ! 3) = w"
  by (simp add: be32_def from_be32_bytes numeral_2_eq_2 numeral_3_eq_3)

lemma and_255 [be_simps]: "w AND 255 = take_bit 8 (w :: 'a::len word)"
  using take_bit_eq_mask [of 8 w] by (simp add: mask_eq_exp_minus_1)

lemma unat_take_bit_8 [simp]: "unat (take_bit 8 (w :: 'a::len word)) < 256"
  using take_bit_nat_less_exp [of 8 "unat w"] by (simp add: unsigned_take_bit_eq)

lemma take_bit_push_drop: "take_bit n w XOR push_bit n (drop_bit n w) = (w :: 'a::len word)"
  by (rule bit_word_eqI)
    (auto simp: bit_take_bit_iff bit_xor_iff bit_push_bit_iff bit_drop_bit_eq)

section \<open>Tables indexed by a machine integer\<close>

text \<open>
  \<open>tabulates f i ts\<close>: the entries of \<open>ts\<close> are the values of \<open>f\<close> at \<open>i\<close>,
  \<open>i + 1\<close> and so on. On a literal table the simplifier decides it entry by entry.
\<close>

fun tabulates :: "('a::len word \<Rightarrow> 'b) \<Rightarrow> 'a word \<Rightarrow> 'b list \<Rightarrow> bool" where
  "tabulates f i [] = True"
| "tabulates f i (t # ts) = (f i = t \<and> tabulates f (i + 1) ts)"

lemma tabulates_nth: "tabulates f i ts \<Longrightarrow> k < length ts \<Longrightarrow> ts ! k = f (i + word_of_nat k)"
  by (induction f i ts arbitrary: k rule: tabulates.induct)
    (auto simp: nth_Cons' add.assoc add.commute of_nat_diff)

section \<open>Lists\<close>

lemma nth_append_len [simp]: "(xs @ y # ys) ! length xs = y"
  by simp

lemma take_update_Suc: "i < length xs \<Longrightarrow> take (Suc i) (xs[i := y]) = take i xs @ [y]"
  by (simp add: take_Suc_conv_app_nth)

lemma list_all_upt_iff: "(\<forall>i < n. P i) \<longleftrightarrow> list_all P [0..<n]"
  by (auto simp: list_all_iff)

end
