(* ===== verification/Crc.thy ===== *)
theory Crc
  imports Prelude
begin

text \<open>
  The checksum library \<open>lib/crc/libcrc.c\<close>: the table-driven CRC-32 that the UBI
  headers use, the table-driven CRC-16, the bitwise CRC-8 and the table-driven
  CRC-7. The tables are the code's literals. The lemmas show that each table is the
  table of its generator polynomial, so that the fast routines equal bit-serial
  division; that a checksum can be continued block by block; and that the CRC-7
  index, which C computes as an \<open>int\<close> and does not mask, stays inside its table
  exactly when the running value is below 128.
\<close>

section \<open>CRC-32\<close>

definition crc32_table :: "u32 list" where
  "crc32_table = [
   0x00000000, 0x77073096, 0xee0e612c, 0x990951ba, 0x076dc419, 0x706af48f,
   0xe963a535, 0x9e6495a3, 0x0edb8832, 0x79dcb8a4, 0xe0d5e91e, 0x97d2d988,
   0x09b64c2b, 0x7eb17cbd, 0xe7b82d07, 0x90bf1d91, 0x1db71064, 0x6ab020f2,
   0xf3b97148, 0x84be41de, 0x1adad47d, 0x6ddde4eb, 0xf4d4b551, 0x83d385c7,
   0x136c9856, 0x646ba8c0, 0xfd62f97a, 0x8a65c9ec, 0x14015c4f, 0x63066cd9,
   0xfa0f3d63, 0x8d080df5, 0x3b6e20c8, 0x4c69105e, 0xd56041e4, 0xa2677172,
   0x3c03e4d1, 0x4b04d447, 0xd20d85fd, 0xa50ab56b, 0x35b5a8fa, 0x42b2986c,
   0xdbbbc9d6, 0xacbcf940, 0x32d86ce3, 0x45df5c75, 0xdcd60dcf, 0xabd13d59,
   0x26d930ac, 0x51de003a, 0xc8d75180, 0xbfd06116, 0x21b4f4b5, 0x56b3c423,
   0xcfba9599, 0xb8bda50f, 0x2802b89e, 0x5f058808, 0xc60cd9b2, 0xb10be924,
   0x2f6f7c87, 0x58684c11, 0xc1611dab, 0xb6662d3d, 0x76dc4190, 0x01db7106,
   0x98d220bc, 0xefd5102a, 0x71b18589, 0x06b6b51f, 0x9fbfe4a5, 0xe8b8d433,
   0x7807c9a2, 0x0f00f934, 0x9609a88e, 0xe10e9818, 0x7f6a0dbb, 0x086d3d2d,
   0x91646c97, 0xe6635c01, 0x6b6b51f4, 0x1c6c6162, 0x856530d8, 0xf262004e,
   0x6c0695ed, 0x1b01a57b, 0x8208f4c1, 0xf50fc457, 0x65b0d9c6, 0x12b7e950,
   0x8bbeb8ea, 0xfcb9887c, 0x62dd1ddf, 0x15da2d49, 0x8cd37cf3, 0xfbd44c65,
   0x4db26158, 0x3ab551ce, 0xa3bc0074, 0xd4bb30e2, 0x4adfa541, 0x3dd895d7,
   0xa4d1c46d, 0xd3d6f4fb, 0x4369e96a, 0x346ed9fc, 0xad678846, 0xda60b8d0,
   0x44042d73, 0x33031de5, 0xaa0a4c5f, 0xdd0d7cc9, 0x5005713c, 0x270241aa,
   0xbe0b1010, 0xc90c2086, 0x5768b525, 0x206f85b3, 0xb966d409, 0xce61e49f,
   0x5edef90e, 0x29d9c998, 0xb0d09822, 0xc7d7a8b4, 0x59b33d17, 0x2eb40d81,
   0xb7bd5c3b, 0xc0ba6cad, 0xedb88320, 0x9abfb3b6, 0x03b6e20c, 0x74b1d29a,
   0xead54739, 0x9dd277af, 0x04db2615, 0x73dc1683, 0xe3630b12, 0x94643b84,
   0x0d6d6a3e, 0x7a6a5aa8, 0xe40ecf0b, 0x9309ff9d, 0x0a00ae27, 0x7d079eb1,
   0xf00f9344, 0x8708a3d2, 0x1e01f268, 0x6906c2fe, 0xf762575d, 0x806567cb,
   0x196c3671, 0x6e6b06e7, 0xfed41b76, 0x89d32be0, 0x10da7a5a, 0x67dd4acc,
   0xf9b9df6f, 0x8ebeeff9, 0x17b7be43, 0x60b08ed5, 0xd6d6a3e8, 0xa1d1937e,
   0x38d8c2c4, 0x4fdff252, 0xd1bb67f1, 0xa6bc5767, 0x3fb506dd, 0x48b2364b,
   0xd80d2bda, 0xaf0a1b4c, 0x36034af6, 0x41047a60, 0xdf60efc3, 0xa867df55,
   0x316e8eef, 0x4669be79, 0xcb61b38c, 0xbc66831a, 0x256fd2a0, 0x5268e236,
   0xcc0c7795, 0xbb0b4703, 0x220216b9, 0x5505262f, 0xc5ba3bbe, 0xb2bd0b28,
   0x2bb45a92, 0x5cb36a04, 0xc2d7ffa7, 0xb5d0cf31, 0x2cd99e8b, 0x5bdeae1d,
   0x9b64c2b0, 0xec63f226, 0x756aa39c, 0x026d930a, 0x9c0906a9, 0xeb0e363f,
   0x72076785, 0x05005713, 0x95bf4a82, 0xe2b87a14, 0x7bb12bae, 0x0cb61b38,
   0x92d28e9b, 0xe5d5be0d, 0x7cdcefb7, 0x0bdbdf21, 0x86d3d2d4, 0xf1d4e242,
   0x68ddb3f8, 0x1fda836e, 0x81be16cd, 0xf6b9265b, 0x6fb077e1, 0x18b74777,
   0x88085ae6, 0xff0f6a70, 0x66063bca, 0x11010b5c, 0x8f659eff, 0xf862ae69,
   0x616bffd3, 0x166ccf45, 0xa00ae278, 0xd70dd2ee, 0x4e048354, 0x3903b3c2,
   0xa7672661, 0xd06016f7, 0x4969474d, 0x3e6e77db, 0xaed16a4a, 0xd9d65adc,
   0x40df0b66, 0x37d83bf0, 0xa9bcae53, 0xdebb9ec5, 0x47b2cf7f, 0x30b5ffe9,
   0xbdbdf21c, 0xcabac28a, 0x53b39330, 0x24b4a3a6, 0xbad03605, 0xcdd70693,
   0x54de5729, 0x23d967bf, 0xb3667a2e, 0xc4614ab8, 0x5d681b02, 0x2a6f2b94,
   0xb40bbe37, 0xc30c8ea1, 0x5a05df1b, 0x2d02ef8d
]"

text \<open>
  \<open>while (--len >= 0) val = crc32_table[(val ^ *s++) & 0xff] ^ (val >> 8)\<close>: the byte
  is promoted, so the index is the low byte of the exclusive or.
\<close>

fun local_crc32 :: "u32 \<Rightarrow> u8 list \<Rightarrow> u32" where
  "local_crc32 val [] = val"
| "local_crc32 val (s # ss) =
     local_crc32 (crc32_table ! unat ((val XOR ucast s) AND 0xff) XOR drop_bit 8 val) ss"

section \<open>CRC-16\<close>

definition crc16_tab :: "u16 list" where
  "crc16_tab = [
   0x0000, 0x1021, 0x2042, 0x3063, 0x4084, 0x50a5, 0x60c6, 0x70e7,
   0x8108, 0x9129, 0xa14a, 0xb16b, 0xc18c, 0xd1ad, 0xe1ce, 0xf1ef,
   0x1231, 0x0210, 0x3273, 0x2252, 0x52b5, 0x4294, 0x72f7, 0x62d6,
   0x9339, 0x8318, 0xb37b, 0xa35a, 0xd3bd, 0xc39c, 0xf3ff, 0xe3de,
   0x2462, 0x3443, 0x0420, 0x1401, 0x64e6, 0x74c7, 0x44a4, 0x5485,
   0xa56a, 0xb54b, 0x8528, 0x9509, 0xe5ee, 0xf5cf, 0xc5ac, 0xd58d,
   0x3653, 0x2672, 0x1611, 0x0630, 0x76d7, 0x66f6, 0x5695, 0x46b4,
   0xb75b, 0xa77a, 0x9719, 0x8738, 0xf7df, 0xe7fe, 0xd79d, 0xc7bc,
   0x48c4, 0x58e5, 0x6886, 0x78a7, 0x0840, 0x1861, 0x2802, 0x3823,
   0xc9cc, 0xd9ed, 0xe98e, 0xf9af, 0x8948, 0x9969, 0xa90a, 0xb92b,
   0x5af5, 0x4ad4, 0x7ab7, 0x6a96, 0x1a71, 0x0a50, 0x3a33, 0x2a12,
   0xdbfd, 0xcbdc, 0xfbbf, 0xeb9e, 0x9b79, 0x8b58, 0xbb3b, 0xab1a,
   0x6ca6, 0x7c87, 0x4ce4, 0x5cc5, 0x2c22, 0x3c03, 0x0c60, 0x1c41,
   0xedae, 0xfd8f, 0xcdec, 0xddcd, 0xad2a, 0xbd0b, 0x8d68, 0x9d49,
   0x7e97, 0x6eb6, 0x5ed5, 0x4ef4, 0x3e13, 0x2e32, 0x1e51, 0x0e70,
   0xff9f, 0xefbe, 0xdfdd, 0xcffc, 0xbf1b, 0xaf3a, 0x9f59, 0x8f78,
   0x9188, 0x81a9, 0xb1ca, 0xa1eb, 0xd10c, 0xc12d, 0xf14e, 0xe16f,
   0x1080, 0x00a1, 0x30c2, 0x20e3, 0x5004, 0x4025, 0x7046, 0x6067,
   0x83b9, 0x9398, 0xa3fb, 0xb3da, 0xc33d, 0xd31c, 0xe37f, 0xf35e,
   0x02b1, 0x1290, 0x22f3, 0x32d2, 0x4235, 0x5214, 0x6277, 0x7256,
   0xb5ea, 0xa5cb, 0x95a8, 0x8589, 0xf56e, 0xe54f, 0xd52c, 0xc50d,
   0x34e2, 0x24c3, 0x14a0, 0x0481, 0x7466, 0x6447, 0x5424, 0x4405,
   0xa7db, 0xb7fa, 0x8799, 0x97b8, 0xe75f, 0xf77e, 0xc71d, 0xd73c,
   0x26d3, 0x36f2, 0x0691, 0x16b0, 0x6657, 0x7676, 0x4615, 0x5634,
   0xd94c, 0xc96d, 0xf90e, 0xe92f, 0x99c8, 0x89e9, 0xb98a, 0xa9ab,
   0x5844, 0x4865, 0x7806, 0x6827, 0x18c0, 0x08e1, 0x3882, 0x28a3,
   0xcb7d, 0xdb5c, 0xeb3f, 0xfb1e, 0x8bf9, 0x9bd8, 0xabbb, 0xbb9a,
   0x4a75, 0x5a54, 0x6a37, 0x7a16, 0x0af1, 0x1ad0, 0x2ab3, 0x3a92,
   0xfd2e, 0xed0f, 0xdd6c, 0xcd4d, 0xbdaa, 0xad8b, 0x9de8, 0x8dc9,
   0x7c26, 0x6c07, 0x5c64, 0x4c45, 0x3ca2, 0x2c83, 0x1ce0, 0x0cc1,
   0xef1f, 0xff3e, 0xcf5d, 0xdf7c, 0xaf9b, 0xbfba, 0x8fd9, 0x9ff8,
   0x6e17, 0x7e36, 0x4e55, 0x5e74, 0x2e93, 0x3eb2, 0x0ed1, 0x1ef0
]"

fun crc16_loop :: "u16 \<Rightarrow> u8 list \<Rightarrow> u16" where
  "crc16_loop cksum [] = cksum"
| "crc16_loop cksum (b # bs) =
     crc16_loop (crc16_tab ! unat ((drop_bit 8 cksum XOR ucast b) AND 0xff) XOR push_bit 8 cksum) bs"

definition local_crc16 :: "u8 list \<Rightarrow> u16" where
  "local_crc16 buf = crc16_loop 0 buf"

section \<open>CRC-8\<close>

definition POLY :: u16 where
  "POLY = push_bit 3 0x1070"

definition crc8_shift :: "u16 \<Rightarrow> u16" where
  "crc8_shift data = push_bit 1 (if data AND 0x8000 \<noteq> 0 then data XOR POLY else data)"

definition crc8_byte :: "u16 \<Rightarrow> u8" where
  "crc8_byte data = ucast (drop_bit 8 ((crc8_shift ^^ 8) data))"

text \<open>
  The argument \<open>(crc ^ vptr[i]) << 8\<close> is a 32-bit value that the call truncates to
  16 bits.
\<close>

fun local_crc8 :: "u32 \<Rightarrow> u8 list \<Rightarrow> u32" where
  "local_crc8 crc [] = crc"
| "local_crc8 crc (v # vs) =
     local_crc8 (ucast (crc8_byte (ucast (push_bit 8 (crc XOR ucast v) :: u32)))) vs"

section \<open>CRC-7\<close>

definition crc7_syndrome_table :: "u8 list" where
  "crc7_syndrome_table = [
   0x00, 0x09, 0x12, 0x1b, 0x24, 0x2d, 0x36, 0x3f,
   0x48, 0x41, 0x5a, 0x53, 0x6c, 0x65, 0x7e, 0x77,
   0x19, 0x10, 0x0b, 0x02, 0x3d, 0x34, 0x2f, 0x26,
   0x51, 0x58, 0x43, 0x4a, 0x75, 0x7c, 0x67, 0x6e,
   0x32, 0x3b, 0x20, 0x29, 0x16, 0x1f, 0x04, 0x0d,
   0x7a, 0x73, 0x68, 0x61, 0x5e, 0x57, 0x4c, 0x45,
   0x2b, 0x22, 0x39, 0x30, 0x0f, 0x06, 0x1d, 0x14,
   0x63, 0x6a, 0x71, 0x78, 0x47, 0x4e, 0x55, 0x5c,
   0x64, 0x6d, 0x76, 0x7f, 0x40, 0x49, 0x52, 0x5b,
   0x2c, 0x25, 0x3e, 0x37, 0x08, 0x01, 0x1a, 0x13,
   0x7d, 0x74, 0x6f, 0x66, 0x59, 0x50, 0x4b, 0x42,
   0x35, 0x3c, 0x27, 0x2e, 0x11, 0x18, 0x03, 0x0a,
   0x56, 0x5f, 0x44, 0x4d, 0x72, 0x7b, 0x60, 0x69,
   0x1e, 0x17, 0x0c, 0x05, 0x3a, 0x33, 0x28, 0x21,
   0x4f, 0x46, 0x5d, 0x54, 0x6b, 0x62, 0x79, 0x70,
   0x07, 0x0e, 0x15, 0x1c, 0x23, 0x2a, 0x31, 0x38,
   0x41, 0x48, 0x53, 0x5a, 0x65, 0x6c, 0x77, 0x7e,
   0x09, 0x00, 0x1b, 0x12, 0x2d, 0x24, 0x3f, 0x36,
   0x58, 0x51, 0x4a, 0x43, 0x7c, 0x75, 0x6e, 0x67,
   0x10, 0x19, 0x02, 0x0b, 0x34, 0x3d, 0x26, 0x2f,
   0x73, 0x7a, 0x61, 0x68, 0x57, 0x5e, 0x45, 0x4c,
   0x3b, 0x32, 0x29, 0x20, 0x1f, 0x16, 0x0d, 0x04,
   0x6a, 0x63, 0x78, 0x71, 0x4e, 0x47, 0x5c, 0x55,
   0x22, 0x2b, 0x30, 0x39, 0x06, 0x0f, 0x14, 0x1d,
   0x25, 0x2c, 0x37, 0x3e, 0x01, 0x08, 0x13, 0x1a,
   0x6d, 0x64, 0x7f, 0x76, 0x49, 0x40, 0x5b, 0x52,
   0x3c, 0x35, 0x2e, 0x27, 0x18, 0x11, 0x0a, 0x03,
   0x74, 0x7d, 0x66, 0x6f, 0x50, 0x59, 0x42, 0x4b,
   0x17, 0x1e, 0x05, 0x0c, 0x33, 0x3a, 0x21, 0x28,
   0x5f, 0x56, 0x4d, 0x44, 0x7b, 0x72, 0x69, 0x60,
   0x0e, 0x07, 0x1c, 0x15, 0x2a, 0x23, 0x38, 0x31,
   0x46, 0x4f, 0x54, 0x5d, 0x62, 0x6b, 0x70, 0x79
]"

text \<open>
  The index \<open>(crc << 1) ^ data\<close> is computed in \<open>int\<close> after promotion, so it has
  nine bits; \<open>None\<close> is the read outside the table that C would do for an index
  above 255.
\<close>

definition crc7_index :: "u8 \<Rightarrow> u8 \<Rightarrow> nat" where
  "crc7_index crc data = unat (push_bit 1 (ucast crc) XOR ucast data :: u32)"

definition crc7_byte :: "u8 \<Rightarrow> u8 \<Rightarrow> u8 option" where
  "crc7_byte crc data =
     (let i = crc7_index crc data
      in if i < length crc7_syndrome_table then Some (crc7_syndrome_table ! i) else None)"

fun local_crc7 :: "u8 \<Rightarrow> u8 list \<Rightarrow> u8 option" where
  "local_crc7 crc [] = Some crc"
| "local_crc7 crc (b # bs) =
     (case crc7_byte crc b of None \<Rightarrow> None | Some c \<Rightarrow> local_crc7 c bs)"

section \<open>Reference: bit-serial division\<close>

text \<open>
  One step of the shift register for the polynomial of each checksum: reflected
  \<open>0xedb88320\<close> for CRC-32, \<open>0x1021\<close> for CRC-16 and \<open>x^7 + x^3 + 1\<close>, left
  aligned in a byte, for CRC-7. A byte is eight steps.
\<close>

definition crc32_bit :: "u32 \<Rightarrow> u32" where
  "crc32_bit v = (if bit v 0 then drop_bit 1 v XOR 0xedb88320 else drop_bit 1 v)"

definition crc32_byte :: "u32 \<Rightarrow> u32" where
  "crc32_byte v = crc32_bit (crc32_bit (crc32_bit (crc32_bit
     (crc32_bit (crc32_bit (crc32_bit (crc32_bit v)))))))"

fun crc32_ref :: "u32 \<Rightarrow> u8 list \<Rightarrow> u32" where
  "crc32_ref v [] = v"
| "crc32_ref v (s # ss) = crc32_ref (crc32_byte (v XOR ucast s)) ss"

definition crc16_bit :: "u16 \<Rightarrow> u16" where
  "crc16_bit v = (if bit v 15 then push_bit 1 v XOR 0x1021 else push_bit 1 v)"

definition crc16_byte :: "u16 \<Rightarrow> u16" where
  "crc16_byte v = crc16_bit (crc16_bit (crc16_bit (crc16_bit
     (crc16_bit (crc16_bit (crc16_bit (crc16_bit v)))))))"

fun crc16_ref :: "u16 \<Rightarrow> u8 list \<Rightarrow> u16" where
  "crc16_ref v [] = v"
| "crc16_ref v (s # ss) = crc16_ref (crc16_byte (v XOR push_bit 8 (ucast s))) ss"

definition crc7_bit :: "u8 \<Rightarrow> u8" where
  "crc7_bit v = (if bit v 7 then push_bit 1 (v XOR 0x89) else push_bit 1 v)"

definition crc7_reg :: "u8 \<Rightarrow> u8" where
  "crc7_reg v = crc7_bit (crc7_bit (crc7_bit (crc7_bit
     (crc7_bit (crc7_bit (crc7_bit (crc7_bit v)))))))"

fun crc7_ref :: "u8 \<Rightarrow> u8 list \<Rightarrow> u8" where
  "crc7_ref r [] = r"
| "crc7_ref r (s # ss) = crc7_ref (crc7_reg (r XOR s)) ss"

section \<open>The tables are the tables of their polynomials\<close>

lemma crc32_table_tabulates: "tabulates crc32_byte 0 crc32_table"
  by (simp add: crc32_table_def crc32_byte_def crc32_bit_def)

definition crc16_entry :: "u16 \<Rightarrow> u16" where
  "crc16_entry v = crc16_bit (crc16_bit (crc16_bit (crc16_bit
     (crc16_bit (crc16_bit (crc16_bit (crc16_bit (push_bit 8 v))))))))"

definition crc7_entry :: "u8 \<Rightarrow> u8" where
  "crc7_entry v = drop_bit 1 (crc7_bit (crc7_bit (crc7_bit (crc7_bit
     (crc7_bit (crc7_bit (crc7_bit (crc7_bit v))))))))"

lemma crc16_tab_tabulates: "tabulates crc16_entry 0 crc16_tab"
  by (simp add: crc16_tab_def crc16_entry_def crc16_bit_def)

lemma crc7_table_tabulates: "tabulates crc7_entry 0 crc7_syndrome_table"
  by (simp add: crc7_syndrome_table_def crc7_entry_def crc7_bit_def)

lemma crc16_entry_byte: "crc16_entry v = crc16_byte (push_bit 8 v)"
  by (simp add: crc16_entry_def crc16_byte_def)

lemma crc7_entry_reg: "crc7_entry v = drop_bit 1 (crc7_reg v)"
  by (simp add: crc7_entry_def crc7_reg_def)

lemma length_tables [simp]:
  "length crc32_table = 256" "length crc16_tab = 256" "length crc7_syndrome_table = 256"
  by (simp_all add: crc32_table_def crc16_tab_def crc7_syndrome_table_def)

lemma crc32_table_nth: "unat w < 256 \<Longrightarrow> crc32_table ! unat w = crc32_byte w"
  using tabulates_nth [OF crc32_table_tabulates, of "unat w"] by simp

lemma crc16_tab_nth: "unat w < 256 \<Longrightarrow> crc16_tab ! unat w = crc16_byte (push_bit 8 w)"
  using tabulates_nth [OF crc16_tab_tabulates, of "unat w"] by (simp add: crc16_entry_byte)

lemma crc7_table_nth: "crc7_syndrome_table ! unat w = drop_bit 1 (crc7_reg w)"
  using tabulates_nth [OF crc7_table_tabulates, of "unat w"] unsigned_less [of w]
  by (simp add: crc7_entry_reg)

section \<open>The registers are linear\<close>

lemma crc32_bit_xor: "crc32_bit (a XOR b) = crc32_bit a XOR crc32_bit b"
  by (auto simp: crc32_bit_def bit_simps ac_simps drop_bit_xor)

lemma crc32_byte_xor: "crc32_byte (a XOR b) = crc32_byte a XOR crc32_byte b"
  by (simp add: crc32_byte_def crc32_bit_xor)

lemma crc16_bit_xor: "crc16_bit (a XOR b) = crc16_bit a XOR crc16_bit b"
  by (auto simp: crc16_bit_def bit_simps ac_simps push_bit_xor)

lemma crc16_byte_xor: "crc16_byte (a XOR b) = crc16_byte a XOR crc16_byte b"
  by (simp add: crc16_byte_def crc16_bit_xor)

lemma crc32_bit_even: "\<not> bit v 0 \<Longrightarrow> crc32_bit v = drop_bit 1 v"
  by (simp add: crc32_bit_def)

lemma crc16_bit_low: "\<not> bit v 15 \<Longrightarrow> crc16_bit v = push_bit 1 v"
  by (simp add: crc16_bit_def)

lemma crc32_byte_high: "(\<And>n. n < 8 \<Longrightarrow> \<not> bit v n) \<Longrightarrow> crc32_byte v = drop_bit 8 v"
  by (simp add: crc32_byte_def crc32_bit_even bit_simps numeral_eq_Suc)

lemma crc16_bit_push:
  assumes "\<And>n. 8 \<le> n \<Longrightarrow> \<not> bit v n" and "k < 8"
  shows "crc16_bit (push_bit k v) = push_bit (Suc k) v"
proof -
  have "\<not> bit (push_bit k v) 15"
    using assms by (simp add: bit_push_bit_iff)
  then have "crc16_bit (push_bit k v) = push_bit 1 (push_bit k v)"
    by (rule crc16_bit_low)
  then show ?thesis by (simp only: push_bit_push_bit plus_1_eq_Suc)
qed

lemma crc16_byte_low:
  assumes "\<And>n. 8 \<le> n \<Longrightarrow> \<not> bit v n"
  shows "crc16_byte v = push_bit 8 v"
proof -
  note step = crc16_bit_push [OF assms]
  have "crc16_byte v = crc16_byte (push_bit 0 v)" by simp
  then show ?thesis
    using step [of 0] step [of 1] step [of 2] step [of 3] step [of 4] step [of 5] step [of 6] step [of 7]
    by (simp add: crc16_byte_def eval_nat_numeral del: push_bit_Suc)
qed

lemma crc32_byte_split: "crc32_byte v = crc32_byte (take_bit 8 v) XOR drop_bit 8 v"
proof -
  have "crc32_byte v = crc32_byte (take_bit 8 v) XOR crc32_byte (push_bit 8 (drop_bit 8 v))"
    by (metis crc32_byte_xor take_bit_push_drop)
  moreover have "crc32_byte (push_bit 8 (drop_bit 8 v)) = drop_bit 8 (push_bit 8 (drop_bit 8 v))"
    by (rule crc32_byte_high) (auto simp: bit_push_bit_iff)
  moreover have "drop_bit 8 (push_bit 8 (drop_bit 8 v)) = drop_bit 8 v"
    by (rule bit_word_eqI) (auto simp: bit_push_bit_iff bit_drop_bit_eq dest: bit_imp_le_length)
  ultimately show ?thesis by simp
qed

lemma crc16_byte_split:
  "crc16_byte v = crc16_byte (push_bit 8 (drop_bit 8 v)) XOR push_bit 8 v"
proof -
  have "crc16_byte v = crc16_byte (push_bit 8 (drop_bit 8 v)) XOR crc16_byte (take_bit 8 v)"
    by (metis crc16_byte_xor take_bit_push_drop xor.commute)
  moreover have "crc16_byte (take_bit 8 v) = push_bit 8 (take_bit 8 v)"
    by (rule crc16_byte_low) (auto simp: bit_take_bit_iff)
  moreover have "push_bit 8 (take_bit 8 v) = push_bit 8 v"
    by (rule bit_word_eqI) (auto simp: bit_push_bit_iff bit_take_bit_iff)
  ultimately show ?thesis by simp
qed

section \<open>The table-driven routines divide by the polynomial\<close>

lemma crc32_step:
  "crc32_table ! unat ((v XOR ucast (s :: u8)) AND 0xff) XOR drop_bit 8 v = crc32_byte (v XOR ucast s)"
proof -
  have "drop_bit 8 (v XOR ucast s) = drop_bit 8 v"
    by (rule bit_word_eqI) (auto simp: bit_drop_bit_eq bit_xor_iff bit_ucast_iff)
  then show ?thesis
    using crc32_byte_split [of "v XOR ucast s"] by (simp only: and_255 crc32_table_nth unat_take_bit_8)
qed

lemma crc16_step:
  "crc16_tab ! unat ((drop_bit 8 v XOR ucast (s :: u8)) AND 0xff) XOR push_bit 8 v
   = crc16_byte (v XOR push_bit 8 (ucast s))"
proof -
  have "push_bit 8 (v XOR push_bit 8 (ucast s)) = push_bit 8 v"
    by (rule bit_word_eqI) (auto simp: bit_push_bit_iff bit_xor_iff bit_ucast_iff)
  moreover have "drop_bit 8 (v XOR push_bit 8 (ucast s)) = take_bit 8 (drop_bit 8 v XOR ucast s)"
    by (rule bit_word_eqI)
      (auto simp: bit_push_bit_iff bit_xor_iff bit_ucast_iff bit_drop_bit_eq bit_take_bit_iff
            dest: bit_imp_le_length)
  ultimately show ?thesis
    using crc16_byte_split [of "v XOR push_bit 8 (ucast s)"] by (simp only: and_255 crc16_tab_nth unat_take_bit_8)
qed

lemma crc16_loop_ref: "crc16_loop v bs = crc16_ref v bs"
  by (induction v bs rule: crc16_ref.induct) (simp_all only: crc16_loop.simps crc16_ref.simps crc16_step)

lemma crc32_loop_ref: "local_crc32 v bs = crc32_ref v bs"
  by (induction v bs rule: crc32_ref.induct) (simp_all only: local_crc32.simps crc32_ref.simps crc32_step)

text \<open>
  CRC-7. The register of the reference is the checksum shifted left once: its low bit
  stays clear, which is what keeps the index below 256.
\<close>

lemma u8_less_256: "unat (w :: u8) < 256"
  using unsigned_less [of w, where ?'a = nat] by simp

lemma u8_bit7_iff: "bit (w :: u8) 7 \<longleftrightarrow> 128 \<le> w"
proof -
  have "bit w 7 \<longleftrightarrow> bit (unat w) 7" by (simp add: bit_unsigned_iff)
  also have "\<dots> \<longleftrightarrow> odd (unat w div 128)" by (simp add: bit_iff_odd)
  also have "\<dots> \<longleftrightarrow> 128 \<le> unat w"
  proof (cases "128 \<le> unat w")
    case True
    then have "unat w div 128 = Suc ((unat w - 128) div 128)" by (simp add: le_div_geq)
    moreover have "(unat w - 128) div 128 = 0" using u8_less_256 [of w] by simp
    ultimately show ?thesis using True by simp
  qed simp
  also have "\<dots> \<longleftrightarrow> 128 \<le> w" by (simp add: word_le_nat_alt)
  finally show ?thesis .
qed

lemma unat_ucast_u32: "unat (ucast (w :: u8) :: u32) = unat w"
  using u8_less_256 [of w] by (simp add: unsigned_ucast_eq take_bit_nat_eq_self)

lemma crc7_index_low:
  assumes "crc < 128" shows "crc7_index crc b = unat (push_bit 1 crc XOR b)"
proof -
  have "\<not> bit crc 7" using assms by (simp add: u8_bit7_iff not_le)
  then have "\<not> bit crc (n - 1)" if "8 \<le> n" for n
    using that by (cases "n = 8") auto
  then have "push_bit 1 (ucast crc :: u32) XOR ucast b = ucast (push_bit 1 crc XOR b)"
    by (intro bit_word_eqI)
      (auto simp only: bit_push_bit_iff bit_xor_iff bit_ucast_iff possible_bit_word
        linorder_not_le [symmetric] bit_u8_ge len_num0 len_num1 len_bit0 len_bit1)
  then show ?thesis unfolding crc7_index_def by (simp only: unat_ucast_u32)
qed

lemma crc7_index_high:
  assumes "128 \<le> crc" shows "256 \<le> crc7_index crc b"
proof (rule ccontr)
  assume "\<not> 256 \<le> crc7_index crc b"
  then have "crc7_index crc b < 2 ^ 8" by simp
  then have "\<not> bit (crc7_index crc b) 8" by (simp only: bit_nat_iff bit_iff_odd div_less even_zero not_not)
  moreover have "bit crc 7" using assms by (simp add: u8_bit7_iff)
  then have "bit (crc7_index crc b) 8"
    by (simp add: crc7_index_def bit_unsigned_iff bit_xor_iff bit_ucast_iff bit_push_bit_iff del: push_bit_Suc)
  ultimately show False by contradiction
qed

lemma crc7_bit_even: "\<not> bit (crc7_bit v) 0"
  unfolding crc7_bit_def by (auto simp only: bit_push_bit_iff split: if_splits)

lemma crc7_reg_even: "push_bit 1 (drop_bit 1 (crc7_reg v)) = crc7_reg v"
proof -
  have *: "\<not> bit (crc7_reg v) 0"
    unfolding crc7_reg_def by (rule crc7_bit_even)
  show ?thesis
  proof (rule bit_word_eqI)
    fix n assume "n < LENGTH(8)"
    then show "bit (push_bit 1 (drop_bit 1 (crc7_reg v))) n = bit (crc7_reg v) n"
      using * by (cases n) (simp_all only: bit_push_bit_iff bit_drop_bit_eq, simp_all)
  qed
qed

lemma crc7_byte_low:
  assumes "crc < 128"
  shows "crc7_byte crc b = Some (drop_bit 1 (crc7_reg (push_bit 1 crc XOR b)))"
proof -
  have "unat (push_bit 1 crc XOR b) < 256"
    using unsigned_less [of "push_bit 1 crc XOR b"] by simp
  then show ?thesis
    using assms by (simp add: crc7_byte_def crc7_index_low crc7_table_nth Let_def del: push_bit_xor)
qed

lemma drop_bit_1_less: "drop_bit 1 (w :: u8) < 128"
proof -
  have "unat w div 2 < 128" using u8_less_256 [of w] by simp
  then show ?thesis by (simp add: word_less_nat_alt drop_bit_Suc unat_div_distrib)
qed

section \<open>Single-byte corruption\<close>

lemma crc32_bit_zero: "crc32_bit v = 0 \<Longrightarrow> v = 0"
proof (rule ccontr)
  assume z: "crc32_bit v = 0" and "v \<noteq> 0"
  show False
  proof (cases "bit v 0")
    case True
    with z have "bit (drop_bit 1 v XOR 0xedb88320) 31 = bit (0 :: u32) 31"
      by (simp add: crc32_bit_def)
    moreover have "\<not> bit v 32" using bit_imp_le_length [of v 32] by auto
    ultimately show False by (simp add: bit_xor_iff bit_drop_bit_eq)
  next
    case False
    with z have d: "drop_bit 1 v = 0" by (simp add: crc32_bit_def)
    have "bit v n = bit (0 :: u32) n" for n
      using False arg_cong [OF d, of "\<lambda>w. bit w (n - 1)"]
      by (cases n) (simp_all add: bit_drop_bit_eq)
    with \<open>v \<noteq> 0\<close> show False by (simp add: bit_eq_iff)
  qed
qed

lemma xor_eq_zeroD: "a XOR b = 0 \<Longrightarrow> a = (b :: 'a::len word)"
  by (metis xor.assoc xor.left_neutral xor.right_neutral xor_self_eq)

lemma crc32_bit_inj: "crc32_bit a = crc32_bit b \<Longrightarrow> a = b"
  by (rule xor_eq_zeroD, rule crc32_bit_zero) (simp add: crc32_bit_xor)

lemma crc32_byte_inj: "crc32_byte a = crc32_byte b \<Longrightarrow> a = b"
  unfolding crc32_byte_def by (blast dest: crc32_bit_inj)

lemma word_xor_right_cancel: "a XOR c = b XOR c \<longleftrightarrow> a = (b :: 'a::len word)"
proof
  assume "a XOR c = b XOR c"
  then have "(a XOR c) XOR c = (b XOR c) XOR c" by simp
  then show "a = b" by (simp add: xor.assoc)
qed simp

lemma crc32_ref_inj: "crc32_ref a bs = crc32_ref b bs \<Longrightarrow> a = b"
proof (induction bs arbitrary: a b)
  case (Cons s bs)
  then have "crc32_byte (a XOR ucast s) = crc32_byte (b XOR ucast s)" by simp
  then have "a XOR ucast s = b XOR ucast s" by (rule crc32_byte_inj)
  then show ?case by (simp only: word_xor_right_cancel)
qed simp

lemma crc32_ref_append: "crc32_ref v (xs @ ys) = crc32_ref (crc32_ref v xs) ys"
  by (induction v xs rule: crc32_ref.induct) simp_all

lemma crc32_ref_corrupt: "crc32_ref v (xs @ a # ys) = crc32_ref v (xs @ b # ys) \<Longrightarrow> a = b"
proof -
  assume "crc32_ref v (xs @ a # ys) = crc32_ref v (xs @ b # ys)"
  then have "crc32_byte (crc32_ref v xs XOR ucast a) = crc32_byte (crc32_ref v xs XOR ucast b)"
    by (simp only: crc32_ref_append crc32_ref.simps) (rule crc32_ref_inj)
  then have "(ucast a :: u32) = ucast b"
    using crc32_byte_inj word_xor_right_cancel xor.commute by metis
  then show "a = b"
    by (metis unat_ucast_u32 word_unat_eq_iff)
qed

lemma crc7_ref_even:
  "push_bit 1 (drop_bit 1 r) = r \<Longrightarrow> push_bit 1 (drop_bit 1 (crc7_ref r bs)) = crc7_ref r bs"
  by (induction r bs rule: crc7_ref.induct) (simp_all only: crc7_ref.simps crc7_reg_even)

lemma drop_push_7: "\<not> bit (c :: u8) 7 \<Longrightarrow> drop_bit 1 (push_bit 1 c) = c"
proof (rule bit_word_eqI)
  fix n assume "\<not> bit c 7" and "n < LENGTH(8)"
  then show "bit (drop_bit 1 (push_bit 1 c)) n = bit c n"
    by (cases "n = 7") (simp_all only: bit_drop_bit_eq bit_push_bit_iff o_apply, simp_all)
qed

lemma crc7_byte_high: "128 \<le> crc \<Longrightarrow> crc7_byte crc b = None"
  using crc7_index_high [of crc b] by (simp add: crc7_byte_def)

section \<open>What the checksum routines compute\<close>

text \<open>
  C11. The table-driven CRC-32 (\<open>crc32()\<close> behind the UBI headers and the flag records)
  is the bit-serial division by the reflected polynomial \<open>0xedb88320\<close>, for every
  initial value and every buffer; in particular all 256 literals of the table are
  right.
\<close>

theorem local_crc32_correct: "local_crc32 v ss = crc32_ref v ss"
  by (rule crc32_loop_ref)

text \<open>
  A buffer whose CRC-32 is accepted cannot differ from the original in exactly
  one byte: two buffers that agree everywhere but in one byte have different
  checksums.
\<close>

lemma local_crc32_detects_byte:
  "local_crc32 v (xs @ a # ys) = local_crc32 v (xs @ b # ys) \<Longrightarrow> a = b"
  unfolding crc32_loop_ref by (rule crc32_ref_corrupt)

lemma local_crc32_detects_byte_example:
  "local_crc32 0xffffffff [1, 7, 3] = local_crc32 0xffffffff [1, 7, 3] \<and> (7 :: u8) = 7"
  using local_crc32_detects_byte [of "0xffffffff" "[1]" 7 "[3]" 7] by simp

text \<open>
  CRC-16 is the bit-serial division by \<open>x^16 + x^12 + x^5 + 1\<close> from a zero
  register (the XMODEM checksum).
\<close>

lemma local_crc16_correct: "local_crc16 buf = crc16_ref 0 buf"
  by (simp only: local_crc16_def crc16_loop_ref)

text \<open>
  From a seven-bit value CRC-7 never reads outside its table, computes the
  division by \<open>x^7 + x^3 + 1\<close> and returns a seven-bit value again, so its results can
  be fed back; a seed with the top bit set reads outside the table at the first byte.
\<close>

lemma local_crc7_correct:
  "if crc < 128
   then local_crc7 crc bs = Some (drop_bit 1 (crc7_ref (push_bit 1 crc) bs))
        \<and> drop_bit 1 (crc7_ref (push_bit 1 crc) bs) < 128
   else local_crc7 crc (b # bs) = None"
proof (cases "crc < 128")
  case True
  have "local_crc7 c bs = Some (drop_bit 1 (crc7_ref (push_bit 1 c) bs))" if "c < 128" for c
    using that
  proof (induction bs arbitrary: c)
    case Nil
    then have "\<not> bit c 7" by (simp add: u8_bit7_iff not_le)
    then have "drop_bit 1 (push_bit 1 c) = c" by (rule drop_push_7)
    then show ?case by simp
  next
    case (Cons x bs)
    then show ?case
      by (simp only: local_crc7.simps crc7_byte_low option.case crc7_ref.simps drop_bit_1_less crc7_reg_even)
  qed
  with True show ?thesis by (simp only: if_True drop_bit_1_less simp_thms)
next
  case False
  then have "crc7_byte crc b = None" by (simp add: crc7_byte_high not_less)
  with False show ?thesis by simp
qed

end
