(* ===== verification/CStrings.thy ===== *)
theory CStrings
  imports Prelude
begin

text \<open>
  The string helpers of \<open>client/recovery/utils/compare_string.c\<close>. A C pointer is the
  list of the characters from it to the end of its object; a string without its
  terminator stands for itself followed by NUL, so that \<open>deref []\<close> is NUL. A bank of
  strings (\<open>strings\<close> in the code) is one object: the strings, each with its NUL, and
  a final empty string.
\<close>

section \<open>Pointers into strings\<close>

definition NUL :: char where
  "NUL = CHR 0x00"

definition deref :: "string \<Rightarrow> char" where
  "deref p = (case p of [] \<Rightarrow> NUL | c # _ \<Rightarrow> c)"

definition cstr :: "string \<Rightarrow> string" where
  "cstr p = takeWhile (\<lambda>c. c \<noteq> NUL) p"

definition strlen :: "string \<Rightarrow> nat" where
  "strlen p = length (cstr p)"

definition skip_string :: "string \<Rightarrow> string" where
  "skip_string p = drop (strlen p + 1) p"

lemma length_skip_string [termination_simp]: "p \<noteq> [] \<Longrightarrow> length (skip_string p) < length p"
  by (cases p) (simp_all add: skip_string_def)

lemma deref_not_NUL [termination_simp]: "deref p \<noteq> NUL \<Longrightarrow> p \<noteq> []"
  by (auto simp: deref_def)

text \<open>What stands in front of the first occurrence of a character.\<close>

lemma takeWhile_upto: "x \<notin> set s \<Longrightarrow> takeWhile (\<lambda>c. c \<noteq> x) (s @ x # r) = s"
  by (induction s) auto

lemma dropWhile_upto: "x \<notin> set s \<Longrightarrow> dropWhile (\<lambda>c. c \<noteq> x) (s @ x # r) = x # r"
  by (induction s) auto

section \<open>The helpers\<close>

fun is_prefixed_with :: "string \<Rightarrow> string \<Rightarrow> string option" where
  "is_prefixed_with str [] = Some str"
| "is_prefixed_with str (k # key) =
     (if k \<noteq> deref str then None else is_prefixed_with (tl str) key)"

definition is_suffixed_with :: "string \<Rightarrow> string \<Rightarrow> string option" where
  "is_suffixed_with str key =
     (let key_len = int (length key);
          len_diff = int (length str) - key_len
      in if len_diff \<ge> 0 \<and> drop (nat len_diff) str = key
         then Some (drop (nat len_diff) str) else None)"

fun index_from :: "nat \<Rightarrow> string list \<Rightarrow> string \<Rightarrow> int" where
  "index_from i [] key = -1"
| "index_from i (s # ss) key = (if s = key then int i else index_from (i + 1) ss key)"

definition index_in_str_array :: "string list \<Rightarrow> string \<Rightarrow> int" where
  "index_in_str_array string_array key = index_from 0 string_array key"

function strings_from :: "nat \<Rightarrow> string \<Rightarrow> string \<Rightarrow> int" where
  "strings_from idx strings key =
     (if deref strings = NUL then -1
      else if cstr strings = key then int idx
      else strings_from (idx + 1) (skip_string strings) key)"
  by auto
termination
  by (relation "measure (\<lambda>(_, s, _). length s)") (auto dest: deref_not_NUL length_skip_string)

definition index_in_strings :: "string \<Rightarrow> string \<Rightarrow> int" where
  "index_in_strings strings key = strings_from 0 strings key"

function substrings_from :: "nat \<Rightarrow> int \<Rightarrow> string \<Rightarrow> string \<Rightarrow> int" where
  "substrings_from idx matched_idx strings key =
     (if deref strings = NUL then matched_idx
      else if take (length key) (cstr strings) = key then
        if deref (drop (length key) strings) = NUL then int idx
        else if matched_idx \<ge> 0 then -1
        else substrings_from (idx + 1) (int idx) (skip_string strings) key
      else substrings_from (idx + 1) matched_idx (skip_string strings) key)"
  by auto
termination
  by (relation "measure (\<lambda>(_, _, s, _). length s)") (auto dest: deref_not_NUL length_skip_string)

definition index_in_substrings :: "string \<Rightarrow> string \<Rightarrow> int" where
  "index_in_substrings strings key =
     (if length key \<noteq> 0 then substrings_from 0 (-1) strings key else -1)"

fun nth_string :: "string \<Rightarrow> nat \<Rightarrow> string" where
  "nth_string strings 0 = strings"
| "nth_string strings (Suc n) = nth_string (skip_string strings) n"

declare strings_from.simps [simp del] substrings_from.simps [simp del]

section \<open>Banks of strings\<close>

definition bank :: "string list \<Rightarrow> string" where
  "bank ss = concat (map (\<lambda>s. s @ [NUL]) ss) @ [NUL]"

definition proper :: "string \<Rightarrow> bool" where
  "proper s \<longleftrightarrow> s \<noteq> [] \<and> NUL \<notin> set s"

lemma bank_simps: "bank [] = [NUL]" "bank (s # ss) = s @ NUL # bank ss"
  by (simp_all add: bank_def)

lemma cstr_append: "NUL \<notin> set s \<Longrightarrow> cstr (s @ NUL # r) = s"
  by (induction s) (auto simp: cstr_def)

lemma skip_string_append: "NUL \<notin> set s \<Longrightarrow> skip_string (s @ NUL # r) = r"
  by (simp add: skip_string_def strlen_def cstr_append)

lemma deref_bank_cons: "proper s \<Longrightarrow> deref (s @ r) \<noteq> NUL"
  by (cases s) (auto simp: proper_def deref_def)

lemma nth_string_bank:
  "\<forall>s\<in>set ss. NUL \<notin> set s \<Longrightarrow> i \<le> length ss \<Longrightarrow> nth_string (bank ss) i = bank (drop i ss)"
proof (induction ss arbitrary: i)
  case (Cons s ss)
  then show ?case by (cases i) (simp_all add: bank_simps skip_string_append)
qed (simp add: bank_simps)

lemma strings_from_bank:
  "\<forall>s\<in>set ss. proper s \<Longrightarrow> strings_from i (bank ss) key = index_from i ss key"
proof (induction ss arbitrary: i)
  case (Cons s ss)
  then have "NUL \<notin> set s" by (simp add: proper_def)
  with Cons show ?case
    by (subst strings_from.simps)
      (simp add: bank_simps deref_bank_cons cstr_append skip_string_append)
qed (simp add: bank_simps deref_def strings_from.simps)

lemma index_from_cases:
  "(index_from i ss key = -1 \<and> key \<notin> set ss) \<or>
   (\<exists>k < length ss. index_from i ss key = int (i + k) \<and> ss ! k = key \<and> key \<notin> set (take k ss))"
proof (induction ss arbitrary: i)
  case (Cons s ss)
  show ?case
  proof (cases "s = key")
    case True
    then show ?thesis by (intro disjI2 exI [of _ 0]) simp
  next
    case False
    with Cons [of "i + 1"] show ?thesis
      by (elim disjE exE) (simp, intro disjI2, rule_tac x = "Suc k" in exI, simp)
  qed
qed simp

lemma is_prefixed_with_iff:
  "NUL \<notin> set key \<Longrightarrow> is_prefixed_with str key = Some r \<longleftrightarrow> str = key @ r"
proof (induction str key rule: is_prefixed_with.induct)
  case (2 str k key)
  then show ?case by (cases str) (auto simp: deref_def)
qed auto

lemma is_suffixed_with_iff:
  "is_suffixed_with str key = Some r \<longleftrightarrow> r = key \<and> (\<exists>p. str = p @ key)"
proof
  assume "is_suffixed_with str key = Some r"
  then show "r = key \<and> (\<exists>p. str = p @ key)"
    by (auto simp: is_suffixed_with_def Let_def split: if_splits)
      (metis append_take_drop_id)
next
  assume "r = key \<and> (\<exists>p. str = p @ key)"
  then show "is_suffixed_with str key = Some r"
    by (auto simp: is_suffixed_with_def Let_def)
qed

section \<open>What the helpers decide\<close>

text \<open>
  Prefix and suffix tests: the prefix helper answers with the rest of the string
  exactly when the key is a prefix, the suffix helper with the key exactly when the
  string ends with it; an empty key always matches.
\<close>

lemma prefix_suffix_correct:
  assumes "NUL \<notin> set key"
  shows "(is_prefixed_with str key = Some r \<longleftrightarrow> str = key @ r) \<and>
         (is_suffixed_with str key = Some r \<longleftrightarrow> r = key \<and> (\<exists>p. str = p @ key))"
  using is_prefixed_with_iff [OF assms] is_suffixed_with_iff by blast

lemma prefix_suffix_correct_example:
  "is_prefixed_with ''mtd0'' ''mtd'' = Some ''0'' \<and> is_suffixed_with ''mtd0'' ''mtd'' \<noteq> Some ''mtd''"
  using prefix_suffix_correct [of "''mtd''" "''mtd0''" "''0''"]
    prefix_suffix_correct [of "''mtd''" "''mtd0''" "''mtd''"]
  by (auto simp: NUL_def append_eq_Cons_conv Cons_eq_append_conv)

text \<open>
  Looking a key up in a bank of non-empty strings gives the index of its first
  occurrence, \<open>nth_string\<close> at that index points at the key, and \<open>-1\<close> means that the
  key is not in the bank.
\<close>

lemma index_in_strings_correct:
  assumes "\<forall>s\<in>set ss. proper s"
  shows "(index_in_strings (bank ss) key = -1 \<and> key \<notin> set ss) \<or>
         (\<exists>k < length ss. index_in_strings (bank ss) key = int k \<and> key \<notin> set (take k ss) \<and>
            cstr (nth_string (bank ss) k) = key)"
proof -
  have n: "\<forall>s\<in>set ss. NUL \<notin> set s" using assms by (simp add: proper_def)
  have "cstr (nth_string (bank ss) k) = ss ! k" if "k < length ss" for k
    using that n by (simp add: nth_string_bank Cons_nth_drop_Suc [symmetric] bank_simps cstr_append)
  then show ?thesis
    using index_from_cases [of 0 ss key] by (auto simp: index_in_strings_def strings_from_bank assms)
qed

lemma index_in_strings_correct_example:
  "index_in_strings (bank [''add'', ''remove'', ''change'']) ''move'' = -1"
  using index_in_strings_correct [of "[''add'', ''remove'', ''change'']" "''move''"]
  by (auto simp: proper_def NUL_def less_Suc_eq nth_string_bank bank_simps
      skip_string_def strlen_def cstr_def numeral_eq_Suc)

end
