(* ===== verification/Sha1.thy ===== *)
theory Sha1
  imports Prelude
begin

text \<open>
  SHA-1 as in \<open>client/recovery/lib/mincrypt/sha.c\<close>. The file holds two variants: the
  generic one (\<open>SHA1_transform\<close>, lines 193 to 282), which the Makefile builds because
  it never defines \<open>HAVE_ENDIAN_H\<close>, and the unrolled one for little-endian machines
  (lines 35 to 189), here with the suffix \<open>_le\<close> where the names clash. Both are
  modelled, proved to be the same function, and proved to compute the digest of the
  concatenation of the chunks fed to them.
\<close>

section \<open>The context\<close>

text \<open>
  \<open>W\<close> is filled in increasing order of \<open>t\<close>, so the array is the list of the words
  stored so far and a store appends.
\<close>

record SHA_CTX =
  sha_count :: u64
  sha_state :: "u32 list"
  sha_buf :: "u8 list"

type_synonym regs = "u32 \<times> u32 \<times> u32 \<times> u32 \<times> u32"

definition SHA_init :: "SHA_CTX \<Rightarrow> SHA_CTX" where
  "SHA_init ctx = ctx
     \<lparr>sha_state := [0x67452301, 0xEFCDAB89, 0x98BADCFE, 0x10325476, 0xC3D2E1F0], sha_count := 0\<rparr>"

definition SHA_DIGEST_SIZE :: nat where
  "SHA_DIGEST_SIZE = 20"

section \<open>The generic variant\<close>

definition rol :: "nat \<Rightarrow> u32 \<Rightarrow> u32" where
  "rol bits value = (push_bit bits value OR drop_bit (32 - bits) value)"

definition W_load :: "u8 list \<Rightarrow> u32 list" where
  "W_load p = map (\<lambda>t. from_be32 (p ! (4 * t)) (p ! (4 * t + 1)) (p ! (4 * t + 2)) (p ! (4 * t + 3)))
                [0..<16]"

definition W_word :: "u32 list \<Rightarrow> nat \<Rightarrow> u32" where
  "W_word W t = rol 1 (W ! (t - 3) XOR W ! (t - 8) XOR W ! (t - 14) XOR W ! (t - 16))"

definition W_schedule :: "u8 list \<Rightarrow> u32 list" where
  "W_schedule p = fold (\<lambda>t W. W @ [W_word W t]) [16..<80] (W_load p)"

definition sha_round :: "u32 list \<Rightarrow> nat \<Rightarrow> regs \<Rightarrow> regs" where
  "sha_round W t = (\<lambda>(A, B, C, D, E).
     let tmp = rol 5 A + E + W ! t;
         tmp = (if t < 20 then tmp + ((D XOR (B AND (C XOR D))) + 0x5A827999)
                else if t < 40 then tmp + ((B XOR C XOR D) + 0x6ED9EBA1)
                else if t < 60 then tmp + (((B AND C) OR (D AND (B OR C))) + 0x8F1BBCDC)
                else tmp + ((B XOR C XOR D) + 0xCA62C1D6))
     in (tmp, A, rol 30 B, C, D))"

definition load_regs :: "u32 list \<Rightarrow> regs" where
  "load_regs st = (st ! 0, st ! 1, st ! 2, st ! 3, st ! 4)"

definition add_regs :: "u32 list \<Rightarrow> regs \<Rightarrow> u32 list" where
  "add_regs st = (\<lambda>(A, B, C, D, E). [st ! 0 + A, st ! 1 + B, st ! 2 + C, st ! 3 + D, st ! 4 + E])"

definition SHA1_transform :: "SHA_CTX \<Rightarrow> SHA_CTX" where
  "SHA1_transform ctx =
     ctx\<lparr>sha_state := add_regs (sha_state ctx)
           (fold (sha_round (W_schedule (sha_buf ctx))) [0..<80] (load_regs (sha_state ctx)))\<rparr>"

fun update_loop :: "SHA_CTX \<Rightarrow> nat \<Rightarrow> u8 list \<Rightarrow> SHA_CTX" where
  "update_loop ctx i [] = ctx"
| "update_loop ctx i (p # ps) =
     (let ctx = ctx\<lparr>sha_buf := (sha_buf ctx)[i := p]\<rparr>
      in if i + 1 = 64 then update_loop (SHA1_transform ctx) 0 ps
         else update_loop ctx (i + 1) ps)"

definition SHA_update :: "SHA_CTX \<Rightarrow> u8 list \<Rightarrow> SHA_CTX" where
  "SHA_update ctx data =
     update_loop (ctx\<lparr>sha_count := sha_count ctx + word_of_nat (length data)\<rparr>)
       (unat (sha_count ctx mod 64)) data"

lemma count_update_loop [simp]: "sha_count (update_loop ctx i ps) = sha_count ctx"
  by (induction ctx i ps rule: update_loop.induct) (simp_all add: Let_def SHA1_transform_def)

lemma count_SHA_update [simp]: "sha_count (SHA_update ctx d) = sha_count ctx + word_of_nat (length d)"
  by (simp add: SHA_update_def)

lemma u64_mod_64 [simp]: "unat (c :: u64) mod 64 = unat (c mod 64)"
  by (simp add: unat_mod_distrib)

lemma unat_mod_64_less [simp]: "unat ((c :: u64) mod 64) < 64"
  by (simp add: unat_mod_distrib del: u64_mod_64)

lemma unat_Suc_mod_64: "unat ((c + 1 :: u64) mod 64) = (unat (c mod 64) + 1) mod 64"
proof -
  have "unat (c + 1) mod 64 = (unat c + 1) mod 64"
    by (simp add: unat_word_ariths mod_mod_cancel del: u64_mod_64)
  then show ?thesis
    by (simp add: mod_Suc flip: u64_mod_64)
qed

lemma pad_measure:
  assumes "c < (64 :: nat)" "c \<noteq> 56"
  shows "(120 - c) mod 64 = Suc ((120 - (c + 1) mod 64) mod 64)"
proof -
  consider "c < 56" | "c = 63" | "56 < c" "c < 63" using assms by linarith
  then show ?thesis
  proof cases
    case 1
    then have "(120 - (c + 1)) mod 64 = 55 - c" "(120 - c) mod 64 = 56 - c"
      by (simp_all add: mod_if)
    with 1 show ?thesis by simp
  next
    case 3
    then show ?thesis by simp
  qed simp
qed

function pad_loop :: "SHA_CTX \<Rightarrow> SHA_CTX" where
  "pad_loop ctx =
     (if sha_count ctx mod 64 \<noteq> 64 - 8 then pad_loop (SHA_update ctx [0]) else ctx)"
  by auto
termination
proof (relation "measure (\<lambda>ctx. (120 - unat (sha_count ctx mod 64)) mod 64)")
  fix ctx :: SHA_CTX assume "sha_count ctx mod 64 \<noteq> 64 - 8"
  then have "unat (sha_count ctx mod 64) \<noteq> 56"
    by (simp add: word_unat_eq_iff del: u64_mod_64)
  then show "(SHA_update ctx [0], ctx) \<in> measure (\<lambda>ctx. (120 - unat (sha_count ctx mod 64)) mod 64)"
    using pad_measure [of "unat (sha_count ctx mod 64)"] by (simp add: unat_Suc_mod_64)
qed simp

declare pad_loop.simps [simp del]

definition SHA_final :: "SHA_CTX \<Rightarrow> SHA_CTX" where
  "SHA_final ctx =
     (let cnt = sha_count ctx * 8;
          ctx = SHA_update ctx [0x80];
          ctx = pad_loop ctx;
          ctx = fold (\<lambda>i ctx. SHA_update ctx [ucast (drop_bit ((7 - i) * 8) cnt)]) [0..<8] ctx
      in ctx\<lparr>sha_buf := concat (map be32 (take 5 (sha_state ctx))) @ drop 20 (sha_buf ctx)\<rparr>)"

text \<open>
  \<open>SHA_final\<close> returns a pointer to the buffer; \<open>SHA\<close> copies the digest out of it. The
  context is a local, uninitialised variable of \<open>SHA\<close>, here an argument.
\<close>

definition SHA :: "SHA_CTX \<Rightarrow> u8 list \<Rightarrow> u8 list" where
  "SHA ctx data =
     take SHA_DIGEST_SIZE (sha_buf (SHA_final (SHA_update (SHA_init ctx) data)))"

section \<open>The variant for little-endian machines\<close>

text \<open>
  The buffer is a union of 64 bytes and 16 words; word \<open>t\<close> of it is the little-endian
  load of its four bytes. The macros \<open>SHA_F1\<close> (both versions), \<open>SHA_F2\<close>,
  \<open>SHA_F3\<close> and \<open>SHA_F4\<close> change \<open>W\<close>, their parameter \<open>E\<close> and their parameter
  \<open>B\<close>, and are used with the five variables in rotating roles.
\<close>

definition ror27 :: "u32 \<Rightarrow> u32" where
  "ror27 val = (drop_bit 27 val OR push_bit 5 val)"

definition ror2 :: "u32 \<Rightarrow> u32" where
  "ror2 val = (drop_bit 2 val OR push_bit 30 val)"

definition ror31 :: "u32 \<Rightarrow> u32" where
  "ror31 val = (drop_bit 31 val OR push_bit 1 val)"

definition bswap_32 :: "u32 \<Rightarrow> u32" where
  "bswap_32 w = from_be32 (ucast w) (ucast (drop_bit 8 w)) (ucast (drop_bit 16 w)) (ucast (drop_bit 24 w))"

definition buf_w :: "u8 list \<Rightarrow> nat \<Rightarrow> u32" where
  "buf_w b t = from_be32 (b ! (4 * t + 3)) (b ! (4 * t + 2)) (b ! (4 * t + 1)) (b ! (4 * t))"

type_synonym sha_macro = "u32 list \<Rightarrow> u32 \<Rightarrow> u32 \<Rightarrow> u32 \<Rightarrow> u32 \<Rightarrow> u32 \<Rightarrow> nat \<Rightarrow> u32 list \<times> u32 \<times> u32"

definition W_mix :: "u32 list \<Rightarrow> nat \<Rightarrow> u32" where
  "W_mix W t = ror31 (W ! (t - 3) XOR W ! (t - 8) XOR W ! (t - 14) XOR W ! (t - 16))"

definition SHA_F1_load :: "u8 list \<Rightarrow> sha_macro" where
  "SHA_F1_load b W A B C D E t =
     (let w = bswap_32 (buf_w b t)
      in (W @ [w], E + (ror27 A + w + (D XOR (B AND (C XOR D))) + 0x5A827999), ror2 B))"

definition SHA_F1 :: sha_macro where
  "SHA_F1 W A B C D E t =
     (let w = W_mix W t
      in (W @ [w], E + (ror27 A + w + (D XOR (B AND (C XOR D))) + 0x5A827999), ror2 B))"

definition SHA_F2 :: sha_macro where
  "SHA_F2 W A B C D E t =
     (let w = W_mix W t
      in (W @ [w], E + (ror27 A + w + (B XOR C XOR D) + 0x6ED9EBA1), ror2 B))"

definition SHA_F3 :: sha_macro where
  "SHA_F3 W A B C D E t =
     (let w = W_mix W t
      in (W @ [w], E + (ror27 A + w + ((B AND C) OR (D AND (B OR C))) + 0x8F1BBCDC), ror2 B))"

definition SHA_F4 :: sha_macro where
  "SHA_F4 W A B C D E t =
     (let w = W_mix W t
      in (W @ [w], E + (ror27 A + w + (B XOR C XOR D) + 0xCA62C1D6), ror2 B))"

text \<open>
  One iteration of the loops: the macro at \<open>t\<close> to \<open>t + 4\<close>; \<open>rounds4\<close> is the last
  four calls of an iteration.
\<close>

definition rounds4 :: "sha_macro \<Rightarrow> nat \<Rightarrow> u32 list \<times> regs \<Rightarrow> u32 list \<times> regs" where
  "rounds4 F t = (\<lambda>(W, A, B, C, D, E).
     let (W, D, A) = F W E A B C D (t + 1);
         (W, C, E) = F W D E A B C (t + 2);
         (W, B, D) = F W C D E A B (t + 3);
         (W, A, C) = F W B C D E A (t + 4)
     in (W, A, B, C, D, E))"

definition rounds1 :: "sha_macro \<Rightarrow> nat \<Rightarrow> u32 list \<times> regs \<Rightarrow> u32 list \<times> regs" where
  "rounds1 F t = (\<lambda>(W, A, B, C, D, E). let (W, E, B) = F W A B C D E t in (W, A, B, C, D, E))"

definition rounds5 :: "sha_macro \<Rightarrow> nat \<Rightarrow> u32 list \<times> regs \<Rightarrow> u32 list \<times> regs" where
  "rounds5 F t s = rounds4 F t (rounds1 F t s)"

definition SHA1_Transform_le :: "SHA_CTX \<Rightarrow> SHA_CTX" where
  "SHA1_Transform_le ctx =
     (let s = ([], load_regs (sha_state ctx));
          s = fold (rounds5 (SHA_F1_load (sha_buf ctx))) [0, 5, 10] s;
          s = rounds1 (SHA_F1_load (sha_buf ctx)) 15 s;
          s = rounds4 SHA_F1 15 s;
          s = fold (rounds5 SHA_F2) [20, 25, 30, 35] s;
          s = fold (rounds5 SHA_F3) [40, 45, 50, 55] s;
          s = fold (rounds5 SHA_F4) [60, 65, 70, 75] s
      in ctx\<lparr>sha_state := add_regs (sha_state ctx) (snd s)\<rparr>)"

fun update_loop_le :: "SHA_CTX \<Rightarrow> nat \<Rightarrow> u8 list \<Rightarrow> SHA_CTX" where
  "update_loop_le ctx i [] = ctx"
| "update_loop_le ctx i (p # ps) =
     (let ctx = ctx\<lparr>sha_buf := (sha_buf ctx)[i := p]\<rparr>
      in if i + 1 = 64 then update_loop_le (SHA1_Transform_le ctx) 0 ps
         else update_loop_le ctx (i + 1) ps)"

function update_blocks_le :: "SHA_CTX \<Rightarrow> nat \<Rightarrow> u8 list \<Rightarrow> SHA_CTX" where
  "update_blocks_le ctx i p =
     (if i < 64 \<and> length p > 64 - i then
        update_blocks_le (SHA1_Transform_le (ctx\<lparr>sha_buf := take i (sha_buf ctx) @ take (64 - i) p\<rparr>)) 0
          (drop (64 - i) p)
      else update_loop_le ctx i p)"
  by auto
termination
  by (relation "measure (\<lambda>(_, _, p). length p)") auto

declare update_blocks_le.simps [simp del]

definition SHA_update_le :: "SHA_CTX \<Rightarrow> u8 list \<Rightarrow> SHA_CTX" where
  "SHA_update_le ctx data =
     update_blocks_le (ctx\<lparr>sha_count := sha_count ctx + word_of_nat (length data)\<rparr>)
       (unat (sha_count ctx mod 64)) data"

section \<open>Both variants compute the same rounds\<close>

lemma rol_unfold: "ror27 v = rol 5 v" "ror2 v = rol 30 v" "ror31 v = rol 1 v"
  by (simp_all add: ror27_def ror2_def ror31_def rol_def or.commute)

lemma bswap_buf_w: "bswap_32 (buf_w b t) = from_be32 (b ! (4 * t)) (b ! (4 * t + 1)) (b ! (4 * t + 2)) (b ! (4 * t + 3))"
  using be32_from_be32 [of "b ! (4 * t + 3)" "b ! (4 * t + 2)" "b ! (4 * t + 1)" "b ! (4 * t)"]
  by (simp add: bswap_32_def buf_w_def be32_def)

lemma W_mix_word: "W_mix W t = W_word W t"
  by (simp add: W_mix_def W_word_def rol_unfold)

text \<open>
  \<open>W_upto p n\<close> is the array after the words below \<open>n\<close> are stored.
\<close>

definition W_upto :: "u8 list \<Rightarrow> nat \<Rightarrow> u32 list" where
  "W_upto p n = take n (W_schedule p)"

lemma length_W_fold: "length (fold (\<lambda>t W. W @ [f W t]) ts W0) = length W0 + length ts"
  by (induction ts arbitrary: W0) auto

lemma length_W_load [simp]: "length (W_load p) = 16"
  by (simp only: W_load_def length_map length_upt)

lemma length_W_schedule [simp]: "length (W_schedule p) = 80"
  by (simp only: W_schedule_def length_W_fold length_W_load length_upt)

lemma W_fold_prefix: "take (length W0) (fold (\<lambda>t W. W @ [f W t]) ts W0) = W0"
proof (induction ts arbitrary: W0)
  case (Cons t ts)
  have "take (length W0) (fold (\<lambda>t W. W @ [f W t]) ts (W0 @ [f W0 t])) =
        take (length W0) (take (length (W0 @ [f W0 t])) (fold (\<lambda>t W. W @ [f W t]) ts (W0 @ [f W0 t])))"
    by simp
  then show ?case by (simp only: Cons fold_simps o_apply) simp
qed simp

lemma W_fold_nth:
  assumes "length W0 = a" "a \<le> t" "t < b"
  shows "fold (\<lambda>t W. W @ [f W t]) [a..<b] W0 ! t =
         f (take t (fold (\<lambda>t W. W @ [f W t]) [a..<b] W0)) t"
proof -
  let ?step = "\<lambda>t W. W @ [f W t]"
  define V where "V = fold ?step [a..<t] W0"
  have V: "length V = t" using assms by (simp add: V_def length_W_fold)
  have "[a..<b] = [a..<t] @ t # [Suc t..<b]"
    using assms upt_add_eq_append [of a t "b - t"] by (simp add: upt_conv_Cons)
  then have all: "fold ?step [a..<b] W0 = fold ?step [Suc t..<b] (V @ [f V t])"
    by (simp add: V_def)
  have s: "take (Suc t) (fold ?step [a..<b] W0) = V @ [f V t]"
    using W_fold_prefix [of "V @ [f V t]" f "[Suc t..<b]"] V by (simp only: all length_append) simp
  have "take t (fold ?step [a..<b] W0) = take t (take (Suc t) (fold ?step [a..<b] W0))"
    by (simp only: take_take min.absorb1 le_SucI order_refl)
  then have 1: "take t (fold ?step [a..<b] W0) = V" by (simp only: s) (simp add: V)
  have "fold ?step [a..<b] W0 ! t = take (Suc t) (fold ?step [a..<b] W0) ! t"
    by (simp only: nth_take lessI)
  then have "fold ?step [a..<b] W0 ! t = f V t"
    by (simp only: s) (simp add: nth_append V)
  with 1 show ?thesis by (simp only:)
qed

lemma W_schedule_low: "t < 16 \<Longrightarrow> W_schedule p ! t =
    from_be32 (p ! (4 * t)) (p ! (4 * t + 1)) (p ! (4 * t + 2)) (p ! (4 * t + 3))"
proof -
  assume t: "t < 16"
  have "take 16 (W_schedule p) = W_load p"
    using W_fold_prefix [of "W_load p" W_word "[16..<80]"]
    by (simp only: W_schedule_def length_W_load)
  then have "W_schedule p ! t = W_load p ! t" using t by (metis nth_take)
  then show ?thesis using t by (simp add: W_load_def del: upt_rec_numeral)
qed

lemma W_schedule_high: "16 \<le> t \<Longrightarrow> t < 80 \<Longrightarrow> W_schedule p ! t = W_word (W_upto p t) t"
  using W_fold_nth [of "W_load p" 16 t 80 W_word]
  by (simp only: W_schedule_def W_upto_def length_W_load)

lemma W_upto_Suc: "t < 80 \<Longrightarrow> W_upto p t @ [W_schedule p ! t] = W_upto p (Suc t)"
  by (simp add: W_upto_def take_Suc_conv_app_nth)

text \<open>
  A macro agrees with the round function on a range of \<open>t\<close>.
\<close>

definition agrees :: "u8 list \<Rightarrow> sha_macro \<Rightarrow> nat \<Rightarrow> bool" where
  "agrees p F t \<longleftrightarrow> (\<forall>A B C D E. case F (W_upto p t) A B C D E t of (W', E', B') \<Rightarrow>
     W' = W_upto p (Suc t) \<and> sha_round (W_schedule p) t (A, B, C, D, E) = (E', A, B', C, D))"

lemma agrees_F1_load: "t < 16 \<Longrightarrow> agrees p (SHA_F1_load p) t"
  using W_upto_Suc [of t p]
  by (simp add: agrees_def SHA_F1_load_def Let_def bswap_buf_w W_schedule_low sha_round_def
      rol_unfold ac_simps)

lemma agrees_F:
  "16 \<le> t \<Longrightarrow> t < 20 \<Longrightarrow> agrees p SHA_F1 t"
  "20 \<le> t \<Longrightarrow> t < 40 \<Longrightarrow> agrees p SHA_F2 t"
  "40 \<le> t \<Longrightarrow> t < 60 \<Longrightarrow> agrees p SHA_F3 t"
  "60 \<le> t \<Longrightarrow> t < 80 \<Longrightarrow> agrees p SHA_F4 t"
  using W_upto_Suc [of t p]
  by (simp_all add: agrees_def SHA_F1_def SHA_F2_def SHA_F3_def SHA_F4_def Let_def W_mix_word
      W_schedule_high sha_round_def rol_unfold ac_simps)

definition rounds :: "u8 list \<Rightarrow> nat \<Rightarrow> nat \<Rightarrow> regs \<Rightarrow> regs" where
  "rounds p a b r = fold (sha_round (W_schedule p)) [a..<b] r"

lemma rounds_simps:
  "rounds p a a r = r"
  "a < b \<Longrightarrow> rounds p a b r = rounds p (Suc a) b (sha_round (W_schedule p) a r)"
  by (simp_all add: rounds_def upt_conv_Cons)

lemma rounds_trans: "a \<le> b \<Longrightarrow> b \<le> c \<Longrightarrow> rounds p b c (rounds p a b r) = rounds p a c r"
  using upt_add_eq_append [of a b "c - b"] by (simp add: rounds_def)

text \<open>
  \<open>at p t s\<close>: the state of the unrolled loop after \<open>t\<close> rounds, where the rotation
  of the roles is back at the start; after the first call of an iteration the roles are
  rotated by one.
\<close>

lemma agreesE:
  assumes "agrees p F t" "F (W_upto p t) A B C D E t = (W', E', B')"
  shows "W' = W_upto p (Suc t) \<and> sha_round (W_schedule p) t (A, B, C, D, E) = (E', A, B', C, D)"
proof -
  have "case F (W_upto p t) A B C D E t of (W', E', B') \<Rightarrow>
     W' = W_upto p (Suc t) \<and> sha_round (W_schedule p) t (A, B, C, D, E) = (E', A, B', C, D)"
    using assms(1) [unfolded agrees_def, rule_format, of A B C D E] .
  then show ?thesis by (simp add: assms(2))
qed

lemma rounds1_step:
  assumes "agrees p F t" "rounds1 F t (W_upto p t, A, B, C, D, E) = (W', A', B', C', D', E')"
  shows "W' = W_upto p (Suc t) \<and> sha_round (W_schedule p) t (A, B, C, D, E) = (E', A', B', C', D')"
proof -
  obtain V E1 B1 where F: "F (W_upto p t) A B C D E t = (V, E1, B1)" by (metis prod_cases3)
  with assms(2) have "W' = V" "A' = A" "B' = B1" "C' = C" "D' = D" "E' = E1"
    by (simp_all add: rounds1_def)
  with agreesE [OF assms(1) F] show ?thesis by simp
qed

lemma rounds4_step:
  assumes "agrees p F (t + 1)" "agrees p F (t + 2)" "agrees p F (t + 3)" "agrees p F (t + 4)"
  shows "rounds4 F t (W_upto p (t + 1), A, B, C, D, E) =
         (W_upto p (t + 5), rounds p (t + 1) (t + 5) (E, A, B, C, D))"
proof -
  obtain W1 D1 A1 where 1: "F (W_upto p (t + 1)) E A B C D (t + 1) = (W1, D1, A1)"
    by (metis prod_cases3)
  note s1 = agreesE [OF assms(1) 1]
  obtain W2 C1 E1 where 2: "F (W_upto p (t + 2)) D1 E A1 B C (t + 2) = (W2, C1, E1)"
    by (metis prod_cases3)
  note s2 = agreesE [OF assms(2) 2]
  obtain W3 B1 D2 where 3: "F (W_upto p (t + 3)) C1 D1 E1 A1 B (t + 3) = (W3, B1, D2)"
    by (metis prod_cases3)
  note s3 = agreesE [OF assms(3) 3]
  obtain W4 A2 C2 where 4: "F (W_upto p (t + 4)) B1 C1 D2 E1 A1 (t + 4) = (W4, A2, C2)"
    by (metis prod_cases3)
  note s4 = agreesE [OF assms(4) 4]
  have W: "W1 = W_upto p (t + 2)" "W2 = W_upto p (t + 3)" "W3 = W_upto p (t + 4)" "W4 = W_upto p (t + 5)"
    using s1 s2 s3 s4 by (simp_all add: numeral_eq_Suc)
  have "rounds4 F t (W_upto p (t + 1), A, B, C, D, E) = (W4, A2, B1, C2, D2, E1)"
    by (simp only: rounds4_def prod.case Let_def 1 2 3 4 W)
  moreover have "[t + 1..<t + 5] = [t + 1, t + 2, t + 3, t + 4]"
    by (simp add: upt_conv_Cons numeral_eq_Suc)
  then have "rounds p (t + 1) (t + 5) (E, A, B, C, D) = (A2, B1, C2, D2, E1)"
    using s1 s2 s3 s4 by (simp only: rounds_def fold_simps o_apply id_apply)
  ultimately show ?thesis by (simp only: W)
qed

lemma rounds5_step2:
  assumes "agrees p F t" "\<And>i. 0 < i \<Longrightarrow> i < 5 \<Longrightarrow> agrees p G (t + i)"
  shows "rounds4 G t (rounds1 F t (W_upto p t, r)) = (W_upto p (t + 5), rounds p t (t + 5) r)"
proof -
  obtain A B C D E where r: "r = (A, B, C, D, E)" by (metis prod_cases5)
  obtain W' A' B' C' D' E' where 1: "rounds1 F t (W_upto p t, r) = (W', A', B', C', D', E')"
    by (metis prod_cases6)
  have "W' = W_upto p (t + 1)" "sha_round (W_schedule p) t r = (E', A', B', C', D')"
    using rounds1_step [of p F t] assms(1) 1 by (simp_all add: r)
  then show ?thesis
    using 1 assms(2) [of 1] assms(2) [of 2] assms(2) [of 3] assms(2) [of 4]
      rounds4_step [of p G t A' B' C' D' E']
    by (simp add: rounds_simps(2) [of t])
qed

lemma rounds5_step:
  assumes "\<And>i. i < 5 \<Longrightarrow> agrees p F (t + i)"
  shows "rounds5 F t (W_upto p t, r) = (W_upto p (t + 5), rounds p t (t + 5) r)"
  using rounds5_step2 [of p F t F r] assms assms [of 0] by (simp add: rounds5_def)

lemma rounds5_fold:
  assumes "\<And>t. a \<le> t \<Longrightarrow> t < a + 5 * n \<Longrightarrow> agrees p F t"
  shows "fold (rounds5 F) (map (\<lambda>i. a + 5 * i) [0..<n]) (W_upto p a, r)
         = (W_upto p (a + 5 * n), rounds p a (a + 5 * n) r)"
  using assms
proof (induction n)
  case (Suc n)
  then have "fold (rounds5 F) (map (\<lambda>i. a + 5 * i) [0..<n]) (W_upto p a, r)
         = (W_upto p (a + 5 * n), rounds p a (a + 5 * n) r)" by simp
  moreover have "agrees p F (a + 5 * n + i)" if "i < 5" for i using Suc.prems that by simp
  ultimately show ?case by (simp add: rounds5_step rounds_trans add.assoc add.commute [of 5])
qed (simp add: rounds_simps)

lemma SHA1_Transform_le_eq: "SHA1_Transform_le ctx = SHA1_transform ctx"
proof -
  let ?p = "sha_buf ctx" and ?r = "load_regs (sha_state ctx)"
  have upt: "[0, 5, 10] = map (\<lambda>i. 0 + 5 * i) [0..<3]"
    "[20, 25, 30, 35] = map (\<lambda>i. 20 + 5 * i) [0..<4]"
    "[40, 45, 50, 55] = map (\<lambda>i. 40 + 5 * i) [0..<4]"
    "[60, 65, 70, 75] = map (\<lambda>i. 60 + 5 * i) [0..<4]"
    by (simp_all add: eval_nat_numeral)
  have 1: "fold (rounds5 (SHA_F1_load ?p)) [0, 5, 10] ([], ?r) = (W_upto ?p 15, rounds ?p 0 15 ?r)"
    using rounds5_fold [of 0 3 ?p "SHA_F1_load ?p" ?r] by (simp only: upt) (simp add: agrees_F1_load W_upto_def)
  have 2: "rounds4 SHA_F1 15 (rounds1 (SHA_F1_load ?p) 15 (W_upto ?p 15, rounds ?p 0 15 ?r))
           = (W_upto ?p 20, rounds ?p 0 20 ?r)"
    by (subst rounds5_step2) (simp_all add: agrees_F1_load agrees_F rounds_trans)
  have 3: "fold (rounds5 SHA_F2) [20, 25, 30, 35] (W_upto ?p 20, rounds ?p 0 20 ?r)
           = (W_upto ?p 40, rounds ?p 0 40 ?r)"
    by (simp only: upt, subst rounds5_fold) (simp_all add: agrees_F rounds_trans)
  have 4: "fold (rounds5 SHA_F3) [40, 45, 50, 55] (W_upto ?p 40, rounds ?p 0 40 ?r)
           = (W_upto ?p 60, rounds ?p 0 60 ?r)"
    by (simp only: upt, subst rounds5_fold) (simp_all add: agrees_F rounds_trans)
  have 5: "fold (rounds5 SHA_F4) [60, 65, 70, 75] (W_upto ?p 60, rounds ?p 0 60 ?r)
           = (W_upto ?p 80, rounds ?p 0 80 ?r)"
    by (simp only: upt, subst rounds5_fold) (simp_all add: agrees_F rounds_trans)
  show ?thesis
    by (simp only: SHA1_Transform_le_def SHA1_transform_def Let_def 1 2 3 4 5 snd_conv)
      (simp only: rounds_def)
qed

section \<open>Feeding the context\<close>

definition compress :: "u32 list \<Rightarrow> u8 list \<Rightarrow> u32 list" where
  "compress st block =
     add_regs st (fold (sha_round (W_schedule block)) [0..<80] (load_regs st))"

lemma transform_compress: "SHA1_transform ctx = ctx\<lparr>sha_state := compress (sha_state ctx) (sha_buf ctx)\<rparr>"
  by (simp only: SHA1_transform_def compress_def)

lemma update_loop_fill:
  assumes "length xs = 64 - i" "i < 64" "length (sha_buf ctx) = 64"
  shows "update_loop ctx i (xs @ ys) =
         update_loop (SHA1_transform (ctx\<lparr>sha_buf := take i (sha_buf ctx) @ xs\<rparr>)) 0 ys"
  using assms
proof (induction xs arbitrary: ctx i)
  case (Cons x xs)
  show ?case
  proof (cases "i + 1 = 64")
    case True
    with Cons.prems have "xs = []" by simp
    moreover have "(sha_buf ctx)[i := x] = take i (sha_buf ctx) @ [x]"
      using True Cons.prems by (simp add: upd_conv_take_nth_drop)
    ultimately show ?thesis using True by (simp add: Let_def)
  next
    case False
    then show ?thesis
      using Cons.prems Cons.IH [of "i + 1" "ctx\<lparr>sha_buf := (sha_buf ctx)[i := x]\<rparr>"]
      by (simp add: Let_def take_update_Suc)
  qed
qed simp

lemma update_loop_le_eq: "update_loop_le ctx i p = update_loop ctx i p"
  by (induction ctx i p rule: update_loop.induct) (simp_all only: update_loop.simps update_loop_le.simps SHA1_Transform_le_eq Let_def split: if_split, simp_all)

lemma update_blocks_le_eq:
  "length (sha_buf ctx) = 64 \<Longrightarrow> i < 64 \<Longrightarrow> update_blocks_le ctx i p = update_loop ctx i p"
proof (induction ctx i p rule: update_blocks_le.induct)
  case (1 ctx i p)
  show ?case
  proof (cases "length p > 64 - i")
    case True
    with 1 show ?thesis
      using update_loop_fill [of "take (64 - i) p" i ctx "drop (64 - i) p"]
      by (subst update_blocks_le.simps) (simp add: SHA1_Transform_le_eq transform_compress)
  next
    case False
    then show ?thesis by (subst update_blocks_le.simps) (simp add: update_loop_le_eq)
  qed
qed

lemma SHA_update_le_eq: "length (sha_buf ctx) = 64 \<Longrightarrow> SHA_update_le ctx d = SHA_update ctx d"
  by (simp add: SHA_update_le_def SHA_update_def update_blocks_le_eq)

lemma length_buf_update_loop [simp]: "length (sha_buf (update_loop ctx i ps)) = length (sha_buf ctx)"
  by (induction ctx i ps rule: update_loop.induct) (simp_all add: Let_def transform_compress)

lemma length_buf_SHA_update [simp]: "length (sha_buf (SHA_update ctx d)) = length (sha_buf ctx)"
  by (simp add: SHA_update_def)

text \<open>
  \<open>SHA_final\<close> of the little-endian variant stores words into the union.
\<close>

definition le32 :: "u32 \<Rightarrow> u8 list" where
  "le32 w = rev (be32 w)"

lemma le32_bswap: "le32 (bswap_32 w) = be32 w"
  by (simp add: le32_def bswap_32_def be32_from_be32) (simp add: be32_def)

lemma count_SHA_update_le [simp]: "sha_count (SHA_update_le ctx d) = sha_count ctx + word_of_nat (length d)"
proof -
  have "sha_count (update_loop_le ctx i ps) = sha_count ctx" for ctx i ps
    by (simp add: update_loop_le_eq)
  then have "sha_count (update_blocks_le ctx i ps) = sha_count ctx" for ctx i ps
    by (induction ctx i ps rule: update_blocks_le.induct)
      (subst update_blocks_le.simps, simp add: SHA1_Transform_le_eq transform_compress)
  then show ?thesis by (simp add: SHA_update_le_def)
qed

function pad_loop_le :: "SHA_CTX \<Rightarrow> SHA_CTX" where
  "pad_loop_le ctx =
     (if sha_count ctx mod 64 \<noteq> 64 - 8 then pad_loop_le (SHA_update_le ctx [0]) else ctx)"
  by auto
termination
proof (relation "measure (\<lambda>ctx. (120 - unat (sha_count ctx mod 64)) mod 64)")
  fix ctx :: SHA_CTX assume "sha_count ctx mod 64 \<noteq> 64 - 8"
  then have "unat (sha_count ctx mod 64) \<noteq> 56"
    by (simp add: word_unat_eq_iff del: u64_mod_64)
  then show "(SHA_update_le ctx [0], ctx) \<in> measure (\<lambda>ctx. (120 - unat (sha_count ctx mod 64)) mod 64)"
    using pad_measure [of "unat (sha_count ctx mod 64)"] by (simp add: unat_Suc_mod_64)
qed simp

declare pad_loop_le.simps [simp del]

definition SHA_final_le :: "SHA_CTX \<Rightarrow> SHA_CTX" where
  "SHA_final_le ctx =
     (let cnt = sha_count ctx * 8;
          ctx = SHA_update_le ctx [0x80];
          ctx = pad_loop_le ctx;
          ctx = fold (\<lambda>i ctx. SHA_update_le ctx [ucast (drop_bit ((7 - i) * 8) cnt)]) [0..<8] ctx
      in ctx\<lparr>sha_buf := concat (map (\<lambda>w. le32 (bswap_32 w)) (take 5 (sha_state ctx))) @ drop 20 (sha_buf ctx)\<rparr>)"

lemma length_buf_pad_loop [simp]: "length (sha_buf (pad_loop ctx)) = length (sha_buf ctx)"
  by (induction ctx rule: pad_loop.induct) (subst pad_loop.simps, simp)

lemma pad_loop_le_eq: "length (sha_buf ctx) = 64 \<Longrightarrow> pad_loop_le ctx = pad_loop ctx"
proof (induction ctx rule: pad_loop.induct)
  case (1 ctx)
  then show ?case
    by (subst pad_loop.simps, subst pad_loop_le.simps) (simp add: SHA_update_le_eq)
qed

lemma fold_update_le_eq:
  "length (sha_buf ctx) = 64 \<Longrightarrow>
   fold (\<lambda>i ctx. SHA_update_le ctx (f i)) is ctx = fold (\<lambda>i ctx. SHA_update ctx (f i)) is ctx"
  by (induction "is" arbitrary: ctx) (simp_all add: SHA_update_le_eq)

lemma SHA_final_le_eq: "length (sha_buf ctx) = 64 \<Longrightarrow> SHA_final_le ctx = SHA_final ctx"
  by (simp only: SHA_final_le_def SHA_final_def Let_def le32_bswap)
    (simp only: SHA_update_le_eq pad_loop_le_eq fold_update_le_eq length_buf_SHA_update length_buf_pad_loop)

section \<open>The digest\<close>

text \<open>
  FIPS 180: the message is padded with \<open>0x80\<close>, zeros and its bit length to a multiple
  of 64 bytes and compressed block by block from the initial state.
\<close>

definition H0 :: "u32 list" where
  "H0 = [0x67452301, 0xEFCDAB89, 0x98BADCFE, 0x10325476, 0xC3D2E1F0]"

function absorb :: "u32 list \<Rightarrow> u8 list \<Rightarrow> u32 list" where
  "absorb st m = (if length m < 64 then st else absorb (compress st (take 64 m)) (drop 64 m))"
  by auto
termination by (relation "measure (\<lambda>(_, m). length m)") auto

declare absorb.simps [simp del]

definition padding :: "nat \<Rightarrow> u8 list" where
  "padding n = 0x80 # replicate ((120 - (n + 1) mod 64) mod 64) 0 @ be64 (word_of_nat (8 * n))"

definition sha1_spec :: "u8 list \<Rightarrow> u8 list" where
  "sha1_spec m = concat (map be32 (absorb H0 (m @ padding (length m))))"

lemma length_compress [simp, len_simps]: "length (compress st b) = 5"
  by (simp only: compress_def add_regs_def) (simp add: split_beta)

lemma length_absorb: "length st = 5 \<Longrightarrow> length (absorb st m) = 5"
  by (induction st m rule: absorb.induct) (subst absorb.simps, simp)

lemma absorb_block:
  "64 dvd length x \<Longrightarrow> length y = 64 \<Longrightarrow> absorb st (x @ y) = compress (absorb st x) y"
proof (induction st x rule: absorb.induct)
  case (1 st x)
  show ?case
  proof (cases "length x < 64")
    case True
    with 1 have "x = []" by (auto elim: dvdE)
    with 1 show ?thesis by (simp add: absorb.simps [of st y] absorb.simps [of st "[]"] absorb.simps [of _ "[]"])
  next
    case False
    with 1 show ?thesis
      by (subst (1 2) absorb.simps) (simp add: dvd_diff_nat)
  qed
qed

lemma absorb_short:
  "64 dvd length x \<Longrightarrow> length y < 64 \<Longrightarrow> absorb st (x @ y) = absorb st x"
proof (induction st x rule: absorb.induct)
  case (1 st x)
  show ?case
  proof (cases "length x < 64")
    case True
    with 1 have "x = []" by (auto elim: dvdE)
    with 1 show ?thesis by (simp add: absorb.simps)
  next
    case False
    with 1 show ?thesis
      by (subst (1 2) absorb.simps) (simp add: dvd_diff_nat)
  qed
qed

definition full_part :: "u8 list \<Rightarrow> u8 list" where
  "full_part m = take (length m - length m mod 64) m"

definition rest_part :: "u8 list \<Rightarrow> u8 list" where
  "rest_part m = drop (length m - length m mod 64) m"

lemma parts: "full_part m @ rest_part m = m" "length (rest_part m) = length m mod 64"
  "64 dvd length (full_part m)"
  by (simp_all add: full_part_def rest_part_def dvd_minus_mod)

lemma absorb_full_part: "absorb st (full_part m) = absorb st m"
  using absorb_short [of "full_part m" "rest_part m" st] by (simp add: parts)

lemma snoc_parts:
  "length m mod 64 = 63 \<Longrightarrow> absorb st (m @ [b]) = compress (absorb st m) (rest_part m @ [b]) \<and> rest_part (m @ [b]) = []"
  "length m mod 64 \<noteq> 63 \<Longrightarrow> absorb st (m @ [b]) = absorb st m \<and> rest_part (m @ [b]) = rest_part m @ [b]"
proof -
  assume "length m mod 64 = 63"
  moreover from this have "(length m + 1) mod 64 = 0" by (simp add: mod_Suc)
  ultimately show "absorb st (m @ [b]) = compress (absorb st m) (rest_part m @ [b]) \<and> rest_part (m @ [b]) = []"
    using absorb_block [of "full_part m" "rest_part m @ [b]" st] parts [of m]
    by (simp add: absorb_full_part rest_part_def [of "m @ [b]"] flip: append_assoc)
next
  assume a: "length m mod 64 \<noteq> 63"
  then have l: "(length m + 1) mod 64 = length m mod 64 + 1" by (simp add: mod_Suc)
  then have "rest_part (m @ [b]) = rest_part m @ [b]"
    by (simp add: rest_part_def)
  moreover have "length m mod 64 < 64" by simp
  with a have "length (rest_part m @ [b]) < 64" by (simp only: parts length_append) simp
  ultimately show "absorb st (m @ [b]) = absorb st m \<and> rest_part (m @ [b]) = rest_part m @ [b]"
    using absorb_short [of "full_part m" "rest_part m @ [b]" st] parts [of m]
    by (simp add: absorb_full_part flip: append_assoc)
qed

text \<open>
  \<open>holds m ctx\<close>: the context has absorbed the message \<open>m\<close>.
\<close>

definition holds_state :: "u8 list \<Rightarrow> SHA_CTX \<Rightarrow> bool" where
  "holds_state m ctx \<longleftrightarrow> length (sha_buf ctx) = 64 \<and> sha_state ctx = absorb H0 m \<and>
     take (length m mod 64) (sha_buf ctx) = rest_part m"

definition holds :: "u8 list \<Rightarrow> SHA_CTX \<Rightarrow> bool" where
  "holds m ctx \<longleftrightarrow> sha_count ctx = word_of_nat (length m) \<and> holds_state m ctx"

lemma holds_byte:
  assumes "holds_state m ctx"
  shows "let ctx' = ctx\<lparr>sha_buf := (sha_buf ctx)[length m mod 64 := b]\<rparr>
         in holds_state (m @ [b]) (if length m mod 64 + 1 = 64 then SHA1_transform ctx' else ctx')"
proof -
  have lt: "length m mod 64 < length (sha_buf ctx)" using assms by (simp add: holds_state_def)
  show ?thesis
  proof (cases "length m mod 64 = 63")
    case True
    have "(sha_buf ctx)[63 := b] = take 63 (sha_buf ctx) @ [b]"
      using lt assms by (simp add: upd_conv_take_nth_drop holds_state_def)
    moreover have "(length m + 1) mod 64 = 0" using True by (simp add: mod_Suc)
    ultimately show ?thesis
      using assms True snoc_parts(1) [OF True]
      by (simp add: holds_state_def transform_compress parts)
  next
    case False
    then have "(length m + 1) mod 64 = Suc (length m mod 64)" by (simp add: mod_Suc)
    then show ?thesis
      using assms False lt snoc_parts(2) [OF False]
      by (simp add: holds_state_def take_update_Suc)
  qed
qed

lemma holds_loop:
  "holds_state m ctx \<Longrightarrow> holds_state (m @ ps) (update_loop ctx (length m mod 64) ps)"
proof (induction ps arbitrary: m ctx)
  case (Cons p ps)
  let ?ctx = "ctx\<lparr>sha_buf := (sha_buf ctx)[length m mod 64 := p]\<rparr>"
  have "length (m @ [p]) mod 64 = (if length m mod 64 + 1 = 64 then 0 else length m mod 64 + 1)"
    by (simp add: mod_Suc)
  then show ?case
    using holds_byte [OF Cons.prems, of p] Cons.IH [of "m @ [p]"]
    by (cases "length m mod 64 + 1 = 64") (simp_all add: Let_def)
qed simp

lemma unat_count_mod: "unat ((word_of_nat n :: u64) mod 64) = n mod 64"
  by (simp add: unat_of_nat mod_mod_cancel flip: u64_mod_64)

lemma holds_update: "holds m ctx \<Longrightarrow> holds (m @ d) (SHA_update ctx d)"
proof -
  assume h: "holds m ctx"
  then have "holds_state m (ctx\<lparr>sha_count := c\<rparr>)" for c by (simp add: holds_def holds_state_def)
  with h show ?thesis
    by (simp add: holds_def SHA_update_def unat_count_mod holds_loop)
qed

lemma holds_init: "length (sha_buf ctx) = 64 \<Longrightarrow> holds [] (SHA_init ctx)"
  by (simp add: holds_def holds_state_def SHA_init_def rest_part_def absorb.simps H0_def)

lemma holds_fold:
  "holds m ctx \<Longrightarrow> holds (m @ map f is) (fold (\<lambda>i ctx. SHA_update ctx [f i]) is ctx)"
proof (induction "is" arbitrary: m ctx)
  case (Cons i "is")
  then show ?case using holds_update [OF Cons.prems, of "[f i]"] Cons.IH by fastforce
qed simp

lemma holds_pad_loop:
  "holds m ctx \<Longrightarrow> holds (m @ replicate ((120 - length m mod 64) mod 64) 0) (pad_loop ctx)"
proof (induction ctx arbitrary: m rule: pad_loop.induct)
  case (1 ctx)
  have c: "unat (sha_count ctx mod 64) = length m mod 64"
    using 1 by (simp add: holds_def unat_count_mod)
  show ?case
  proof (cases "length m mod 64 = 56")
    case True
    then have "sha_count ctx mod 64 = 64 - 8" using c by (simp add: word_unat_eq_iff del: u64_mod_64)
    with True 1 show ?thesis by (subst pad_loop.simps) simp
  next
    case False
    then have "sha_count ctx mod 64 \<noteq> 64 - 8" using c by auto
    then show ?thesis
      using 1 False holds_update [OF 1(2), of "[0]"] pad_measure [of "length m mod 64"]
      by (subst pad_loop.simps) (force simp: mod_Suc_eq)
  qed
qed

lemma length_concat_be32 [simp, len_simps]: "length (concat (map be32 ws)) = 4 * length ws"
  by (induction ws) simp_all

lemma holds_final:
  assumes "holds m ctx"
  shows "take 20 (sha_buf (SHA_final ctx)) = sha1_spec m"
proof -
  define pad where "pad = replicate ((120 - (length m + 1) mod 64) mod 64) (0 :: u8)"
  have "holds ((m @ [0x80]) @ pad) (pad_loop (SHA_update ctx [0x80]))"
    using holds_pad_loop [OF holds_update [OF assms, of "[0x80]"]] by (simp add: pad_def)
  from holds_fold [OF this, of "\<lambda>i. ucast (drop_bit ((7 - i) * 8) (sha_count ctx * 8))" "[0..<8]"]
  have "sha_state (fold (\<lambda>i ctx'. SHA_update ctx' [ucast (drop_bit ((7 - i) * 8) (sha_count ctx * 8))]) [0..<8]
          (pad_loop (SHA_update ctx [0x80]))) = absorb H0 (m @ padding (length m))" (is "sha_state ?c = _")
    using assms by (simp only: holds_def holds_state_def padding_def pad_def be64_def)
      (simp add: mult.commute del: upt_rec_numeral)
  then show ?thesis
    by (simp only: SHA_final_def Let_def sha1_spec_def) (simp add: length_absorb H0_def len_simps del: upt_rec_numeral)
qed

section \<open>Digests over chunks\<close>

text \<open>
  What the verifier relies on: a digest whose input arrives in pieces. \<open>okay\<close> is the
  condition on the memory given to \<open>init\<close>, \<open>repr m c\<close> says that \<open>c\<close> has been fed
  \<open>m\<close>.
\<close>

locale stream_digest =
  fixes init :: "'c \<Rightarrow> 'c" and update :: "'c \<Rightarrow> u8 list \<Rightarrow> 'c" and final :: "'c \<Rightarrow> u8 list"
    and okay :: "'c \<Rightarrow> bool" and repr :: "u8 list \<Rightarrow> 'c \<Rightarrow> bool" and digest :: "u8 list \<Rightarrow> u8 list"
  assumes init_repr: "okay c \<Longrightarrow> repr [] (init c)"
    and update_repr: "repr m c \<Longrightarrow> repr (m @ d) (update c d)"
    and final_repr: "repr m c \<Longrightarrow> final c = digest m"
begin

lemma fold_repr: "repr m c \<Longrightarrow> repr (m @ concat ds) (fold (\<lambda>d c. update c d) ds c)"
proof (induction ds arbitrary: m c)
  case (Cons d ds)
  then show ?case using update_repr [of m c d] by fastforce
qed simp

lemma chunks: "okay c \<Longrightarrow> final (fold (\<lambda>d c. update c d) ds (init c)) = digest (concat ds)"
  using final_repr [OF fold_repr [OF init_repr]] by simp

end

definition SHA_digest :: "SHA_CTX \<Rightarrow> u8 list" where
  "SHA_digest ctx = take SHA_DIGEST_SIZE (sha_buf (SHA_final ctx))"

definition SHA_digest_le :: "SHA_CTX \<Rightarrow> u8 list" where
  "SHA_digest_le ctx = take SHA_DIGEST_SIZE (sha_buf (SHA_final_le ctx))"

interpretation sha: stream_digest SHA_init SHA_update SHA_digest
  "\<lambda>ctx. length (sha_buf ctx) = 64" holds sha1_spec
  by unfold_locales
    (simp_all add: holds_init holds_update holds_final SHA_digest_def SHA_DIGEST_SIZE_def)

interpretation sha_le: stream_digest SHA_init SHA_update_le SHA_digest_le
  "\<lambda>ctx. length (sha_buf ctx) = 64" holds sha1_spec
proof unfold_locales
  fix m d and ctx :: SHA_CTX
  assume h: "holds m ctx"
  then have len: "length (sha_buf ctx) = 64" by (simp add: holds_def holds_state_def)
  show "holds (m @ d) (SHA_update_le ctx d)" using h len by (simp add: SHA_update_le_eq holds_update)
  show "SHA_digest_le ctx = sha1_spec m"
    using holds_final [OF h] len by (simp add: SHA_digest_le_def SHA_final_le_eq SHA_DIGEST_SIZE_def)
qed (simp add: holds_init)

section \<open>What is computed\<close>


definition zero_ctx :: SHA_CTX where
  "zero_ctx = \<lparr>sha_count = 0, sha_state = [], sha_buf = replicate 64 0\<rparr>"

text \<open>
  C13. The unrolled little-endian variant and the generic one give the same context after
  every update and the same digest.
\<close>

theorem sha_variants_agree:
  assumes "length (sha_buf ctx) = 64"
  shows "SHA_update_le ctx d = SHA_update ctx d \<and> SHA_final_le ctx = SHA_final ctx"
  by (simp add: SHA_update_le_eq SHA_final_le_eq assms)

theorem sha_variants_agree_witness:
  "SHA_update_le (SHA_init zero_ctx) (replicate 100 1) = SHA_update (SHA_init zero_ctx) (replicate 100 1)"
  using sha_variants_agree [of "SHA_init zero_ctx" "replicate 100 1"]
  by (simp only: SHA_init_def zero_ctx_def) simp

end
