(* ===== verification/Rsa.thy ===== *)
theory Rsa
  imports Sha1
begin

text \<open>
  RSA signature verification of \<open>client/recovery/lib/mincrypt\<close>: \<open>rsa.c\<close>,
  \<open>rsa_e_3.c\<close> and \<open>rsa_e_f4.c\<close>. The multi-word routines (\<open>subM\<close>, \<open>geM\<close>,
  \<open>montMulAdd\<close>, \<open>montMul\<close>) occur word for word in both files and are modelled once. A
  big number is the list of its \<open>key->len\<close> words, least significant first; all the
  intermediate arithmetic stays in the 64-bit words of the code.
\<close>

section \<open>Keys\<close>

definition RSANUMBYTES :: nat where
  "RSANUMBYTES = 256"

definition RSANUMWORDS :: nat where
  "RSANUMWORDS = RSANUMBYTES div 4"

record RSAPublicKey =
  key_len :: int
  n0inv :: u32
  key_n :: "u32 list"
  key_rr :: "u32 list"
  exponent :: int

definition num_words :: "RSAPublicKey \<Rightarrow> nat" where
  "num_words key = nat (key_len key)"

definition modulus :: "RSAPublicKey \<Rightarrow> u32 list" where
  "modulus key = take (num_words key) (key_n key)"

section \<open>Big-number routines\<close>

fun subM_loop :: "u64 \<Rightarrow> u32 list \<Rightarrow> u32 list \<Rightarrow> u32 list" where
  "subM_loop A (a # as) (n # ns) =
     (let A = A + (ucast a - ucast n)
      in ucast A # subM_loop (signed_drop_bit 32 A) as ns)"
| "subM_loop A as ns = as"

definition subM :: "RSAPublicKey \<Rightarrow> u32 list \<Rightarrow> u32 list" where
  "subM key a = subM_loop 0 a (modulus key)"

text \<open>\<open>geM\<close> walks from the most significant word, here on the reversed lists.\<close>

fun geM_loop :: "u32 list \<Rightarrow> u32 list \<Rightarrow> bool" where
  "geM_loop (a # as) (n # ns) = (if a < n then False else if a > n then True else geM_loop as ns)"
| "geM_loop as ns = True"

definition geM :: "RSAPublicKey \<Rightarrow> u32 list \<Rightarrow> bool" where
  "geM key a = geM_loop (rev a) (rev (modulus key))"

fun montMulAdd_loop ::
  "u32 \<Rightarrow> u32 \<Rightarrow> u64 \<Rightarrow> u64 \<Rightarrow> u32 list \<Rightarrow> u32 list \<Rightarrow> u32 list \<Rightarrow> u32 list \<times> u64 \<times> u64" where
  "montMulAdd_loop a d0 A B (b # bs) (n # ns) (c # cs) =
     (let A = drop_bit 32 A + ucast a * ucast b + ucast c;
          B = drop_bit 32 B + ucast d0 * ucast n + ucast (ucast A :: u32);
          (ds, A', B') = montMulAdd_loop a d0 A B bs ns cs
      in (ucast B # ds, A', B'))"
| "montMulAdd_loop a d0 A B bs ns cs = ([], A, B)"

definition montMulAdd :: "RSAPublicKey \<Rightarrow> u32 list \<Rightarrow> u32 \<Rightarrow> u32 list \<Rightarrow> u32 list" where
  "montMulAdd key c a b =
     (let A = ucast a * ucast (b ! 0) + ucast (c ! 0);
          d0 = ucast A * n0inv key;
          B = ucast d0 * ucast (modulus key ! 0) + ucast (ucast A :: u32);
          (c', A, B) = montMulAdd_loop a d0 A B (tl b) (tl (modulus key)) (tl c);
          A = drop_bit 32 A + drop_bit 32 B;
          c' = c' @ [ucast A]
      in if drop_bit 32 A \<noteq> 0 then subM key c' else c')"

definition montMul :: "RSAPublicKey \<Rightarrow> u32 list \<Rightarrow> u32 list \<Rightarrow> u32 list" where
  "montMul key a b =
     fold (\<lambda>ai c. montMulAdd key c ai b) a (replicate (num_words key) 0)"

section \<open>Exponentiation\<close>

definition bytes_to_words :: "RSAPublicKey \<Rightarrow> u8 list \<Rightarrow> u32 list" where
  "bytes_to_words key inout =
     map (\<lambda>i. from_be32 (inout ! ((num_words key - 1 - i) * 4 + 0)) (inout ! ((num_words key - 1 - i) * 4 + 1))
                (inout ! ((num_words key - 1 - i) * 4 + 2)) (inout ! ((num_words key - 1 - i) * 4 + 3)))
       [0..<num_words key]"

definition words_to_bytes :: "u32 list \<Rightarrow> u8 list" where
  "words_to_bytes ws = concat (map be32 (rev ws))"

definition reduceM :: "RSAPublicKey \<Rightarrow> u32 list \<Rightarrow> u32 list" where
  "reduceM key aaa = (if geM key aaa then subM key aaa else aaa)"

definition modpow3 :: "RSAPublicKey \<Rightarrow> u8 list \<Rightarrow> u8 list" where
  "modpow3 key inout =
     (let a = bytes_to_words key inout;
          aR = montMul key a (take (num_words key) (key_rr key));
          aaR = montMul key aR aR;
          aaa = montMul key aaR a
      in words_to_bytes (reduceM key aaa))"

definition modpowF4 :: "RSAPublicKey \<Rightarrow> u8 list \<Rightarrow> u8 list" where
  "modpowF4 key inout =
     (let a = bytes_to_words key inout;
          aR = montMul key a (take (num_words key) (key_rr key));
          aR = ((\<lambda>aR. let aaR = montMul key aR aR in montMul key aaR aaR) ^^ 8) aR;
          aaa = montMul key aR a
      in words_to_bytes (reduceM key aaa))"

section \<open>Verification\<close>

definition padding_e3 :: "u8 list" where
  "padding_e3 = [0x00, 0x01] @ replicate 218 0xff @
     [0x00, 0x30, 0x21, 0x30, 0x09, 0x06, 0x05, 0x2b, 0x0e, 0x03, 0x02, 0x1a, 0x05, 0x00, 0x04, 0x14]"

definition RSA_e_3_verify :: "RSAPublicKey \<Rightarrow> u8 list \<Rightarrow> int \<Rightarrow> u8 list \<Rightarrow> int" where
  "RSA_e_3_verify key signature sig_len sha =
     (if key_len key \<noteq> int RSANUMWORDS then 0
      else if sig_len \<noteq> int RSANUMBYTES then 0
      else if exponent key \<noteq> 3 then 0
      else let sig_buf = take (nat sig_len) signature;
               sig_buf = modpow3 key sig_buf
           in if take (length padding_e3) sig_buf \<noteq> padding_e3 then 0
              else if drop (length padding_e3) sig_buf \<noteq> take (nat sig_len - length padding_e3) sha then 0
              else 1)"

definition kExpectedPadShaRsa2048 :: "u8 list" where
  "kExpectedPadShaRsa2048 =
     [0xdc, 0xbd, 0xbe, 0x42, 0xd5, 0xf5, 0xa7, 0x2e, 0x6e, 0xfc,
      0xf5, 0x5d, 0xaf, 0x9d, 0xea, 0x68, 0x7c, 0xfb, 0xf1, 0x67]"

definition xor_sha :: "u8 list \<Rightarrow> u8 list \<Rightarrow> u8 list" where
  "xor_sha sig_buf sha =
     take (length sig_buf - SHA_DIGEST_SIZE) sig_buf @
     map2 (\<lambda>x y. x XOR y) (drop (length sig_buf - SHA_DIGEST_SIZE) sig_buf) sha"

definition RSA_e_f4_verify :: "SHA_CTX \<Rightarrow> RSAPublicKey \<Rightarrow> u8 list \<Rightarrow> int \<Rightarrow> u8 list \<Rightarrow> int" where
  "RSA_e_f4_verify ctx key signature sig_len sha =
     (if key_len key \<noteq> int RSANUMWORDS then 0
      else if sig_len \<noteq> int RSANUMBYTES then 0
      else if exponent key \<noteq> 65537 then 0
      else let sig_buf = take (nat sig_len) signature;
               sig_buf = modpowF4 key sig_buf;
               sig_buf = xor_sha sig_buf sha;
               sig_buf = SHA ctx sig_buf
           in if sig_buf \<noteq> kExpectedPadShaRsa2048 then 0 else 1)"

text \<open>
  The first argument is the uninitialised \<open>SHA_CTX\<close> on the stack of \<open>SHA\<close>.
\<close>

definition RSA_verify :: "SHA_CTX \<Rightarrow> RSAPublicKey \<Rightarrow> u8 list \<Rightarrow> int \<Rightarrow> u8 list \<Rightarrow> int" where
  "RSA_verify ctx key signature sig_len sha =
     (if exponent key = 3 then RSA_e_3_verify key signature sig_len sha
      else if exponent key = 65537 then RSA_e_f4_verify ctx key signature sig_len sha
      else 0)"

section \<open>Values of big numbers\<close>

definition W32 :: nat where
  "W32 = 2 ^ 32"

fun val :: "u32 list \<Rightarrow> nat" where
  "val [] = 0"
| "val (w # ws) = unat w + W32 * val ws"

lemma unat_less_W32 [simp]: "unat (w :: u32) < W32"
  using unsigned_less [of w, where ?'a = nat] by (simp add: W32_def)

lemma W32_pos [simp]: "0 < W32" "1 < W32"
  by (simp_all add: W32_def)

lemma unat_u32_less: "unat (w :: u32) < 4294967296"
  using unat_less_W32 [of w] by (simp add: W32_def)

lemma val_less: "val ws < W32 ^ length ws"
proof (induction ws)
  case (Cons w ws)
  have "val (w # ws) < W32 + W32 * val ws" by simp
  also have "\<dots> = W32 * (val ws + 1)" by simp
  also have "\<dots> \<le> W32 * W32 ^ length ws" using Cons by (intro mult_le_mono2) simp
  finally show ?case by simp
qed simp

lemma val_append: "val (xs @ ys) = val xs + W32 ^ length xs * val ys"
  by (induction xs) (simp_all add: algebra_simps)

lemma val_replicate_0 [simp]: "val (replicate k 0) = 0"
  by (induction k) simp_all

lemma val_mod_div [simp]: "(unat (w :: u32) + W32 * v) mod W32 = unat w" "(unat w + W32 * v) div W32 = v"
  by simp_all

lemma val_inj: "length xs = length ys \<Longrightarrow> val xs = val ys \<Longrightarrow> xs = ys"
proof (induction xs ys rule: list_induct2)
  case (Cons x xs y ys)
  then have e: "unat x + W32 * val xs = unat y + W32 * val ys" by simp
  have "unat x = unat y" using arg_cong [OF e, of "\<lambda>v. v mod W32"] by (simp only: val_mod_div)
  moreover have "val xs = val ys" using arg_cong [OF e, of "\<lambda>v. v div W32"] by (simp only: val_mod_div)
  ultimately show ?case using Cons.IH by (simp add: word_unat_eq_iff)
qed simp

section \<open>Subtraction and comparison\<close>

lemma uint_u32: "0 \<le> uint (w :: u32)" "uint (w :: u32) < 4294967296"
  using unsigned_less [of w, where ?'a = int] by simp_all

lemma borrow_range:
  assumes "s \<in> {-1, 0}" "0 \<le> x" "x < m" "0 \<le> y" "y < m"
  shows "- m \<le> s + x - y" "s + x - (y :: int) < m"
  using assms by auto

lemma uint_lo_u64: "uint (ucast (word_of_int d :: u64) :: u32) = d mod int W32"
proof -
  have "uint (ucast (word_of_int d :: u64) :: u32) = take_bit 32 (uint (word_of_int d :: u64))"
    by (simp only: unsigned_ucast_eq len_bit0 len_num1 mult_2 one_add_one numeral_plus_numeral add_num_simps)
  also have "\<dots> = take_bit 32 (take_bit 64 d)"
    by (simp add: unsigned_of_int)
  also have "\<dots> = d mod int W32"
    by (simp add: take_bit_eq_mod mod_mod_cancel W32_def)
  finally show ?thesis .
qed

lemma sub_step:
  fixes A :: u64 and a n :: u32
  assumes s: "sint A \<in> {-1, 0}"
  defines "d \<equiv> sint A + uint a - uint n"
  shows "uint (ucast (A + (ucast a - ucast n)) :: u32) = d mod int W32"
    and "sint (signed_drop_bit 32 (A + (ucast a - ucast n))) = d div int W32"
    and "d div int W32 \<in> {-1, 0}"
proof -
  have r: "- 4294967296 \<le> d" "d < 4294967296"
    unfolding d_def using s uint_u32 [of a] uint_u32 [of n] by (simp_all only: borrow_range)
  have A: "A + (ucast a - ucast n) = word_of_int d"
    by (simp add: d_def)
  show "uint (ucast (A + (ucast a - ucast n)) :: u32) = d mod int W32"
    by (simp only: A uint_lo_u64)
  have "sint (A + (ucast a - ucast n)) = d"
    using r unfolding A by (simp add: sint_sbintrunc' signed_take_bit_int_eq_self)
  then show "sint (signed_drop_bit 32 (A + (ucast a - ucast n))) = d div int W32"
    by (simp add: sint_signed_drop_bit_eq drop_bit_eq_div W32_def)
  show "d div int W32 \<in> {-1, 0}"
  proof (cases "d < 0")
    case True
    then have "(d + 4294967296) div 4294967296 = 0" using r by (intro div_pos_pos_trivial) auto
    then have "d div 4294967296 = -1" by simp
    then show ?thesis by (simp add: W32_def)
  next
    case False
    then show ?thesis using r by (simp add: W32_def)
  qed
qed

lemma int_val_Cons: "int (val (w # ws)) = uint w + int W32 * int (val ws)"
  by simp

lemma div_mod_digit:
  assumes "0 \<le> (c :: int)"
  shows "d mod b + b * ((d div b + v) mod c) = (d + b * v) mod (b * c)"
proof (cases "b = 0")
  case False
  then show ?thesis using assms zmod_zmult2_eq [of c "d + b * v" b] by (simp add: add.commute)
qed simp

lemma subM_loop_val:
  assumes "length as = length ns" "sint A \<in> {-1, 0}"
  shows "length (subM_loop A as ns) = length as \<and>
    int (val (subM_loop A as ns)) = (sint A + int (val as) - int (val ns)) mod int (W32 ^ length as)"
  using assms
proof (induction as ns arbitrary: A rule: list_induct2)
  case Nil
  then show ?case by simp
next
  case (Cons a as n ns)
  define d where "d = sint A + uint a - uint n"
  note st = sub_step [OF Cons.prems, of a n, folded d_def]
  let ?A = "signed_drop_bit 32 (A + (ucast a - ucast n))"
  let ?v = "int (val as) - int (val ns)"
  have "sint ?A \<in> {-1, 0}" using st(2,3) by (simp only:)
  with Cons.IH [of ?A] st(2) have IH: "length (subM_loop ?A as ns) = length as"
    "int (val (subM_loop ?A as ns)) = (d div int W32 + ?v) mod int (W32 ^ length as)"
    by (simp_all only: add_diff_eq)
  have "int (val (subM_loop A (a # as) (n # ns)))
        = d mod int W32 + int W32 * ((d div int W32 + ?v) mod int (W32 ^ length as))"
    by (simp only: subM_loop.simps Let_def int_val_Cons IH st(1))
  also have "\<dots> = (d + int W32 * ?v) mod (int W32 * int (W32 ^ length as))"
    by (rule div_mod_digit) simp
  also have "d + int W32 * ?v = sint A + int (val (a # as)) - int (val (n # ns))"
    by (simp add: d_def algebra_simps)
  finally show ?case using IH(1) by (simp add: Let_def)
qed

lemma subM_le:
  assumes "length a = length (modulus key)" "val (modulus key) \<le> val a"
  shows "val (subM key a) = val a - val (modulus key)"
proof -
  have "val a < W32 ^ length a" by (rule val_less)
  then have "(int (val a) - int (val (modulus key))) mod int (W32 ^ length a) = int (val a - val (modulus key))"
    using assms(2) by (simp flip: of_nat_diff zmod_int)
  moreover have "int (val (subM key a)) = (int (val a) - int (val (modulus key))) mod int (W32 ^ length a)"
    using subM_loop_val [OF assms(1), of 0] by (simp add: subM_def)
  ultimately show ?thesis by simp
qed

lemma subM_carry:
  assumes "length a = length (modulus key)" "val a < val (modulus key)"
  shows "val (subM key a) + val (modulus key) = W32 ^ length a + val a"
proof -
  have "val (modulus key) < W32 ^ length a" using val_less [of "modulus key"] assms(1) by simp
  then have n: "int (val (modulus key)) < int (W32 ^ length a)" by (simp only: of_nat_less_iff)
  have "int (val (subM key a)) = (int (val a) - int (val (modulus key))) mod int (W32 ^ length a)"
    using subM_loop_val [OF assms(1), of 0] by (simp add: subM_def)
  also have "\<dots> = (int (val a) - int (val (modulus key)) + int (W32 ^ length a)) mod int (W32 ^ length a)"
    by simp
  also have "\<dots> = int (val a) - int (val (modulus key)) + int (W32 ^ length a)"
    using n assms(2) by (intro mod_pos_pos_trivial) linarith+
  finally have "int (val (subM key a) + val (modulus key)) = int (W32 ^ length a + val a)" by simp
  then show ?thesis by (simp only: of_nat_eq_iff)
qed

lemma length_subM: "length a = length (modulus key) \<Longrightarrow> length (subM key a) = length a"
  using subM_loop_val [of a "modulus key" 0] by (simp add: subM_def)

lemma geM_loop_val:
  "length xs = length ys \<Longrightarrow> geM_loop xs ys \<longleftrightarrow> val (rev ys) \<le> val (rev xs)"
proof (induction xs ys rule: list_induct2)
  case (Cons x xs y ys)
  let ?k = "W32 ^ length xs"
  have b: "val (rev xs) < ?k" "val (rev ys) < ?k"
    using val_less [of "rev xs"] val_less [of "rev ys"] Cons.hyps by simp_all
  have v: "val (rev (x # xs)) = val (rev xs) + ?k * unat x" "val (rev (y # ys)) = val (rev ys) + ?k * unat y"
    using Cons.hyps by (simp_all add: val_append)
  have lt: "u + ?k * i < v + ?k * j" if "u < ?k" "i < j" for u v i j :: nat
  proof -
    have "u + ?k * i < ?k * Suc i" using that(1) by simp
    also have "\<dots> \<le> ?k * j" using that(2) by (intro mult_le_mono2) simp
    finally show ?thesis by simp
  qed
  consider "x < y" | "y < x" | "x = y" by fastforce
  then show ?case
  proof cases
    case 1
    then have "unat x < unat y" by (simp add: word_less_nat_alt)
    with lt [OF b(1)] have "val (rev (x # xs)) < val (rev (y # ys))" unfolding v .
    with 1 show ?thesis by simp
  next
    case 2
    then have "unat y < unat x" by (simp add: word_less_nat_alt)
    with lt [OF b(2)] have "val (rev (y # ys)) < val (rev (x # xs))" unfolding v .
    with 2 show ?thesis by simp
  next
    case 3
    with Cons.IH show ?thesis unfolding v by simp
  qed
qed simp

lemma geM_val: "length a = length (modulus key) \<Longrightarrow> geM key a \<longleftrightarrow> val (modulus key) \<le> val a"
  by (simp add: geM_def geM_loop_val)

section \<open>Montgomery multiplication\<close>

lemma unat_lo: "unat (ucast (A :: u64) :: u32) = unat A mod W32"
  by (simp add: unsigned_ucast_eq take_bit_eq_mod W32_def)

lemma unat_drop_bit_eq_div: "unat (drop_bit n (A :: u64)) = unat A div 2 ^ n"
proof -
  have "unat (drop_bit n A) = drop_bit n (unat A)" 
    using unsigned_less [of A, where ?'a = nat] by (simp only: unsigned_drop_bit_eq take_bit_nat_eq_self)
  then show ?thesis by (simp only: drop_bit_eq_div)
qed

lemma unat_hi: "unat (drop_bit 32 (A :: u64)) = unat A div W32"
  by (simp only: unat_drop_bit_eq_div W32_def)

lemma unat_u64_less: "unat (A :: u64) < W32 * W32"
  using unsigned_less [of A, where ?'a = nat] by (simp add: W32_def)

lemma unat_hi_less [simp]: "unat (A :: u64) div W32 < W32"
  using unat_u64_less [of A] by (simp add: less_mult_imp_div_less)

text \<open>A multiply-accumulate step of the code never overflows 64 bits.\<close>

lemma mac_less:
  assumes "x < W32" "a < W32" "b < W32" "c < W32" shows "x + a * b + c < W32 * W32"
proof -
  have "a * b \<le> (W32 - 1) * (W32 - 1)" using assms by (intro mult_le_mono) auto
  with assms show ?thesis by (simp add: W32_def)
qed

lemma unat_small: "k < W32 * W32 \<Longrightarrow> unat (word_of_nat k :: u64) = k"
  by (simp add: W32_def unsigned_of_nat take_bit_nat_eq_self)

lemma unat_mac:
  assumes "unat (x :: u64) < W32"
  shows "unat (x + ucast (a :: u32) * ucast (b :: u32) + ucast (c :: u32)) = unat x + unat a * unat b + unat c"
proof -
  have "x + ucast a * ucast b + ucast c = word_of_nat (unat x + unat a * unat b + unat c)"
    by simp
  then show ?thesis
    using unat_small [OF mac_less [OF assms unat_less_W32 unat_less_W32 unat_less_W32]] by (simp only:)
qed

lemma unat_sum_hi: "unat (drop_bit 32 A + drop_bit 32 (B :: u64)) = unat A div W32 + unat B div W32"
proof -
  have "unat A div W32 + unat B div W32 < W32 + W32" by (intro add_strict_mono) simp_all
  also have "\<dots> \<le> W32 * W32" by (simp add: W32_def)
  finally have lt: "unat (drop_bit 32 A) + unat (drop_bit 32 B) < W32 * W32" by (simp only: unat_hi)
  have "drop_bit 32 A + drop_bit 32 B = word_of_nat (unat (drop_bit 32 A) + unat (drop_bit 32 B))"
    by simp
  then show ?thesis by (simp only: unat_small [OF lt]) (simp only: unat_hi)
qed

lemma hi_zero: "drop_bit 32 (A :: u64) \<noteq> 0 \<longleftrightarrow> unat A div W32 \<noteq> 0"
  by (metis unat_hi unat_0 word_unat_eq_iff)

lemma mod_div_split: "x mod W32 + W32 * (x div W32) = x"
  by simp

lemma montMulAdd_loop_val:
  assumes "length bs = length ns" "length ns = length cs"
  shows "case montMulAdd_loop a d0 A B bs ns cs of (ds, A', B') \<Rightarrow>
     length ds = length bs \<and>
     val ds + W32 ^ length bs * (unat A' div W32 + unat B' div W32)
     = unat A div W32 + unat B div W32 + unat a * val bs + val cs + unat d0 * val ns"
  using assms
proof (induction bs ns cs arbitrary: A B rule: list_induct3)
  case (Cons b bs n ns c cs)
  define A1 where "A1 = drop_bit 32 A + ucast a * ucast b + ucast c"
  define B1 where "B1 = drop_bit 32 B + ucast d0 * ucast n + ucast (ucast A1 :: u32)"
  obtain ds A' B' where r: "montMulAdd_loop a d0 A1 B1 bs ns cs = (ds, A', B')" by (metis prod_cases3)
  have A1: "unat A1 = unat A div W32 + unat a * unat b + unat c"
    unfolding A1_def by (subst unat_mac) (simp_all add: unat_hi)
  have B1: "unat B1 = unat B div W32 + unat d0 * unat n + unat A1 mod W32"
    unfolding B1_def by (subst unat_mac) (simp_all add: unat_hi unat_lo)
  have IH: "length ds = length bs"
    "val ds + W32 ^ length bs * (unat A' div W32 + unat B' div W32)
     = unat A1 div W32 + unat B1 div W32 + unat a * val bs + val cs + unat d0 * val ns"
    using Cons.IH [of A1 B1] by (simp_all add: r)
  have "val (ucast B1 # ds) + W32 ^ Suc (length bs) * (unat A' div W32 + unat B' div W32)
        = unat B1 mod W32 + W32 * (val ds + W32 ^ length bs * (unat A' div W32 + unat B' div W32))"
    by (simp add: unat_lo algebra_simps)
  also have "\<dots> = unat B1 mod W32 + W32 * (unat B1 div W32) + W32 * (unat A1 div W32)
                    + W32 * (unat a * val bs + val cs + unat d0 * val ns)"
    unfolding IH(2) by (simp only: algebra_simps)
  also have "\<dots> = unat B div W32 + unat d0 * unat n + (unat A1 mod W32 + W32 * (unat A1 div W32))
                    + W32 * (unat a * val bs + val cs + unat d0 * val ns)"
    by (simp only: mod_div_split B1 add.assoc)
  also have "\<dots> = unat A div W32 + unat B div W32 + unat a * val (b # bs) + val (c # cs) + unat d0 * val (n # ns)"
    by (simp only: mod_div_split A1) (simp add: algebra_simps)
  finally show ?case
    using IH(1) by (simp add: r flip: A1_def B1_def)
qed simp

text \<open>
  What Montgomery multiplication needs of a key: \<open>n0inv\<close> is the negated inverse of the
  low word of the modulus.
\<close>

definition mod_ok :: "RSAPublicKey \<Rightarrow> bool" where
  "mod_ok key \<longleftrightarrow> 0 < num_words key \<and> length (modulus key) = num_words key \<and>
     n0inv key * (modulus key ! 0) = -1"

definition R_of :: "RSAPublicKey \<Rightarrow> nat" where
  "R_of key = W32 ^ num_words key"

abbreviation N_of :: "RSAPublicKey \<Rightarrow> nat" where
  "N_of key \<equiv> val (modulus key)"

lemma odd_modulus: "mod_ok key \<Longrightarrow> odd (N_of key)"
proof
  assume key: "mod_ok key" and e: "even (N_of key)"
  then obtain n0 ns where n: "modulus key = n0 # ns" by (cases "modulus key") (auto simp: mod_ok_def)
  have "even W32" by (simp add: W32_def)
  with e have "even (unat n0)" by (simp add: n)
  then have "even (unat (n0inv key * n0))"
    by (simp add: unat_word_ariths(2) dvd_mod_iff)
  moreover have "unat (n0inv key * n0) = unat (-1 :: u32)" using key by (simp add: mod_ok_def n)
  moreover have "odd (unat (-1 :: u32))"
    by (simp only: unsigned_minus_1_eq_mask) (simp add: mask_eq_exp_minus_1)
  ultimately show False by (simp only:)
qed

lemma low_digit_cleared:
  assumes "n0inv key * n0 = -1"
  shows "(unat (ucast (A :: u64) * n0inv key) * unat n0 + unat A mod W32) mod W32 = 0"
proof -
  let ?x = "ucast A :: u32"
  have "?x * n0inv key * n0 + ?x = ?x * (n0inv key * n0 + 1)" by (simp add: algebra_simps)
  also have "\<dots> = 0" using assms by simp
  finally have "unat (?x * n0inv key * n0 + ?x) = 0" by simp
  then have "(unat (?x * n0inv key * n0) + unat ?x) mod W32 = 0"
    by (simp add: unat_word_ariths(1) W32_def)
  then show ?thesis
    by (simp add: unat_word_ariths(2) [of "?x * n0inv key"] unat_lo W32_def mod_add_left_eq)
qed

lemma montMulAdd_bound:
  assumes "W32 * x = ai * b + c + d * n" "b < r" "c < r" "ai < W32" "d < W32" "0 < n"
  shows "x < r + n"
proof -
  have "ai * b + c \<le> (W32 - 1) * (r - 1) + (r - 1)"
    using assms(2-4) by (intro add_mono mult_le_mono) auto
  also have "\<dots> = W32 * (r - 1)" by (simp add: W32_def)
  finally have 1: "ai * b + c \<le> W32 * (r - 1)" .
  have "d * n < W32 * n" using assms(5,6) by simp
  with 1 assms(1) have "W32 * x < W32 * (r - 1) + W32 * n" by linarith
  then have "W32 * x < W32 * ((r - 1) + n)" by (simp only: distrib_left)
  then show ?thesis by simp
qed

lemma montMulAdd_val:
  assumes key: "mod_ok key" and lb: "length b = num_words key" and lc: "length c = num_words key"
  shows "length (montMulAdd key c a b) = num_words key"
    and "\<exists>q r. W32 * (val (montMulAdd key c a b) + r * val (modulus key)) = unat a * val b + val c + q * val (modulus key)"
proof -
  let ?N = "modulus key"
  obtain n0 ns where n: "?N = n0 # ns" using key by (cases ?N) (auto simp: mod_ok_def)
  obtain b0 bs where b: "b = b0 # bs" using key lb by (cases b) (auto simp: mod_ok_def)
  obtain c0 cs where c: "c = c0 # cs" using key lc by (cases c) (auto simp: mod_ok_def)
  have len: "length ns = length bs" "length cs = length ns" "num_words key = Suc (length bs)"
    using key lb lc by (simp_all add: mod_ok_def n b c)
  define A0 :: u64 where "A0 = ucast a * ucast b0 + ucast c0"
  define d0 :: u32 where "d0 = ucast A0 * n0inv key"
  define B0 :: u64 where "B0 = ucast d0 * ucast n0 + ucast (ucast A0 :: u32)"
  obtain ds A B where loop: "montMulAdd_loop a d0 A0 B0 bs ns cs = (ds, A, B)" by (metis prod_cases3)
  have A0: "unat A0 = unat a * unat b0 + unat c0"
    using unat_mac [of 0 a b0 c0] by (simp add: A0_def)
  have B0: "unat B0 = unat d0 * unat n0 + unat A0 mod W32"
    using unat_mac [of 0 d0 n0 "ucast A0"] by (simp add: B0_def unat_lo)
  have z: "unat B0 mod W32 = 0"
    using key low_digit_cleared [of key n0 A0] by (simp add: B0 d0_def mod_ok_def n)
  have B0_split: "unat B0 mod W32 + W32 * (unat B0 div W32) = unat d0 * unat n0 + unat A0 mod W32"
    by (simp only: mod_div_split B0)
  have L: "length ds = length bs"
    "val ds + W32 ^ length bs * (unat A div W32 + unat B div W32)
     = unat A0 div W32 + unat B0 div W32 + unat a * val bs + val cs + unat d0 * val ns"
    using montMulAdd_loop_val [of bs ns cs, where a = a and ?d0.0 = d0 and A = A0 and B = B0] len by (simp_all add: loop)
  define S where "S = drop_bit 32 A + drop_bit 32 B"
  define c' where "c' = ds @ [ucast S]"
  have S: "unat S = unat A div W32 + unat B div W32"
    unfolding S_def by (rule unat_sum_hi)
  have T: "W32 * (val c' + W32 ^ num_words key * (unat S div W32))
           = unat a * val b + val c + unat d0 * val ?N"
  proof -
    have "val c' + W32 ^ num_words key * (unat S div W32) = val ds + W32 ^ length bs * (unat S mod W32 + W32 * (unat S div W32))"
      by (simp only: c'_def val_append L(1) len(3) unat_lo val.simps power_Suc distrib_left
          mult_0_right add_0_right ac_simps)
    also have "\<dots> = unat A0 div W32 + unat B0 div W32 + unat a * val bs + val cs + unat d0 * val ns"
      by (simp only: mod_div_split S L(2))
    also have "W32 * \<dots> = W32 * (unat A0 div W32) + (unat B0 mod W32 + W32 * (unat B0 div W32))
        + W32 * (unat a * val bs + val cs + unat d0 * val ns)"
      using z by (simp add: algebra_simps)
    also have "\<dots> = (unat A0 mod W32 + W32 * (unat A0 div W32)) + unat d0 * unat n0
        + W32 * (unat a * val bs + val cs + unat d0 * val ns)"
      unfolding B0_split by (simp only: ac_simps)
    also have "\<dots> = unat a * val b + val c + unat d0 * val ?N"
      by (simp only: mod_div_split A0 n b c val.simps) (simp add: algebra_simps)
    finally show ?thesis .
  qed
  have m: "montMulAdd key c a b = (if unat S div W32 \<noteq> 0 then subM key c' else c')"
    using loop hi_zero [of S]
    by (simp add: montMulAdd_def Let_def n b c flip: A0_def d0_def B0_def S_def c'_def)
  have lN: "length c' = length ?N" "length ?N = num_words key"
    using key L(1) len(3) by (simp_all add: c'_def mod_ok_def)
  show "length (montMulAdd key c a b) = num_words key"
    using lN by (simp add: m length_subM)
  have N0: "0 < val ?N"
    using odd_modulus [OF key] by (auto intro: Nat.gr0I)
  have bound: "val c' + W32 ^ num_words key * (unat S div W32) < W32 ^ num_words key + val ?N"
    using montMulAdd_bound [OF T] N0 val_less [of b] val_less [of c] lb lc by simp
  show "\<exists>q r. W32 * (val (montMulAdd key c a b) + r * val ?N) = unat a * val b + val c + q * val ?N"
  proof (cases "unat S div W32 = 0")
    case True
    with T show ?thesis by (intro exI [of _ "unat d0"] exI [of _ 0]) (simp add: m)
  next
    case False
    have N: "val ?N < W32 ^ num_words key" using val_less [of ?N] lN(2) by simp
    have one: "unat S div W32 = 1"
    proof (rule ccontr)
      assume "unat S div W32 \<noteq> 1"
      with False have "W32 ^ num_words key * 2 \<le> W32 ^ num_words key * (unat S div W32)"
        by (intro mult_le_mono2) simp
      with bound N show False by simp
    qed
    with bound have "val c' < val ?N" by simp
    then have "val (subM key c') + val ?N = W32 ^ num_words key + val c'"
      using subM_carry [OF lN(1)] lN by simp
    with T one show ?thesis
      by (intro exI [of _ "unat d0"] exI [of _ 1]) (simp add: m add.commute)
  qed
qed

section \<open>Exponentiation modulo the key\<close>

lemma cancel_mod:
  assumes "coprime r (n :: nat)" "(r * x) mod n = (r * y) mod n"
  shows "x mod n = y mod n"
proof -
  have "int n dvd int r * (int x - int y)"
    using assms(2) by (simp add: right_diff_distrib flip: mod_eq_dvd_iff of_nat_mult zmod_int)
  then have "int n dvd int x - int y"
    using assms(1) by (simp add: coprime_dvd_mult_right_iff coprime_commute coprime_int_iff)
  then have "int x mod int n = int y mod int n" by (simp add: mod_eq_dvd_iff)
  then show ?thesis by (simp flip: zmod_int)
qed

lemma coprime_R: "mod_ok key \<Longrightarrow> coprime (R_of key) (N_of key)"
proof -
  assume "mod_ok key"
  then have "coprime 2 (N_of key)" using odd_modulus by (simp only: coprime_left_2_iff_odd not_False_eq_True)
  then have "coprime ((2 ^ 32) ^ num_words key) (N_of key)"
    by (simp only: coprime_power_left_iff simp_thms)
  then show ?thesis by (simp only: R_of_def W32_def)
qed

lemma montMulAdd_cong:
  assumes "mod_ok key" "length b = num_words key" "length c = num_words key"
  shows "(W32 * val (montMulAdd key c a b)) mod N_of key = (val c + unat a * val b) mod N_of key"
proof -
  obtain q r where e: "W32 * (val (montMulAdd key c a b) + r * N_of key) = unat a * val b + val c + q * N_of key"
    using montMulAdd_val(2) [OF assms] by blast
  have "(W32 * val (montMulAdd key c a b)) mod N_of key
        = (W32 * val (montMulAdd key c a b) + (W32 * r) * N_of key) mod N_of key" by simp
  also have "\<dots> = (unat a * val b + val c + q * N_of key) mod N_of key"
    using e by (simp add: algebra_simps)
  finally show ?thesis by (simp add: add.commute)
qed

lemma montMul_fold:
  assumes "mod_ok key" "length b = num_words key" "length c = num_words key"
  shows "length (fold (\<lambda>ai c. montMulAdd key c ai b) as c) = num_words key \<and>
    (W32 ^ length as * val (fold (\<lambda>ai c. montMulAdd key c ai b) as c)) mod N_of key
    = (val c + val as * val b) mod N_of key"
  using assms(3)
proof (induction as arbitrary: c)
  case (Cons a as)
  let ?c = "montMulAdd key c a b"
  let ?r = "fold (\<lambda>ai c. montMulAdd key c ai b) as ?c"
  have l: "length ?c = num_words key" using montMulAdd_val(1) assms Cons.prems by blast
  have "(W32 ^ length (a # as) * val ?r) mod N_of key = (W32 * ((W32 ^ length as * val ?r) mod N_of key)) mod N_of key"
    by (simp add: mod_mult_right_eq mult.assoc)
  also have "\<dots> = (W32 * val ?c + W32 * (val as * val b)) mod N_of key"
    using Cons.IH [OF l] by (simp add: mod_mult_right_eq distrib_left)
  also have "\<dots> = ((W32 * val ?c) mod N_of key + W32 * (val as * val b)) mod N_of key"
    by (simp add: mod_add_left_eq)
  also have "\<dots> = (val c + unat a * val b + W32 * (val as * val b)) mod N_of key"
    using montMulAdd_cong [OF assms(1,2) Cons.prems, of a] by (simp add: mod_add_left_eq)
  also have "\<dots> = (val c + val (a # as) * val b) mod N_of key"
    by (simp add: algebra_simps)
  finally show ?case using Cons.IH [OF l] by simp
qed simp

lemma montMul_val:
  assumes "mod_ok key" "length a = num_words key" "length b = num_words key"
  shows "length (montMul key a b) = num_words key"
    and "(R_of key * val (montMul key a b)) mod N_of key = (val a * val b) mod N_of key"
  using montMul_fold [OF assms(1,3), of "replicate (num_words key) 0" a] assms(2)
  by (simp_all add: montMul_def R_of_def)

lemma montMul_lift:
  assumes "mod_ok key" "length a = num_words key" "length b = num_words key"
    and "val a mod N_of key = (u * R_of key) mod N_of key" "val b mod N_of key = v mod N_of key"
  shows "val (montMul key a b) mod N_of key = (u * v) mod N_of key"
proof -
  have "(val a * val b) mod N_of key = (u * R_of key * v) mod N_of key"
    using assms(4,5) by (rule mod_mult_cong)
  then have "(R_of key * val (montMul key a b)) mod N_of key = (R_of key * (u * v)) mod N_of key"
    using montMul_val(2) [OF assms(1-3)] by (simp add: mult.commute mult.left_commute)
  then show ?thesis by (rule cancel_mod [OF coprime_R [OF assms(1)]])
qed

text \<open>
  The keys the verifier accepts: a modulus whose top bit is set, with the derived
  quantities \<open>n0inv\<close> (the negated inverse of its low word) and \<open>rr\<close> (the square of
  \<open>R\<close>) right.
\<close>

definition key_ok :: "RSAPublicKey \<Rightarrow> bool" where
  "key_ok key \<longleftrightarrow> key_len key = int RSANUMWORDS \<and> length (key_n key) = RSANUMWORDS \<and>
     length (key_rr key) = RSANUMWORDS \<and> n0inv key * (key_n key ! 0) = -1 \<and>
     R_of key \<le> 2 * val (key_n key) \<and>
     val (key_rr key) mod val (key_n key) = (R_of key * R_of key) mod val (key_n key)"

lemma key_okD:
  assumes "key_ok key"
  shows "mod_ok key" "num_words key = RSANUMWORDS" "modulus key = key_n key"
    "take (num_words key) (key_rr key) = key_rr key" "length (key_rr key) = num_words key"
    "val (key_rr key) mod N_of key = (R_of key * R_of key) mod N_of key" "R_of key \<le> 2 * N_of key"
  using assms by (auto simp: key_ok_def mod_ok_def num_words_def modulus_def RSANUMWORDS_def RSANUMBYTES_def)

lemma reduceM_val:
  assumes "key_ok key" "length a = num_words key"
  shows "val (reduceM key a) = val a mod N_of key" "length (reduceM key a) = num_words key"
proof -
  have la: "length a = length (modulus key)"
    using key_okD [OF assms(1)] assms(2) by (simp add: mod_ok_def)
  have "val a < R_of key" using val_less [of a] assms(2) by (simp add: R_of_def)
  also have "\<dots> \<le> 2 * N_of key" by (rule key_okD(7) [OF assms(1)])
  finally have "N_of key \<le> val a \<Longrightarrow> val a mod N_of key = val a - N_of key"
    by (simp add: le_mod_geq)
  then show "val (reduceM key a) = val a mod N_of key"
    using la by (simp add: reduceM_def geM_val subM_le)
  show "length (reduceM key a) = num_words key"
    using la assms(2) by (simp add: reduceM_def length_subM)
qed

lemma to_montgomery:
  assumes "key_ok key" "length a = num_words key"
  shows "val (montMul key a (key_rr key)) mod N_of key = (val a * R_of key) mod N_of key"
proof -
  note k = key_okD [OF assms(1)]
  have "(R_of key * val (montMul key a (key_rr key))) mod N_of key = (val a * (R_of key * R_of key)) mod N_of key"
    using montMul_val(2) [OF k(1) assms(2) k(5)] mod_mult_cong [OF refl k(6)] by metis
  then have "(R_of key * val (montMul key a (key_rr key))) mod N_of key = (R_of key * (val a * R_of key)) mod N_of key"
    by (simp add: mult.commute mult.left_commute)
  then show ?thesis by (rule cancel_mod [OF coprime_R [OF k(1)]])
qed

section \<open>Byte strings\<close>

text \<open>The integer a big-endian byte string stands for.\<close>

fun be_val :: "u8 list \<Rightarrow> nat" where
  "be_val [] = 0"
| "be_val (b # bs) = unat b * 256 ^ length bs + be_val bs"

lemma be_val_append: "be_val (xs @ ys) = be_val xs * 256 ^ length ys + be_val ys"
  by (induction xs) (simp_all add: power_add algebra_simps)

lemma unat_u8_less [simp]: "unat (b :: u8) < 256"
  using unsigned_less [of b, where ?'a = nat] by simp

lemma be_val_less: "be_val bs < 256 ^ length bs"
proof (induction bs)
  case (Cons b bs)
  have "be_val (b # bs) < (unat b + 1) * 256 ^ length bs" using Cons by simp
  also have "\<dots> \<le> 256 * 256 ^ length bs" using unat_u8_less [of b] by (intro mult_le_mono1) linarith
  finally show ?case by simp
qed simp

lemma digits4: "(x :: nat) < 4294967296 \<Longrightarrow>
   x div 16777216 mod 256 * 16777216 + (x div 65536 mod 256 * 65536 + (x div 256 mod 256 * 256 + x mod 256)) = x"
proof -
  assume x: "x < 4294967296"
  have 1: "x div 65536 = x div 256 div 256" "x div 16777216 = x div 65536 div 256"
    by (simp_all add: div_mult2_eq [symmetric])
  have 2: "x = x div 256 * 256 + x mod 256" "x div 256 = x div 65536 * 256 + x div 256 mod 256"
    "x div 65536 = x div 16777216 * 256 + x div 65536 mod 256"
    unfolding 1 by (simp_all only: div_mult_mod_eq)
  have "x div 16777216 < 256" using x by simp
  then have "x div 16777216 mod 256 = x div 16777216" by simp
  with 2 show ?thesis by linarith
qed

lemma be_val_be32: "be_val (be32 w) = unat w"
proof -
  have "unat (ucast (drop_bit k w) :: u8) = unat w div 2 ^ k mod 256" for k
  proof -
    have "unat (ucast (drop_bit k w) :: u8) = take_bit 8 (drop_bit k (unat w))"
      using unsigned_less [of w, where ?'a = nat]
      by (simp only: unsigned_ucast_eq unsigned_drop_bit_eq take_bit_nat_eq_self len_bit0 len_num1) simp
    then show ?thesis by (simp add: take_bit_eq_mod drop_bit_eq_div)
  qed
  note b = this [of 24] this [of 16] this [of 8] this [of 0]
  show ?thesis
    using digits4 [of "unat w"] unat_u32_less [of w]
    by (simp only: be32_def be_val.simps b drop_bit_0 id_apply) (simp add: b [simplified])
qed

lemma be_val_words_to_bytes: "be_val (words_to_bytes ws) = val ws"
  and length_words_to_bytes [simp]: "length (words_to_bytes ws) = 4 * length ws"
proof -
  have "length (words_to_bytes ws) = 4 * length ws \<and> be_val (words_to_bytes ws) = val ws"
  proof (induction ws)
    case (Cons w ws)
    then show ?case
      by (simp add: words_to_bytes_def be_val_append be_val_be32 W32_def)
  qed (simp add: words_to_bytes_def)
  then show "be_val (words_to_bytes ws) = val ws" "length (words_to_bytes ws) = 4 * length ws" by auto
qed

lemma list_length4: "length xs = 4 \<Longrightarrow> \<exists>a b c d. xs = [a, b, c, d]"
  by (auto simp: length_Suc_conv eval_nat_numeral)

lemma concat_quads:
  "length bs = 4 * k \<Longrightarrow>
   concat (map (\<lambda>j. [bs ! (j * 4), bs ! (j * 4 + 1), bs ! (j * 4 + 2), bs ! (j * 4 + 3)]) [0..<k]) = bs"
proof (induction k arbitrary: bs)
  case (Suc k)
  define xs where "xs = take (4 * k) bs"
  obtain a b c d where r: "drop (4 * k) bs = [a, b, c, d]"
    using list_length4 [of "drop (4 * k) bs"] Suc.prems by auto
  then have bs: "bs = xs @ [a, b, c, d]" by (metis append_take_drop_id xs_def)
  have "length xs = 4 * k" using Suc.prems by (simp add: xs_def)
  let ?Q = "\<lambda>bs j. [bs ! (j * 4), bs ! (j * 4 + 1), bs ! (j * 4 + 2), bs ! (j * 4 + 3)]"
  from \<open>length xs = 4 * k\<close> have "map (?Q bs) [0..<k] = map (?Q xs) [0..<k]"
    by (intro map_cong) (auto simp: bs nth_append)
  then have "concat (map (?Q bs) [0..<k]) = xs"
    using Suc.IH [OF \<open>length xs = 4 * k\<close>] by (simp only:)
  moreover have "?Q bs k = [a, b, c, d]"
    using \<open>length xs = 4 * k\<close> by (simp add: bs nth_append)
  ultimately have "concat (map (?Q bs) [0..<k]) @ concat (map (?Q bs) [k]) = xs @ [a, b, c, d]"
    by (simp only: list.map concat.simps append_Nil2)
  then show ?case by (simp only: upt_Suc_append map_append concat_append bs le0)
qed simp

lemma words_to_bytes_inverse:
  assumes "length bs = 4 * num_words key"
  shows "words_to_bytes (bytes_to_words key bs) = bs" "length (bytes_to_words key bs) = num_words key"
proof -
  let ?L = "num_words key"
  have "rev (bytes_to_words key bs) =
        map (\<lambda>j. from_be32 (bs ! (j * 4)) (bs ! (j * 4 + 1)) (bs ! (j * 4 + 2)) (bs ! (j * 4 + 3))) [0..<?L]"
    by (rule nth_equalityI) (simp_all add: bytes_to_words_def rev_nth)
  then show "words_to_bytes (bytes_to_words key bs) = bs"
    using concat_quads [OF assms] by (simp add: words_to_bytes_def be32_from_be32 comp_def)
  show "length (bytes_to_words key bs) = num_words key" by (simp add: bytes_to_words_def)
qed

lemma val_bytes_to_words: "length bs = 4 * num_words key \<Longrightarrow> val (bytes_to_words key bs) = be_val bs"
  by (metis be_val_words_to_bytes words_to_bytes_inverse(1))

lemma be_val_inj: "length xs = length ys \<Longrightarrow> be_val xs = be_val ys \<Longrightarrow> xs = ys"
proof (induction xs ys rule: list_induct2)
  case (Cons x xs y ys)
  let ?k = "256 ^ length xs"
  have l: "be_val xs < ?k" "be_val ys < ?k" using be_val_less [of xs] be_val_less [of ys] Cons.hyps by simp_all
  have e: "unat x * ?k + be_val xs = unat y * ?k + be_val ys" using Cons.prems Cons.hyps by simp
  have "unat x = unat y" using arg_cong [OF e, of "\<lambda>v. v div ?k"] l by simp
  moreover have "be_val xs = be_val ys" using arg_cong [OF e, of "\<lambda>v. v mod ?k"] l by simp
  ultimately show ?case using Cons.IH by (simp add: word_unat_eq_iff)
qed simp

section \<open>The public operation\<close>

lemma bytes_in:
  assumes "key_ok key" "length bs = RSANUMBYTES"
  shows "length (bytes_to_words key bs) = num_words key" "val (bytes_to_words key bs) = be_val bs"
proof -
  have "length bs = 4 * num_words key"
    using assms key_okD(2) [OF assms(1)] by (simp add: RSANUMWORDS_def RSANUMBYTES_def)
  then show "length (bytes_to_words key bs) = num_words key" "val (bytes_to_words key bs) = be_val bs"
    by (simp_all add: words_to_bytes_inverse val_bytes_to_words)
qed

lemma bytes_out:
  assumes "key_ok key" "length ws = num_words key"
  shows "be_val (words_to_bytes (reduceM key ws)) = val ws mod N_of key"
    "length (words_to_bytes (reduceM key ws)) = RSANUMBYTES"
  using reduceM_val [OF assms] key_okD(2) [OF assms(1)]
  by (simp_all add: be_val_words_to_bytes RSANUMWORDS_def RSANUMBYTES_def)

lemma modpow3_val:
  assumes key: "key_ok key" and len: "length bs = RSANUMBYTES"
  shows "be_val (modpow3 key bs) = be_val bs ^ 3 mod N_of key" "length (modpow3 key bs) = RSANUMBYTES"
proof -
  note k = key_okD [OF key] and m = montMul_val(1) [OF key_okD(1) [OF key]]
  let ?a = "bytes_to_words key bs" and ?x = "be_val bs"
  let ?aR = "montMul key ?a (key_rr key)"
  let ?aaR = "montMul key ?aR ?aR"
  note a = bytes_in [OF key len]
  have lR: "length ?aR = num_words key" "length ?aaR = num_words key" "length (montMul key ?aaR ?a) = num_words key"
    using m a k(5) by simp_all
  have aR: "val ?aR mod N_of key = (?x * R_of key) mod N_of key"
    using to_montgomery [OF key a(1)] a(2) by simp
  have "val ?aaR mod N_of key = (?x * (?x * R_of key)) mod N_of key"
    by (rule montMul_lift [OF k(1) lR(1) lR(1) aR aR])
  then have "val ?aaR mod N_of key = (?x * ?x * R_of key) mod N_of key" by (simp add: mult.assoc)
  from montMul_lift [OF k(1) lR(2) a(1) this] a(2)
  have "val (montMul key ?aaR ?a) mod N_of key = ?x ^ 3 mod N_of key"
    by (simp add: numeral_3_eq_3 ac_simps)
  then show "be_val (modpow3 key bs) = be_val bs ^ 3 mod N_of key" "length (modpow3 key bs) = RSANUMBYTES"
    using bytes_out [OF key lR(3)] by (simp_all add: modpow3_def Let_def k(4))
qed

lemma square_twice:
  assumes "key_ok key" "length aR = num_words key" "val aR mod N_of key = (u * R_of key) mod N_of key"
  shows "length (montMul key (montMul key aR aR) (montMul key aR aR)) = num_words key"
    "val (montMul key (montMul key aR aR) (montMul key aR aR)) mod N_of key = (u ^ 4 * R_of key) mod N_of key"
proof -
  note k = key_okD(1) [OF assms(1)]
  let ?s = "montMul key aR aR"
  have l: "length ?s = num_words key" using montMul_val(1) [OF k] assms(2) by simp
  then show "length (montMul key ?s ?s) = num_words key" using montMul_val(1) [OF k] by simp
  have "val ?s mod N_of key = (u * (u * R_of key)) mod N_of key"
    using montMul_lift [OF k assms(2) assms(2) assms(3) assms(3)] .
  then have s: "val ?s mod N_of key = (u * u * R_of key) mod N_of key" by (simp add: mult.assoc)
  from montMul_lift [OF k l l s s] show "val (montMul key ?s ?s) mod N_of key = (u ^ 4 * R_of key) mod N_of key"
    by (simp add: power4_eq_xxxx ac_simps)
qed

lemma squarings:
  assumes "key_ok key" "length aR = num_words key" "val aR mod N_of key = (u * R_of key) mod N_of key"
  defines "f \<equiv> \<lambda>aR. let aaR = montMul key aR aR in montMul key aaR aaR"
  shows "length ((f ^^ i) aR) = num_words key \<and> val ((f ^^ i) aR) mod N_of key = (u ^ (4 ^ i) * R_of key) mod N_of key"
proof (induction i)
  case 0
  then show ?case using assms by simp
next
  case (Suc i)
  then show ?case
    using square_twice [OF assms(1), of "(f ^^ i) aR" "u ^ (4 ^ i)"]
    by (simp add: f_def Let_def power_mult [symmetric] mult.commute)
qed

lemma modpowF4_val:
  assumes key: "key_ok key" and len: "length bs = RSANUMBYTES"
  shows "be_val (modpowF4 key bs) = be_val bs ^ 65537 mod N_of key" "length (modpowF4 key bs) = RSANUMBYTES"
proof -
  note k = key_okD [OF key] and m = montMul_val(1) [OF key_okD(1) [OF key]]
  let ?a = "bytes_to_words key bs" and ?x = "be_val bs"
  let ?aR = "montMul key ?a (key_rr key)"
  let ?f = "\<lambda>aR. let aaR = montMul key aR aR in montMul key aaR aaR"
  let ?sq = "(?f ^^ 8) ?aR"
  note a = bytes_in [OF key len]
  have lR: "length ?aR = num_words key" using m a k(5) by simp
  have aR: "val ?aR mod N_of key = (?x * R_of key) mod N_of key"
    using to_montgomery [OF key a(1)] a(2) by simp
  note sq = squarings [OF key lR aR, of 8]
  have l: "length (montMul key ?sq ?a) = num_words key" using m sq a by simp
  have "val (montMul key ?sq ?a) mod N_of key = (?x ^ (4 ^ 8) * ?x) mod N_of key"
    using montMul_lift [OF k(1) conjunct1 [OF sq] a(1) conjunct2 [OF sq], of ?x] a(2) by simp
  also have "?x ^ (4 ^ 8) * ?x = ?x ^ Suc (4 ^ 8)" by (simp only: power_Suc mult.commute)
  also have "Suc (4 ^ 8) = 65537" by simp
  finally show "be_val (modpowF4 key bs) = be_val bs ^ 65537 mod N_of key" "length (modpowF4 key bs) = RSANUMBYTES"
    using bytes_out [OF key l] by (simp_all only: modpowF4_def Let_def k(4))
qed

lemma length_padding_e3: "length padding_e3 = 236"
  by (simp add: padding_e3_def)

lemma take_drop_eq_append:
  "length xs = length p + length q \<Longrightarrow> (take (length p) xs = p \<and> drop (length p) xs = q) \<longleftrightarrow> xs = p @ q"
  by (metis append_eq_conv_conj append_take_drop_id)

text \<open>
  A key of the right shape: the modulus \<open>2^2048 - 1\<close>, all of whose words are ones.
\<close>

definition ones_key :: "int \<Rightarrow> RSAPublicKey" where
  "ones_key e = \<lparr>key_len = 64, n0inv = 1, key_n = replicate 64 (-1), key_rr = 1 # replicate 63 0, exponent = e\<rparr>"

lemma val_ones: "val (replicate k (-1)) + 1 = W32 ^ k"
proof (induction k)
  case (Suc k)
  have "unat (-1 :: u32) + 1 = W32"
    by (simp only: unsigned_minus_1_eq_mask) (simp add: mask_eq_exp_minus_1 W32_def)
  then have "val (replicate (Suc k) (-1)) + 1 = W32 * (val (replicate k (-1)) + 1)"
    by (simp add: algebra_simps)
  with Suc show ?case by simp
qed simp

lemma ones_key_ok: "key_ok (ones_key e)"
proof -
  have n: "num_words (ones_key e) = 64" by (simp add: num_words_def ones_key_def)
  define N where "N = val (replicate 64 (-1 :: u32))"
  have R: "W32 ^ 64 = N + 1" using val_ones [of 64] by (simp add: N_def)
  have "2 * 1 \<le> W32 ^ 64" by (simp add: W32_def)
  then have N: "1 < N + 1" "1 \<le> N" using R by simp_all
  have "N \<noteq> 1"
  proof
    assume "N = 1"
    then have "W32 ^ 64 = 2" using R by simp
    then show False by (simp add: W32_def)
  qed
  with N have "1 mod N = 1" by simp
  moreover have "(N + 1) * (N + 1) = 1 + N * (N + 2)" by (simp add: algebra_simps)
  ultimately have "(N + 1) * (N + 1) mod N = 1" by (simp only: mod_mult_self2)
  then show ?thesis
    using \<open>1 mod N = 1\<close> N R n
    by (simp add: key_ok_def R_of_def ones_key_def RSANUMWORDS_def RSANUMBYTES_def N_def [symmetric])
qed

section \<open>Soundness of verification\<close>

text \<open>
  C14. Montgomery multiplication of the code: for every key whose \<open>n0inv\<close> is the negated
  inverse of the low word of its modulus, \<open>montMul\<close> computes \<open>a * b / R\<close> modulo
  the key; none of its 64-bit accumulations loses a carry.
\<close>

theorem montMul_correct:
  assumes "mod_ok key" "length a = num_words key" "length b = num_words key"
  shows "(W32 ^ num_words key * val (montMul key a b)) mod val (modulus key)
           = (val a * val b) mod val (modulus key) \<and>
         length (montMul key a b) = num_words key"
  using montMul_val [OF assms] by (simp add: R_of_def)

theorem montMul_correct_witness:
  "(W32 ^ 64 * val (montMul (ones_key 3) (1 # replicate 63 0) (2 # replicate 63 0))) mod val (replicate 64 (-1))
   = val (1 # replicate 63 0) * val (2 # replicate 63 0) mod val (replicate 64 (-1))"
  using montMul_correct [OF key_okD(1) [OF ones_key_ok], of "1 # replicate 63 0" 3 "2 # replicate 63 0"]
    key_okD(2,3) [OF ones_key_ok [of 3]]
  by (simp add: RSANUMWORDS_def RSANUMBYTES_def ones_key_def del: val.simps)

lemma RSA_e3_accepts:
  assumes "key_ok key" "exponent key = 3" "length signature = 256" "length sha = 20"
  shows "RSA_verify ctx key signature 256 sha = 1 \<longleftrightarrow>
           be_val signature ^ 3 mod val (key_n key) = be_val (padding_e3 @ sha)"
proof -
  note k = key_okD [OF assms(1)]
  have l: "length signature = RSANUMBYTES" using assms(3) by (simp add: RSANUMBYTES_def)
  note m = modpow3_val [OF assms(1) l]
  have len: "length (modpow3 key signature) = length padding_e3 + length sha"
    using m(2) assms(4) by (simp add: length_padding_e3 RSANUMBYTES_def)
  have kl: "key_len key = int RSANUMWORDS" using assms(1) by (simp add: key_ok_def)
  have "RSA_verify ctx key signature 256 sha = 1 \<longleftrightarrow> modpow3 key signature = padding_e3 @ sha"
    using assms(2-4) kl take_drop_eq_append [OF len]
    by (auto simp: RSA_verify_def RSA_e_3_verify_def RSANUMBYTES_def Let_def length_padding_e3)
  also have "\<dots> \<longleftrightarrow> be_val (modpow3 key signature) = be_val (padding_e3 @ sha)"
    using be_val_inj len by force
  finally show ?thesis by (simp add: m(1) k(3))
qed

text \<open>
  C15. With exponent 3 a signature is accepted exactly when its cube modulo the key is the
  PKCS#1 encoding (the padding, the algorithm identifier and the digest) as an integer.
\<close>

theorem RSA_verify_e3:
  assumes "key_ok key" "exponent key = 3" "length signature = 256" "length sha = 20"
  shows "RSA_verify ctx key signature 256 sha = 1 \<longleftrightarrow>
           be_val signature ^ 3 mod val (key_n key) = be_val (padding_e3 @ sha)"
  using assms by (rule RSA_e3_accepts)

text \<open>
  C16. With exponent 65537 the test is on the digest of the decrypted block with the
  expected digest cleared by \<open>xor\<close>: acceptance means that the block equal to
  \<open>signature^65537\<close> modulo the key hashes, so cleared, to the constant of the code.
\<close>

theorem RSA_verify_f4:
  assumes "key_ok key" "exponent key = 65537" "length signature = 256" "length (sha_buf ctx) = 64"
    and "length block = 256" "be_val block = be_val signature ^ 65537 mod val (key_n key)"
  shows "RSA_verify ctx key signature 256 sha = 1 \<longleftrightarrow>
           sha1_spec (xor_sha block sha) = kExpectedPadShaRsa2048"
proof -
  note k = key_okD [OF assms(1)]
  have l: "length signature = RSANUMBYTES" using assms(3) by (simp add: RSANUMBYTES_def)
  note m = modpowF4_val [OF assms(1) l]
  have "modpowF4 key signature = block"
    using be_val_inj [of "modpowF4 key signature" block] m assms(5,6) by (simp only: k(3)) (simp add: RSANUMBYTES_def)
  moreover have "key_len key = int RSANUMWORDS" using assms(1) by (simp add: key_ok_def)
  moreover have "SHA ctx d = sha1_spec d" for d
    using sha.chunks [OF assms(4), of "[d]"] by (simp add: SHA_digest_def SHA_def)
  ultimately show ?thesis
    using assms(2,3) by (simp add: RSA_verify_def RSA_e_f4_verify_def RSANUMBYTES_def Let_def)
qed

theorem RSA_verify_f4_witness:
  "RSA_verify zero_ctx (ones_key 65537) (replicate 256 0) 256 (replicate 20 0) = 1 \<longleftrightarrow>
     sha1_spec (xor_sha (replicate 256 0) (replicate 20 0)) = kExpectedPadShaRsa2048"
proof (rule RSA_verify_f4 [OF ones_key_ok])
  have "be_val (replicate k 0) = 0" for k by (induction k) simp_all
  then show "be_val (replicate 256 0) = be_val (replicate 256 0) ^ 65537 mod val (key_n (ones_key 65537))"
    by (simp add: zero_power)
qed (simp_all add: ones_key_def zero_ctx_def)

text \<open>
  Nothing else is accepted: the result is 0 or 1, and 1 only for a 256-byte
  signature and a 64-word key with one of the two exponents.
\<close>

lemma RSA_verify_accepts_only:
  "RSA_verify ctx key signature sig_len sha =
     (if key_len key = 64 \<and> sig_len = 256 \<and> exponent key \<in> {3, 65537}
         \<and> RSA_verify ctx key signature 256 sha \<noteq> 0 then 1 else 0)"
  by (auto simp: RSA_verify_def RSA_e_3_verify_def RSA_e_f4_verify_def RSANUMWORDS_def
      RSANUMBYTES_def Let_def)

end
