(* ===== verification/Verifier.thy ===== *)
theory Verifier
  imports Rsa
begin

text \<open>
  The whole-file signature check of an update archive, \<open>verify_file\<close> in
  \<open>client/recovery/utils/verifier.c\<close>. A file is the list of its bytes; what the
  operating system and the allocator decide (whether the file opens, whether a
  \<open>malloc\<close> succeeds, what uninitialised stack memory holds) is the record
  \<open>verify_env\<close>. \<open>size_t\<close> is the 32-bit word of the target. An access outside a
  buffer is an outcome of its own.
\<close>

datatype verdict = VERIFY_SUCCESS | VERIFY_FAILURE | OUT_OF_BOUNDS

record verify_env =
  file_content :: "u8 list option"
  malloc_eocd_ok :: bool
  malloc_buffer_ok :: bool
  stack_ctx :: SHA_CTX
  rsa_stack_ctx :: SHA_CTX

definition FOOTER_SIZE :: nat where
  "FOOTER_SIZE = 6"

definition EOCD_HEADER_SIZE :: nat where
  "EOCD_HEADER_SIZE = 22"

definition BUFFER_SIZE :: nat where
  "BUFFER_SIZE = 4096"

definition le16_at :: "u8 list \<Rightarrow> nat \<Rightarrow> u32" where
  "le16_at b i = ucast (b ! i) + push_bit 8 (ucast (b ! (i + 1)))"

definition marker_at :: "u8 list \<Rightarrow> nat \<Rightarrow> bool" where
  "marker_at b i \<longleftrightarrow> b ! i = 0x50 \<and> b ! (i + 1) = 0x4b \<and> b ! (i + 2) = 0x05 \<and> b ! (i + 3) = 0x06"

text \<open>
  \<open>fseek\<close> from the end followed by \<open>fread\<close> of everything up to the end: the seek
  fails when it would go before the start.
\<close>

definition read_tail :: "u8 list \<Rightarrow> nat \<Rightarrow> u8 list option" where
  "read_tail c n = (if n \<le> length c then Some (drop (length c - n) c) else None)"

text \<open>The loop that hashes the signed part in pieces of at most \<open>BUFFER_SIZE\<close> bytes.\<close>

function hash_loop :: "SHA_CTX \<Rightarrow> u8 list \<Rightarrow> nat \<Rightarrow> nat \<Rightarrow> SHA_CTX option" where
  "hash_loop ctx c so_far signed_len =
     (if so_far < signed_len then
        let size = (if signed_len - so_far < BUFFER_SIZE then signed_len - so_far else BUFFER_SIZE);
            chunk = take size (drop so_far c)
        in if length chunk \<noteq> size then None
           else hash_loop (SHA_update ctx chunk) c (so_far + size) signed_len
      else Some ctx)"
  by auto
termination
  by (relation "measure (\<lambda>(_, _, so_far, signed_len). signed_len - so_far)")
    (auto simp: BUFFER_SIZE_def split: if_splits)

declare hash_loop.simps [simp del]

text \<open>
  The loop over the keys: the signature is the 256 bytes before the six-byte footer,
  found by pointer arithmetic from the end of the \<open>eocd\<close> buffer.
\<close>

fun try_keys :: "verify_env \<Rightarrow> RSAPublicKey list \<Rightarrow> u8 list \<Rightarrow> u8 list \<Rightarrow> verdict" where
  "try_keys env [] eocd sha1 = VERIFY_FAILURE"
| "try_keys env (key # keys) eocd sha1 =
     (if length eocd < 6 + RSANUMBYTES then OUT_OF_BOUNDS
      else if RSA_verify (rsa_stack_ctx env) key (drop (length eocd - 6 - RSANUMBYTES) eocd)
                (int RSANUMBYTES) sha1 \<noteq> 0
      then VERIFY_SUCCESS else try_keys env keys eocd sha1)"

definition check_signed_part ::
  "verify_env \<Rightarrow> RSAPublicKey list \<Rightarrow> u8 list \<Rightarrow> u8 list \<Rightarrow> nat \<Rightarrow> verdict" where
  "check_signed_part env pKeys c eocd signed_len =
     (if \<not> malloc_buffer_ok env then VERIFY_FAILURE
      else case hash_loop (SHA_init (stack_ctx env)) c 0 signed_len of
             None \<Rightarrow> VERIFY_FAILURE
           | Some ctx \<Rightarrow> try_keys env pKeys eocd (SHA_digest ctx))"

definition check_eocd :: "verify_env \<Rightarrow> RSAPublicKey list \<Rightarrow> u8 list \<Rightarrow> u32 \<Rightarrow> verdict" where
  "check_eocd env pKeys c comment_size =
     (let eocd_size = unat comment_size + EOCD_HEADER_SIZE
      in case read_tail c eocd_size of
           None \<Rightarrow> VERIFY_FAILURE
         | Some eocd \<Rightarrow>
             let signed_len = (length c - eocd_size) + EOCD_HEADER_SIZE - 2
             in if \<not> malloc_eocd_ok env then VERIFY_FAILURE
                else if \<not> marker_at eocd 0 then VERIFY_FAILURE
                else if list_ex (marker_at eocd) [4..<eocd_size - 3] then VERIFY_FAILURE
                else check_signed_part env pKeys c eocd signed_len)"

definition verify_file :: "verify_env \<Rightarrow> RSAPublicKey list \<Rightarrow> verdict" where
  "verify_file env pKeys =
     (case file_content env of
        None \<Rightarrow> VERIFY_FAILURE
      | Some c \<Rightarrow>
         (case read_tail c FOOTER_SIZE of
            None \<Rightarrow> VERIFY_FAILURE
          | Some footer \<Rightarrow>
              if footer ! 2 \<noteq> 0xff \<or> footer ! 3 \<noteq> 0xff then VERIFY_FAILURE
              else let comment_size = le16_at footer 4;
                       signature_start = le16_at footer 0
                   in if signature_start - word_of_nat FOOTER_SIZE < word_of_nat RSANUMBYTES
                      then VERIFY_FAILURE
                      else check_eocd env pKeys c comment_size))"

section \<open>What is hashed\<close>

lemma hash_loop_holds:
  assumes "so_far \<le> signed_len" "signed_len \<le> length c" "holds (take so_far c) ctx"
  shows "\<exists>ctx'. hash_loop ctx c so_far signed_len = Some ctx' \<and> holds (take signed_len c) ctx'"
  using assms
proof (induction ctx c so_far signed_len rule: hash_loop.induct)
  case (1 ctx c so_far signed_len)
  show ?case
  proof (cases "so_far < signed_len")
    case False
    with 1 show ?thesis by (subst hash_loop.simps) simp
  next
    case True
    define size where "size = (if signed_len - so_far < BUFFER_SIZE then signed_len - so_far else BUFFER_SIZE)"
    have s: "so_far + size \<le> signed_len" using True unfolding size_def by (split if_split) linarith
    let ?chunk = "take size (drop so_far c)"
    have l: "length ?chunk = size" using s 1 by simp
    have "holds (take so_far c @ ?chunk) (SHA_update ctx ?chunk)"
      using 1(4) by (rule sha.update_repr)
    then have h: "holds (take (so_far + size) c) (SHA_update ctx ?chunk)" by (simp add: take_add)
    have "hash_loop ctx c so_far signed_len = hash_loop (SHA_update ctx ?chunk) c (so_far + size) signed_len"
      using True l by (subst hash_loop.simps) (simp add: Let_def flip: size_def)
    with 1(1) [OF True size_def refl] l s 1(3) h show ?thesis by simp
  qed
qed

lemma hash_loop_digest:
  assumes "length (sha_buf ctx) = 64" "signed_len \<le> length c"
  shows "\<exists>ctx'. hash_loop (SHA_init ctx) c 0 signed_len = Some ctx' \<and>
           SHA_digest ctx' = sha1_spec (take signed_len c)"
proof -
  have "holds (take 0 c) (SHA_init ctx)" using sha.init_repr [OF assms(1)] by simp
  from hash_loop_holds [OF _ assms(2) this] show ?thesis using sha.final_repr by blast
qed

lemma try_keys_iff:
  assumes "6 + RSANUMBYTES \<le> length eocd"
  shows "try_keys env keys eocd sha1 =
    (if \<exists>key\<in>set keys. RSA_verify (rsa_stack_ctx env) key (drop (length eocd - 6 - RSANUMBYTES) eocd)
                (int RSANUMBYTES) sha1 \<noteq> 0 then VERIFY_SUCCESS else VERIFY_FAILURE)"
  using assms by (induction keys) auto

text \<open>
  The archive layout the check accepts: the comment size and signature offset of the
  footer, the end-of-central-directory record they point at, and the part of the file in
  front of the comment length field.
\<close>

definition comment_size_of :: "u8 list \<Rightarrow> nat" where
  "comment_size_of c = unat (le16_at (drop (length c - 6) c) 4)"

definition footer_ok :: "u8 list \<Rightarrow> bool" where
  "footer_ok c \<longleftrightarrow> 6 \<le> length c \<and> c ! (length c - 4) = 0xff \<and> c ! (length c - 3) = 0xff \<and>
     \<not> le16_at (drop (length c - 6) c) 0 - 6 < 256"

definition eocd_ok :: "u8 list \<Rightarrow> bool" where
  "eocd_ok c \<longleftrightarrow> (let start = length c - (comment_size_of c + 22)
     in comment_size_of c + 22 \<le> length c \<and> marker_at (drop start c) 0 \<and>
        (\<forall>i. 4 \<le> i \<longrightarrow> i < comment_size_of c + 19 \<longrightarrow> \<not> marker_at (drop start c) i))"

definition signed_part :: "u8 list \<Rightarrow> u8 list" where
  "signed_part c = take (length c - (comment_size_of c + 2)) c"

definition signature_of :: "u8 list \<Rightarrow> u8 list" where
  "signature_of c = drop (length c - 262) c"

lemma verify_file_unfold:
  assumes "file_content env = Some c"
  shows "verify_file env keys =
    (if footer_ok c then check_eocd env keys c (le16_at (drop (length c - 6) c) 4) else VERIFY_FAILURE)"
proof (cases "6 \<le> length c")
  case True
  have e: "length c - 6 + 2 = length c - 4" "length c - 6 + 3 = length c - 3" using True by linarith+
  have "drop (length c - 6) c ! 2 = c ! (length c - 4)" "drop (length c - 6) c ! 3 = c ! (length c - 3)"
    using True by (simp_all only: nth_drop e diff_le_self)
  then show ?thesis
    using assms True by (simp add: verify_file_def read_tail_def footer_ok_def FOOTER_SIZE_def RSANUMBYTES_def Let_def)
next
  case False
  then show ?thesis using assms by (simp add: verify_file_def read_tail_def footer_ok_def FOOTER_SIZE_def)
qed

lemma check_eocd_unfold:
  assumes "malloc_eocd_ok env" "malloc_buffer_ok env" "length (sha_buf (stack_ctx env)) = 64"
  shows "check_eocd env keys c (le16_at (drop (length c - 6) c) 4) =
    (if eocd_ok c then try_keys env keys (drop (length c - (comment_size_of c + 22)) c) (sha1_spec (signed_part c))
     else VERIFY_FAILURE)"
proof (cases "comment_size_of c + 22 \<le> length c")
  case True
  have len: "length c - (comment_size_of c + 22) + 22 - 2 = length c - (comment_size_of c + 2)"
    using True by simp
  obtain ctx' where h: "hash_loop (SHA_init (stack_ctx env)) c 0 (length c - (comment_size_of c + 2)) = Some ctx'"
    "SHA_digest ctx' = sha1_spec (signed_part c)"
    using hash_loop_digest [OF assms(3), of "length c - (comment_size_of c + 2)" c] unfolding signed_part_def by auto
  have all: "list_ex P [4..<19 + comment_size_of c] \<longleftrightarrow> \<not> (\<forall>i. 4 \<le> i \<longrightarrow> i < comment_size_of c + 19 \<longrightarrow> \<not> P i)" for P
    by (auto simp: list_ex_iff)
  show ?thesis
    using True assms(1,2) len h
    by (simp add: check_eocd_def read_tail_def check_signed_part_def EOCD_HEADER_SIZE_def eocd_ok_def Let_def all
        flip: comment_size_of_def)
next
  case False
  then show ?thesis
    by (simp add: check_eocd_def read_tail_def EOCD_HEADER_SIZE_def eocd_ok_def flip: comment_size_of_def)
qed

section \<open>Whole-file verification\<close>

lemma verify_file_accepts:
  assumes "file_content env = Some c" "malloc_eocd_ok env" "malloc_buffer_ok env"
    and "length (sha_buf (stack_ctx env)) = 64" "240 \<le> comment_size_of c"
  shows "verify_file env keys =
    (if footer_ok c \<and> eocd_ok c \<and>
        (\<exists>key\<in>set keys. RSA_verify (rsa_stack_ctx env) key (signature_of c) 256 (sha1_spec (signed_part c)) \<noteq> 0)
     then VERIFY_SUCCESS else VERIFY_FAILURE)"
proof (cases "footer_ok c \<and> eocd_ok c")
  case True
  let ?eocd = "drop (length c - (comment_size_of c + 22)) c"
  have le: "comment_size_of c + 22 \<le> length c" using True by (simp add: eocd_ok_def Let_def)
  then have sig: "drop (length ?eocd - 6 - RSANUMBYTES) ?eocd = signature_of c"
    using assms(5) by (simp add: RSANUMBYTES_def signature_of_def)
  have "6 + RSANUMBYTES \<le> length ?eocd" using le assms(5) by (simp add: RSANUMBYTES_def)
  from try_keys_iff [OF this] show ?thesis
    using True by (simp only: verify_file_unfold [OF assms(1)] check_eocd_unfold [OF assms(2-4)] sig)
      (simp add: RSANUMBYTES_def)
qed (auto simp: verify_file_unfold [OF assms(1)] check_eocd_unfold [OF assms(2-4)])

text \<open>
  C17. An archive whose comment has room for the signature block is accepted exactly when
  its footer and end-of-central-directory record are well formed (the marker where the
  comment size says, and nowhere after it) and its last 262 bytes hold a signature by one
  of the keys over the SHA-1 of the whole file up to the comment length field.
\<close>

theorem verify_file_correct:
  assumes "file_content env = Some c" "malloc_eocd_ok env" "malloc_buffer_ok env"
    and "length (sha_buf (stack_ctx env)) = 64" "240 \<le> comment_size_of c"
  shows "verify_file env keys =
    (if footer_ok c \<and> eocd_ok c \<and>
        (\<exists>key\<in>set keys. RSA_verify (rsa_stack_ctx env) key (signature_of c) 256 (sha1_spec (signed_part c)) \<noteq> 0)
     then VERIFY_SUCCESS else VERIFY_FAILURE)"
  using assms by (rule verify_file_accepts)

definition sample_archive :: "u8 list" where
  "sample_archive = [0x50, 0x4b, 0x05, 0x06] @ replicate 16 0 @ [0x06, 0x01] @ replicate 256 0
     @ [0x06, 0x01, 0xff, 0xff, 0x06, 0x01]"

definition sample_env :: verify_env where
  "sample_env = \<lparr>file_content = Some sample_archive, malloc_eocd_ok = True, malloc_buffer_ok = True,
     stack_ctx = zero_ctx, rsa_stack_ctx = zero_ctx\<rparr>"

text \<open>
  C18. The check \<open>signature_start - 6 < 256\<close> does not protect the signature pointer: the
  pointer is computed from the comment size. An archive with a well-formed footer and
  record whose comment is shorter than 240 bytes makes the loop over the keys read in
  front of the buffer, and a signature offset below 6 passes the check by wrapping
  around.
\<close>

theorem verify_file_short_comment:
  assumes "file_content env = Some c" "malloc_eocd_ok env" "malloc_buffer_ok env"
    and "length (sha_buf (stack_ctx env)) = 64" "comment_size_of c < 240" "footer_ok c" "eocd_ok c"
  shows "verify_file env (key # keys) = OUT_OF_BOUNDS"
proof -
  have "comment_size_of c + 22 \<le> length c" using assms(7) by (simp add: eocd_ok_def Let_def)
  then have "length (drop (length c - (comment_size_of c + 22)) c) < 6 + RSANUMBYTES"
    using assms(5) by (simp add: RSANUMBYTES_def)
  then show ?thesis
    using assms(6,7) by (simp add: verify_file_unfold [OF assms(1)] check_eocd_unfold [OF assms(2-4)])
qed

definition short_archive :: "u8 list" where
  "short_archive = [0x50, 0x4b, 0x05, 0x06, 0, 0, 0, 0, 0, 0, 0, 0, 0, 0, 0, 0, 0, 0, 0, 0,
     0x06, 0x00, 0x05, 0x00, 0xff, 0xff, 0x06, 0x00]"

lemma short_archive_shape:
  "comment_size_of short_archive = 6" "footer_ok short_archive" "eocd_ok short_archive"
proof -
  show c: "comment_size_of short_archive = 6"
    by (simp add: comment_size_of_def short_archive_def le16_at_def)
  show "footer_ok short_archive"
    by (simp add: footer_ok_def short_archive_def le16_at_def)
  have len: "length short_archive = 28" and tl: "0x50 \<notin> set (tl short_archive)"
    by (simp_all add: short_archive_def)
  have "\<not> marker_at short_archive i" if "4 \<le> i" "i < 25" for i
  proof -
    have "short_archive ! i = tl short_archive ! (i - 1)" using that len by (simp add: nth_tl)
    also have "\<dots> \<in> set (tl short_archive)" using that len by (intro nth_mem) simp
    finally show ?thesis using tl by (auto simp: marker_at_def)
  qed
  moreover have "marker_at short_archive 0" by (simp add: short_archive_def marker_at_def)
  ultimately show "eocd_ok short_archive" by (simp add: eocd_ok_def c len)
qed

theorem verify_file_short_comment_witness:
  "verify_file (sample_env\<lparr>file_content := Some short_archive\<rparr>) [ones_key 3] = OUT_OF_BOUNDS"
  using verify_file_short_comment [of "sample_env\<lparr>file_content := Some short_archive\<rparr>" short_archive "ones_key 3" "[]"]
    short_archive_shape
  by (simp add: sample_env_def zero_ctx_def)

end
