(* ===== verification/Scan.thy ===== *)
theory Scan
  imports Prelude
begin

text \<open>
  Number scanning as \<open>fscanf\<close> and the \<open>strto*\<close> family do it, shared by the key
  file parser and the XML update description: a scanner takes the rest of the input and
  returns a value and what is left, or \<open>None\<close> when nothing matches. \<open>long\<close> is 32 bits
  wide on the target. The printer of numbers is here too, with the facts that the
  scanners read back what it prints.
\<close>

section \<open>Scanning\<close>

definition is_space :: "char \<Rightarrow> bool" where
  "is_space c \<longleftrightarrow> (of_char c :: nat) = 32 \<or> (9 \<le> (of_char c :: nat) \<and> (of_char c :: nat) \<le> 13)"

definition skip_ws :: "string \<Rightarrow> string" where
  "skip_ws s = dropWhile is_space s"

definition lit :: "char \<Rightarrow> string \<Rightarrow> string option" where
  "lit c s = (case s of [] \<Rightarrow> None | d # r \<Rightarrow> if d = c then Some r else None)"

text \<open>A literal preceded by white space in the format.\<close>

definition ws_lit :: "char \<Rightarrow> string \<Rightarrow> string option" where
  "ws_lit c s = lit c (skip_ws s)"

definition digit_val :: "char \<Rightarrow> nat" where
  "digit_val c =
     (let n = of_char c
      in if 48 \<le> n \<and> n \<le> 57 then n - 48
         else if 97 \<le> n \<and> n \<le> 122 then n - 87
         else if 65 \<le> n \<and> n \<le> 90 then n - 55 else 99)"

definition is_digit :: "nat \<Rightarrow> char \<Rightarrow> bool" where
  "is_digit b c \<longleftrightarrow> digit_val c < b"

definition digits_val :: "nat \<Rightarrow> string \<Rightarrow> nat" where
  "digits_val b ds = foldl (\<lambda>a d. a * b + digit_val d) 0 ds"

definition scan_sign :: "string \<Rightarrow> bool \<times> string" where
  "scan_sign s =
     (case s of [] \<Rightarrow> (False, s)
      | c # r \<Rightarrow> if c = CHR ''-'' then (True, r) else if c = CHR ''+'' then (False, r) else (False, s))"

definition scan_digits :: "nat \<Rightarrow> string \<Rightarrow> (nat \<times> string) option" where
  "scan_digits b s =
     (let ds = takeWhile (is_digit b) s
      in if ds = [] then None else Some (digits_val b ds, dropWhile (is_digit b) s))"

definition strip_0x :: "string \<Rightarrow> string" where
  "strip_0x s =
     (case s of c # d # e # r \<Rightarrow>
        if c = CHR ''0'' \<and> (d = CHR ''x'' \<or> d = CHR ''X'') \<and> is_digit 16 e then e # r else s
      | _ \<Rightarrow> s)"

text \<open>A prefix \<open>0x\<close> without a hexadecimal digit after it is no number.\<close>

definition dangling_0x :: "string \<Rightarrow> bool" where
  "dangling_0x s =
     (case s of c # d # r \<Rightarrow> c = CHR ''0'' \<and> (d = CHR ''x'' \<or> d = CHR ''X'') \<and>
        (case r of [] \<Rightarrow> True | e # _ \<Rightarrow> \<not> is_digit 16 e)
      | _ \<Rightarrow> False)"

definition strtol_val :: "bool \<Rightarrow> nat \<Rightarrow> int" where
  "strtol_val neg v =
     (if neg then (if v > 2 ^ 31 then - (2 ^ 31) else - int v)
      else (if v \<ge> 2 ^ 31 then 2 ^ 31 - 1 else int v))"

definition strtoul_val :: "bool \<Rightarrow> nat \<Rightarrow> u32" where
  "strtoul_val neg v =
     (if v \<ge> 2 ^ 32 then 0xffffffff else if neg then - word_of_nat v else word_of_nat v)"

text \<open>
  \<open>strtoull\<close>, \<open>strtoll\<close> and \<open>strtoul\<close> with base 0: the base is read off the prefix,
  no digits give 0, what follows the digits is ignored, and the value saturates.
\<close>

definition auto_base :: "string \<Rightarrow> nat" where
  "auto_base s = (if strip_0x s \<noteq> s then 16 else if s \<noteq> [] \<and> hd s = CHR ''0'' then 8 else 10)"

definition strto_magnitude :: "string \<Rightarrow> bool \<times> nat" where
  "strto_magnitude s =
     (let (neg, s) = scan_sign (skip_ws s)
      in (neg, digits_val (auto_base s) (takeWhile (is_digit (auto_base s)) (strip_0x s))))"

definition strtoull0 :: "string \<Rightarrow> u64" where
  "strtoull0 s =
     (let (neg, v) = strto_magnitude s
      in if v \<ge> 2 ^ 64 then -1 else if neg then - word_of_nat v else word_of_nat v)"

definition strtoll0 :: "string \<Rightarrow> int" where
  "strtoll0 s =
     (let (neg, v) = strto_magnitude s
      in if neg then (if v > 2 ^ 63 then - (2 ^ 63) else - int v)
         else (if v \<ge> 2 ^ 63 then 2 ^ 63 - 1 else int v))"

definition strtoul0 :: "string \<Rightarrow> u32" where
  "strtoul0 s = (let (neg, v) = strto_magnitude s in strtoul_val neg v)"

section \<open>Printing numbers\<close>

definition digit_char :: "nat \<Rightarrow> char" where
  "digit_char d = (if d < 10 then char_of (48 + d) else char_of (87 + d))"

fun show_base :: "nat \<Rightarrow> nat \<Rightarrow> string" where
  "show_base b n = (if n < b \<or> b < 2 then [digit_char n] else show_base b (n div b) @ [digit_char (n mod b)])"

declare show_base.simps [simp del]

section \<open>Scanning makes progress\<close>

lemma length_skip_ws: "length (skip_ws s) \<le> length s"
  by (simp add: skip_ws_def length_dropWhile_le)

lemma length_lit: "lit c s = Some r \<Longrightarrow> length r < length s"
  by (auto simp: lit_def split: list.splits if_splits)

lemma length_ws_lit: "ws_lit c s = Some r \<Longrightarrow> length r < length s"
  using length_lit [of c "skip_ws s" r] length_skip_ws [of s] by (auto simp: ws_lit_def)

lemma length_scan_sign: "length (snd (scan_sign s)) \<le> length s"
  by (auto simp: scan_sign_def split: list.splits)

lemma length_scan_digits: "scan_digits b s = Some (v, r) \<Longrightarrow> length r \<le> length s"
  by (auto simp: scan_digits_def Let_def length_dropWhile_le split: if_splits)

lemma length_strip_0x: "length (strip_0x s) \<le> length s"
  by (auto simp: strip_0x_def split: list.splits)

section \<open>Reading back what is printed\<close>

lemma digit_char_cases:
  "d < 16 \<Longrightarrow> digit_val (digit_char d) = d \<and> \<not> is_space (digit_char d) \<and>
     digit_char d \<noteq> CHR ''-'' \<and> digit_char d \<noteq> CHR ''+'' \<and> digit_char d \<noteq> CHR ''x'' \<and> digit_char d \<noteq> CHR ''X''"
proof -
  assume "d < 16"
  then have "d \<in> {0, 1, 2, 3, 4, 5, 6, 7, 8, 9, 10, 11, 12, 13, 14, 15}"
    by simp arith
  then show ?thesis
    by (elim insertE) (simp_all add: digit_char_def digit_val_def is_space_def Let_def char_of_def bit_Suc_0_iff)
qed

lemma digits_val_snoc: "digits_val b (ds @ [c]) = digits_val b ds * b + digit_val c"
  by (simp add: digits_val_def)

lemma show_base_digits:
  assumes "2 \<le> b" "b \<le> 16"
  shows "digits_val b (show_base b n) = n \<and> show_base b n \<noteq> [] \<and>
         (\<forall>c\<in>set (show_base b n). is_digit b c \<and> \<not> is_space c \<and> c \<notin> set ''-+xX'')"
  using assms
proof (induction b n rule: show_base.induct)
  case (1 b n)
  show ?case
  proof (cases "n < b")
    case True
    then show ?thesis
      using 1 digit_char_cases [of n] by (subst (1 2 3) show_base.simps) (simp add: digits_val_def is_digit_def)
  next
    case False
    have "n mod b < b" using 1(2) by simp
    moreover from this have "n mod b < 16" using 1(3) by linarith
    ultimately show ?thesis
      using 1 False digit_char_cases [of "n mod b"]
      by (subst (1 2 3) show_base.simps) (auto simp: digits_val_snoc is_digit_def)
  qed
qed

lemma scan_digits_show:
  assumes "2 \<le> b" "b \<le> 16" "\<not> is_digit b c"
  shows "scan_digits b (show_base b n @ c # r) = Some (n, c # r)"
proof -
  have "takeWhile (is_digit b) (show_base b n @ c # r) = show_base b n"
    "dropWhile (is_digit b) (show_base b n @ c # r) = c # r"
    using show_base_digits [OF assms(1,2), of n] assms(3)
    by (simp_all add: takeWhile_append2 dropWhile_append2)
  then show ?thesis using show_base_digits [OF assms(1,2), of n] by (simp add: scan_digits_def Let_def)
qed

lemma show_base_cons:
  assumes "2 \<le> b" "b \<le> 16"
  obtains d ds where "show_base b n = d # ds" "\<not> is_space d" "d \<notin> set ''-+''"
  using show_base_digits [OF assms, of n] by (cases "show_base b n") auto

lemma skip_ws_nospace: "\<not> is_space c \<Longrightarrow> skip_ws (c # r) = c # r"
  by (simp add: skip_ws_def)

end
