(* ===== verification/LoadKeys.thy ===== *)
theory LoadKeys
  imports Rsa Scan "HOL-Library.Monad_Syntax"
begin

text \<open>
  The parser of public key files, \<open>load_keys\<close> in
  \<open>client/recovery/utils/verifier.c\<close>, with the conversions of \<open>fscanf\<close> it uses: a
  scanner takes the rest of the input and returns a value and what is left of the input,
  or \<open>None\<close> when the directive does not match. \<open>long\<close> and \<open>int\<close> are 32 bits wide;
  the conversions saturate as \<open>strtol\<close> and \<open>strtoul\<close> do. The memory that \<open>realloc\<close>
  returns is uninitialised: \<open>garbage\<close> is what it holds.
\<close>

section \<open>Conversions\<close>

definition scan_d :: "string \<Rightarrow> (int \<times> string) option" where
  "scan_d s =
     (let (neg, s) = scan_sign (skip_ws s)
      in do { (v, r) \<leftarrow> scan_digits 10 s; Some (strtol_val neg v, r) })"

definition scan_u :: "string \<Rightarrow> (u32 \<times> string) option" where
  "scan_u s =
     (let (neg, s) = scan_sign (skip_ws s)
      in do { (v, r) \<leftarrow> scan_digits 10 s; Some (strtoul_val neg v, r) })"

definition scan_x :: "string \<Rightarrow> (u32 \<times> string) option" where
  "scan_x s =
     (let (neg, s) = scan_sign (skip_ws s)
      in if dangling_0x s then None
         else do { (v, r) \<leftarrow> scan_digits 16 (strip_0x s); Some (strtoul_val neg v, r) })"

definition scan_i :: "string \<Rightarrow> (int \<times> string) option" where
  "scan_i s =
     (let (neg, s) = scan_sign (skip_ws s);
          base = auto_base s
      in if dangling_0x s then None
         else do { (v, r) \<leftarrow> scan_digits base (strip_0x s); Some (strtol_val neg v, r) })"

definition scan_c :: "string \<Rightarrow> (char \<times> string) option" where
  "scan_c s = (case skip_ws s of [] \<Rightarrow> None | c # r \<Rightarrow> Some (c, r))"

section \<open>One key\<close>

fun scan_words :: "nat \<Rightarrow> string \<Rightarrow> (u32 list \<times> string) option" where
  "scan_words 0 s = Some ([], s)"
| "scan_words (Suc k) s = do {
     s \<leftarrow> ws_lit CHR '','' s;
     (w, s) \<leftarrow> scan_u s;
     (ws, s) \<leftarrow> scan_words k s;
     Some (w # ws, s) }"

text \<open>
  The first character decides the exponent; any other character than \<open>{\<close> and \<open>v\<close> is
  consumed and leaves the exponent as it was in memory.
\<close>

definition scan_exponent :: "int \<Rightarrow> string \<Rightarrow> (int \<times> string) option" where
  "scan_exponent old s = do {
     (start_char, s) \<leftarrow> scan_c s;
     if start_char = CHR ''{'' then Some (3, s)
     else if start_char = CHR ''v'' then do {
       (version, s) \<leftarrow> scan_d s;
       s \<leftarrow> Some (case ws_lit CHR ''{'' s of None \<Rightarrow> skip_ws s | Some r \<Rightarrow> r);
       if version = 2 then Some (65537, s) else None }
     else Some (old, s) }"

definition scan_fields :: "int \<Rightarrow> string \<Rightarrow> (RSAPublicKey \<times> string) option" where
  "scan_fields e s = do {
     (len, s) \<leftarrow> scan_i s;
     s \<leftarrow> ws_lit CHR '','' s;
     s \<leftarrow> ws_lit CHR ''0'' s;
     s \<leftarrow> lit CHR ''x'' s;
     (ninv, s) \<leftarrow> scan_x s;
     s \<leftarrow> ws_lit CHR '','' s;
     s \<leftarrow> ws_lit CHR ''{'' s;
     (n0, s) \<leftarrow> scan_u s;
     if len \<noteq> int RSANUMWORDS then None else do {
       (ns, s) \<leftarrow> scan_words (nat len - 1) s;
       s \<leftarrow> ws_lit CHR ''}'' s;
       s \<leftarrow> ws_lit CHR '','' s;
       s \<leftarrow> ws_lit CHR ''{'' s;
       (r0, s) \<leftarrow> scan_u s;
       (rs, s) \<leftarrow> scan_words (nat len - 1) s;
       Some (\<lparr>key_len = len, n0inv = ninv, key_n = n0 # ns, key_rr = r0 # rs, exponent = e\<rparr>, s) } }"

definition scan_key :: "RSAPublicKey \<Rightarrow> string \<Rightarrow> (RSAPublicKey \<times> string) option" where
  "scan_key garbage s = do {
     (e, s) \<leftarrow> scan_exponent (exponent garbage) s;
     scan_fields e s }"

text \<open>The result of \<open>fscanf(f, " } } ")\<close> is ignored.\<close>

definition skip_close :: "string \<Rightarrow> string" where
  "skip_close s =
     (case ws_lit CHR ''}'' s of
        None \<Rightarrow> skip_ws s
      | Some s \<Rightarrow> (case ws_lit CHR ''}'' s of None \<Rightarrow> skip_ws s | Some s \<Rightarrow> skip_ws s))"

section \<open>Scanning makes progress\<close>

lemma length_scans:
  "scan_d s = Some (i, r) \<Longrightarrow> length r \<le> length s"
  "scan_u s = Some (w, r) \<Longrightarrow> length r \<le> length s"
  "scan_x s = Some (w, r) \<Longrightarrow> length r \<le> length s"
  "scan_i s = Some (i, r) \<Longrightarrow> length r \<le> length s"
proof -
  obtain neg t where t: "scan_sign (skip_ws s) = (neg, t)" by (metis surj_pair)
  then have "length t \<le> length s"
    using length_scan_sign [of "skip_ws s"] length_skip_ws [of s] by simp
  then have l: "length r \<le> length s" if "scan_digits b t = Some (v, r) \<or> scan_digits b (strip_0x t) = Some (v, r)" for b v
    using that length_scan_digits [of b t v r] length_scan_digits [of b "strip_0x t" v r] length_strip_0x [of t]
    by linarith
  show "scan_d s = Some (i, r) \<Longrightarrow> length r \<le> length s"
    "scan_u s = Some (w, r) \<Longrightarrow> length r \<le> length s"
    "scan_x s = Some (w, r) \<Longrightarrow> length r \<le> length s"
    "scan_i s = Some (i, r) \<Longrightarrow> length r \<le> length s"
    using l t by (auto simp: scan_d_def scan_u_def scan_x_def scan_i_def Let_def bind_eq_Some_conv split: if_splits)
qed

lemma length_scan_c: "scan_c s = Some (c, r) \<Longrightarrow> length r < length s"
  using length_skip_ws [of s] by (auto simp: scan_c_def split: list.splits)

lemma length_scan_words: "scan_words k s = Some (ws, r) \<Longrightarrow> length r \<le> length s"
  by (induction k s arbitrary: ws r rule: scan_words.induct)
    (fastforce simp: bind_eq_Some_conv dest: length_ws_lit length_scans(2))+

lemma length_scan_exponent: "scan_exponent old s = Some (e, r) \<Longrightarrow> length r < length s"
  using length_skip_ws
  by (fastforce simp: scan_exponent_def bind_eq_Some_conv dest: length_scan_c length_scans(1) length_ws_lit
      split: if_splits option.splits intro: order.strict_trans1 order.strict_trans2)

lemma length_scan_key:
  assumes "scan_key g s = Some (k, r)"
  shows "length r < length s"
  using assms unfolding scan_key_def scan_fields_def
  by (auto simp: bind_eq_Some_conv split: if_splits dest!: length_scan_exponent length_scans length_ws_lit length_lit length_scan_words)

lemma length_skip_close: "length (skip_close s) \<le> length s"
  using length_skip_ws length_ws_lit
  by (auto simp: skip_close_def split: option.splits) (meson less_imp_le order_trans)+

section \<open>The file\<close>

function load_loop :: "RSAPublicKey \<Rightarrow> string \<Rightarrow> RSAPublicKey list option" where
  "load_loop garbage s =
     (case scan_key garbage s of
        None \<Rightarrow> None
      | Some (key, s) \<Rightarrow>
         (case skip_close s of
            [] \<Rightarrow> Some [key]
          | c # r \<Rightarrow> if c = CHR '','' then
                       (case load_loop garbage r of None \<Rightarrow> None | Some keys \<Rightarrow> Some (key # keys))
                     else None))"
  by auto
termination
proof (relation "measure (\<lambda>(_, s). length s)")
  fix garbage s p key t c r
  assume "scan_key garbage s = Some p" "(key, t) = p" "skip_close t = c # r"
  then show "((garbage, r), garbage, s) \<in> measure (\<lambda>(_, s). length s)"
    using length_scan_key [of garbage s key t] length_skip_close [of t] by simp
qed simp

declare load_loop.simps [simp del]

text \<open>The array of keys (or \<open>NULL\<close>) and the value left in \<open>*numKeys\<close>.\<close>

definition load_keys :: "RSAPublicKey \<Rightarrow> string option \<Rightarrow> RSAPublicKey list option \<times> nat" where
  "load_keys garbage file =
     (case file of
        None \<Rightarrow> (None, 0)
      | Some s \<Rightarrow> (case load_loop garbage s of
                    None \<Rightarrow> (None, 0)
                  | Some keys \<Rightarrow> (Some keys, length keys)))"

section \<open>The format of DumpPublicKey\<close>

text \<open>
  The printed form the comment of \<open>load_keys\<close> describes: \<open>n0inv\<close> in hexadecimal, the
  words as signed decimals, \<open>v2\<close> in front of the key for exponent 65537, a comma
  between keys.
\<close>

definition show_word :: "u32 \<Rightarrow> string" where
  "show_word w =
     (if sint w < 0 then CHR ''-'' # show_base 10 (nat (- sint w)) else show_base 10 (nat (sint w)))"

fun show_words :: "u32 list \<Rightarrow> string" where
  "show_words [] = []"
| "show_words (w # ws) = CHR '','' # show_word w @ show_words ws"

definition show_array :: "u32 list \<Rightarrow> string" where
  "show_array ws = CHR ''{'' # show_word (hd ws) @ show_words (tl ws) @ ''}''"

definition show_key :: "RSAPublicKey \<Rightarrow> string" where
  "show_key k =
     (if exponent k = 65537 then ''v2 '' else []) @ ''{64,0x'' @ show_base 16 (unat (n0inv k)) @
     '','' @ show_array (key_n k) @ '','' @ show_array (key_rr k) @ ''}''"

fun show_keys :: "RSAPublicKey list \<Rightarrow> string" where
  "show_keys [] = []"
| "show_keys [k] = show_key k"
| "show_keys (k # ks) = show_key k @ '','' @ show_keys ks"

section \<open>Reading back what is printed\<close>

lemma scan_u_show:
  assumes "\<not> is_digit 10 c"
  shows "scan_u (show_word w @ c # r) = Some (w, c # r)"
proof (cases "sint w < 0")
  case True
  have "- sint w \<le> 2147483648" using sint_greater_eq [of w] by simp
  then have "\<not> 4294967296 \<le> nat (- sint w)" by linarith
  then have "strtoul_val True (nat (- sint w)) = w"
    using True by (simp add: strtoul_val_def)
  then show ?thesis
    using True scan_digits_show [of 10 c "nat (- sint w)" r] assms
    by (simp add: scan_u_def show_word_def skip_ws_def is_space_def scan_sign_def)
next
  case False
  obtain d ds where d: "show_base 10 (nat (sint w)) = d # ds" "\<not> is_space d" "d \<notin> set ''-+''"
    by (rule show_base_cons [of 10 "nat (sint w)"]) auto
  have "sint w < 2147483648" using sint_less [of w] by simp
  then have "\<not> 4294967296 \<le> nat (sint w)" by linarith
  then have "strtoul_val False (nat (sint w)) = w"
    using False by (simp add: strtoul_val_def)
  then show ?thesis
    using False scan_digits_show [of 10 c "nat (sint w)" r] assms d
    by (simp add: scan_u_def show_word_def skip_ws_nospace scan_sign_def)
qed

lemma scan_x_show: "scan_x (show_base 16 n @ CHR '','' # r) = Some (strtoul_val False n, CHR '','' # r)"
proof -
  have dg: "2 \<le> (16 :: nat)" "(16 :: nat) \<le> 16" by simp_all
  obtain d ds where d: "show_base 16 n = d # ds" "\<not> is_space d" "d \<notin> set ''-+''"
    using dg by (rule show_base_cons)
  have "\<forall>c\<in>set (d # ds). c \<notin> set ''-+xX''" using show_base_digits [OF dg, of n] d(1) by auto
  then have "\<not> dangling_0x (d # ds @ CHR '','' # r)" "strip_0x (d # ds @ CHR '','' # r) = d # ds @ CHR '','' # r"
    by (cases ds; auto simp: dangling_0x_def strip_0x_def split: list.splits)+
  moreover have "scan_digits 16 (show_base 16 n @ CHR '','' # r) = Some (n, CHR '','' # r)"
    by (rule scan_digits_show) (simp_all add: is_digit_def digit_val_def)
  ultimately show ?thesis
    using d by (simp add: scan_x_def skip_ws_nospace scan_sign_def)
qed

lemma strtoul_unat: "strtoul_val False (unat (w :: u32)) = w"
  using unat_u32_less [of w] by (simp add: strtoul_val_def)

lemma ws_lit_same: "\<not> is_space c \<Longrightarrow> ws_lit c (c # r) = Some r"
  by (simp add: ws_lit_def skip_ws_def lit_def)

lemma punctuation:
  "\<not> is_space CHR '',''" "\<not> is_space CHR ''{''" "\<not> is_space CHR ''}''" "\<not> is_space CHR ''0''"
  "\<not> is_digit 10 CHR '',''" "\<not> is_digit 10 CHR ''}''"
  by (simp_all add: is_space_def is_digit_def digit_val_def)

lemma scan_words_show:
  "scan_words (length ws) (show_words ws @ CHR ''}'' # r) = Some (ws, CHR ''}'' # r)"
proof (induction ws)
  case (Cons w ws)
  obtain c t where c: "show_words ws @ CHR ''}'' # r = c # t" "c = CHR '','' \<or> c = CHR ''}''"
    by (cases ws) auto
  have "scan_u (show_word w @ c # t) = Some (w, c # t)"
    using c(2) punctuation by (intro scan_u_show) auto
  with Cons show ?case
    by (simp add: ws_lit_same punctuation flip: c(1))
qed simp

lemma scan_array:
  assumes "length ws = Suc k"
  shows "\<exists>t. scan_u (show_word (hd ws) @ show_words (tl ws) @ CHR ''}'' # r) = Some (hd ws, t) \<and>
             scan_words k t = Some (tl ws, CHR ''}'' # r)"
proof -
  obtain w vs where ws: "ws = w # vs" "length vs = k" using assms by (cases ws) auto
  obtain c t where c: "show_words vs @ CHR ''}'' # r = c # t" "c = CHR '','' \<or> c = CHR ''}''"
    by (cases vs) auto
  have "scan_u (show_word w @ c # t) = Some (w, c # t)"
    using c(2) punctuation by (intro scan_u_show) auto
  then show ?thesis
    using scan_words_show [of vs r] ws by (simp flip: c(1))
qed

text \<open>What the printer and the parser can represent.\<close>

definition printable :: "RSAPublicKey \<Rightarrow> bool" where
  "printable k \<longleftrightarrow> key_len k = int RSANUMWORDS \<and> length (key_n k) = RSANUMWORDS \<and>
     length (key_rr k) = RSANUMWORDS \<and> exponent k \<in> {3, 65537}"

lemma scan_exponent_show:
  "e \<in> {3, 65537} \<Longrightarrow>
   scan_exponent old ((if e = 65537 then ''v2 '' else []) @ CHR ''{'' # r) = Some (e, r)"
  by (auto simp: scan_exponent_def scan_c_def skip_ws_def is_space_def scan_d_def scan_sign_def scan_digits_def
      is_digit_def digit_val_def digits_val_def strtol_val_def ws_lit_def lit_def Let_def)

lemma scan_i_64: "scan_i (CHR ''6'' # CHR ''4'' # CHR '','' # r) = Some (64, CHR '','' # r)"
  by (simp add: scan_i_def auto_base_def skip_ws_def is_space_def scan_sign_def strip_0x_def dangling_0x_def scan_digits_def
      is_digit_def digit_val_def digits_val_def strtol_val_def Let_def split: list.splits)

definition show_fields :: "RSAPublicKey \<Rightarrow> string" where
  "show_fields k = ''64,0x'' @ show_base 16 (unat (n0inv k)) @
     '','' @ show_array (key_n k) @ '','' @ show_array (key_rr k) @ ''}''"

lemma scan_fields_show:
  assumes "printable k"
  shows "scan_fields e (show_fields k @ r) = Some (k\<lparr>exponent := e\<rparr>, CHR ''}'' # CHR ''}'' # r)"
proof -
  have k: "key_len k = 64" "length (key_n k) = Suc 63" "length (key_rr k) = Suc 63" "length (key_n k) \<noteq> 0"
    using assms by (simp_all add: printable_def RSANUMWORDS_def RSANUMBYTES_def)
  let ?rr = "show_word (hd (key_rr k)) @ show_words (tl (key_rr k)) @ CHR ''}'' # CHR ''}'' # r"
  let ?n = "show_word (hd (key_n k)) @ show_words (tl (key_n k)) @ CHR ''}'' # CHR '','' # CHR ''{'' # ?rr"
  obtain t where t: "scan_u ?rr = Some (hd (key_rr k), t)" "scan_words 63 t = Some (tl (key_rr k), CHR ''}'' # CHR ''}'' # r)"
    using scan_array [OF k(3)] by blast
  obtain u where u: "scan_u ?n = Some (hd (key_n k), u)"
    "scan_words 63 u = Some (tl (key_n k), CHR ''}'' # CHR '','' # CHR ''{'' # ?rr)"
    using scan_array [OF k(2)] by blast
  have "key_n k \<noteq> []" "key_rr k \<noteq> []" using k by auto
  then have same: "\<lparr>key_len = 64, n0inv = n0inv k, key_n = hd (key_n k) # tl (key_n k),
      key_rr = hd (key_rr k) # tl (key_rr k), exponent = e\<rparr> = k\<lparr>exponent := e\<rparr>"
    using k(1) by (cases k) simp
  let ?x = "show_base 16 (unat (n0inv k)) @ CHR '','' # CHR ''{'' # ?n"
  have "show_fields k @ r = CHR ''6'' # CHR ''4'' # CHR '','' # CHR ''0'' # CHR ''x'' # ?x"
    by (simp add: show_fields_def show_array_def)
  moreover have "scan_fields e (CHR ''6'' # CHR ''4'' # CHR '','' # CHR ''0'' # CHR ''x'' # ?x)
                 = Some (k\<lparr>exponent := e\<rparr>, CHR ''}'' # CHR ''}'' # r)"
    unfolding scan_fields_def
    by (simp only: scan_i_64 bind.bind_lunit prod.case ws_lit_same punctuation
        not_False_eq_True scan_x_show strtoul_unat t u)
      (simp add: lit_def scan_x_show strtoul_unat ws_lit_same punctuation t u RSANUMWORDS_def RSANUMBYTES_def same)
  ultimately show ?thesis by (simp only:)
qed

lemma scan_key_show:
  assumes "printable k"
  shows "scan_key garbage (show_key k @ r) = Some (k, CHR ''}'' # CHR ''}'' # r)"
proof -
  have e: "exponent k \<in> {3, 65537}" using assms by (simp add: printable_def)
  have "show_key k @ r = (if exponent k = 65537 then ''v2 '' else []) @ CHR ''{'' # show_fields k @ r"
    by (simp add: show_key_def show_fields_def)
  then show ?thesis
    using scan_fields_show [OF assms, of "exponent k" r]
    by (simp only: scan_key_def scan_exponent_show [OF e] bind.bind_lunit prod.case) simp
qed

lemma skip_close_show:
  "r = [] \<or> \<not> is_space (hd r) \<Longrightarrow> skip_close (CHR ''}'' # CHR ''}'' # r) = r"
  by (cases r) (auto simp: skip_close_def ws_lit_same punctuation skip_ws_def)

lemma load_loop_show:
  "ks \<noteq> [] \<Longrightarrow> \<forall>k\<in>set ks. printable k \<Longrightarrow> load_loop garbage (show_keys ks) = Some ks"
proof (induction ks rule: show_keys.induct)
  case (2 k)
  then show ?case
    using scan_key_show [of k garbage "[]"] skip_close_show [of "[]"] by (subst load_loop.simps) simp
next
  case (3 k k' ks)
  have "show_keys (k # k' # ks) = show_key k @ CHR '','' # show_keys (k' # ks)" by simp
  moreover have "skip_close (CHR ''}'' # CHR ''}'' # CHR '','' # show_keys (k' # ks)) = CHR '','' # show_keys (k' # ks)"
    by (rule skip_close_show) (simp add: punctuation)
  ultimately show ?case
    using 3 scan_key_show [of k garbage "CHR '','' # show_keys (k' # ks)"] by (subst load_loop.simps) simp
qed simp

section \<open>Loading keys\<close>

text \<open>
  C19. Round trip: a key file in the documented format (any positive number of 64-word
  keys with exponent 3 or 65537) is read back exactly, with the right count, whatever the
  uninitialised memory held.
\<close>

theorem load_keys_roundtrip:
  assumes "ks \<noteq> []" "\<forall>k\<in>set ks. printable k"
  shows "load_keys garbage (Some (show_keys ks)) = (Some ks, length ks)"
  using load_loop_show [OF assms] by (simp add: load_keys_def)

theorem load_keys_roundtrip_witness:
  "load_keys (ones_key 0) (Some (show_keys [ones_key 3, ones_key 65537])) = (Some [ones_key 3, ones_key 65537], 2)"
  using load_keys_roundtrip [of "[ones_key 3, ones_key 65537]" "ones_key 0"]
  by (simp add: printable_def ones_key_def RSANUMWORDS_def RSANUMBYTES_def)

lemma scan_key_len: "scan_key g s = Some (k, r) \<Longrightarrow> key_len k = int RSANUMWORDS"
  by (auto simp: scan_key_def scan_fields_def bind_eq_Some_conv split: if_splits)

text \<open>
  A first character other than white space, the brace and \<open>v\<close> is swallowed and
  the exponent stays what the memory held: with such a file the parser returns a key
  whose exponent it never read.
\<close>

lemma load_keys_uninitialised_exponent:
  assumes "printable k"
  shows "load_keys garbage (Some (CHR ''x'' # tl (show_key (k\<lparr>exponent := 3\<rparr>))))
           = (Some [k\<lparr>exponent := exponent garbage\<rparr>], 1)"
proof -
  have "show_fields (k\<lparr>exponent := 3\<rparr>) = show_fields k" by (simp add: show_fields_def)
  then have "tl (show_key (k\<lparr>exponent := 3\<rparr>)) = show_fields k" by (simp add: show_key_def show_fields_def)
  moreover have "scan_exponent old (CHR ''x'' # r) = Some (old, r)" for old r
    by (simp add: scan_exponent_def scan_c_def skip_ws_def is_space_def)
  ultimately have "scan_key garbage (CHR ''x'' # tl (show_key (k\<lparr>exponent := 3\<rparr>)))
      = Some (k\<lparr>exponent := exponent garbage\<rparr>, ''}}'')"
    using scan_fields_show [OF assms, of "exponent garbage" "[]"] by (simp add: scan_key_def)
  then show ?thesis
    using skip_close_show [of "[]"] by (simp add: load_keys_def load_loop.simps)
qed

lemma load_keys_uninitialised_exponent_example:
  "load_keys (ones_key 65537) (Some (CHR ''x'' # tl (show_key (ones_key 3)))) = (Some [ones_key 65537], 1)"
  using load_keys_uninitialised_exponent [of "ones_key 3" "ones_key 65537"]
  by (simp add: printable_def ones_key_def RSANUMWORDS_def RSANUMBYTES_def)

end
