(* ===== verification/UpdateFile.thy ===== *)
theory UpdateFile
  imports Scan
begin

text \<open>
  The XML description of an update, \<open>client/recovery/configure/update_file.c\<close>: the
  global file lists the devices, each device has a partition table and an image list.
  The vendored Mini-XML parser is a parameter: \<open>load\<close> says, for a path, whether the
  file is there, opens, parses, and to which tree (its node types as the code's type
  callback chooses them). The tree is walked in document order from a cursor, as
  \<open>mxmlFindElement\<close> with \<open>MXML_DESCEND\<close> does. A null dereference or a write outside
  an array is the outcome \<open>Fault\<close>.
\<close>

section \<open>Trees\<close>

datatype xml =
    Element string "(string \<times> string) list" "xml list"
  | Opaque string
  | Text string
  | Integer int
  | Real

datatype xml_file = No_file | Not_readable | Not_xml | Tree xml

text \<open>All nodes in document order, each with its parent.\<close>

fun nodes :: "xml option \<Rightarrow> xml \<Rightarrow> (xml option \<times> xml) list"
and nodes_list :: "xml option \<Rightarrow> xml list \<Rightarrow> (xml option \<times> xml) list" where
  "nodes p (Element n as cs) = (p, Element n as cs) # nodes_list (Some (Element n as cs)) cs"
| "nodes p (Opaque s) = [(p, Opaque s)]"
| "nodes p (Text s) = [(p, Text s)]"
| "nodes p (Integer i) = [(p, Integer i)]"
| "nodes p Real = [(p, Real)]"
| "nodes_list p [] = []"
| "nodes_list p (c # cs) = nodes p c @ nodes_list p cs"

type_synonym cursor = "(xml option \<times> xml) list"

text \<open>The cursor in front of the descendants of a node.\<close>

definition below :: "xml option \<Rightarrow> xml \<Rightarrow> cursor" where
  "below p t = tl (nodes p t)"

definition is_element :: "string \<Rightarrow> xml \<Rightarrow> bool" where
  "is_element n t = (case t of Element m _ _ \<Rightarrow> m = n | _ \<Rightarrow> False)"

definition mxmlFindElement :: "cursor \<Rightarrow> string \<Rightarrow> cursor" where
  "mxmlFindElement c n = dropWhile (\<lambda>(_, t). \<not> is_element n t) c"

definition mxmlElementGetAttr :: "xml \<Rightarrow> string \<Rightarrow> string option" where
  "mxmlElementGetAttr t name = (case t of Element _ as _ \<Rightarrow> map_of as name | _ \<Rightarrow> None)"

definition mxmlGetOpaque :: "xml \<Rightarrow> string option" where
  "mxmlGetOpaque t = (case t of Opaque s \<Rightarrow> Some s | Element _ _ (Opaque s # _) \<Rightarrow> Some s | _ \<Rightarrow> None)"

definition mxmlGetText :: "xml \<Rightarrow> string option" where
  "mxmlGetText t = (case t of Text s \<Rightarrow> Some s | Element _ _ (Text s # _) \<Rightarrow> Some s | _ \<Rightarrow> None)"

definition mxmlGetInteger :: "xml \<Rightarrow> int" where
  "mxmlGetInteger t = (case t of Integer i \<Rightarrow> i | Element _ _ (Integer i # _) \<Rightarrow> i | _ \<Rightarrow> 0)"

section \<open>The data of an update\<close>

record image_info =
  img_name :: string
  img_fs_type :: string
  img_offset :: u64
  img_size :: u64
  update_mode :: u32
  chunksize :: u32
  chunkcount :: u32

record update_info =
  upd_devtype :: string
  devctl :: u32
  upd_image_count :: u32
  upd_images :: "image_info list"

text \<open>The images of a partition are a list once its head has been initialised; \<open>calloc\<close> leaves null pointers there.\<close>

record part_info =
  part_name :: string
  part_offset :: u64
  part_size :: u64
  part_block_name :: string
  part_image_count :: u32
  part_total_chunks :: u32
  part_images :: "image_info list option"

record device_info =
  dev_type :: string
  dev_capacity :: u64
  dev_part_count :: u32
  dev_parts :: "part_info list"

text \<open>\<open>device_type_list\<close> is the static array behind the object; \<open>None\<close> is a null entry.\<close>

record update_file =
  device_list :: "device_info list"
  update_list :: "update_info list"
  device_type_list :: "string option list"

definition UPDATE_MODE_FULL :: u32 where
  "UPDATE_MODE_FULL = 0x200"

definition UPDATE_MODE_CHUNK :: u32 where
  "UPDATE_MODE_CHUNK = 0x201"

definition NAME_MAX :: nat where
  "NAME_MAX = 255"

definition supported_device_type :: "string list" where
  "supported_device_type = [''nor'', ''nand'', ''mmc'']"

section \<open>Outcomes of parsing\<close>

text \<open>\<open>Bad\<close> leaves the loop over the elements with \<open>break\<close> (or the function with \<open>-1\<close>).\<close>

datatype 'a parsed = Good 'a | Bad | Fault

fun bind_parsed :: "'a parsed \<Rightarrow> ('a \<Rightarrow> 'b parsed) \<Rightarrow> 'b parsed" where
  "bind_parsed (Good x) f = f x"
| "bind_parsed Bad f = Bad"
| "bind_parsed Fault f = Fault"

lemma bind_parsed_Good [simp]: "bind_parsed m f = Good y \<longleftrightarrow> (\<exists>x. m = Good x \<and> f x = Good y)"
  by (cases m) auto

definition need :: "'a option \<Rightarrow> 'a parsed" where
  "need x = (case x of None \<Rightarrow> Bad | Some y \<Rightarrow> Good y)"

definition deref_text :: "string option \<Rightarrow> string parsed" where
  "deref_text x = (case x of None \<Rightarrow> Fault | Some y \<Rightarrow> Good y)"

definition find_first :: "cursor \<Rightarrow> string \<Rightarrow> (xml option \<times> xml) parsed" where
  "find_first c n = (case mxmlFindElement c n of [] \<Rightarrow> Bad | x # _ \<Rightarrow> Good x)"

text \<open>
  The value of a name element: opaque or else the first word of its text, copied with
  \<open>memcpy\<close> of its length into a zeroed array of \<open>NAME_MAX\<close> characters; no room for
  the terminator counts as a fault.
\<close>

definition get_name :: "xml option \<Rightarrow> xml \<Rightarrow> string \<Rightarrow> string parsed" where
  "get_name p node el =
     bind_parsed (find_first (below p node) el) (\<lambda>(_, sub).
     bind_parsed (case mxmlGetOpaque sub of Some s \<Rightarrow> Good s | None \<Rightarrow> need (mxmlGetText sub)) (\<lambda>s.
     if length s < NAME_MAX then Good s else Fault))"

section \<open>Images\<close>

text \<open>\<open>mxmlGetText\<close> may return null here and \<open>strtoull\<close> dereferences it.\<close>

definition image_u64 :: "xml option \<Rightarrow> xml \<Rightarrow> string \<Rightarrow> u64 parsed" where
  "image_u64 p node el =
     bind_parsed (find_first (below p node) el) (\<lambda>(_, sub).
     bind_parsed (deref_text (mxmlGetText sub)) (\<lambda>s. Good (strtoull0 s)))"

definition mode_number :: "xml \<Rightarrow> u32 parsed" where
  "mode_number sub =
     (if mxmlElementGetAttr sub ''type'' = None
      then bind_parsed (deref_text (mxmlGetText sub)) (\<lambda>s. Good (word_of_int (strtoll0 s)))
      else Good (word_of_int (mxmlGetInteger sub)))"

text \<open>The parent of a node that was found below another one is never null.\<close>

definition parent_below :: "xml option \<Rightarrow> cursor" where
  "parent_below p = (case p of None \<Rightarrow> [] | Some t \<Rightarrow> below None t)"

definition image_chunks :: "xml option \<Rightarrow> (u32 \<times> u32) parsed" where
  "image_chunks parent =
     bind_parsed (find_first (parent_below parent) ''chunksize'') (\<lambda>(parent', sub).
     bind_parsed (mode_number sub) (\<lambda>size.
     bind_parsed (find_first (parent_below parent') ''chunkcount'') (\<lambda>(_, sub).
     bind_parsed (mode_number sub) (\<lambda>cnt. Good (size, cnt)))))"

definition parse_image :: "xml option \<times> xml \<Rightarrow> image_info parsed" where
  "parse_image pn = (case pn of (p, node) \<Rightarrow>
     bind_parsed (get_name p node ''name'') (\<lambda>name.
     bind_parsed (get_name p node ''type'') (\<lambda>fs_type.
     bind_parsed (image_u64 p node ''offset'') (\<lambda>offset.
     bind_parsed (image_u64 p node ''size'') (\<lambda>size.
     bind_parsed (find_first (below p node) ''updatemode'') (\<lambda>(p1, mode_node).
     bind_parsed (find_first (below p1 mode_node) ''type'') (\<lambda>(parent, type_node).
     bind_parsed (mode_number type_node) (\<lambda>mode.
     bind_parsed (if mode = UPDATE_MODE_CHUNK then image_chunks parent else Good (0, 1)) (\<lambda>(csize, ccount).
     Good \<lparr>img_name = name, img_fs_type = fs_type, img_offset = offset, img_size = size,
           update_mode = mode, chunksize = csize, chunkcount = ccount\<rparr>)))))))))"

text \<open>
  The loops over \<open>image\<close> and \<open>item\<close> elements: every element found is parsed and
  appended, the first bad one ends the loop.
\<close>

function parse_elements ::
  "(xml option \<times> xml \<Rightarrow> 'a parsed) \<Rightarrow> string \<Rightarrow> cursor \<Rightarrow> 'a list \<Rightarrow> 'a list parsed" where
  "parse_elements parse el c acc =
     (case mxmlFindElement c el of
        [] \<Rightarrow> Good acc
      | x # c' \<Rightarrow> (case parse x of
            Good a \<Rightarrow> parse_elements parse el c' (acc @ [a])
          | Bad \<Rightarrow> Good acc
          | Fault \<Rightarrow> Fault))"
  by auto
termination
proof (relation "measure (\<lambda>(_, _, c, _). length c)")
  fix parse :: "xml option \<times> xml \<Rightarrow> 'a parsed" and el c acc x c' a
  assume "mxmlFindElement c el = x # c'"
  then have "length (x # c') \<le> length c"
    by (metis length_dropWhile_le mxmlFindElement_def)
  then show "((parse, el, c', acc @ [a]), parse, el, c, acc) \<in> measure (\<lambda>(_, _, c, _). length c)"
    by simp
qed simp

declare parse_elements.simps [simp del]

text \<open>The common beginning: the file is there, opens and parses.\<close>

definition load_tree :: "(string \<Rightarrow> xml_file) \<Rightarrow> string \<Rightarrow> xml parsed" where
  "load_tree load path = (case load path of Tree t \<Rightarrow> Good t | _ \<Rightarrow> Bad)"

text \<open>
  The result of \<open>parse_update_xml\<close>: the return value (\<open>None\<close> for a fault) and the
  \<open>update_info\<close> as it is left. The fields that are stored before the loop are stored
  one after the other, so an error keeps the earlier ones.
\<close>

definition parse_images :: "cursor \<Rightarrow> xml \<Rightarrow> update_info \<Rightarrow> int option \<times> update_info" where
  "parse_images c list_node ui =
     (let ui = (case mxmlElementGetAttr list_node ''count'' of
                  None \<Rightarrow> ui | Some s \<Rightarrow> ui\<lparr>upd_image_count := strtoul0 s\<rparr>)
      in case parse_elements parse_image ''image'' c [] of
           Good images \<Rightarrow>
             if upd_image_count ui \<noteq> word_of_nat (length images)
             then (Some (-1), ui\<lparr>upd_images := []\<rparr>)
             else (Some 0, ui\<lparr>upd_images := upd_images ui @ images\<rparr>)
         | _ \<Rightarrow> (None, ui))"

definition parse_update_xml :: "(string \<Rightarrow> xml_file) \<Rightarrow> string \<Rightarrow> update_info \<Rightarrow> int option \<times> update_info" where
  "parse_update_xml load path ui =
     (case load_tree load path of
        Good tree \<Rightarrow>
         (case mxmlFindElement (below None tree) ''update'' of
            [] \<Rightarrow> (Some (-1), ui)
          | (_, node) # _ \<Rightarrow>
             (case mxmlElementGetAttr node ''devcontrol'' of
                None \<Rightarrow> (Some (-1), ui)
              | Some devctl_str \<Rightarrow>
                  let ui = ui\<lparr>devctl := word_of_int (strtoll0 devctl_str)\<rparr>
                  in case mxmlElementGetAttr node ''devtype'' of
                       None \<Rightarrow> (Some (-1), ui)
                     | Some t \<Rightarrow>
                         if t \<noteq> upd_devtype ui then (Some (-1), ui)
                         else case mxmlFindElement (below None tree) ''imagelist'' of
                                [] \<Rightarrow> (Some (-1), ui)
                              | (_, list_node) # c \<Rightarrow> parse_images c list_node ui))
      | _ \<Rightarrow> (Some (-1), ui))"

section \<open>Partitions\<close>

definition part_u64 :: "xml option \<Rightarrow> xml \<Rightarrow> string \<Rightarrow> u64 parsed" where
  "part_u64 p node el =
     bind_parsed (find_first (below p node) el) (\<lambda>(_, sub).
     bind_parsed (need (mxmlGetText sub)) (\<lambda>s. Good (strtoull0 s)))"

definition parse_item :: "xml option \<times> xml \<Rightarrow> part_info parsed" where
  "parse_item pn = (case pn of (p, node) \<Rightarrow>
     bind_parsed (get_name p node ''name'') (\<lambda>name.
     bind_parsed (part_u64 p node ''offset'') (\<lambda>offset.
     bind_parsed (part_u64 p node ''size'') (\<lambda>size.
     bind_parsed (get_name p node ''blockname'') (\<lambda>block.
     Good \<lparr>part_name = name, part_offset = offset, part_size = size, part_block_name = block,
           part_image_count = 0, part_total_chunks = 0, part_images = None\<rparr>)))))"

definition parse_items :: "cursor \<Rightarrow> xml \<Rightarrow> device_info \<Rightarrow> int option \<times> device_info" where
  "parse_items c list_node di =
     (let di = (case mxmlElementGetAttr list_node ''count'' of
                  None \<Rightarrow> di | Some s \<Rightarrow> di\<lparr>dev_part_count := strtoul0 s\<rparr>)
      in case parse_elements parse_item ''item'' c [] of
           Good parts \<Rightarrow>
             if dev_part_count di \<noteq> word_of_nat (length parts)
             then (Some (-1), di\<lparr>dev_parts := []\<rparr>)
             else (Some 0, di\<lparr>dev_parts := dev_parts di @ parts\<rparr>)
         | _ \<Rightarrow> (None, di))"

definition parse_device_xml :: "(string \<Rightarrow> xml_file) \<Rightarrow> string \<Rightarrow> device_info \<Rightarrow> int option \<times> device_info" where
  "parse_device_xml load path di =
     (case load_tree load path of
        Good tree \<Rightarrow>
         (case mxmlFindElement (below None tree) ''device'' of
            [] \<Rightarrow> (Some (-1), di)
          | (_, node) # _ \<Rightarrow>
             (case mxmlElementGetAttr node ''type'' of
                None \<Rightarrow> (Some (-1), di)
              | Some t \<Rightarrow>
                  if t \<noteq> dev_type di then (Some (-1), di)
                  else case mxmlElementGetAttr node ''capacity'' of
                         None \<Rightarrow> (Some (-1), di)
                       | Some cap \<Rightarrow>
                           let di = di\<lparr>dev_capacity := strtoull0 cap\<rparr>
                           in case mxmlFindElement (below None tree) ''partition'' of
                                [] \<Rightarrow> (Some (-1), di)
                              | (_, list_node) # c \<Rightarrow> parse_items c list_node di))
      | _ \<Rightarrow> (Some (-1), di))"

section \<open>The global file\<close>

definition new_device_info :: "string \<Rightarrow> device_info" where
  "new_device_info t = \<lparr>dev_type = t, dev_capacity = 0, dev_part_count = 0, dev_parts = []\<rparr>"

definition new_update_info :: "string \<Rightarrow> update_info" where
  "new_update_info t = \<lparr>upd_devtype = t, devctl = 0, upd_image_count = 0, upd_images = []\<rparr>"

text \<open>
  The array has one slot per supported type and none for a terminator: a fourth device
  element writes outside it.
\<close>

function parse_devices :: "cursor \<Rightarrow> nat \<Rightarrow> update_file \<Rightarrow> int option \<times> update_file" where
  "parse_devices c i uf =
     (case mxmlFindElement c ''device'' of
        [] \<Rightarrow> (Some 0, uf)
      | (_, node) # c' \<Rightarrow>
         (case mxmlGetOpaque node of
            None \<Rightarrow> (Some (-1), uf)
          | Some t \<Rightarrow>
              if t \<notin> set supported_device_type then (Some (-1), uf)
              else if i \<ge> length (device_type_list uf) then (None, uf)
              else parse_devices c' (i + 1)
                     (uf\<lparr>device_type_list := (device_type_list uf)[i := Some t],
                         device_list := device_list uf @ [new_device_info t],
                         update_list := update_list uf @ [new_update_info t]\<rparr>)))"
  by auto
termination
proof (relation "measure (\<lambda>(c, _, _). length c)")
  fix c i uf x c' p node t
  assume "mxmlFindElement c ''device'' = x # c'"
  then have "length (x # c') \<le> length c"
    by (metis length_dropWhile_le mxmlFindElement_def)
  then show "((c', i + 1, uf\<lparr>device_type_list := (device_type_list uf)[i := Some t],
      device_list := device_list uf @ [new_device_info t],
      update_list := update_list uf @ [new_update_info t]\<rparr>), c, i, uf) \<in> measure (\<lambda>(c, _, _). length c)"
    by simp
qed simp

declare parse_devices.simps [simp del]

definition parse_global_xml :: "(string \<Rightarrow> xml_file) \<Rightarrow> string \<Rightarrow> update_file \<Rightarrow> int option \<times> update_file" where
  "parse_global_xml load path uf =
     (let uf = uf\<lparr>device_type_list := replicate (length supported_device_type) None\<rparr>
      in case load_tree load path of
           Good tree \<Rightarrow>
            (case mxmlFindElement (below None tree) ''global'' of
               [] \<Rightarrow> (Some (-1), uf)
             | _ # c \<Rightarrow> parse_devices c 0 uf)
         | _ \<Rightarrow> (Some (-1), uf))"

section \<open>The object\<close>

definition construct_update_file :: update_file where
  "construct_update_file = \<lparr>device_list = [], update_list = [],
     device_type_list = replicate (length supported_device_type) None\<rparr>"

definition free_global_list :: "update_file \<Rightarrow> update_file" where
  "free_global_list uf = uf\<lparr>device_list := [], update_list := [],
     device_type_list := replicate (length supported_device_type) None\<rparr>"

definition get_device_info_by_devtype :: "update_file \<Rightarrow> string \<Rightarrow> device_info option" where
  "get_device_info_by_devtype uf t = find (\<lambda>d. t = dev_type d) (device_list uf)"

definition get_update_info_by_devtype :: "update_file \<Rightarrow> string \<Rightarrow> update_info option" where
  "get_update_info_by_devtype uf t = find (\<lambda>u. t = upd_devtype u) (update_list uf)"

text \<open>
  The users of \<open>get_device_type_list\<close> walk the array up to a null entry; \<open>None\<close> means
  that they run past its end.
\<close>

fun walk_type_list :: "string option list \<Rightarrow> string list option" where
  "walk_type_list [] = None"
| "walk_type_list (None # ts) = Some []"
| "walk_type_list (Some t # ts) = (case walk_type_list ts of None \<Rightarrow> None | Some r \<Rightarrow> Some (t # r))"

section \<open>The element loops\<close>

text \<open>The elements of a given name a cursor still has in front of it.\<close>

definition elements :: "cursor \<Rightarrow> string \<Rightarrow> cursor" where
  "elements c n = filter (\<lambda>(_, t). is_element n t) c"

lemma elements_find:
  "elements c n = (case mxmlFindElement c n of [] \<Rightarrow> [] | x # c' \<Rightarrow> x # elements c' n)"
  unfolding elements_def mxmlFindElement_def
  by (induction c) (auto split: prod.splits list.splits)

fun all_good :: "('a \<Rightarrow> 'b parsed) \<Rightarrow> 'a list \<Rightarrow> 'b list \<Rightarrow> bool" where
  "all_good f [] ys = (ys = [])"
| "all_good f (x # xs) ys =
     (case f x of Good y \<Rightarrow> (case ys of y' # ys' \<Rightarrow> y = y' \<and> all_good f xs ys' | [] \<Rightarrow> False)
      | Bad \<Rightarrow> ys = [] | Fault \<Rightarrow> False)"

lemma all_good_Cons:
  "f x = Good y \<Longrightarrow> all_good f (x # xs) ys \<longleftrightarrow> (\<exists>ys'. ys = y # ys' \<and> all_good f xs ys')"
  by (cases ys) auto

lemma all_good_prefix:
  "all_good f xs ys \<Longrightarrow> map f (take (length ys) xs) = map Good ys \<and> length ys \<le> length xs \<and>
     (length ys < length xs \<longrightarrow> f (xs ! length ys) = Bad)"
proof (induction f xs ys rule: all_good.induct)
  case (2 f x xs ys)
  then show ?case by (cases "f x"; cases ys) auto
qed simp

lemma parse_elements_all_good:
  "parse_elements f n c acc = Good r \<longleftrightarrow> (\<exists>ys. r = acc @ ys \<and> all_good f (elements c n) ys)"
proof (induction f n c acc rule: parse_elements.induct)
  case (1 f n c acc)
  show ?case
  proof (cases "mxmlFindElement c n")
    case Nil
    then show ?thesis by (subst parse_elements.simps) (auto simp: elements_find [of c n])
  next
    case (Cons x c')
    show ?thesis
    proof (cases "f x")
      case (Good a)
      with Cons have "parse_elements f n c acc = parse_elements f n c' (acc @ [a])"
        by (subst parse_elements.simps) simp
      moreover have "(\<exists>ys. r = (acc @ [a]) @ ys \<and> all_good f (elements c' n) ys)
          \<longleftrightarrow> (\<exists>ys. r = acc @ ys \<and> all_good f (elements c n) ys)"
        using Cons Good by (auto simp: elements_find [of c n] all_good_Cons simp del: all_good.simps)
      ultimately show ?thesis using 1 [OF Cons Good] by simp
    qed (auto simp: parse_elements.simps [of f n c acc] elements_find [of c n] Cons)
  qed
qed

lemma parse_elements_prefix:
  assumes "parse_elements f n c [] = Good ys"
  shows "map f (take (length ys) (elements c n)) = map Good ys \<and> length ys \<le> length (elements c n) \<and>
     (length ys < length (elements c n) \<longrightarrow> f (elements c n ! length ys) = Bad)"
  using assms all_good_prefix [of f "elements c n" ys] by (simp add: parse_elements_all_good)

section \<open>What parsing guarantees\<close>

lemma parse_items_success:
  assumes "parse_items c l di = (Some 0, di')"
  shows "\<exists>parts. parse_elements parse_item ''item'' c [] = Good parts \<and> dev_parts di' = dev_parts di @ parts \<and>
     dev_part_count di' = word_of_nat (length parts) \<and> dev_type di' = dev_type di"
  using assms by (auto simp: parse_items_def Let_def split: parsed.splits if_splits option.splits)

lemma parse_images_success:
  assumes "parse_images c l ui = (Some 0, ui')"
  shows "\<exists>images. parse_elements parse_image ''image'' c [] = Good images \<and> upd_images ui' = upd_images ui @ images \<and>
     upd_image_count ui' = word_of_nat (length images) \<and> upd_devtype ui' = upd_devtype ui"
  using assms by (auto simp: parse_images_def Let_def split: parsed.splits if_splits option.splits)


definition one_partition_xml :: "string \<Rightarrow> xml_file" where
  "one_partition_xml path = Tree (Element ''?xml'' []
     [Element ''device'' [(''type'', ''nand''), (''capacity'', ''0x100'')]
       [Element ''partition'' [(''count'', ''1'')]
         [Element ''item'' []
           [Element ''name'' [] [Text ''uboot''], Element ''offset'' [] [Text ''0''],
            Element ''size'' [] [Text ''0x80''], Element ''blockname'' [] [Text ''mtd0'']]]]])"

lemma strto_magnitude_samples:
  "strto_magnitude ''1'' = (False, 1)" "strto_magnitude ''0x200'' = (False, 512)"
  by code_simp+

lemmas xml_eval = load_tree_def below_def mxmlFindElement_def is_element_def mxmlElementGetAttr_def
  mxmlGetOpaque_def mxmlGetText_def find_first_def get_name_def need_def deref_text_def NAME_MAX_def
  parse_elements.simps strtoul0_def strtoul_val_def strtoll0_def strto_magnitude_samples

lemma one_partition_parsed:
  "fst (parse_device_xml one_partition_xml [] (new_device_info ''nand'')) = Some 0"
  by (simp add: parse_device_xml_def one_partition_xml_def parse_items_def parse_item_def part_u64_def
      new_device_info_def xml_eval)



definition one_image_xml :: "string \<Rightarrow> xml_file" where
  "one_image_xml path = Tree (Element ''?xml'' []
     [Element ''update'' [(''devcontrol'', ''0''), (''devtype'', ''nand'')]
       [Element ''imagelist'' [(''count'', ''1'')]
         [Element ''image'' []
           [Element ''name'' [] [Text ''rootfs''], Element ''type'' [] [Text ''normal''],
            Element ''offset'' [] [Text ''0x40''], Element ''size'' [] [Text ''16''],
            Element ''updatemode'' [] [Element ''type'' [] [Text ''0x200'']]]]]])"

lemma one_image_parsed:
  "fst (parse_update_xml one_image_xml [] (new_update_info ''nand'')) = Some 0"
  by (simp add: parse_update_xml_def one_image_xml_def parse_images_def parse_image_def image_u64_def mode_number_def
      UPDATE_MODE_CHUNK_def new_update_info_def xml_eval)


lemma parse_devices_types:
  assumes "parse_devices c i uf = (Some 0, uf')" "device_type_list uf = map Some ts0 @ replicate (3 - i) None"
    and "length ts0 = i" "i \<le> 3"
  shows "\<exists>ts. device_type_list uf' = map Some (ts0 @ ts) @ replicate (3 - (i + length ts)) None \<and> i + length ts \<le> 3 \<and>
     device_list uf' = device_list uf @ map new_device_info ts \<and>
     update_list uf' = update_list uf @ map new_update_info ts"
  using assms
proof (induction c i uf arbitrary: ts0 rule: parse_devices.induct)
  case (1 c i uf)
  show ?case
  proof (cases "mxmlFindElement c ''device''")
    case Nil
    with 1(2-) show ?thesis by (subst (asm) parse_devices.simps) (auto intro!: exI [of _ "[]"])
  next
    case (Cons x c')
    obtain p node where x: "x = (p, node)" by (cases x)
    obtain t where t: "mxmlGetOpaque node = Some t" "t \<in> set supported_device_type" "i < length (device_type_list uf)"
      using 1(2) Cons x by (subst (asm) parse_devices.simps) (auto split: option.splits if_splits)
    let ?uf = "uf\<lparr>device_type_list := (device_type_list uf)[i := Some t],
        device_list := device_list uf @ [new_device_info t], update_list := update_list uf @ [new_update_info t]\<rparr>"
    have r: "parse_devices c' (i + 1) ?uf = (Some 0, uf')"
      using 1(2) Cons x t by (subst (asm) parse_devices.simps) simp
    have i: "i < 3" using t(3) 1(3,4) by simp
    then have "3 - i = Suc (3 - (i + 1))" by simp
    then have "device_type_list ?uf = map Some (ts0 @ [t]) @ replicate (3 - (i + 1)) None"
      using 1(3,4) by (simp add: list_update_append)
    from 1(1) [OF Cons x [symmetric] t(1) _ _ r this] t(2,3) i 1(4)
    obtain ts where "device_type_list uf' = map Some ((ts0 @ [t]) @ ts) @ replicate (3 - (i + 1 + length ts)) None"
      "i + 1 + length ts \<le> 3" "device_list uf' = device_list ?uf @ map new_device_info ts"
      "update_list uf' = update_list ?uf @ map new_update_info ts" by auto
    then show ?thesis by (intro exI [of _ "t # ts"]) simp
  qed
qed

lemma walk_types: "walk_type_list (map Some ts @ replicate k None) = (if k = 0 then None else Some ts)"
  by (induction ts) (cases k, auto)

lemma parse_global_xml_appends:
  assumes "parse_global_xml load path uf = (Some 0, uf')"
  shows "\<exists>ts. device_type_list uf' = map Some ts @ replicate (3 - length ts) None \<and> length ts \<le> 3 \<and>
     device_list uf' = device_list uf @ map new_device_info ts \<and>
     update_list uf' = update_list uf @ map new_update_info ts"
proof -
  let ?uf = "uf\<lparr>device_type_list := replicate (length supported_device_type) None\<rparr>"
  obtain c where "parse_devices c 0 ?uf = (Some 0, uf')"
    using assms by (auto simp: parse_global_xml_def Let_def split: parsed.splits list.splits)
  from parse_devices_types [OF this, of "[]"] show ?thesis
    by (auto simp: supported_device_type_def numeral_3_eq_3)
qed

text \<open>
  The global file: the devices are appended to those already there, at most three of
  them, and the array of types can be walked to its terminating null only if there are
  fewer than three.
\<close>

lemma parse_global_xml_devices:
  assumes "parse_global_xml load path uf = (Some 0, uf')"
  shows "\<exists>ts. length ts \<le> 3 \<and> device_list uf' = device_list uf @ map new_device_info ts \<and>
     update_list uf' = update_list uf @ map new_update_info ts \<and>
     walk_type_list (device_type_list uf') = (if length ts < 3 then Some ts else None)"
proof -
  obtain ts where ts: "device_type_list uf' = map Some ts @ replicate (3 - length ts) None" "length ts \<le> 3"
    "device_list uf' = device_list uf @ map new_device_info ts"
    "update_list uf' = update_list uf @ map new_update_info ts"
    using parse_global_xml_appends [OF assms] by blast
  then have "walk_type_list (device_type_list uf') = (if length ts < 3 then Some ts else None)"
    by (simp add: walk_types)
  with ts show ?thesis by blast
qed

definition one_device_xml :: "string \<Rightarrow> xml_file" where
  "one_device_xml path = Tree (Element ''?xml'' [] [Element ''global'' [] [Element ''device'' [] [Opaque ''nand'']]])"

lemma one_device_parsed:
  "parse_global_xml one_device_xml path uf =
     (Some 0, uf\<lparr>device_type_list := [Some ''nand'', None, None],
        device_list := device_list uf @ [new_device_info ''nand''],
        update_list := update_list uf @ [new_update_info ''nand'']\<rparr>)"
  by (simp add: parse_global_xml_def load_tree_def one_device_xml_def below_def mxmlFindElement_def is_element_def
      parse_devices.simps mxmlGetOpaque_def supported_device_type_def Let_def)

lemma parse_global_xml_devices_example:
  "\<exists>ts. length ts \<le> 3 \<and> device_list (snd (parse_global_xml one_device_xml [] construct_update_file)) = map new_device_info ts"
  using parse_global_xml_devices [of one_device_xml "[]" construct_update_file, OF one_device_parsed]
  by (auto simp: one_device_parsed construct_update_file_def)

text \<open>
  Nothing is cleared between two global files: a device whose type the list already
  has is looked up as the old entry, with its old partition table, not the new one.
\<close>

lemma parse_global_xml_keeps_old_device:
  assumes "parse_global_xml load path uf = (Some 0, uf')" "get_device_info_by_devtype uf t = Some d"
  shows "get_device_info_by_devtype uf' t = Some d"
proof -
  have "find P xs = Some d \<Longrightarrow> find P (xs @ ys) = Some d" for P and xs ys :: "device_info list"
    by (induction xs) (auto split: if_splits)
  then show ?thesis
    using parse_global_xml_appends [OF assms(1)] assms(2) by (auto simp: get_device_info_by_devtype_def)
qed

lemma parse_global_xml_keeps_old_device_example:
  "get_device_info_by_devtype (snd (parse_global_xml one_device_xml []
     (construct_update_file\<lparr>device_list := [(new_device_info ''nand'')\<lparr>dev_capacity := 7\<rparr>]\<rparr>))) ''nand''
   = Some ((new_device_info ''nand'')\<lparr>dev_capacity := 7\<rparr>)"
  using parse_global_xml_keeps_old_device [OF one_device_parsed [of "[]"],
      of "construct_update_file\<lparr>device_list := [(new_device_info ''nand'')\<lparr>dev_capacity := 7\<rparr>]\<rparr>" "''nand''"
        "(new_device_info ''nand'')\<lparr>dev_capacity := 7\<rparr>"]
  by (simp add: get_device_info_by_devtype_def new_device_info_def one_device_parsed)

end
