(* ===== verification/World.thy ===== *)
theory World
  imports Prelude
begin

text \<open>
  The flash devices and the state of the program around them: the geometry of a
  partition (\<open>struct mtd_dev_info\<close> inside \<open>struct bm_part_info\<close>), the system calls and
  the kernel that answers them, and the mutable state the storage code shares. The kernel
  is a parameter: a function from a file descriptor, a system call and the kernel's own
  state to a reply and its next state. Every call made is recorded in \<open>trace\<close>, a ghost
  field, so that theorems can speak about what reaches the device. Offsets and lengths,
  which the code keeps in 64-bit integers far from their limits, are integers here.
\<close>

section \<open>Devices and system calls\<close>

datatype flash_type = NORFLASH | NANDFLASH | MLCNANDFLASH | OTHERFLASH

text \<open>An \<open>mtd_dev_info\<close> with the \<open>bm_part_info\<close> it is embedded in.\<close>

record mtd_dev =
  mtd_name :: string
  mtd_type :: flash_type
  mtd_size :: int
  eb_size :: int
  eb_cnt :: int
  min_io_size :: int
  subpage_size :: int
  oob_size :: int
  bb_allowed :: bool
  part_start :: int
  part_id :: nat

datatype oob_mode = MTD_OPS_PLACE_OOB | MTD_OPS_AUTO_OOB | MTD_OPS_RAW

datatype kcall =
    MEMERASE64 int int
  | MEMERASE int int
  | MEMGETBADBLOCK int
  | MEMSETBADBLOCK int
  | MEMUNLOCK int int
  | MEMWRITE int "u8 list" "u8 list" oob_mode
  | MEMWRITEOOB64 int "u8 list"
  | MEMWRITEOOB int "u8 list"
  | MEMGETOOBSEL
  | MTDFILEMODE_RAW
  | LSEEK int
  | READ int
  | WRITE "u8 list"
  | PWRITE int "u8 list"
  | CLOSE

text \<open>
  What a call returns: the result, the error number if the result is negative, the bytes
  read, and the OOB layout (\<open>useecc\<close> is automatic, \<open>eccbytes\<close>, the \<open>oobfree\<close> array).
\<close>

record reply =
  rep_ret :: int
  rep_errno :: int
  rep_bytes :: "u8 list"
  rep_autoplace :: bool
  rep_eccbytes :: int
  rep_oobfree :: "(int \<times> int) list"

type_synonym 'k kernel = "int \<Rightarrow> kcall \<Rightarrow> 'k \<Rightarrow> reply \<times> 'k"

definition EIO :: int where "EIO = 5"
definition EINVAL :: int where "EINVAL = 22"
definition ENOTTY :: int where "ENOTTY = 25"
definition EOPNOTSUPP :: int where "EOPNOTSUPP = 122"

datatype offs64_support = OFFS64_IOCTLS_UNKNOWN | OFFS64_IOCTLS_SUPPORTED | OFFS64_IOCTLS_NOT_SUPPORTED

record mtd_block_map =
  es :: "u32 list"
  map_eb_start :: int
  map_eb_cnt :: int
  bad_cnt :: int

datatype bm_operation =
    BM_OPERATION_ERASE | BM_OPERATION_WRITE | BM_OPERATION_READ | BM_OPERATION_ERASE_WRITE | BM_OPERATION_FORMAT

record bm_event =
  ev_part_name :: string
  ev_operation :: bm_operation
  ev_progress :: int

text \<open>
  An area of the flash the system keeps its own data in (\<open>sysinfo_layout\<close>), with the
  copy held in memory: not yet allocated, allocated, or released without the pointer
  being cleared.
\<close>

datatype si_value = Null | Buf "u8 list" | Freed

datatype sysinfo_reserve = SYSINFO_RESERVED | SYSINFO_NO_RESERVED

record sysinfo_layout =
  si_offset :: int
  si_length :: int
  si_value :: si_value
  si_reserve :: sysinfo_reserve

text \<open>
  The mutable state: the kernel, \<open>errno\<close>, what the library has learned about 64-bit
  ioctls, the descriptor of each partition (0 once closed), the block map, the events
  delivered to the listener and the system areas.
\<close>

record 'k world =
  kern :: 'k
  trace :: "(int \<times> kcall) list"
  errno :: int
  offs64 :: offs64_support
  fds :: "nat \<Rightarrow> int"
  block_map :: "mtd_block_map option"
  events :: "bm_event list"
  layout :: "sysinfo_layout list"

definition syscall :: "'k kernel \<Rightarrow> int \<Rightarrow> kcall \<Rightarrow> 'k world \<Rightarrow> reply \<times> 'k world" where
  "syscall K fd c w =
     (let (r, k) = K fd c (kern w)
      in (r, w\<lparr>kern := k, trace := trace w @ [(fd, c)],
               errno := if rep_ret r < 0 then rep_errno r else errno w\<rparr>))"

lemma syscall_fields:
  assumes "syscall K fd c w = (r, w')"
  shows "r = fst (K fd c (kern w))" "kern w' = snd (K fd c (kern w))" "trace w' = trace w @ [(fd, c)]"
    "errno w' = (if rep_ret r < 0 then rep_errno r else errno w)" "offs64 w' = offs64 w" "fds w' = fds w"
    "block_map w' = block_map w" "events w' = events w" "layout w' = layout w"
proof -
  have "r = fst (K fd c (kern w)) \<and> w' = w\<lparr>kern := snd (K fd c (kern w)), trace := trace w @ [(fd, c)],
      errno := if rep_ret (fst (K fd c (kern w))) < 0 then rep_errno (fst (K fd c (kern w))) else errno w\<rparr>"
    using assms unfolding syscall_def Let_def case_prod_beta by (elim Pair_inject) simp
  then show "r = fst (K fd c (kern w))" "kern w' = snd (K fd c (kern w))" "trace w' = trace w @ [(fd, c)]"
    "errno w' = (if rep_ret r < 0 then rep_errno r else errno w)" "offs64 w' = offs64 w" "fds w' = fds w"
    "block_map w' = block_map w" "events w' = events w" "layout w' = layout w"
    by simp_all
qed

definition set_errno :: "int \<Rightarrow> 'k world \<Rightarrow> 'k world" where
  "set_errno e w = w\<lparr>errno := e\<rparr>"

text \<open>
  A division of C: it truncates towards zero. Partition geometry is non-negative, and
  there it is \<open>div\<close>.
\<close>

definition cdiv :: "int \<Rightarrow> int \<Rightarrow> int" where
  "cdiv a b = (if 0 \<le> a then a div b else - (- a div b))"

definition cmod :: "int \<Rightarrow> int \<Rightarrow> int" where
  "cmod a b = a - cdiv a b * b"

lemma cdiv_nonneg [simp]: "0 \<le> a \<Longrightarrow> cdiv a b = a div b"
  by (simp add: cdiv_def)

lemma cmod_nonneg [simp]: "0 \<le> a \<Longrightarrow> cmod a b = a mod b"
  by (simp add: cmod_def minus_div_mult_eq_mod)

section \<open>What reaches the device\<close>

text \<open>
  \<open>in_block mtd eb c\<close>: the call touches only erase block \<open>eb\<close> of the partition (the
  bytes of its data and the OOB areas of its pages).
\<close>

fun in_block :: "mtd_dev \<Rightarrow> int \<Rightarrow> kcall \<Rightarrow> bool" where
  "in_block mtd eb (MEMERASE64 s l) = (s = eb * eb_size mtd \<and> l = eb_size mtd)"
| "in_block mtd eb (MEMERASE s l) = (s = eb * eb_size mtd \<and> l = eb_size mtd)"
| "in_block mtd eb (MEMUNLOCK s l) = (s = eb * eb_size mtd \<and> l = eb_size mtd)"
| "in_block mtd eb (MEMGETBADBLOCK s) = (s = eb * eb_size mtd)"
| "in_block mtd eb (MEMSETBADBLOCK s) = (s = eb * eb_size mtd)"
| "in_block mtd eb (MEMWRITE s d oob m) =
     (eb * eb_size mtd \<le> s \<and> s + int (length d) \<le> (eb + 1) * eb_size mtd)"
| "in_block mtd eb (MEMWRITEOOB64 s d) = (eb * eb_size mtd \<le> s \<and> s \<le> (eb + 1) * eb_size mtd)"
| "in_block mtd eb (MEMWRITEOOB s d) = (eb * eb_size mtd \<le> s \<and> s \<le> (eb + 1) * eb_size mtd)"
| "in_block mtd eb (LSEEK s) = (eb * eb_size mtd \<le> s \<and> s \<le> (eb + 1) * eb_size mtd)"
| "in_block mtd eb _ = True"

text \<open>
  \<open>extends P w w'\<close>: \<open>w'\<close> is \<open>w\<close> after more calls, all of which satisfy \<open>P\<close>.
\<close>

definition extends :: "(kcall \<Rightarrow> bool) \<Rightarrow> 'k world \<Rightarrow> 'k world \<Rightarrow> bool" where
  "extends P w w' \<longleftrightarrow> (\<exists>cs. trace w' = trace w @ cs \<and> (\<forall>(fd, c)\<in>set cs. P c))"

lemma extends_refl [simp, intro]: "extends P w w"
  by (simp add: extends_def)

lemma extends_trans [trans]: "extends P w w' \<Longrightarrow> extends P w' w'' \<Longrightarrow> extends P w w''"
  by (fastforce simp: extends_def)

lemma extends_mono: "extends P w w' \<Longrightarrow> (\<And>c. P c \<Longrightarrow> Q c) \<Longrightarrow> extends Q w w'"
  by (fastforce simp: extends_def)

lemma extends_same_trace: "trace w' = trace w \<Longrightarrow> extends P w w'"
  by (simp add: extends_def)

lemma extends_syscall: "syscall K fd c w = (r, w') \<Longrightarrow> P c \<Longrightarrow> extends P w w'"
  by (simp add: extends_def syscall_fields(3))

lemma trace_updates [simp]:
  "extends P w (set_errno e w') = extends P w w'"
  "extends P w (w'\<lparr>offs64 := s\<rparr>) = extends P w w'"
  "extends P w (w'\<lparr>block_map := m\<rparr>) = extends P w w'"
  "extends P w (w'\<lparr>events := v\<rparr>) = extends P w w'"
  "extends P w (w'\<lparr>fds := f\<rparr>) = extends P w w'"
  by (simp_all add: extends_def set_errno_def)

text \<open>\<open>frame\<close>: the program's own state around the kernel is left alone.\<close>

definition frame :: "'k world \<Rightarrow> 'k world \<Rightarrow> bool" where
  "frame w w' \<longleftrightarrow> block_map w' = block_map w \<and> events w' = events w \<and> fds w' = fds w \<and> layout w' = layout w"

lemma frame_refl [simp, intro]: "frame w w"
  by (simp add: frame_def)

lemma frame_trans [trans]: "frame w w' \<Longrightarrow> frame w' w'' \<Longrightarrow> frame w w''"
  by (simp add: frame_def)

lemma frame_syscall: "syscall K fd c w = (r, w') \<Longrightarrow> frame w w'"
  by (simp add: frame_def syscall_fields)

end
