(* ===== verification/Libmtd.thy ===== *)
theory Libmtd
  imports World
begin

text \<open>
  The MTD access layer, the functions of \<open>client/recovery/lib/mtd/libmtd.c\<close> the
  program calls: erase, unlock, bad-block queries and marks, reads, writes with and
  without OOB bytes, and the fallbacks to the system calls of older kernels. The lemmas
  collected in \<open>lib_steps\<close> say that each of them asks the device for one erase block only.
\<close>

section \<open>The library\<close>

definition mtd_valid_erase_block :: "mtd_dev \<Rightarrow> int \<Rightarrow> bool" where
  "mtd_valid_erase_block mtd eb \<longleftrightarrow> 0 \<le> eb \<and> eb < eb_cnt mtd"

definition mtd_unlock :: "'k kernel \<Rightarrow> mtd_dev \<Rightarrow> int \<Rightarrow> int \<Rightarrow> 'k world \<Rightarrow> int \<times> 'k world" where
  "mtd_unlock K mtd fd eb w =
     (if \<not> mtd_valid_erase_block mtd eb then (-1, set_errno EINVAL w)
      else let (r, w) = syscall K fd (MEMUNLOCK (eb * eb_size mtd) (eb_size mtd)) w
           in (if rep_ret r < 0 then -1 else 0, w))"

definition mtd_erase :: "'k kernel \<Rightarrow> mtd_dev \<Rightarrow> int \<Rightarrow> int \<Rightarrow> 'k world \<Rightarrow> int \<times> 'k world" where
  "mtd_erase K mtd fd eb w =
     (if \<not> mtd_valid_erase_block mtd eb then (-1, set_errno EINVAL w)
      else let start = eb * eb_size mtd; len = eb_size mtd;
               legacy = (\<lambda>w. if start + len > 0xFFFFFFFF then (-1, set_errno EINVAL w)
                             else let (r, w) = syscall K fd (MEMERASE start len) w
                                  in (if rep_ret r < 0 then -1 else 0, w))
           in if offs64 w \<noteq> OFFS64_IOCTLS_NOT_SUPPORTED then
                let (r, w) = syscall K fd (MEMERASE64 start len) w
                in if rep_ret r = 0 then (0, w)
                   else if errno w \<noteq> ENOTTY \<or> offs64 w \<noteq> OFFS64_IOCTLS_UNKNOWN then (-1, w)
                   else legacy (w\<lparr>offs64 := OFFS64_IOCTLS_NOT_SUPPORTED\<rparr>)
              else legacy w)"

definition mtd_is_bad :: "'k kernel \<Rightarrow> mtd_dev \<Rightarrow> int \<Rightarrow> int \<Rightarrow> 'k world \<Rightarrow> int \<times> 'k world" where
  "mtd_is_bad K mtd fd eb w =
     (if \<not> mtd_valid_erase_block mtd eb then (-1, set_errno EINVAL w)
      else if \<not> bb_allowed mtd then (0, w)
      else let (r, w) = syscall K fd (MEMGETBADBLOCK (eb * eb_size mtd)) w
           in (if rep_ret r = -1 then -1 else rep_ret r, w))"

definition mtd_mark_bad :: "'k kernel \<Rightarrow> mtd_dev \<Rightarrow> int \<Rightarrow> int \<Rightarrow> 'k world \<Rightarrow> int \<times> 'k world" where
  "mtd_mark_bad K mtd fd eb w =
     (if \<not> bb_allowed mtd then (-1, set_errno EINVAL w)
      else if \<not> mtd_valid_erase_block mtd eb then (-1, set_errno EINVAL w)
      else let (r, w) = syscall K fd (MEMSETBADBLOCK (eb * eb_size mtd)) w
           in (if rep_ret r = -1 then -1 else 0, w))"

text \<open>
  \<open>read\<close> in a loop until the length is reached; end of file (a result of 0) makes it
  loop forever, which is \<open>None\<close>.
\<close>

partial_function (option) read_loop ::
  "'k kernel \<Rightarrow> int \<Rightarrow> int \<Rightarrow> u8 list \<Rightarrow> 'k world \<Rightarrow> (int \<times> u8 list \<times> 'k world) option" where
  "read_loop K fd len acc w =
     (if int (length acc) < len then
        let (r, w) = syscall K fd (READ (len - int (length acc))) w
        in if rep_ret r < 0 then Some (-1, acc, w)
           else read_loop K fd len (acc @ take (nat (rep_ret r)) (rep_bytes r)) w
      else Some (0, acc, w))"

definition mtd_read ::
  "'k kernel \<Rightarrow> mtd_dev \<Rightarrow> int \<Rightarrow> int \<Rightarrow> int \<Rightarrow> int \<Rightarrow> 'k world \<Rightarrow> (int \<times> u8 list \<times> 'k world) option" where
  "mtd_read K mtd fd eb offs len w =
     (if \<not> mtd_valid_erase_block mtd eb then Some (-1, [], set_errno EINVAL w)
      else if offs < 0 \<or> offs + len > eb_size mtd then Some (-1, [], set_errno EINVAL w)
      else let seek = eb * eb_size mtd + offs;
               (r, w) = syscall K fd (LSEEK seek) w
           in if rep_ret r \<noteq> seek then Some (-1, [], w) else read_loop K fd len [] w)"

definition do_oob_write :: "'k kernel \<Rightarrow> mtd_dev \<Rightarrow> int \<Rightarrow> int \<Rightarrow> u8 list \<Rightarrow> 'k world \<Rightarrow> int \<times> 'k world" where
  "do_oob_write K mtd fd start data w =
     (let len = int (length data);
          legacy = (\<lambda>w. if start > 0xFFFFFFFF then (-1, set_errno EINVAL w)
                        else let (r, w) = syscall K fd (MEMWRITEOOB start data) w in (rep_ret r, w))
      in if start \<ge> eb_cnt mtd * eb_size mtd then (-1, set_errno EINVAL w)
         else if (start AND (min_io_size mtd - 1)) + len > oob_size mtd \<or> len = 0
         then (-1, set_errno EINVAL w)
         else if offs64 w \<noteq> OFFS64_IOCTLS_NOT_SUPPORTED then
           let (r, w) = syscall K fd (MEMWRITEOOB64 start data) w
           in if rep_ret r = 0 then (0, w)
              else legacy (w\<lparr>offs64 := OFFS64_IOCTLS_NOT_SUPPORTED\<rparr>)
         else legacy w)"

definition put_bytes :: "u8 list \<Rightarrow> nat \<Rightarrow> u8 list \<Rightarrow> u8 list" where
  "put_bytes dst at src = take at dst @ src @ drop (at + length src) dst"

fun place_free :: "(int \<times> int) list \<Rightarrow> u8 list \<Rightarrow> nat \<Rightarrow> u8 list \<Rightarrow> u8 list" where
  "place_free [] tmp pos oob = oob"
| "place_free ((start, len) # free) tmp pos oob =
     (if len = 0 then oob
      else place_free free tmp (pos + nat len)
             (put_bytes oob (nat start) (take (nat len) (drop pos tmp))))"

text \<open>
  The bytes of an OOB area rearranged in place for a kernel without automatic placement.
  The copies are meant to stay inside the area; what a layout places past its end lands in
  memory that is not modelled and is dropped.
\<close>

definition legacy_auto_oob_layout ::
  "'k kernel \<Rightarrow> mtd_dev \<Rightarrow> int \<Rightarrow> u8 list \<Rightarrow> 'k world \<Rightarrow> int \<times> u8 list \<times> 'k world" where
  "legacy_auto_oob_layout K mtd fd oob w =
     (let (r, w) = syscall K fd MEMGETOOBSEL w
      in if rep_ret r \<noteq> 0 then (-1, oob, w)
         else if rep_autoplace r then (0, take (length oob) (place_free (rep_oobfree r) oob 0 oob), w)
         else (0, oob, w))"

definition write_data :: "'k kernel \<Rightarrow> int \<Rightarrow> int \<Rightarrow> u8 list \<Rightarrow> 'k world \<Rightarrow> int \<times> 'k world" where
  "write_data K fd seek data w =
     (let (r, w) = syscall K fd (LSEEK seek) w
      in if rep_ret r \<noteq> seek then (-1, w)
         else let (r, w) = syscall K fd (WRITE data) w
              in (if rep_ret r \<noteq> int (length data) then -1 else 0, w))"

definition write_oob_area ::
  "'k kernel \<Rightarrow> mtd_dev \<Rightarrow> int \<Rightarrow> int \<Rightarrow> u8 list \<Rightarrow> oob_mode \<Rightarrow> 'k world \<Rightarrow> int \<times> 'k world" where
  "write_oob_area K mtd fd seek oob mode w =
     (let (ret, oob, w) = (if mode = MTD_OPS_AUTO_OOB then legacy_auto_oob_layout K mtd fd oob w
                           else (0, oob, w))
      in if ret \<noteq> 0 then (-1, w)
         else let (ret, w) = do_oob_write K mtd fd seek oob w
              in (if ret < 0 then -1 else 0, w))"

definition mtd_write ::
  "'k kernel \<Rightarrow> mtd_dev \<Rightarrow> int \<Rightarrow> int \<Rightarrow> int \<Rightarrow> u8 list \<Rightarrow> u8 list option \<Rightarrow> oob_mode \<Rightarrow> 'k world \<Rightarrow> int \<times> 'k world" where
  "mtd_write K mtd fd eb offs data oob mode w =
     (let len = int (length data)
      in if \<not> mtd_valid_erase_block mtd eb then (-1, set_errno EINVAL w)
         else if offs < 0 \<or> offs + len > eb_size mtd then (-1, set_errno EINVAL w)
         else if offs mod subpage_size mtd \<noteq> 0 then (-1, set_errno EINVAL w)
         else if len mod subpage_size mtd \<noteq> 0 then (-1, set_errno EINVAL w)
         else let seek = eb * eb_size mtd + offs
              in case oob of
                   None \<Rightarrow> write_data K fd seek data w
                 | Some oob_bytes \<Rightarrow>
                     let (r, w) = syscall K fd (MEMWRITE seek data oob_bytes mode) w
                     in if rep_ret r = 0 then (0, w)
                        else if errno w \<noteq> ENOTTY \<and> errno w \<noteq> EOPNOTSUPP then (-1, w)
                        else let (ret, w) = write_oob_area K mtd fd seek oob_bytes mode w
                             in if ret < 0 then (-1, w) else write_data K fd seek data w)"

text \<open>
  The torture test of a block. Its last statement answers -1 on every path, also after the
  block has passed.
\<close>

definition patterns :: "u8 list" where "patterns = [0xa5, 0x5a, 0x0]"

definition check_pattern :: "u8 list \<Rightarrow> u8 \<Rightarrow> bool" where
  "check_pattern buf patt \<longleftrightarrow> list_all (\<lambda>b. b = patt) buf"

text \<open>One round of the loop; false is the jump to the exit.\<close>

definition torture_round ::
  "'k kernel \<Rightarrow> mtd_dev \<Rightarrow> int \<Rightarrow> int \<Rightarrow> u8 \<Rightarrow> 'k world \<Rightarrow> (bool \<times> 'k world) option" where
  "torture_round K mtd fd eb patt w =
     (let (err, w) = mtd_erase K mtd fd eb w
      in if err \<noteq> 0 then Some (False, w)
         else case mtd_read K mtd fd eb 0 (eb_size mtd) w of None \<Rightarrow> None | Some (err, buf, w) \<Rightarrow>
         if err \<noteq> 0 then Some (False, w)
         else if \<not> check_pattern buf 0xff then Some (False, set_errno EIO w)
         else let (err, w) = mtd_write K mtd fd eb 0 (replicate (nat (eb_size mtd)) patt) None MTD_OPS_PLACE_OOB w
              in if err \<noteq> 0 then Some (False, w)
                 else case mtd_read K mtd fd eb 0 (eb_size mtd) w of None \<Rightarrow> None | Some (err, buf, w) \<Rightarrow>
                 if err \<noteq> 0 then Some (False, w)
                 else if \<not> check_pattern buf patt then Some (False, set_errno EIO w)
                 else Some (True, w))"

fun torture_rounds ::
  "'k kernel \<Rightarrow> mtd_dev \<Rightarrow> int \<Rightarrow> int \<Rightarrow> u8 list \<Rightarrow> 'k world \<Rightarrow> (bool \<times> 'k world) option" where
  "torture_rounds K mtd fd eb [] w = Some (True, w)"
| "torture_rounds K mtd fd eb (p # ps) w =
     (case torture_round K mtd fd eb p w of
        None \<Rightarrow> None
      | Some (ok, w) \<Rightarrow> if ok then torture_rounds K mtd fd eb ps w else Some (False, w))"

definition mtd_torture :: "'k kernel \<Rightarrow> mtd_dev \<Rightarrow> int \<Rightarrow> int \<Rightarrow> 'k world \<Rightarrow> (int \<times> 'k world) option" where
  "mtd_torture K mtd fd eb w = map_option (\<lambda>(ok, w). (-1, w)) (torture_rounds K mtd fd eb patterns w)"

section \<open>One block at a time\<close>

text \<open>
  \<open>lib_step mtd eb w w'\<close>: a library call for block \<open>eb\<close> leaves the program's own
  state alone and asks only for that block, and for nothing at all when the block is not
  one of the partition.
\<close>

definition lib_step :: "mtd_dev \<Rightarrow> int \<Rightarrow> 'k world \<Rightarrow> 'k world \<Rightarrow> bool" where
  "lib_step mtd eb w w' \<longleftrightarrow> frame w w' \<and>
     extends (\<lambda>c. mtd_valid_erase_block mtd eb \<and> in_block mtd eb c) w w'"

lemma lib_step_refl [simp, intro]: "lib_step mtd eb w w"
  by (simp add: lib_step_def)

lemma lib_step_trans [trans]: "lib_step mtd eb w w' \<Longrightarrow> lib_step mtd eb w' w'' \<Longrightarrow> lib_step mtd eb w w''"
  unfolding lib_step_def by (blast intro: frame_trans extends_trans)

lemma lib_step_errno [simp]: "lib_step mtd eb w (set_errno e w') = lib_step mtd eb w w'"
  by (simp add: lib_step_def frame_def set_errno_def extends_def)

lemma lib_step_offs64 [simp]: "lib_step mtd eb w (w'\<lparr>offs64 := s\<rparr>) = lib_step mtd eb w w'"
  by (simp add: lib_step_def frame_def extends_def)

lemma lib_step_syscall:
  "syscall K fd c w = (r, w') \<Longrightarrow> mtd_valid_erase_block mtd eb \<Longrightarrow> in_block mtd eb c \<Longrightarrow> lib_step mtd eb w w'"
  unfolding lib_step_def by (simp add: frame_syscall extends_syscall)

named_theorems lib_steps "library calls stay inside their block"

lemma mtd_unlock_step [lib_steps]: "mtd_unlock K mtd fd eb w = (r, w') \<Longrightarrow> lib_step mtd eb w w'"
  by (auto simp: mtd_unlock_def split: if_splits prod.splits intro: lib_step_syscall)

lemma mtd_is_bad_step [lib_steps]: "mtd_is_bad K mtd fd eb w = (r, w') \<Longrightarrow> lib_step mtd eb w w'"
  by (auto simp: mtd_is_bad_def Let_def split: if_splits prod.splits intro: lib_step_syscall)

lemma mtd_mark_bad_step [lib_steps]: "mtd_mark_bad K mtd fd eb w = (r, w') \<Longrightarrow> lib_step mtd eb w w'"
  by (auto simp: mtd_mark_bad_def Let_def split: if_splits prod.splits intro: lib_step_syscall)

lemma mtd_erase_step [lib_steps]:
  assumes "mtd_erase K mtd fd eb w = (r, w')" shows "lib_step mtd eb w w'"
proof (cases "mtd_valid_erase_block mtd eb")
  case True
  obtain r1 w1 where 1: "syscall K fd (MEMERASE64 (eb * eb_size mtd) (eb_size mtd)) w = (r1, w1)" by (metis surj_pair)
  obtain r2 w2 where 2: "syscall K fd (MEMERASE (eb * eb_size mtd) (eb_size mtd)) w = (r2, w2)" by (metis surj_pair)
  obtain r3 w3 where 3: "syscall K fd (MEMERASE (eb * eb_size mtd) (eb_size mtd))
      (w1\<lparr>offs64 := OFFS64_IOCTLS_NOT_SUPPORTED\<rparr>) = (r3, w3)" by (metis surj_pair)
  have s1: "lib_step mtd eb w w1" using lib_step_syscall [OF 1 True] by simp
  have s2: "lib_step mtd eb w w2" using lib_step_syscall [OF 2 True] by simp
  have "lib_step mtd eb (w1\<lparr>offs64 := OFFS64_IOCTLS_NOT_SUPPORTED\<rparr>) w3" using lib_step_syscall [OF 3 True] by simp
  moreover have "lib_step mtd eb w (w1\<lparr>offs64 := OFFS64_IOCTLS_NOT_SUPPORTED\<rparr>)" using s1 by simp
  ultimately have s3: "lib_step mtd eb w w3" by (rule lib_step_trans [rotated])
  show ?thesis using assms s1 s2 s3 True by (auto simp: mtd_erase_def Let_def 1 2 3 split: if_splits)
next
  case False
  with assms show ?thesis by (auto simp: mtd_erase_def)
qed

lemma do_oob_write_step:
  assumes "do_oob_write K mtd fd start data w = (r, w')" "mtd_valid_erase_block mtd eb"
    and "eb * eb_size mtd \<le> start" "start \<le> (eb + 1) * eb_size mtd"
  shows "lib_step mtd eb w w'"
proof -
  obtain r1 w1 where 1: "syscall K fd (MEMWRITEOOB64 start data) w = (r1, w1)" by (metis surj_pair)
  obtain r2 w2 where 2: "syscall K fd (MEMWRITEOOB start data) w = (r2, w2)" by (metis surj_pair)
  obtain r3 w3 where 3: "syscall K fd (MEMWRITEOOB start data)
      (w1\<lparr>offs64 := OFFS64_IOCTLS_NOT_SUPPORTED\<rparr>) = (r3, w3)" by (metis surj_pair)
  have s1: "lib_step mtd eb w w1" using lib_step_syscall [OF 1 assms(2)] assms(3,4) by simp
  have s2: "lib_step mtd eb w w2" using lib_step_syscall [OF 2 assms(2)] assms(3,4) by simp
  have "lib_step mtd eb (w1\<lparr>offs64 := OFFS64_IOCTLS_NOT_SUPPORTED\<rparr>) w3"
    using lib_step_syscall [OF 3 assms(2)] assms(3,4) by simp
  moreover have "lib_step mtd eb w (w1\<lparr>offs64 := OFFS64_IOCTLS_NOT_SUPPORTED\<rparr>)" using s1 by simp
  ultimately have s3: "lib_step mtd eb w w3" by (rule lib_step_trans [rotated])
  show ?thesis using assms(1) s1 s2 s3 by (auto simp: do_oob_write_def Let_def 1 2 3 split: if_splits)
qed

lemma write_data_step:
  assumes "write_data K fd seek data w = (r, w')" "mtd_valid_erase_block mtd eb"
    and "eb * eb_size mtd \<le> seek" "seek \<le> (eb + 1) * eb_size mtd"
  shows "lib_step mtd eb w w'"
proof -
  obtain r1 w1 where 1: "syscall K fd (LSEEK seek) w = (r1, w1)" by (metis surj_pair)
  obtain r2 w2 where 2: "syscall K fd (WRITE data) w1 = (r2, w2)" by (metis surj_pair)
  have s1: "lib_step mtd eb w w1" using lib_step_syscall [OF 1 assms(2)] assms(3,4) by simp
  also have "lib_step mtd eb w1 w2" using lib_step_syscall [OF 2 assms(2)] by simp
  finally show ?thesis using assms(1) s1 by (auto simp: write_data_def Let_def 1 2 split: if_splits)
qed

lemma write_oob_area_step:
  assumes "write_oob_area K mtd fd seek oob mode w = (r, w')" "mtd_valid_erase_block mtd eb"
    and "eb * eb_size mtd \<le> seek" "seek \<le> (eb + 1) * eb_size mtd"
  shows "lib_step mtd eb w w'"
proof -
  obtain ret oob1 w1 where l: "(if mode = MTD_OPS_AUTO_OOB then legacy_auto_oob_layout K mtd fd oob w
      else (0, oob, w)) = (ret, oob1, w1)" by (metis prod_cases3)
  obtain r2 w2 where 2: "syscall K fd MEMGETOOBSEL w = (r2, w2)" by (metis surj_pair)
  have "lib_step mtd eb w w2" using lib_step_syscall [OF 2 assms(2)] by simp
  then have s1: "lib_step mtd eb w w1"
    using l by (auto simp: legacy_auto_oob_layout_def Let_def 2 split: if_splits)
  obtain r3 w3 where 3: "do_oob_write K mtd fd seek oob1 w1 = (r3, w3)" by (metis surj_pair)
  have "lib_step mtd eb w w3" using s1 do_oob_write_step [OF 3 assms(2-4)] by (rule lib_step_trans)
  then show ?thesis using assms(1) s1 by (auto simp: write_oob_area_def Let_def l 3 split: if_splits)
qed

lemma mtd_write_step [lib_steps]:
  assumes "mtd_write K mtd fd eb offs data oob mode w = (r, w')"
  shows "lib_step mtd eb w w'"
proof (cases "mtd_valid_erase_block mtd eb \<and> 0 \<le> offs \<and> offs + int (length data) \<le> eb_size mtd")
  case False
  with assms show ?thesis
    by (elim de_Morgan_conj [THEN iffD1, THEN disjE] disjE)
      (auto simp: mtd_write_def Let_def not_le split: if_splits)
next
  case True
  let ?seek = "eb * eb_size mtd + offs"
  have v: "mtd_valid_erase_block mtd eb" and b: "eb * eb_size mtd \<le> ?seek" "?seek \<le> (eb + 1) * eb_size mtd"
    using True by (simp_all add: distrib_right)
  show ?thesis
  proof (cases oob)
    case None
    obtain r1 w1 where 1: "write_data K fd ?seek data w = (r1, w1)" by (metis surj_pair)
    with assms None write_data_step [OF 1 v b] show ?thesis
      by (auto simp: mtd_write_def Let_def split: if_splits)
  next
    case (Some ob)
    obtain r1 w1 where 1: "syscall K fd (MEMWRITE ?seek data ob mode) w = (r1, w1)" by (metis surj_pair)
    obtain r2 w2 where 2: "write_oob_area K mtd fd ?seek ob mode w1 = (r2, w2)" by (metis surj_pair)
    obtain r3 w3 where 3: "write_data K fd ?seek data w2 = (r3, w3)" by (metis surj_pair)
    have s1: "lib_step mtd eb w w1"
      using lib_step_syscall [OF 1 v] b True by (simp add: distrib_right)
    then have s2: "lib_step mtd eb w w2" using write_oob_area_step [OF 2 v b] by (rule lib_step_trans)
    then have s3: "lib_step mtd eb w w3" using write_data_step [OF 3 v b] by (rule lib_step_trans)
    show ?thesis
      using assms Some s1 s2 s3 by (auto simp: mtd_write_def Let_def 1 2 3 split: if_splits)
  qed
qed

lemma read_loop_step:
  assumes "read_loop K fd len acc w = Some y" and v: "mtd_valid_erase_block mtd eb"
  shows "lib_step mtd eb w (snd (snd y))"
proof (rule read_loop.raw_induct [OF _ assms(1), where P = "\<lambda>_ _ _ _ w y. lib_step mtd eb w (snd (snd y))"])
  fix f and K :: "'a kernel" and fd len acc w y
  assume IH: "\<And>K fd len acc w y. f K fd len acc w = Some y \<Longrightarrow> lib_step mtd eb w (snd (snd y))"
    and eq: "(if int (length acc) < len
        then let (r, w) = syscall K fd (READ (len - int (length acc))) w
             in if rep_ret r < 0 then Some (-1, acc, w)
                else f K fd len (acc @ take (nat (rep_ret r)) (rep_bytes r)) w
        else Some (0, acc, w)) = Some y"
  obtain r w1 where k: "syscall K fd (READ (len - int (length acc))) w = (r, w1)" by (metis surj_pair)
  have s: "lib_step mtd eb w w1" using lib_step_syscall [OF k v] by simp
  then show "lib_step mtd eb w (snd (snd y))"
    using eq IH [of K fd len _ w1 y] by (auto simp: k split: if_splits intro: lib_step_trans [OF s])
qed

lemma mtd_read_step [lib_steps]:
  assumes "mtd_read K mtd fd eb offs len w = Some (r, bs, w')" and "0 \<le> len"
  shows "lib_step mtd eb w w'"
proof (cases "mtd_valid_erase_block mtd eb \<and> 0 \<le> offs \<and> offs + len \<le> eb_size mtd")
  case False
  with assms(1) show ?thesis
    by (elim de_Morgan_conj [THEN iffD1, THEN disjE] disjE)
      (auto simp: mtd_read_def Let_def not_le split: if_splits)
next
  case True
  obtain r1 w1 where k: "syscall K fd (LSEEK (eb * eb_size mtd + offs)) w = (r1, w1)" by (metis surj_pair)
  have s: "lib_step mtd eb w w1"
    using lib_step_syscall [OF k] True assms(2) by (simp add: distrib_right)
  show ?thesis using assms(1) True s read_loop_step [of K fd len "[]" w1]
    by (auto simp: mtd_read_def Let_def k split: if_splits intro: lib_step_trans [OF s])
qed

lemma torture_round_step:
  assumes "torture_round K mtd fd eb p w = Some (ok, w')" and "0 \<le> eb_size mtd"
  shows "lib_step mtd eb w w'"
proof -
  obtain e1 w1 where 1: "mtd_erase K mtd fd eb w = (e1, w1)" by (metis surj_pair)
  have s1: "lib_step mtd eb w w1" by (rule mtd_erase_step [OF 1])
  show ?thesis
  proof (cases "e1 = 0")
    case False
    with assms(1) s1 show ?thesis by (auto simp: torture_round_def 1)
  next
    case True
    then obtain e2 b2 w2 where 2: "mtd_read K mtd fd eb 0 (eb_size mtd) w1 = Some (e2, b2, w2)"
      using assms(1) by (auto simp: torture_round_def 1 split: option.splits)
    have s2: "lib_step mtd eb w w2" by (rule lib_step_trans [OF s1 mtd_read_step [OF 2 assms(2)]])
    obtain e3 w3 where 3: "mtd_write K mtd fd eb 0 (replicate (nat (eb_size mtd)) p) None MTD_OPS_PLACE_OOB w2 = (e3, w3)"
      by (metis surj_pair)
    have s3: "lib_step mtd eb w w3" by (rule lib_step_trans [OF s2 mtd_write_step [OF 3]])
    have "lib_step mtd eb w w4" if "mtd_read K mtd fd eb 0 (eb_size mtd) w3 = Some (e4, b4, w4)" for e4 b4 w4
      by (rule lib_step_trans [OF s3 mtd_read_step [OF that assms(2)]])
    then show ?thesis
      using assms(1) True s2 s3 by (auto simp: torture_round_def 1 2 3 split: if_splits option.splits)
  qed
qed

lemma torture_rounds_step:
  "torture_rounds K mtd fd eb ps w = Some (ok, w') \<Longrightarrow> 0 \<le> eb_size mtd \<Longrightarrow> lib_step mtd eb w w'"
proof (induction ps arbitrary: w)
  case (Cons p ps)
  then obtain ok1 w1 where 1: "torture_round K mtd fd eb p w = Some (ok1, w1)" by (auto split: option.splits)
  have "lib_step mtd eb w w1" by (rule torture_round_step [OF 1 Cons.prems(2)])
  then show ?case using Cons 1 by (auto split: if_splits intro: lib_step_trans)
qed simp

lemma mtd_torture_step [lib_steps]:
  "mtd_torture K mtd fd eb w = Some (r, w') \<Longrightarrow> 0 \<le> eb_size mtd \<Longrightarrow> lib_step mtd eb w w'"
  by (auto simp: mtd_torture_def dest: torture_rounds_step)

end
