(* ===== verification/Registry.thy ===== *)
theory Registry
  imports Prelude
begin

text \<open>
  The interface the program's registries share: objects known by name are added at the end
  and taken out again. What a client that installs and removes a whole list of names relies
  on is proved here once; the registry of filesystems and that of block managers are
  instances.
\<close>

locale named_registry =
  fixes add :: "string \<Rightarrow> 'r \<Rightarrow> int \<times> 'r"
    and del :: "string \<Rightarrow> 'r \<Rightarrow> int \<times> 'r"
    and names :: "'r \<Rightarrow> string set"
    and known :: "'r \<Rightarrow> string set"
    and sound :: "'r \<Rightarrow> bool"
  assumes add_names: "sound r \<Longrightarrow> n \<in> known r \<Longrightarrow> add n r = (0, r') \<Longrightarrow>
      sound r' \<and> names r' = insert n (names r) \<and> known r' = known r"
    and del_names: "sound r \<Longrightarrow> n \<in> names r \<Longrightarrow> \<exists>r'. del n r = (0, r') \<and> sound r' \<and> names r' = names r - {n}"
    and del_missing: "n \<notin> names r \<Longrightarrow> fst (del n r) < 0"
begin

lemma add_del:
  assumes "sound r" "n \<in> known r" "n \<notin> names r" "add n r = (0, r')"
  shows "\<exists>r''. del n r' = (0, r'') \<and> sound r'' \<and> names r'' = names r"
  using add_names [OF assms(1,2,4)] del_names [of r' n] assms(3) by auto

lemma del_twice:
  assumes "sound r" "n \<in> names r" "del n r = (0, r')" shows "fst (del n r') < 0"
  using del_names [OF assms(1,2)] assms(3) del_missing [of n r'] by auto

text \<open>A client that adds the names of a list one after the other.\<close>

lemma add_all:
  assumes nil: "\<And>r. all_names [] r = (0, r)"
    and cons: "\<And>n ns r. sound r \<Longrightarrow> n \<in> known r \<Longrightarrow> \<exists>r'. add n r = (0, r') \<and> all_names (n # ns) r = all_names ns r'"
  shows "sound r \<Longrightarrow> set ns \<subseteq> known r \<Longrightarrow>
    \<exists>r'. all_names ns r = (0, r') \<and> sound r' \<and> names r' = names r \<union> set ns \<and> known r' = known r"
proof (induction ns arbitrary: r)
  case Nil
  then show ?case by (simp add: nil)
next
  case (Cons n ns)
  then obtain r1 where r1: "add n r = (0, r1)" "all_names (n # ns) r = all_names ns r1"
    using cons [of r n ns] by auto
  then have "sound r1" "names r1 = insert n (names r)" "known r1 = known r"
    using add_names [OF Cons.prems(1) _ r1(1)] Cons.prems(2) by simp_all
  moreover obtain r' where "all_names ns r1 = (0, r')" "sound r'" "names r' = names r1 \<union> set ns" "known r' = known r1"
    using Cons.IH [of r1] Cons.prems(2) calculation by auto
  ultimately show ?case using r1(2) by auto
qed

text \<open>A client that takes out those names of a list that are there.\<close>

lemma del_all:
  assumes nil: "\<And>r. all_names [] r = (0, r)"
    and cons: "\<And>n ns r. sound r \<Longrightarrow> all_names (n # ns) r =
      (if n \<in> names r then let (c, r) = del n r in if c < 0 then (-1, r) else all_names ns r else all_names ns r)"
  shows "sound r \<Longrightarrow> \<exists>r'. all_names ns r = (0, r') \<and> sound r' \<and> names r' = names r - set ns"
proof (induction ns arbitrary: r)
  case Nil
  then show ?case by (simp add: nil)
next
  case (Cons n ns)
  show ?case
  proof (cases "n \<in> names r")
    case True
    obtain r1 where r1: "del n r = (0, r1)" "sound r1" "names r1 = names r - {n}"
      using del_names [OF Cons.prems True] by blast
    then show ?thesis using Cons.IH [OF r1(2)] True Cons.prems by (auto simp: cons)
  next
    case False
    then show ?thesis using Cons.IH [OF Cons.prems] Cons.prems by (auto simp: cons)
  qed
qed

end

end
