(* ===== verification/FsManager.thy ===== *)
theory FsManager
  imports World Registry
begin

text \<open>
  Filesystem objects and their registry: \<open>client/recovery/block/fs/fs_manager.c\<close> with the
  records of \<open>include/block/fs/fs_manager.h\<close>, and the constructors of the normal, jffs2,
  cramfs and yaffs2 filesystems. A filesystem keeps the flags and the parameters of the
  operation it is about to do; what its operations do to the device is in \<open>MtdBase\<close> and
  \<open>MtdWrite\<close>. The five static objects of the program are a list, the registry a list of
  their names: a registered filesystem is one of the static objects, not a copy.
\<close>

section \<open>Flags and parameters\<close>

datatype fs_flag_bit =
    FS_FLAG_UNLOCK | FS_FLAG_NOECC | FS_FLAG_AUTOPLACE | FS_FLAG_WRITEOOB
  | FS_FLAG_OOBSIZE | FS_FLAG_PAD | FS_FLAG_MARKBAD | FS_FLAG_NOSKIPBAD

fun fs_flag_index :: "fs_flag_bit \<Rightarrow> nat" where
  "fs_flag_index FS_FLAG_UNLOCK = 0"
| "fs_flag_index FS_FLAG_NOECC = 1"
| "fs_flag_index FS_FLAG_AUTOPLACE = 2"
| "fs_flag_index FS_FLAG_WRITEOOB = 3"
| "fs_flag_index FS_FLAG_OOBSIZE = 4"
| "fs_flag_index FS_FLAG_PAD = 5"
| "fs_flag_index FS_FLAG_MARKBAD = 6"
| "fs_flag_index FS_FLAG_NOSKIPBAD = 7"

definition FS_FLAG_BITS :: "fs_flag_bit \<Rightarrow> u32" where
  "FS_FLAG_BITS b = push_bit (fs_flag_index b) 1"

text \<open>The method of an operation is an integer field; other values than these two can occur.\<close>

definition BM_OPERATION_METHOD_PARTITION :: int where "BM_OPERATION_METHOD_PARTITION = 0x200"
definition BM_OPERATION_METHOD_RANDOM :: int where "BM_OPERATION_METHOD_RANDOM = 0x201"

record fs_operation_params =
  p_method :: int
  p_buf :: "u8 list"
  p_offset :: int
  p_length :: int
  p_progress_size :: int
  p_max_size :: int
  p_max_mapped_size :: int
  p_content_start :: int
  p_mtd :: "mtd_dev option"

record filesystem =
  fs_name :: string
  tagsize :: int
  flag :: u32
  params :: "fs_operation_params option"

definition FS_FLAG_IS_SET :: "filesystem \<Rightarrow> fs_flag_bit \<Rightarrow> bool" where
  "FS_FLAG_IS_SET fs b \<longleftrightarrow> flag fs AND FS_FLAG_BITS b \<noteq> 0"

definition FS_FLAG_SET :: "fs_flag_bit \<Rightarrow> filesystem \<Rightarrow> filesystem" where
  "FS_FLAG_SET b fs = fs\<lparr>flag := flag fs OR FS_FLAG_BITS b\<rparr>"

definition FS_FLAG_CLEAR :: "fs_flag_bit \<Rightarrow> filesystem \<Rightarrow> filesystem" where
  "FS_FLAG_CLEAR b fs = fs\<lparr>flag := flag fs AND NOT (FS_FLAG_BITS b)\<rparr>"

record write_flags =
  noecc :: bool
  autoplace :: bool
  writeoob :: bool
  oobsize :: int
  pad :: bool
  markbad :: bool

definition fs_write_flags_get :: "filesystem \<Rightarrow> mtd_dev \<Rightarrow> write_flags" where
  "fs_write_flags_get fs mtd =
     \<lparr>noecc = FS_FLAG_IS_SET fs FS_FLAG_NOECC, autoplace = FS_FLAG_IS_SET fs FS_FLAG_AUTOPLACE,
      writeoob = FS_FLAG_IS_SET fs FS_FLAG_WRITEOOB,
      oobsize = (if tagsize fs \<noteq> 0 then tagsize fs else oob_size mtd),
      pad = FS_FLAG_IS_SET fs FS_FLAG_PAD, markbad = FS_FLAG_IS_SET fs FS_FLAG_MARKBAD\<rparr>"

definition fs_flags_get :: "filesystem \<Rightarrow> bool" where
  "fs_flags_get fs = FS_FLAG_IS_SET fs FS_FLAG_NOSKIPBAD"

text \<open>\<open>calloc\<close> of the parameters: everything zero.\<close>

definition zero_params :: fs_operation_params where
  "zero_params = \<lparr>p_method = 0, p_buf = [], p_offset = 0, p_length = 0,
     p_progress_size = 0, p_max_size = 0, p_max_mapped_size = 0, p_content_start = 0, p_mtd = None\<rparr>"

definition fs_alloc_params :: "filesystem \<Rightarrow> filesystem" where
  "fs_alloc_params fs = (case params fs of Some _ \<Rightarrow> fs | None \<Rightarrow> fs\<lparr>params := Some zero_params\<rparr>)"

definition fs_free_params :: "filesystem \<Rightarrow> filesystem" where
  "fs_free_params fs = fs\<lparr>params := None\<rparr>"

definition fs_set_params ::
  "filesystem \<Rightarrow> u8 list \<Rightarrow> int \<Rightarrow> int \<Rightarrow> int \<Rightarrow> mtd_dev option \<Rightarrow> filesystem" where
  "fs_set_params fs buf offset len op_method p =
     fs\<lparr>params := map_option (\<lambda>q. q\<lparr>p_buf := buf, p_offset := offset, p_length := len,
                                   p_method := op_method, p_mtd := p\<rparr>) (params fs)\<rparr>"

definition fs_set_params_process :: "filesystem \<Rightarrow> int \<Rightarrow> filesystem" where
  "fs_set_params_process fs file_max_size =
     fs\<lparr>params := map_option (\<lambda>q. q\<lparr>p_progress_size := 0, p_max_size := file_max_size\<rparr>) (params fs)\<rparr>"

section \<open>The filesystems\<close>

definition YAFFS2_TAG_SIZE :: int where "YAFFS2_TAG_SIZE = 28"

definition normal_init :: "filesystem \<Rightarrow> filesystem" where
  "normal_init fs = FS_FLAG_SET FS_FLAG_MARKBAD (FS_FLAG_SET FS_FLAG_PAD fs)"

definition cramfs_init :: "filesystem \<Rightarrow> filesystem" where
  "cramfs_init fs = FS_FLAG_SET FS_FLAG_MARKBAD (FS_FLAG_SET FS_FLAG_PAD fs)"

definition jffs2_init :: "filesystem \<Rightarrow> filesystem" where
  "jffs2_init fs = FS_FLAG_SET FS_FLAG_MARKBAD (FS_FLAG_SET FS_FLAG_PAD fs)"

definition yaffs2_init :: "filesystem \<Rightarrow> filesystem" where
  "yaffs2_init fs = FS_FLAG_SET FS_FLAG_MARKBAD (FS_FLAG_SET FS_FLAG_WRITEOOB
     (FS_FLAG_SET FS_FLAG_AUTOPLACE (fs\<lparr>tagsize := YAFFS2_TAG_SIZE\<rparr>)))"

definition static_fs :: "string \<Rightarrow> filesystem" where
  "static_fs n = \<lparr>fs_name = n, tagsize = 0, flag = 0, params = None\<rparr>"

definition fs_supported_list :: "filesystem list" where
  "fs_supported_list = map static_fs [''normal'', ''jffs2'', ''ubifs'', ''yaffs2'', ''cramfs'']"

definition fs_init :: "filesystem \<Rightarrow> filesystem" where
  "fs_init fs =
     (if fs_name fs = ''normal'' then normal_init fs
      else if fs_name fs = ''cramfs'' then cramfs_init fs
      else if fs_name fs = ''jffs2'' then jffs2_init fs
      else if fs_name fs = ''yaffs2'' then yaffs2_init fs
      else fs)"

section \<open>The registry\<close>

record fs_registry =
  fs_table :: "filesystem list"
  fs_registered :: "string list"

definition fs_find :: "string \<Rightarrow> filesystem list \<Rightarrow> filesystem option" where
  "fs_find n = find (\<lambda>fs. fs_name fs = n)"

definition fs_modify :: "string \<Rightarrow> (filesystem \<Rightarrow> filesystem) \<Rightarrow> filesystem list \<Rightarrow> filesystem list" where
  "fs_modify n f = map (\<lambda>fs. if fs_name fs = n then f fs else fs)"

definition fs_register :: "string \<Rightarrow> fs_registry \<Rightarrow> int \<times> fs_registry" where
  "fs_register n reg =
     (let reg = reg\<lparr>fs_table := fs_modify n fs_init (fs_table reg)\<rparr>
      in if n \<in> set (fs_registered reg) then (0, reg)
         else (0, reg\<lparr>fs_table := fs_modify n fs_alloc_params (fs_table reg),
                       fs_registered := fs_registered reg @ [n]\<rparr>))"

definition fs_unregister :: "string \<Rightarrow> fs_registry \<Rightarrow> int \<times> fs_registry" where
  "fs_unregister n reg =
     (if n \<in> set (fs_registered reg)
      then (0, reg\<lparr>fs_table := fs_modify n fs_free_params (fs_table reg),
                    fs_registered := remove1 n (fs_registered reg)\<rparr>)
      else (-1, reg))"

definition fs_get_registered_by_name :: "string \<Rightarrow> fs_registry \<Rightarrow> filesystem option" where
  "fs_get_registered_by_name n reg =
     (if n \<in> set (fs_registered reg) then fs_find n (fs_table reg) else None)"

definition fs_get_suppoted_by_name :: "string \<Rightarrow> filesystem list \<Rightarrow> filesystem option" where
  "fs_get_suppoted_by_name n table = fs_find n table"

definition fs_new :: "string \<Rightarrow> filesystem list \<Rightarrow> filesystem option" where
  "fs_new n table =
     map_option (\<lambda>fs. fs_alloc_params (fs\<lparr>params := None\<rparr>)) (fs_get_suppoted_by_name n table)"

text \<open>\<open>None\<close> is the null pointer of the parameters being read.\<close>

definition fs_derive :: "filesystem \<Rightarrow> filesystem option" where
  "fs_derive origin = map_option (\<lambda>q. (fs_alloc_params (origin\<lparr>params := None\<rparr>))\<lparr>params := Some q\<rparr>) (params origin)"

section \<open>Lemmas\<close>

text \<open>A flag is one bit: setting or clearing one leaves the others.\<close>

lemma flag_bits_and:
  "FS_FLAG_BITS b AND FS_FLAG_BITS c = (if b = c then FS_FLAG_BITS b else 0)"
  by (cases b; cases c; simp add: FS_FLAG_BITS_def)

lemma flag_bits_nonzero [simp]: "FS_FLAG_BITS b \<noteq> 0"
  by (cases b) (simp_all add: FS_FLAG_BITS_def)

lemma bit_FS_FLAG_BITS: "bit (FS_FLAG_BITS b) n \<longleftrightarrow> n = fs_flag_index b"
  by (cases b) (auto simp: FS_FLAG_BITS_def bit_simps simp del: push_bit_of_1)

lemma fs_flag_index_inj [simp]: "fs_flag_index b = fs_flag_index c \<longleftrightarrow> b = c"
  by (cases b; cases c; simp)

lemma fs_flag_is_set_bit: "FS_FLAG_IS_SET fs b \<longleftrightarrow> bit (flag fs) (fs_flag_index b)"
proof -
  have i: "fs_flag_index b < 32" by (cases b) simp_all
  have "FS_FLAG_IS_SET fs b \<longleftrightarrow> (\<exists>n<32. bit (flag fs) n \<and> n = fs_flag_index b)"
    unfolding FS_FLAG_IS_SET_def bit_eq_iff [where ?'a = "32 word"]
    by (auto simp: bit_and_iff bit_FS_FLAG_BITS simp del: bit_eq_iff)
  with i show ?thesis by blast
qed

lemma fs_flag_set [simp]: "FS_FLAG_IS_SET (FS_FLAG_SET b fs) c \<longleftrightarrow> b = c \<or> FS_FLAG_IS_SET fs c"
  by (auto simp: fs_flag_is_set_bit FS_FLAG_SET_def bit_or_iff bit_FS_FLAG_BITS)

lemma fs_flag_clear [simp]: "FS_FLAG_IS_SET (FS_FLAG_CLEAR b fs) c \<longleftrightarrow> b \<noteq> c \<and> FS_FLAG_IS_SET fs c"
proof -
  have "fs_flag_index c < 32" by (cases c) simp_all
  then show ?thesis
    by (auto simp: fs_flag_is_set_bit FS_FLAG_CLEAR_def bit_and_iff bit_not_iff bit_FS_FLAG_BITS)
qed

lemma fs_flag_select [simp]:
  "fs_name (FS_FLAG_SET b fs) = fs_name fs" "tagsize (FS_FLAG_SET b fs) = tagsize fs"
  "params (FS_FLAG_SET b fs) = params fs" "fs_name (FS_FLAG_CLEAR b fs) = fs_name fs"
  "tagsize (FS_FLAG_CLEAR b fs) = tagsize fs" "params (FS_FLAG_CLEAR b fs) = params fs"
  by (simp_all add: FS_FLAG_SET_def FS_FLAG_CLEAR_def)

lemma fs_name_fs_init [simp]: "fs_name (fs_init fs) = fs_name fs"
  by (simp add: fs_init_def normal_init_def cramfs_init_def jffs2_init_def yaffs2_init_def)

lemma fs_name_alloc [simp]: "fs_name (fs_alloc_params fs) = fs_name fs"
  by (simp add: fs_alloc_params_def split: option.split)

lemma fs_find_modify:
  assumes "\<And>fs. fs_name (f fs) = fs_name fs"
  shows "fs_find n (fs_modify m f table) = (if n = m then map_option f (fs_find n table) else fs_find n table)"
  by (induction table) (auto simp: fs_find_def fs_modify_def assms)

section \<open>The registry as an instance\<close>

text \<open>The static objects a registry can hold.\<close>

definition known_fs :: "fs_registry \<Rightarrow> string set" where
  "known_fs reg = set (map fs_name (fs_table reg))"

definition registry_sound :: "fs_registry \<Rightarrow> bool" where
  "registry_sound reg \<longleftrightarrow> distinct (fs_registered reg) \<and> set (fs_registered reg) \<subseteq> known_fs reg"

lemma known_fs_find: "n \<in> known_fs reg \<longleftrightarrow> fs_find n (fs_table reg) \<noteq> None"
  by (auto simp: known_fs_def fs_find_def find_None_iff)

lemma names_modify:
  "(\<And>fs. fs_name (f fs) = fs_name fs) \<Longrightarrow> fs_name ` set (fs_modify n f table) = fs_name ` set table"
  by (induction table) (auto simp: fs_modify_def)

lemma fs_name_free [simp]: "fs_name (fs_free_params fs) = fs_name fs"
  by (simp add: fs_free_params_def)

lemma known_fs_register: "known_fs (snd (fs_register n reg)) = known_fs reg"
  by (simp add: fs_register_def Let_def known_fs_def names_modify)

lemma known_fs_unregister: "known_fs (snd (fs_unregister n reg)) = known_fs reg"
  by (simp add: fs_unregister_def known_fs_def names_modify)

lemma fs_register_names: "set (fs_registered (snd (fs_register n reg))) = insert n (set (fs_registered reg))"
  "distinct (fs_registered reg) \<Longrightarrow> distinct (fs_registered (snd (fs_register n reg)))"
  by (auto simp: fs_register_def Let_def)

lemma fs_unregister_names:
  "distinct (fs_registered reg) \<Longrightarrow> set (fs_registered (snd (fs_unregister n reg))) = set (fs_registered reg) - {n}"
  "distinct (fs_registered reg) \<Longrightarrow> distinct (fs_registered (snd (fs_unregister n reg)))"
  "n \<in> set (fs_registered reg) \<Longrightarrow> fst (fs_unregister n reg) = 0"
  by (auto simp: fs_unregister_def)

interpretation fsr: named_registry fs_register fs_unregister "\<lambda>reg. set (fs_registered reg)" known_fs registry_sound
proof
  fix r :: fs_registry and n :: string and r' assume "registry_sound r" "n \<in> known_fs r" "fs_register n r = (0, r')"
  then show "registry_sound r' \<and> set (fs_registered r') = insert n (set (fs_registered r)) \<and> known_fs r' = known_fs r"
    using fs_register_names(1) [of n r] fs_register_names(2) [of r n] known_fs_register [of n r] by (simp add: registry_sound_def)
next
  fix r :: fs_registry and n :: string assume s: "registry_sound r" "n \<in> set (fs_registered r)"
  obtain c r' where r': "fs_unregister n r = (c, r')" by (metis surj_pair)
  then show "\<exists>r'. fs_unregister n r = (0, r') \<and> registry_sound r' \<and> set (fs_registered r') = set (fs_registered r) - {n}"
    using s fs_unregister_names(1,2) [of r n] fs_unregister_names(3) [of n r] known_fs_unregister [of n r] by (auto simp: registry_sound_def)
next
  fix n :: string and r :: fs_registry assume "n \<notin> set (fs_registered r)"
  then show "fst (fs_unregister n r) < 0" by (simp add: fs_unregister_def)
qed

lemma fs_register_succeeds: "\<exists>reg'. fs_register n reg = (0, reg')"
  by (simp add: fs_register_def Let_def)

end
