(* ===== verification/MtdBase.thy ===== *)
theory MtdBase
  imports Libmtd FsManager
begin

text \<open>
  The generic MTD operations that need nothing of the system areas, from
  \<open>client/recovery/block/blocks/mtd/base.c\<close>: geometry, the table of block states, the scan
  that finds room for an image between bad blocks, the progress event and the read.
  An operation that does not come back is \<open>None\<close>: it loops for ever, divides by zero,
  dereferences a null pointer or leaves a buffer or the block table.
\<close>

section \<open>The environment\<close>

text \<open>
  What stays fixed while operations run: the manager's name, the partitions in the order
  of the flash, the start of the entry after the last one, whether a listener is
  installed, whether the system areas are bound to this manager, and the static
  filesystem objects new ones are copied from.
\<close>

record bm_env =
  bm_name :: string
  bm_parts :: "mtd_dev list"
  bm_end :: int
  bm_listening :: bool
  bm_sysinfo :: bool
  bm_filesystems :: "filesystem list"

definition mtd_type_is_nand :: "mtd_dev \<Rightarrow> bool" where
  "mtd_type_is_nand mtd \<longleftrightarrow> mtd_type mtd = NANDFLASH \<or> mtd_type mtd = MLCNANDFLASH"

definition mtd_type_is_mlc_nand :: "mtd_dev \<Rightarrow> bool" where
  "mtd_type_is_mlc_nand mtd \<longleftrightarrow> mtd_type mtd = MLCNANDFLASH"

definition mtd_type_is_nor :: "mtd_dev \<Rightarrow> bool" where
  "mtd_type_is_nor mtd \<longleftrightarrow> mtd_type mtd = NORFLASH"

definition MTD_OFFSET_TO_EB_INDEX :: "mtd_dev \<Rightarrow> int \<Rightarrow> int" where
  "MTD_OFFSET_TO_EB_INDEX mtd off = cdiv off (eb_size mtd)"

definition MTD_BLOCK_ALIGN :: "mtd_dev \<Rightarrow> int \<Rightarrow> int" where
  "MTD_BLOCK_ALIGN mtd off = off AND (NOT (eb_size mtd) + 1)"

definition MTD_EB_RELATIVE_TO_ABSOLUTE :: "mtd_dev \<Rightarrow> int \<Rightarrow> int" where
  "MTD_EB_RELATIVE_TO_ABSOLUTE mtd eb = eb + MTD_OFFSET_TO_EB_INDEX mtd (part_start mtd)"

definition MTD_EB_ABSOLUTE_TO_RELATIVE :: "mtd_dev \<Rightarrow> int \<Rightarrow> int" where
  "MTD_EB_ABSOLUTE_TO_RELATIVE mtd eb = eb - MTD_OFFSET_TO_EB_INDEX mtd (part_start mtd)"

definition mtd_get_capacity :: "bm_env \<Rightarrow> int" where
  "mtd_get_capacity env = sum_list (map mtd_size (bm_parts env))"

fun dev_by_offset :: "mtd_dev list \<Rightarrow> int \<Rightarrow> int \<Rightarrow> mtd_dev option" where
  "dev_by_offset [] acc offset = None"
| "dev_by_offset (p # ps) acc offset =
     (if offset < acc + mtd_size p then Some p else dev_by_offset ps (acc + mtd_size p) offset)"

definition mtd_get_dev_info_by_offset :: "bm_env \<Rightarrow> int \<Rightarrow> mtd_dev option" where
  "mtd_get_dev_info_by_offset env offset = dev_by_offset (bm_parts env) 0 offset"

text \<open>The start recorded for entry \<open>i\<close>; the table has one entry more than there are partitions.\<close>

definition BM_GET_PARTINFO_START :: "bm_env \<Rightarrow> nat \<Rightarrow> int option" where
  "BM_GET_PARTINFO_START env i =
     (if i < length (bm_parts env) then Some (part_start (bm_parts env ! i))
      else if i = length (bm_parts env) then Some (bm_end env) else None)"

section \<open>The table of block states\<close>

definition MTD_BLK_PREFIX :: u32 where "MTD_BLK_PREFIX = 0x5A5A5A00"
definition MTD_BLK_SCAN :: u32 where "MTD_BLK_SCAN = 0x5A5A5A01"
definition MTD_BLK_BAD :: u32 where "MTD_BLK_BAD = 0x5A5A5A02"
definition MTD_BLK_ERASED :: u32 where "MTD_BLK_ERASED = 0x5A5A5A03"

definition mtd_bm_block_map_init :: "bm_env \<Rightarrow> mtd_dev \<Rightarrow> 'k world \<Rightarrow> 'k world" where
  "mtd_bm_block_map_init env mtd w =
     (case block_map w of
        Some _ \<Rightarrow> w
      | None \<Rightarrow> let total_eb = cdiv (mtd_get_capacity env) (eb_size mtd)
                in w\<lparr>block_map := Some \<lparr>es = replicate (nat total_eb) 0, map_eb_start = 0,
                                       map_eb_cnt = total_eb, bad_cnt = 0\<rparr>\<rparr>)"

definition mtd_bm_block_map_destroy :: "'k world \<Rightarrow> 'k world" where
  "mtd_bm_block_map_destroy w = w\<lparr>block_map := None\<rparr>"

definition mtd_bm_block_map_is_valid :: "'k world \<Rightarrow> bool" where
  "mtd_bm_block_map_is_valid w \<longleftrightarrow> block_map w \<noteq> None"

text \<open>\<open>mi->es[eb]\<close>, \<open>None\<close> outside the table.\<close>

definition block_state :: "'k world \<Rightarrow> int \<Rightarrow> u32 option" where
  "block_state w eb =
     (case block_map w of
        None \<Rightarrow> None
      | Some m \<Rightarrow> if 0 \<le> eb \<and> eb < int (length (es m)) then Some (es m ! nat eb) else None)"

definition mtd_bm_block_map_is_taged :: "'k world \<Rightarrow> int \<Rightarrow> bool option" where
  "mtd_bm_block_map_is_taged w eb = map_option (\<lambda>s. s AND MTD_BLK_PREFIX = MTD_BLK_PREFIX) (block_state w eb)"

definition mtd_bm_block_map_is_bad :: "'k world \<Rightarrow> int \<Rightarrow> bool option" where
  "mtd_bm_block_map_is_bad w eb = map_option (\<lambda>s. s = MTD_BLK_BAD) (block_state w eb)"

definition mtd_bm_block_map_is_erased :: "'k world \<Rightarrow> int \<Rightarrow> bool option" where
  "mtd_bm_block_map_is_erased w eb = map_option (\<lambda>s. s = MTD_BLK_ERASED) (block_state w eb)"

definition mtd_bm_block_map_set :: "int \<Rightarrow> u32 \<Rightarrow> 'k world \<Rightarrow> 'k world option" where
  "mtd_bm_block_map_set eb status w =
     (case (block_map w, block_state w eb) of
        (Some m, Some s) \<Rightarrow>
          Some (if s \<noteq> status then
                  let m = (if status = MTD_BLK_BAD then m\<lparr>bad_cnt := bad_cnt m + 1\<rparr> else m)
                  in if s = MTD_BLK_BAD then w\<lparr>block_map := Some m\<rparr>
                     else w\<lparr>block_map := Some (m\<lparr>es := (es m)[nat eb := status]\<rparr>)\<rparr>
                else w)
      | _ \<Rightarrow> None)"

definition mtd_boundary_is_valid :: "mtd_dev \<Rightarrow> int \<Rightarrow> int \<Rightarrow> bool" where
  "mtd_boundary_is_valid mtd eb_start eb_end \<longleftrightarrow>
     \<not> (eb_start < 0 \<or> eb_end > MTD_OFFSET_TO_EB_INDEX mtd (mtd_size mtd))"

section \<open>Scanning for room\<close>

datatype scan_verdict = Usable | Unusable | ScanError

text \<open>One round of the loop; \<open>Usable\<close> is the branches that add the block to \<open>pass\<close>.\<close>

definition scan_block ::
  "'k kernel \<Rightarrow> mtd_dev \<Rightarrow> bool \<Rightarrow> int \<Rightarrow> 'k world \<Rightarrow> (scan_verdict \<times> 'k world) option" where
  "scan_block K mtd noskipbad eb w =
     (let abs = MTD_EB_RELATIVE_TO_ABSOLUTE mtd eb
      in case (mtd_bm_block_map_is_taged w abs, mtd_bm_block_map_is_bad w abs) of
           (Some taged, Some bad) \<Rightarrow>
             if taged \<and> \<not> bad then Some (Usable, w)
             else (case mtd_bm_block_map_set abs MTD_BLK_SCAN w of
                     None \<Rightarrow> None
                   | Some w \<Rightarrow>
                       if mtd_type_is_nor mtd then Some (Usable, w)
                       else if noskipbad then Some (Usable, w)
                       else let (retval, w) = mtd_is_bad K mtd (fds w (part_id mtd)) eb w
                            in if retval = -1 then Some (ScanError, w)
                               else if retval \<noteq> 0 then
                                 (if errno w = EOPNOTSUPP then Some (ScanError, w)
                                  else map_option (Pair Unusable) (mtd_bm_block_map_set abs MTD_BLK_BAD w))
                               else Some (Usable, w))
         | _ \<Rightarrow> None)"

function scan_loop ::
  "'k kernel \<Rightarrow> mtd_dev \<Rightarrow> bool \<Rightarrow> int \<Rightarrow> int \<Rightarrow> int \<Rightarrow> 'k world \<Rightarrow> (bool \<times> int \<times> 'k world) option" where
  "scan_loop K mtd noskipbad total_bytes eb pass w =
     (if eb < eb_cnt mtd then
        (case scan_block K mtd noskipbad eb w of
           None \<Rightarrow> None
         | Some (ScanError, w) \<Rightarrow> Some (False, eb, w)
         | Some (Unusable, w) \<Rightarrow> scan_loop K mtd noskipbad total_bytes (eb + 1) pass w
         | Some (Usable, w) \<Rightarrow>
             if pass + eb_size mtd \<ge> total_bytes then Some (True, eb, w)
             else scan_loop K mtd noskipbad total_bytes (eb + 1) (pass + eb_size mtd) w)
      else Some (True, eb, w))"
  by pat_completeness auto
termination by (relation "measure (\<lambda>(K, mtd, n, t, eb, p, w). nat (eb_cnt mtd - eb))") auto

declare scan_loop.simps [simp del]

definition scan_end :: "bm_env \<Rightarrow> mtd_dev \<Rightarrow> fs_operation_params \<Rightarrow> int option" where
  "scan_end env mtd p =
     (if p_method p = BM_OPERATION_METHOD_PARTITION
      then map_option (MTD_OFFSET_TO_EB_INDEX mtd) (BM_GET_PARTINFO_START env (part_id mtd + 1))
      else Some (MTD_OFFSET_TO_EB_INDEX mtd (p_offset p + p_length p + eb_size mtd - 1)))"

definition mtd_block_scan :: "'k kernel \<Rightarrow> bm_env \<Rightarrow> filesystem \<Rightarrow> 'k world \<Rightarrow> (int \<times> 'k world) option" where
  "mtd_block_scan K env fs w =
     (case params fs of None \<Rightarrow> None | Some p \<Rightarrow>
      case p_mtd p of None \<Rightarrow> None | Some mtd \<Rightarrow>
      if p_length p < 0 then Some (-1, w)
      else if p_method p = BM_OPERATION_METHOD_RANDOM \<and> p_length p = 0 then Some (-1, w)
      else
        (case scan_end env mtd p of None \<Rightarrow> None | Some end_abs \<Rightarrow>
         let start_abs = MTD_OFFSET_TO_EB_INDEX mtd (p_offset p);
             total_bytes = (end_abs - start_abs) * eb_size mtd;
             start_eb = MTD_EB_ABSOLUTE_TO_RELATIVE mtd start_abs;
             end_eb = MTD_EB_ABSOLUTE_TO_RELATIVE mtd end_abs
         in if \<not> mtd_boundary_is_valid mtd start_eb end_eb then Some (-1, w)
            else let w = mtd_bm_block_map_init env mtd w
                 in if \<not> mtd_bm_block_map_is_valid w then Some (-1, w)
                    else (case scan_loop K mtd (fs_flags_get fs) total_bytes start_eb 0 w of
                            None \<Rightarrow> None
                          | Some (ok, eb, w) \<Rightarrow>
                              if \<not> ok then Some (-1, w)
                              else if p_method p \<noteq> BM_OPERATION_METHOD_PARTITION \<and> eb \<ge> eb_cnt mtd then Some (-1, w)
                              else Some ((eb - start_eb + 1) * eb_size mtd, w))))"

section \<open>Progress\<close>

definition set_process_info ::
  "bm_env \<Rightarrow> mtd_dev \<Rightarrow> bm_operation \<Rightarrow> int \<Rightarrow> int \<Rightarrow> 'k world \<Rightarrow> 'k world option" where
  "set_process_info env mtd type eboff ebcnt w =
     (if ebcnt = 0 then None
      else Some (if bm_listening env
                 then w\<lparr>events := events w @ [\<lparr>ev_part_name = mtd_name mtd, ev_operation = type,
                                             ev_progress = cdiv (eboff * 100) ebcnt\<rparr>]\<rparr>
                 else w))"

section \<open>Reading\<close>

text \<open>
  The cleanup at the label \<open>closeall\<close>: the partition's descriptor is closed and cleared.
\<close>

definition closeall :: "'k kernel \<Rightarrow> mtd_dev \<Rightarrow> 'k world \<Rightarrow> 'k world" where
  "closeall K mtd w =
     (if fds w (part_id mtd) \<noteq> 0
      then (snd (syscall K (fds w (part_id mtd)) CLOSE w))\<lparr>fds := (fds w)(part_id mtd := 0)\<rparr>
      else w)"

text \<open>
  The \<open>do ... while\<close> that steps over blocks recorded bad. The table is indexed with the
  block of the partition, not of the flash.
\<close>

partial_function (option) skip_bad :: "mtd_dev \<Rightarrow> 'k world \<Rightarrow> int \<Rightarrow> int option" where
  "skip_bad mtd w offset =
     (case mtd_bm_block_map_is_bad w (MTD_OFFSET_TO_EB_INDEX mtd offset) of
        None \<Rightarrow> None
      | Some bad \<Rightarrow>
          if bad then
            let offset = MTD_BLOCK_ALIGN mtd (offset + eb_size mtd)
            in if offset < mtd_size mtd then skip_bad mtd w offset else Some offset
          else Some offset)"

text \<open>
  The loop \<open>while (blockstart != MTD_BLOCK_ALIGN(mtd, offset))\<close>, run when an access reaches
  another block. Its body makes the condition false, so it runs at most once. The outcome
  is the new offset and block start, or \<open>Inl\<close> when the search passed the end of the
  partition.
\<close>

definition enter_block :: "mtd_dev \<Rightarrow> 'k world \<Rightarrow> int \<Rightarrow> int \<Rightarrow> (unit + int \<times> int) option" where
  "enter_block mtd w blockstart offset =
     (if blockstart = MTD_BLOCK_ALIGN mtd offset then Some (Inr (offset, blockstart))
      else if \<not> mtd_type_is_nand mtd then Some (Inr (offset, MTD_BLOCK_ALIGN mtd offset))
      else case skip_bad mtd w offset of
             None \<Rightarrow> None
           | Some offset \<Rightarrow> if offset \<ge> mtd_size mtd then Some (Inl ())
                            else Some (Inr (offset, MTD_BLOCK_ALIGN mtd offset)))"

partial_function (option) read_blocks ::
  "'k kernel \<Rightarrow> mtd_dev \<Rightarrow> int \<Rightarrow> int \<Rightarrow> int \<Rightarrow> u8 list \<Rightarrow> 'k world \<Rightarrow> (int option \<times> u8 list \<times> 'k world) option" where
  "read_blocks K mtd blockstart len offset buf w =
     (if len > 0 \<and> offset < mtd_size mtd then
        (case enter_block mtd w blockstart offset of
           None \<Rightarrow> None
         | Some (Inl _) \<Rightarrow> Some (None, buf, w)
         | Some (Inr (offset, blockstart)) \<Rightarrow>
             let room = eb_size mtd - cmod offset (eb_size mtd);
                 read_unit = (if len > room then room else len)
             in case mtd_read K mtd (fds w (part_id mtd)) (MTD_OFFSET_TO_EB_INDEX mtd offset)
                       (cmod offset (eb_size mtd)) read_unit w of
                  None \<Rightarrow> None
                | Some (ret, bytes, w) \<Rightarrow>
                    if ret \<noteq> 0 then Some (None, buf @ bytes, w)
                    else read_blocks K mtd blockstart (len - read_unit) (offset + read_unit) (buf @ bytes) w)
      else Some (Some offset, buf, w))"

text \<open>The result, the bytes stored at the start of the buffer, and the state.\<close>

definition mtd_basic_read ::
  "'k kernel \<Rightarrow> filesystem \<Rightarrow> 'k world \<Rightarrow> (int \<times> u8 list \<times> 'k world) option" where
  "mtd_basic_read K fs w =
     (case params fs of None \<Rightarrow> None | Some p \<Rightarrow>
      case p_mtd p of None \<Rightarrow> None | Some mtd \<Rightarrow>
      if \<not> mtd_bm_block_map_is_valid w then Some (-1, [], closeall K mtd w)
      else case read_blocks K mtd (-1) (p_length p) (p_offset p - part_start mtd) [] w of
             None \<Rightarrow> None
           | Some (None, bytes, w) \<Rightarrow> Some (-1, bytes, closeall K mtd w)
           | Some (Some offset, bytes, w) \<Rightarrow> Some (offset + part_start mtd, bytes, w))"

section \<open>Geometry\<close>

text \<open>
  A partition as the kernel reports it: erase blocks are a power of two, pages divide
  blocks, and the partition starts and ends on block boundaries.
\<close>

definition wf_mtd :: "mtd_dev \<Rightarrow> bool" where
  "wf_mtd mtd \<longleftrightarrow> (\<exists>k. eb_size mtd = 2 ^ k) \<and> 0 \<le> eb_cnt mtd \<and> mtd_size mtd = eb_cnt mtd * eb_size mtd
     \<and> 0 \<le> part_start mtd \<and> part_start mtd mod eb_size mtd = 0
     \<and> 0 < min_io_size mtd \<and> eb_size mtd mod min_io_size mtd = 0
     \<and> 0 < subpage_size mtd \<and> min_io_size mtd mod subpage_size mtd = 0"

text \<open>The first block of the partition, counted from the start of the flash.\<close>

definition first_eb :: "mtd_dev \<Rightarrow> int" where
  "first_eb mtd = part_start mtd div eb_size mtd"

lemma wf_mtd_pos: "wf_mtd mtd \<Longrightarrow> 0 < eb_size mtd"
  by (auto simp: wf_mtd_def)

lemma and_not_mask: "a AND NOT (mask k) = push_bit k (drop_bit k (a :: int))"
  by (rule bit_eqI) (auto simp: bit_simps)

lemma block_align:
  assumes "wf_mtd mtd" shows "MTD_BLOCK_ALIGN mtd off = off div eb_size mtd * eb_size mtd"
proof -
  from assms obtain k where k: "eb_size mtd = 2 ^ k" by (auto simp: wf_mtd_def)
  have "NOT (2 ^ k :: int) + 1 = NOT (mask k)" by (simp add: mask_eq_exp_minus_1 not_int_def)
  then show ?thesis
    by (simp add: MTD_BLOCK_ALIGN_def k and_not_mask push_bit_eq_mult drop_bit_eq_div)
qed

lemma rel_to_abs:
  assumes "wf_mtd mtd" shows "MTD_EB_RELATIVE_TO_ABSOLUTE mtd eb = eb + first_eb mtd"
  using assms by (simp add: MTD_EB_RELATIVE_TO_ABSOLUTE_def MTD_OFFSET_TO_EB_INDEX_def first_eb_def wf_mtd_def)

lemma abs_to_rel:
  assumes "wf_mtd mtd" shows "MTD_EB_ABSOLUTE_TO_RELATIVE mtd eb = eb - first_eb mtd"
  using assms by (simp add: MTD_EB_ABSOLUTE_TO_RELATIVE_def MTD_OFFSET_TO_EB_INDEX_def first_eb_def wf_mtd_def)

lemma eb_index: "0 \<le> off \<Longrightarrow> MTD_OFFSET_TO_EB_INDEX mtd off = off div eb_size mtd"
  by (simp add: MTD_OFFSET_TO_EB_INDEX_def)

section \<open>The table\<close>

text \<open>\<open>only_table\<close>: nothing but the table of block states may differ.\<close>

definition only_table :: "'k world \<Rightarrow> 'k world \<Rightarrow> bool" where
  "only_table w w' \<longleftrightarrow> (\<exists>m. w' = w\<lparr>block_map := m\<rparr>)"

lemma only_table_same [simp]:
  assumes "only_table w w'"
  shows "kern w' = kern w" "trace w' = trace w" "errno w' = errno w" "fds w' = fds w" "events w' = events w"
    "layout w' = layout w" "offs64 w' = offs64 w"
  using assms by (auto simp: only_table_def)

lemma only_table_refl [simp]: "only_table w w"
  unfolding only_table_def by (rule exI [of _ "block_map w"]) simp

lemma only_table_update [simp]: "only_table w (w\<lparr>block_map := m\<rparr>)"
  unfolding only_table_def by blast

lemma block_map_set:
  assumes "block_state w eb = Some s"
  shows "\<exists>w'. mtd_bm_block_map_set eb status w = Some w' \<and> only_table w w' \<and>
    (\<forall>e. block_state w' e = (if e = eb \<and> s \<noteq> MTD_BLK_BAD then Some status else block_state w e))"
proof -
  from assms obtain m where m: "block_map w = Some m" "0 \<le> eb" "eb < int (length (es m))" "s = es m ! nat eb"
    by (auto simp: block_state_def split: option.splits if_splits)
  have same: "block_state (w\<lparr>block_map := Some (m\<lparr>bad_cnt := n\<rparr>)\<rparr>) e = block_state w e" for n e
    by (simp add: block_state_def m(1))
  have upd: "block_state (w\<lparr>block_map := Some (m'\<lparr>es := (es m)[nat eb := status]\<rparr>)\<rparr>) e
      = (if e = eb then Some status else block_state w e)" for m' :: mtd_block_map and e
    using m(2,3) by (auto simp: block_state_def m(1) nth_list_update nat_eq_iff)
  note def = mtd_bm_block_map_set_def [of eb status w, unfolded m(1) assms option.case prod.case Let_def]
  consider (eq) "s = status" | (bad) "s \<noteq> status" "s = MTD_BLK_BAD" | (new) "s \<noteq> status" "s \<noteq> MTD_BLK_BAD" by blast
  then show ?thesis
  proof cases
    case eq
    then have "mtd_bm_block_map_set eb status w = Some w" by (simp add: def)
    with assms eq show ?thesis by (intro exI [of _ w]) auto
  next
    case bad
    then have "mtd_bm_block_map_set eb status w = Some (w\<lparr>block_map := Some m\<rparr>)" by (simp add: def)
    with bad show ?thesis using same [of "bad_cnt m"] by (intro exI [of _ "w\<lparr>block_map := Some m\<rparr>"]) simp
  next
    case new
    define m' where "m' = (if status = MTD_BLK_BAD then m\<lparr>bad_cnt := bad_cnt m + 1\<rparr> else m)"
    from new have "mtd_bm_block_map_set eb status w = Some (w\<lparr>block_map := Some (m'\<lparr>es := (es m)[nat eb := status]\<rparr>)\<rparr>)"
      by (simp add: def m'_def)
    with new show ?thesis
      by (intro exI [of _ "w\<lparr>block_map := Some (m'\<lparr>es := (es m)[nat eb := status]\<rparr>)\<rparr>"]) (simp add: upd)
  qed
qed

section \<open>The scan finds room\<close>

text \<open>
  \<open>answers K mtd bad\<close>: the device can tell which blocks of the partition are bad.
  \<open>map_agrees mtd bad w\<close>: the table covers the partition, and wherever it has been
  filled in it agrees with the device.
\<close>

definition answers :: "'k kernel \<Rightarrow> mtd_dev \<Rightarrow> (int \<Rightarrow> bool) \<Rightarrow> bool" where
  "answers K mtd bad \<longleftrightarrow>
     (\<forall>fd eb k. rep_ret (fst (K fd (MEMGETBADBLOCK (eb * eb_size mtd)) k)) = (if bad eb then 1 else 0))"

definition taged :: "u32 \<Rightarrow> bool" where
  "taged s \<longleftrightarrow> s AND MTD_BLK_PREFIX = MTD_BLK_PREFIX"

definition map_agrees :: "mtd_dev \<Rightarrow> (int \<Rightarrow> bool) \<Rightarrow> 'k world \<Rightarrow> bool" where
  "map_agrees mtd bad w \<longleftrightarrow>
     (\<forall>eb. 0 \<le> eb \<and> eb < eb_cnt mtd \<longrightarrow>
        (\<exists>s. block_state w (eb + first_eb mtd) = Some s \<and> (taged s \<longrightarrow> (s = MTD_BLK_BAD \<longleftrightarrow> bad eb))))"

text \<open>\<open>scanned\<close>: the table records the block.\<close>

definition scanned :: "mtd_dev \<Rightarrow> 'k world \<Rightarrow> int \<Rightarrow> bool" where
  "scanned mtd w eb \<longleftrightarrow> (\<exists>s. block_state w (eb + first_eb mtd) = Some s \<and> taged s)"

definition good_blocks :: "(int \<Rightarrow> bool) \<Rightarrow> int \<Rightarrow> int \<Rightarrow> int" where
  "good_blocks bad a b = int (length (filter (\<lambda>e. \<not> bad e) [a..b - 1]))"

lemma good_blocks_step: "a < b \<Longrightarrow> good_blocks bad a b = (if bad a then 0 else 1) + good_blocks bad (a + 1) b"
  by (simp add: good_blocks_def upto_rec1)

lemma good_blocks_empty [simp]: "b \<le> a \<Longrightarrow> good_blocks bad a b = 0"
  by (simp add: good_blocks_def)

lemma taged_consts [simp]: "taged MTD_BLK_SCAN" "taged MTD_BLK_BAD" "taged MTD_BLK_ERASED" "\<not> taged 0"
  "MTD_BLK_SCAN \<noteq> MTD_BLK_BAD" "MTD_BLK_ERASED \<noteq> MTD_BLK_BAD" "MTD_BLK_BAD \<noteq> MTD_BLK_SCAN" "MTD_BLK_BAD \<noteq> MTD_BLK_ERASED"
  by (simp_all add: taged_def MTD_BLK_SCAN_def MTD_BLK_PREFIX_def MTD_BLK_BAD_def MTD_BLK_ERASED_def)

text \<open>What a scan changes: the table and what it asked the kernel.\<close>

definition scan_frame :: "mtd_dev \<Rightarrow> 'k world \<Rightarrow> 'k world \<Rightarrow> bool" where
  "scan_frame mtd w w' \<longleftrightarrow> events w' = events w \<and> fds w' = fds w \<and> layout w' = layout w \<and> offs64 w' = offs64 w \<and>
     extends (\<lambda>c. \<exists>eb. mtd_valid_erase_block mtd eb \<and> c = MEMGETBADBLOCK (eb * eb_size mtd)) w w'"

lemma scan_frame_refl [simp]: "scan_frame mtd w w"
  by (simp add: scan_frame_def)

lemma scan_frame_trans [trans]: "scan_frame mtd w w' \<Longrightarrow> scan_frame mtd w' w'' \<Longrightarrow> scan_frame mtd w w''"
  by (auto simp: scan_frame_def intro: extends_trans)

lemma scan_frame_table: "only_table w w' \<Longrightarrow> scan_frame mtd w w'"
  by (simp add: scan_frame_def extends_same_trace)

lemma block_state_syscall: "syscall K fd c w = (r, w') \<Longrightarrow> block_state w' e = block_state w e"
  using frame_syscall [of K fd c w r w'] by (simp add: frame_def block_state_def)

lemma is_bad_answer:
  assumes "answers K mtd bad" "mtd_valid_erase_block mtd eb" "bb_allowed mtd"
  shows "\<exists>w'. mtd_is_bad K mtd fd eb w = (if bad eb then 1 else 0, w') \<and> scan_frame mtd w w' \<and>
    errno w' = errno w \<and> (\<forall>e. block_state w' e = block_state w e)"
proof -
  obtain r w' where k: "syscall K fd (MEMGETBADBLOCK (eb * eb_size mtd)) w = (r, w')" by (metis surj_pair)
  have r: "rep_ret r = (if bad eb then 1 else 0)"
    using assms(1) by (simp add: syscall_fields(1) [OF k] answers_def)
  then have "errno w' = errno w" by (simp add: syscall_fields(4) [OF k])
  moreover have "offs64 w' = offs64 w" by (rule syscall_fields(5) [OF k])
  moreover have "extends (\<lambda>c. \<exists>eb. mtd_valid_erase_block mtd eb \<and> c = MEMGETBADBLOCK (eb * eb_size mtd)) w w'"
    by (rule extends_syscall [OF k]) (use assms(2) in blast)
  ultimately have "scan_frame mtd w w'" by (simp add: scan_frame_def syscall_fields [OF k])
  moreover have "mtd_is_bad K mtd fd eb w = (if bad eb then 1 else 0, w')"
    using assms(2,3) r by (simp add: mtd_is_bad_def k)
  ultimately show ?thesis
    using \<open>errno w' = errno w\<close> block_state_syscall [OF k] by blast
qed

lemma scan_block_reliable:
  assumes dev: "answers K mtd bad" "bb_allowed mtd" "mtd_type_is_nand mtd" and wf: "wf_mtd mtd"
    and eb: "0 \<le> eb" "eb < eb_cnt mtd" and m: "map_agrees mtd bad w" and e: "errno w \<noteq> EOPNOTSUPP"
  shows "\<exists>w'. scan_block K mtd False eb w = Some (if bad eb then Unusable else Usable, w') \<and>
    scan_frame mtd w w' \<and> errno w' = errno w \<and> map_agrees mtd bad w' \<and>
    scanned mtd w' eb \<and> (\<forall>x. scanned mtd w x \<longrightarrow> scanned mtd w' x)"
proof -
  let ?abs = "eb + first_eb mtd"
  from m eb obtain s where s: "block_state w ?abs = Some s" "taged s \<Longrightarrow> s = MTD_BLK_BAD \<longleftrightarrow> bad eb"
    unfolding map_agrees_def by blast
  have nor: "\<not> mtd_type_is_nor mtd" using dev(3) by (auto simp: mtd_type_is_nor_def mtd_type_is_nand_def)
  note T = mtd_bm_block_map_is_taged_def mtd_bm_block_map_is_bad_def
  have agree: "map_agrees mtd bad v \<and> scanned mtd v eb \<and> (\<forall>x. scanned mtd w x \<longrightarrow> scanned mtd v x)"
    if v: "\<And>x. block_state v x = (if x = ?abs then Some t else block_state w x)" and t: "taged t" "t = MTD_BLK_BAD \<longleftrightarrow> bad eb" for v :: "'a world" and t
  proof -
    have "map_agrees mtd bad v"
      using m v t unfolding map_agrees_def by (metis (full_types) add_right_cancel)
    then show ?thesis using v t(1) by (auto simp: scanned_def)
  qed
  show ?thesis
  proof (cases "taged s \<and> s \<noteq> MTD_BLK_BAD")
    case True
    then have "scan_block K mtd False eb w = Some (Usable, w)" "\<not> bad eb"
      using s by (simp_all add: scan_block_def rel_to_abs [OF wf] T taged_def)
    moreover have "scanned mtd w eb" using s True by (auto simp: scanned_def)
    ultimately show ?thesis using m by auto
  next
    case False
    obtain w1 where w1: "mtd_bm_block_map_set ?abs MTD_BLK_SCAN w = Some w1" "only_table w w1"
      "\<And>x. block_state w1 x = (if x = ?abs \<and> s \<noteq> MTD_BLK_BAD then Some MTD_BLK_SCAN else block_state w x)"
      using block_map_set [OF s(1)] by blast
    have val: "mtd_valid_erase_block mtd eb" using eb by (simp add: mtd_valid_erase_block_def)
    obtain w2 where w2: "mtd_is_bad K mtd (fds w1 (part_id mtd)) eb w1 = (if bad eb then 1 else 0, w2)"
      "scan_frame mtd w1 w2" "errno w2 = errno w1" "\<And>x. block_state w2 x = block_state w1 x"
      using is_bad_answer [OF dev(1) val dev(2)] by blast
    have f2: "scan_frame mtd w w2" by (rule scan_frame_trans [OF scan_frame_table [OF w1(2)] w2(2)])
    have e2: "errno w2 = errno w" using w1(2) w2(3) by simp
    show ?thesis
    proof (cases "bad eb")
      case False
      with \<open>\<not> (taged s \<and> s \<noteq> MTD_BLK_BAD)\<close> s(2) have nt: "s \<noteq> MTD_BLK_BAD" by auto
      have "scan_block K mtd False eb w = Some (Usable, w2)"
        using s False nor \<open>\<not> (taged s \<and> s \<noteq> MTD_BLK_BAD)\<close>
        by (simp add: scan_block_def rel_to_abs [OF wf] T taged_def w1(1) w2(1))
      with agree [of w2 MTD_BLK_SCAN] False nt f2 e2 show ?thesis by (simp add: w2(4) w1(3))
    next
      case True
      have "block_state w2 ?abs = Some (if s = MTD_BLK_BAD then s else MTD_BLK_SCAN)"
        by (simp add: w2(4) w1(3) s(1))
      then obtain w3 where w3: "mtd_bm_block_map_set ?abs MTD_BLK_BAD w2 = Some w3" "only_table w2 w3"
        "\<And>x. block_state w3 x = (if x = ?abs \<and> (if s = MTD_BLK_BAD then s else MTD_BLK_SCAN) \<noteq> MTD_BLK_BAD
              then Some MTD_BLK_BAD else block_state w2 x)"
        using block_map_set [of w2 ?abs _ MTD_BLK_BAD] by blast
      have sb: "block_state w3 x = (if x = ?abs then Some MTD_BLK_BAD else block_state w x)" for x
        using s(1) by (simp add: w3(3) w2(4) w1(3))
      have "scan_block K mtd False eb w = Some (Unusable, w3)"
        using s True nor e2 e \<open>\<not> (taged s \<and> s \<noteq> MTD_BLK_BAD)\<close>
        by (cases "s = MTD_BLK_BAD") (simp_all add: scan_block_def rel_to_abs [OF wf] T taged_def w1(1) w2(1) w3(1))
      moreover have "scan_frame mtd w w3" by (rule scan_frame_trans [OF f2 scan_frame_table [OF w3(2)]])
      moreover have "errno w3 = errno w" using w3(2) e2 by simp
      ultimately show ?thesis using agree [OF sb] True by simp
    qed
  qed
qed

lemma scan_loop_reliable:
  assumes dev: "answers K mtd bad" "bb_allowed mtd" "mtd_type_is_nand mtd" and wf: "wf_mtd mtd"
  shows "0 \<le> eb \<Longrightarrow> eb \<le> eb_cnt mtd \<Longrightarrow> map_agrees mtd bad w \<Longrightarrow> errno w \<noteq> EOPNOTSUPP \<Longrightarrow> pass < goal_bytes \<Longrightarrow>
    \<exists>eb_end w'. scan_loop K mtd False goal_bytes eb pass w = Some (True, eb_end, w') \<and> eb \<le> eb_end \<and> eb_end \<le> eb_cnt mtd \<and>
      scan_frame mtd w w' \<and> map_agrees mtd bad w' \<and> errno w' = errno w \<and>
      (\<forall>x. eb \<le> x \<and> x \<le> eb_end \<and> x < eb_cnt mtd \<or> scanned mtd w x \<longrightarrow> scanned mtd w' x) \<and>
      (if eb_end < eb_cnt mtd
       then \<not> bad eb_end \<and> goal_bytes \<le> pass + good_blocks bad eb (eb_end + 1) * eb_size mtd \<and>
            pass + good_blocks bad eb eb_end * eb_size mtd < goal_bytes
       else pass + good_blocks bad eb (eb_cnt mtd) * eb_size mtd < goal_bytes)"
proof (induction "nat (eb_cnt mtd - eb)" arbitrary: eb pass w)
  case 0
  then have eq: "eb = eb_cnt mtd" by simp
  then have "scan_loop K mtd False goal_bytes eb pass w = Some (True, eb, w)" by (simp add: scan_loop.simps)
  with eq 0 show ?case by (intro exI [of _ eb] exI [of _ w]) (simp, metis not_le)
next
  case (Suc n)
  then have lt: "eb < eb_cnt mtd" by linarith
  have n: "n = nat (eb_cnt mtd - (eb + 1))" using Suc.hyps(2) by linarith
  obtain w1 where w1: "scan_block K mtd False eb w = Some (if bad eb then Unusable else Usable, w1)"
    "scan_frame mtd w w1" "errno w1 = errno w" "map_agrees mtd bad w1"
    "scanned mtd w1 eb" "\<And>x. scanned mtd w x \<Longrightarrow> scanned mtd w1 x"
    using scan_block_reliable [OF dev wf Suc.prems(1) lt Suc.prems(3,4)] by blast
  show ?case
  proof (cases "\<not> bad eb \<and> goal_bytes \<le> pass + eb_size mtd")
    case True
    have g: "good_blocks bad eb (eb + 1) = 1" using good_blocks_step [of eb "eb + 1" bad] True by simp
    have "scan_loop K mtd False goal_bytes eb pass w = Some (True, eb, w1)"
      using True lt by (simp add: scan_loop.simps [of K mtd False goal_bytes eb] w1(1))
    moreover have "\<forall>x. eb \<le> x \<and> x \<le> eb \<and> x < eb_cnt mtd \<or> scanned mtd w x \<longrightarrow> scanned mtd w1 x"
      using w1(5,6) by (metis order_antisym)
    ultimately show ?thesis
      using True lt w1(2-4) g Suc.prems(5) by (intro exI [of _ eb] exI [of _ w1]) simp
  next
    case False
    define pass' where "pass' = (if bad eb then pass else pass + eb_size mtd)"
    have p: "pass' < goal_bytes" using False Suc.prems(5) by (auto simp: pass'_def)
    have g: "pass + good_blocks bad eb b * eb_size mtd = pass' + good_blocks bad (eb + 1) b * eb_size mtd" if "eb < b" for b
      using that by (simp add: good_blocks_step pass'_def distrib_right)
    have step: "scan_loop K mtd False goal_bytes eb pass w = scan_loop K mtd False goal_bytes (eb + 1) pass' w1"
      using False lt by (cases "bad eb") (simp_all add: scan_loop.simps [of K mtd False goal_bytes eb] w1(1) pass'_def)
    have "0 \<le> eb + 1" "eb + 1 \<le> eb_cnt mtd" "errno w1 \<noteq> EOPNOTSUPP" using Suc.prems lt w1(3) by simp_all
    then obtain eb_end w' where l: "scan_loop K mtd False goal_bytes (eb + 1) pass' w1 = Some (True, eb_end, w')"
      "eb + 1 \<le> eb_end" "eb_end \<le> eb_cnt mtd" "scan_frame mtd w1 w'" "map_agrees mtd bad w'" "errno w' = errno w1"
      "\<forall>x. eb + 1 \<le> x \<and> x \<le> eb_end \<and> x < eb_cnt mtd \<or> scanned mtd w1 x \<longrightarrow> scanned mtd w' x"
      "if eb_end < eb_cnt mtd
       then \<not> bad eb_end \<and> goal_bytes \<le> pass' + good_blocks bad (eb + 1) (eb_end + 1) * eb_size mtd \<and>
            pass' + good_blocks bad (eb + 1) eb_end * eb_size mtd < goal_bytes
       else pass' + good_blocks bad (eb + 1) (eb_cnt mtd) * eb_size mtd < goal_bytes"
      using Suc.hyps(1) [OF n _ _ w1(4) _ p] by blast
    have "scan_frame mtd w w'" by (rule scan_frame_trans [OF w1(2) l(4)])
    moreover have "\<forall>x. eb \<le> x \<and> x \<le> eb_end \<and> x < eb_cnt mtd \<or> scanned mtd w x \<longrightarrow> scanned mtd w' x"
    proof (intro allI impI)
      fix x assume "eb \<le> x \<and> x \<le> eb_end \<and> x < eb_cnt mtd \<or> scanned mtd w x"
      then consider "x = eb" | "eb + 1 \<le> x \<and> x \<le> eb_end \<and> x < eb_cnt mtd" | "scanned mtd w x" by linarith
      then show "scanned mtd w' x" using l(7) w1(5,6) by cases blast+
    qed
    moreover have "if eb_end < eb_cnt mtd
       then \<not> bad eb_end \<and> goal_bytes \<le> pass + good_blocks bad eb (eb_end + 1) * eb_size mtd \<and>
            pass + good_blocks bad eb eb_end * eb_size mtd < goal_bytes
       else pass + good_blocks bad eb (eb_cnt mtd) * eb_size mtd < goal_bytes"
      using l(8) l(2) lt by (simp add: g)
    moreover have "eb \<le> eb_end" using l(2) by simp
    ultimately show ?thesis
      unfolding step using l(1,3,5,6) w1(3) by (intro exI [of _ eb_end] exI [of _ w']) simp
  qed
qed

lemma good_blocks_snoc: "a \<le> b \<Longrightarrow> good_blocks bad a (b + 1) = good_blocks bad a b + (if bad b then 0 else 1)"
  by (simp add: good_blocks_def upto_rec2)

lemma good_blocks_mono: "b \<le> c \<Longrightarrow> good_blocks bad a b \<le> good_blocks bad a c"
proof (induction c rule: int_ge_induct [consumes 1])
  case (step c)
  then show ?case by (cases "a \<le> c") (simp_all add: good_blocks_snoc)
qed simp

text \<open>How many blocks a write of this extent needs, and where it begins in its partition.\<close>

definition blocks_needed :: "mtd_dev \<Rightarrow> fs_operation_params \<Rightarrow> int" where
  "blocks_needed mtd p = (p_offset p + p_length p + eb_size mtd - 1) div eb_size mtd - p_offset p div eb_size mtd"

definition first_block :: "mtd_dev \<Rightarrow> fs_operation_params \<Rightarrow> int" where
  "first_block mtd p = p_offset p div eb_size mtd - first_eb mtd"

definition scan_request :: "mtd_dev \<Rightarrow> fs_operation_params \<Rightarrow> filesystem \<Rightarrow> bool" where
  "scan_request mtd p fs \<longleftrightarrow> params fs = Some p \<and> p_mtd p = Some mtd \<and> p_method p = BM_OPERATION_METHOD_RANDOM \<and>
     0 < p_length p \<and> \<not> fs_flags_get fs \<and> part_start mtd \<le> p_offset p \<and>
     first_block mtd p + blocks_needed mtd p \<le> eb_cnt mtd"

lemma blocks_needed_pos: "wf_mtd mtd \<Longrightarrow> 0 < p_length p \<Longrightarrow> 0 < blocks_needed mtd p"
proof -
  assume wf: "wf_mtd mtd" and l: "0 < p_length p"
  then have pos: "0 < eb_size mtd" by (simp add: wf_mtd_pos)
  have "(p_offset p + eb_size mtd) div eb_size mtd \<le> (p_offset p + p_length p + eb_size mtd - 1) div eb_size mtd"
    using l pos by (intro zdiv_mono1) simp_all
  moreover have "(p_offset p + eb_size mtd) div eb_size mtd = p_offset p div eb_size mtd + 1"
    using div_add_self2 [of "eb_size mtd" "p_offset p"] pos by simp
  ultimately show ?thesis by (simp add: blocks_needed_def)
qed

lemma block_scan_unfold:
  assumes wf: "wf_mtd mtd" and req: "scan_request mtd p fs" and pos: "0 < eb_size mtd"
  shows "mtd_block_scan K env fs w =
    (case scan_loop K mtd False (blocks_needed mtd p * eb_size mtd) (first_block mtd p) 0 (mtd_bm_block_map_init env mtd w) of
       None \<Rightarrow> None
     | Some (ok, eb, w) \<Rightarrow> if \<not> ok then Some (-1, w) else if eb \<ge> eb_cnt mtd then Some (-1, w)
                           else Some ((eb - first_block mtd p + 1) * eb_size mtd, w))"
proof -
  from wf have ps: "0 \<le> part_start mtd" "mtd_size mtd = eb_cnt mtd * eb_size mtd" "0 \<le> eb_cnt mtd" by (simp_all add: wf_mtd_def)
  from req have r: "params fs = Some p" "p_mtd p = Some mtd" "p_method p = BM_OPERATION_METHOD_RANDOM" "0 < p_length p"
    "\<not> fs_flags_get fs" "part_start mtd \<le> p_offset p" "first_block mtd p + blocks_needed mtd p \<le> eb_cnt mtd"
    by (simp_all add: scan_request_def)
  have m: "BM_OPERATION_METHOD_RANDOM \<noteq> BM_OPERATION_METHOD_PARTITION"
    by (simp add: BM_OPERATION_METHOD_RANDOM_def BM_OPERATION_METHOD_PARTITION_def)
  have e: "scan_end env mtd p = Some ((p_offset p + p_length p + eb_size mtd - 1) div eb_size mtd)"
    using r(3,4,6) ps(1) m pos by (simp add: scan_end_def eb_index)
  have o: "MTD_OFFSET_TO_EB_INDEX mtd (p_offset p) = p_offset p div eb_size mtd" using r(6) ps(1) by (simp add: eb_index)
  have f: "0 \<le> first_block mtd p" using r(6) pos by (simp add: first_block_def first_eb_def zdiv_mono1)
  have b: "mtd_boundary_is_valid mtd (first_block mtd p)
      ((p_offset p + p_length p + eb_size mtd - 1) div eb_size mtd - first_eb mtd)"
    using f r(7) ps(2,3) pos by (simp add: mtd_boundary_is_valid_def eb_index first_block_def blocks_needed_def)
  have v: "mtd_bm_block_map_is_valid (mtd_bm_block_map_init env mtd w)"
    by (simp add: mtd_bm_block_map_is_valid_def mtd_bm_block_map_init_def Let_def split: option.splits)
  show ?thesis
    using r(4,5) m b v
    by (simp add: mtd_block_scan_def r(1,2,3) e o abs_to_rel [OF wf] blocks_needed_def [symmetric] first_block_def [symmetric] Let_def
        split: option.split prod.split)
qed

lemma scan_finds_room:
  assumes "answers K mtd bad" "bb_allowed mtd" "mtd_type_is_nand mtd" "wf_mtd mtd" "scan_request mtd p fs"
    and "map_agrees mtd bad (mtd_bm_block_map_init env mtd w)" "errno w \<noteq> EOPNOTSUPP"
  shows "\<exists>r w'. mtd_block_scan K env fs w = Some (r, w') \<and> scan_frame mtd w w' \<and> map_agrees mtd bad w' \<and>
    (if blocks_needed mtd p \<le> good_blocks bad (first_block mtd p) (eb_cnt mtd)
     then \<exists>n>0. r = n * eb_size mtd \<and> first_block mtd p + n \<le> eb_cnt mtd \<and>
            good_blocks bad (first_block mtd p) (first_block mtd p + n) = blocks_needed mtd p \<and>
            \<not> bad (first_block mtd p + n - 1) \<and>
            (\<forall>x. first_block mtd p \<le> x \<and> x < first_block mtd p + n \<longrightarrow> scanned mtd w' x)
     else r = -1)"
proof -
  let ?f = "first_block mtd p" and ?need = "blocks_needed mtd p" and ?e = "eb_size mtd"
  note wf = assms(4) and req = assms(5)
  have pos: "0 < ?e" using wf by (rule wf_mtd_pos)
  have need: "0 < ?need" using blocks_needed_pos [OF wf] req by (simp add: scan_request_def)
  have f: "0 \<le> ?f" using req pos by (simp add: scan_request_def first_block_def first_eb_def zdiv_mono1)
  have fe: "?f \<le> eb_cnt mtd" using req need by (simp add: scan_request_def)
  let ?w0 = "mtd_bm_block_map_init env mtd w"
  have t: "only_table w ?w0" by (simp add: mtd_bm_block_map_init_def Let_def split: option.split)
  have e0: "errno ?w0 \<noteq> EOPNOTSUPP" using t assms(7) by simp
  obtain l w' where L: "scan_loop K mtd False (?need * ?e) ?f 0 ?w0 = Some (True, l, w')" "?f \<le> l" "l \<le> eb_cnt mtd"
    "scan_frame mtd ?w0 w'" "map_agrees mtd bad w'"
    "\<forall>x. ?f \<le> x \<and> x \<le> l \<and> x < eb_cnt mtd \<or> scanned mtd ?w0 x \<longrightarrow> scanned mtd w' x"
    "if l < eb_cnt mtd then \<not> bad l \<and> ?need * ?e \<le> 0 + good_blocks bad ?f (l + 1) * ?e \<and> 0 + good_blocks bad ?f l * ?e < ?need * ?e
     else 0 + good_blocks bad ?f (eb_cnt mtd) * ?e < ?need * ?e"
    using scan_loop_reliable [OF assms(1-4) f fe assms(6) e0, of 0 "?need * ?e"] need pos by auto
  have fr: "scan_frame mtd w w'" by (rule scan_frame_trans [OF scan_frame_table [OF t] L(4)])
  show ?thesis
  proof (cases "l < eb_cnt mtd")
    case True
    have g: "good_blocks bad ?f (l + 1) = good_blocks bad ?f l + 1" using True L(2,7) by (simp add: good_blocks_snoc)
    have n: "good_blocks bad ?f (l + 1) = ?need" "\<not> bad l" using L(7) True pos g by simp_all
    have enough: "?need \<le> good_blocks bad ?f (eb_cnt mtd)" using good_blocks_mono [of "l + 1" "eb_cnt mtd" bad ?f] True n by simp
    have "mtd_block_scan K env fs w = Some ((l - ?f + 1) * ?e, w')"
      using True by (simp add: block_scan_unfold [OF wf req pos] L(1))
    then show ?thesis
      using fr L(5) enough n True L(2,6)
      by (intro exI [of _ "(l - ?f + 1) * ?e"] exI [of _ w']) (auto intro!: exI [of _ "l - ?f + 1"])
  next
    case False
    then have "\<not> ?need \<le> good_blocks bad ?f (eb_cnt mtd)" using L(7) pos by simp
    moreover have "mtd_block_scan K env fs w = Some (-1, w')"
      using False by (simp add: block_scan_unfold [OF wf req pos] L(1))
    ultimately show ?thesis using fr L(5) by (intro exI [of _ "-1"] exI [of _ w']) simp
  qed
qed


end
