(* ===== verification/FlashRead.thy ===== *)
theory FlashRead
  imports MtdBase
begin

text \<open>
  What the reads of \<open>MtdBase\<close> deliver on a device that behaves. A device is described by
  its cells (the byte at each offset of the partition) and the position of the descriptor;
  the laws are those of \<open>lseek(2)\<close> and \<open>read(2)\<close>, short reads included. The reference is
  declarative: the bytes delivered are those at the first offsets that do not lie in a
  block recorded bad.
\<close>

section \<open>The device\<close>

definition readable_device ::
  "'k kernel \<Rightarrow> int \<Rightarrow> ('k \<Rightarrow> int \<Rightarrow> u8) \<Rightarrow> ('k \<Rightarrow> int) \<Rightarrow> int \<Rightarrow> bool" where
  "readable_device K fd cells pos limit \<longleftrightarrow>
     (\<forall>s k. 0 \<le> s \<and> s \<le> limit \<longrightarrow>
        rep_ret (fst (K fd (LSEEK s) k)) = s \<and> cells (snd (K fd (LSEEK s) k)) = cells k \<and>
        pos (snd (K fd (LSEEK s) k)) = s) \<and>
     (\<forall>n k. 0 < n \<and> 0 \<le> pos k \<and> pos k + n \<le> limit \<longrightarrow>
        (let r = fst (K fd (READ n) k); k' = snd (K fd (READ n) k)
         in 0 < rep_ret r \<and> rep_ret r \<le> n \<and> rep_bytes r = map (cells k) [pos k..pos k + rep_ret r - 1] \<and>
            cells k' = cells k \<and> pos k' = pos k + rep_ret r))"

lemma device_seek:
  assumes "readable_device K fd cells pos limit" "0 \<le> s" "s \<le> limit" "syscall K fd (LSEEK s) w = (r, w')"
  shows "rep_ret r = s \<and> cells (kern w') = cells (kern w) \<and> pos (kern w') = s"
  using assms by (simp add: readable_device_def syscall_fields(1,2) [OF assms(4)])

lemma device_read:
  assumes "readable_device K fd cells pos limit" "0 < n" "0 \<le> pos (kern w)" "pos (kern w) + n \<le> limit"
    and "syscall K fd (READ n) w = (r, w')"
  shows "0 < rep_ret r \<and> rep_ret r \<le> n \<and> rep_bytes r = map (cells (kern w)) [pos (kern w)..pos (kern w) + rep_ret r - 1] \<and>
    cells (kern w') = cells (kern w) \<and> pos (kern w') = pos (kern w) + rep_ret r"
  using assms by (simp add: readable_device_def syscall_fields(1,2) [OF assms(5)] Let_def)

section \<open>The library read\<close>

lemma int_block_bounds:
  assumes "0 < (e :: int)" shows "off div e * e \<le> off" "off < (off div e + 1) * e"
proof -
  have d: "off = off div e * e + off mod e" by simp
  show "off div e * e \<le> off" using pos_mod_sign [OF assms, of off] d by linarith
  show "off < (off div e + 1) * e" using pos_mod_bound [OF assms, of off] d unfolding distrib_right by linarith
qed

lemma int_div_less_iff:
  assumes "0 < (e :: int)" shows "off div e < c \<longleftrightarrow> off < c * e"
proof
  assume "off div e < c"
  then have "(off div e + 1) * e \<le> c * e" using assms by (intro mult_right_mono) simp_all
  with int_block_bounds(2) [OF assms, of off] show "off < c * e" by linarith
next
  assume *: "off < c * e"
  show "off div e < c"
  proof (rule ccontr)
    assume "\<not> off div e < c"
    then have "c * e \<le> off div e * e" using assms by (intro mult_right_mono) simp_all
    also have "\<dots> \<le> off" by (rule int_block_bounds(1) [OF assms])
    finally show False using * by simp
  qed
qed

lemma upto_split: "a \<le> b \<Longrightarrow> b \<le> c + 1 \<Longrightarrow> [a..c] = [a..b - 1] @ [b..c :: int]"
  using upto_split1 [of a b c] by (cases "b = c + 1") simp_all

lemma read_loop_delivers:
  assumes dev: "readable_device K fd cells pos limit"
  shows "0 \<le> start \<Longrightarrow> start + len \<le> limit \<Longrightarrow> int (length acc) \<le> len \<Longrightarrow>
    pos (kern w) = start + int (length acc) \<Longrightarrow>
    acc = map (cells (kern w)) [start..start + int (length acc) - 1] \<Longrightarrow>
    \<exists>w'. read_loop K fd len acc w = Some (0, map (cells (kern w)) [start..start + len - 1], w') \<and>
      frame w w' \<and> cells (kern w') = cells (kern w)"
proof (induction "nat (len - int (length acc))" arbitrary: acc w rule: less_induct)
  case less
  show ?case
  proof (cases "int (length acc) < len")
    case False
    then have l: "int (length acc) = len" using less.prems(3) by simp
    then have "read_loop K fd len acc w = Some (0, acc, w)" by (simp add: read_loop.simps)
    with less.prems(5) l show ?thesis by (intro exI [of _ w]) simp
  next
    case True
    obtain r w1 where k: "syscall K fd (READ (len - int (length acc))) w = (r, w1)" by (metis surj_pair)
    let ?c = "cells (kern w)" and ?n = "int (length acc)"
    have R: "0 < rep_ret r" "rep_ret r \<le> len - ?n" "rep_bytes r = map ?c [start + ?n..start + ?n + rep_ret r - 1]"
      "cells (kern w1) = ?c" "pos (kern w1) = start + ?n + rep_ret r"
      using device_read [OF dev _ _ _ k] True less.prems(1,2,4) by simp_all
    define acc' where "acc' = acc @ take (nat (rep_ret r)) (rep_bytes r)"
    have a': "acc' = acc @ rep_bytes r" using R(1,3) by (simp add: acc'_def)
    have len': "int (length acc') = ?n + rep_ret r" using R(1,3) by (simp add: a')
    have "acc' = map ?c [start..start + ?n - 1] @ map ?c [start + ?n..start + ?n + rep_ret r - 1]"
      using less.prems(5) R(3) by (simp add: a')
    also have "\<dots> = map ?c [start..start + (?n + rep_ret r) - 1]"
      using upto_split [of start "start + ?n" "start + ?n + rep_ret r - 1"] R(1) by (simp add: algebra_simps)
    finally have acc': "acc' = map ?c [start..start + int (length acc') - 1]" by (simp add: len')
    have step: "read_loop K fd len acc w = read_loop K fd len acc' w1"
      using True R(1) by (simp add: read_loop.simps [of K fd len acc] k acc'_def)
    have "nat (len - int (length acc')) < nat (len - ?n)" using True R(1) by (simp add: len')
    moreover have "int (length acc') \<le> len" "pos (kern w1) = start + int (length acc')"
      using R(2,5) by (simp_all add: len')
    ultimately obtain w' where w': "read_loop K fd len acc' w1 = Some (0, map ?c [start..start + len - 1], w')"
      "frame w1 w'" "cells (kern w') = ?c"
      using less.hyps [OF _ less.prems(1,2)] acc' R(4) by fastforce
    show ?thesis using w' frame_trans [OF frame_syscall [OF k] w'(2)] by (auto simp: step)
  qed
qed

lemma mtd_read_delivers:
  assumes dev: "readable_device K fd cells pos (mtd_size mtd)" and wf: "wf_mtd mtd"
    and off: "0 \<le> off" "off < mtd_size mtd" and n: "0 \<le> n" "off mod eb_size mtd + n \<le> eb_size mtd"
  shows "\<exists>w'. mtd_read K mtd fd (off div eb_size mtd) (off mod eb_size mtd) n w =
      Some (0, map (cells (kern w)) [off..off + n - 1], w') \<and> frame w w' \<and> cells (kern w') = cells (kern w)"
proof -
  let ?e = "eb_size mtd"
  have e: "0 < ?e" using wf by (rule wf_mtd_pos)
  have size: "mtd_size mtd = eb_cnt mtd * ?e" using wf by (simp add: wf_mtd_def)
  have lt: "off div ?e < eb_cnt mtd" using off(2) e by (simp add: size int_div_less_iff)
  have v: "mtd_valid_erase_block mtd (off div ?e)"
    using off(1) lt e by (simp add: mtd_valid_erase_block_def pos_imp_zdiv_nonneg_iff)
  have seek: "off div ?e * ?e + off mod ?e = off" by simp
  have "off + n \<le> (off div ?e + 1) * ?e" using n(2) seek unfolding distrib_right by linarith
  also have "\<dots> \<le> mtd_size mtd" unfolding size using lt e by (intro mult_right_mono) simp_all
  finally have lim: "off + n \<le> mtd_size mtd" .
  obtain r w1 where k: "syscall K fd (LSEEK off) w = (r, w1)" by (metis surj_pair)
  have s: "rep_ret r = off" "cells (kern w1) = cells (kern w)" "pos (kern w1) = off"
    using device_seek [OF dev off(1) _ k] off(2) by simp_all
  obtain w' where w': "read_loop K fd n [] w1 = Some (0, map (cells (kern w1)) [off..off + n - 1], w')"
    "frame w1 w'" "cells (kern w') = cells (kern w1)"
    using read_loop_delivers [OF dev off(1) lim, of "[]" w1] n(1) s(3) by auto
  have "mtd_read K mtd fd (off div ?e) (off mod ?e) n w = read_loop K fd n [] w1"
    using v n(2) k s(1) pos_mod_sign [OF e, of off] by (simp add: mtd_read_def)
  then show ?thesis using w' s(2) frame_trans [OF frame_syscall [OF k] w'(2)] by auto
qed

section \<open>Stepping over bad blocks\<close>

text \<open>The block, counted from the start of the partition, is recorded bad.\<close>

definition skips :: "'k world \<Rightarrow> int \<Rightarrow> bool" where
  "skips w eb \<longleftrightarrow> block_state w eb = Some MTD_BLK_BAD"

definition table_covers :: "mtd_dev \<Rightarrow> 'k world \<Rightarrow> bool" where
  "table_covers mtd w \<longleftrightarrow> (\<forall>eb. 0 \<le> eb \<and> eb < eb_cnt mtd \<longrightarrow> block_state w eb \<noteq> None)"

text \<open>The offsets from \<open>off\<close> to the end of the partition that lie in blocks not recorded bad.\<close>

definition usable :: "mtd_dev \<Rightarrow> (int \<Rightarrow> bool) \<Rightarrow> int \<Rightarrow> int list" where
  "usable mtd bad off = filter (\<lambda>a. \<not> bad (a div eb_size mtd)) [off..mtd_size mtd - 1]"

lemma usable_end [simp]: "mtd_size mtd \<le> off \<Longrightarrow> usable mtd bad off = []"
  by (simp add: usable_def)

lemma same_block:
  "0 < (e :: int) \<Longrightarrow> off \<le> a \<Longrightarrow> a < (off div e + 1) * e \<Longrightarrow> a div e = off div e"
  using zdiv_mono1 [of off a e] int_div_less_iff [of e a "off div e + 1"] by simp

lemma block_end_le:
  assumes wf: "wf_mtd mtd" and "off < mtd_size mtd"
  shows "(off div eb_size mtd + 1) * eb_size mtd \<le> mtd_size mtd"
proof -
  have e: "0 < eb_size mtd" using wf by (rule wf_mtd_pos)
  have "off div eb_size mtd < eb_cnt mtd" using assms e by (simp add: wf_mtd_def int_div_less_iff)
  then have "off div eb_size mtd + 1 \<le> eb_cnt mtd" by simp
  then show ?thesis using wf e by (simp add: wf_mtd_def mult_right_mono)
qed

lemma usable_in_block:
  assumes wf: "wf_mtd mtd" and "off < mtd_size mtd" and b: "off \<le> b" "b \<le> (off div eb_size mtd + 1) * eb_size mtd"
  shows "usable mtd bad off = (if bad (off div eb_size mtd) then [] else [off..b - 1]) @ usable mtd bad b"
proof -
  have e: "0 < eb_size mtd" using wf by (rule wf_mtd_pos)
  have "b \<le> mtd_size mtd" using b(2) block_end_le [OF assms(1,2)] by linarith
  then have split: "[off..mtd_size mtd - 1] = [off..b - 1] @ [b..mtd_size mtd - 1]"
    using upto_split [of off b "mtd_size mtd - 1"] b(1) by simp
  have "filter (\<lambda>a. \<not> bad (a div eb_size mtd)) [off..b - 1] = filter (\<lambda>a. \<not> bad (off div eb_size mtd)) [off..b - 1]"
  proof (rule filter_cong [OF refl])
    fix a assume "a \<in> set [off..b - 1]"
    then have "a div eb_size mtd = off div eb_size mtd" using same_block [OF e, of off a] b(2) by simp
    then show "(\<not> bad (a div eb_size mtd)) = (\<not> bad (off div eb_size mtd))" by (simp only:)
  qed
  then have "filter (\<lambda>a. \<not> bad (a div eb_size mtd)) [off..b - 1] = (if bad (off div eb_size mtd) then [] else [off..b - 1])"
    by simp
  then show ?thesis by (simp add: usable_def split)
qed

lemma skip_bad_finds:
  assumes wf: "wf_mtd mtd" and cov: "table_covers mtd w"
  shows "0 \<le> off \<Longrightarrow> off < mtd_size mtd \<Longrightarrow>
    \<exists>off'. skip_bad mtd w off = Some off' \<and> off \<le> off' \<and> usable mtd (skips w) off' = usable mtd (skips w) off \<and>
      (off' < mtd_size mtd \<longrightarrow> \<not> skips w (off' div eb_size mtd)) \<and> (off' = off \<or> off' mod eb_size mtd = 0)"
proof (induction "nat (mtd_size mtd - off)" arbitrary: off rule: less_induct)
  case less
  let ?e = "eb_size mtd"
  have e: "0 < ?e" using wf by (rule wf_mtd_pos)
  have lt: "off div ?e < eb_cnt mtd" using less.prems wf e by (simp add: wf_mtd_def int_div_less_iff)
  then obtain s where s: "block_state w (off div ?e) = Some s"
    using cov less.prems(1) e unfolding table_covers_def by (metis not_Some_eq pos_imp_zdiv_nonneg_iff)
  then have bad: "mtd_bm_block_map_is_bad w (MTD_OFFSET_TO_EB_INDEX mtd off) = Some (s = MTD_BLK_BAD)"
    using less.prems(1) by (simp add: mtd_bm_block_map_is_bad_def eb_index)
  show ?case
  proof (cases "s = MTD_BLK_BAD")
    case False
    then have "skip_bad mtd w off = Some off" using bad by (simp add: skip_bad.simps)
    with s False show ?thesis by (intro exI [of _ off]) (simp add: skips_def)
  next
    case True
    let ?n = "(off div ?e + 1) * ?e"
    have al: "MTD_BLOCK_ALIGN mtd (off + ?e) = ?n"
      using e div_add_self2 [of ?e off] by (simp add: block_align [OF wf])
    have gt: "off < ?n" by (rule int_block_bounds(2) [OF e])
    have u: "usable mtd (skips w) off = usable mtd (skips w) ?n"
      using usable_in_block [OF wf less.prems(2), of ?n "skips w"] gt s True by (simp add: skips_def)
    show ?thesis
    proof (cases "?n < mtd_size mtd")
      case True
      have m: "nat (mtd_size mtd - ?n) < nat (mtd_size mtd - off)" using gt less.prems by linarith
      have n0: "0 \<le> ?n" using gt less.prems(1) by linarith
      have step: "skip_bad mtd w off = skip_bad mtd w ?n"
        using bad \<open>s = MTD_BLK_BAD\<close> True by (simp add: skip_bad.simps [of mtd w off] al)
      obtain off' where o: "skip_bad mtd w ?n = Some off'" "?n \<le> off'"
        "usable mtd (skips w) off' = usable mtd (skips w) ?n" "off' < mtd_size mtd \<longrightarrow> \<not> skips w (off' div ?e)"
        "off' = ?n \<or> off' mod ?e = 0"
        using less.hyps [OF m n0 True] by (elim exE conjE) (rule that)
      have "?n mod ?e = 0" by simp
      with o(5) have "off' mod ?e = 0" by (elim disjE) (simp_all only:)
      with o gt u show ?thesis by (intro exI [of _ off']) (simp add: step)
    next
      case False
      then have "skip_bad mtd w off = Some ?n" using bad \<open>s = MTD_BLK_BAD\<close> by (simp add: skip_bad.simps [of mtd w off] al)
      then show ?thesis using False gt u by (intro exI [of _ ?n]) simp
    qed
  qed
qed

lemma enter_block_finds:
  assumes wf: "wf_mtd mtd" and nand: "mtd_type_is_nand mtd" and cov: "table_covers mtd w"
    and off: "0 \<le> off" "off < mtd_size mtd"
    and start: "blockstart = MTD_BLOCK_ALIGN mtd off \<Longrightarrow> \<not> skips w (off div eb_size mtd)"
    and room: "usable mtd (skips w) off \<noteq> []"
  shows "\<exists>off'. enter_block mtd w blockstart off = Some (Inr (off', MTD_BLOCK_ALIGN mtd off')) \<and> off \<le> off' \<and>
    off' < mtd_size mtd \<and> usable mtd (skips w) off' = usable mtd (skips w) off \<and> \<not> skips w (off' div eb_size mtd) \<and>
    (off' = off \<or> off' mod eb_size mtd = 0)"
proof (cases "blockstart = MTD_BLOCK_ALIGN mtd off")
  case True
  with start off show ?thesis by (intro exI [of _ off]) (simp add: enter_block_def)
next
  case False
  obtain off' where o: "skip_bad mtd w off = Some off'" "off \<le> off'"
    "usable mtd (skips w) off' = usable mtd (skips w) off" "off' < mtd_size mtd \<longrightarrow> \<not> skips w (off' div eb_size mtd)"
    "off' = off \<or> off' mod eb_size mtd = 0"
    using skip_bad_finds [OF wf cov off] by (elim exE conjE) (rule that)
  have "off' < mtd_size mtd"
  proof (rule ccontr)
    assume "\<not> off' < mtd_size mtd"
    then have "usable mtd (skips w) off' = []" by simp
    with o(3) room show False by simp
  qed
  with o False nand show ?thesis by (intro exI [of _ off']) (simp add: enter_block_def)
qed

lemma skips_frame: "frame w w' \<Longrightarrow> skips w' = skips w"
  by (simp add: fun_eq_iff skips_def frame_def block_state_def)

lemma table_covers_frame: "frame w w' \<Longrightarrow> table_covers mtd w' = table_covers mtd w"
  by (simp add: table_covers_def frame_def block_state_def)

lemma read_blocks_delivers:
  assumes wf: "wf_mtd mtd" and nand: "mtd_type_is_nand mtd"
    and dev: "readable_device K fd cells pos (mtd_size mtd)"
  shows "table_covers mtd w \<Longrightarrow> fds w (part_id mtd) = fd \<Longrightarrow> 0 \<le> off \<Longrightarrow> 0 \<le> len \<Longrightarrow>
    len \<le> int (length (usable mtd (skips w) off)) \<Longrightarrow>
    (blockstart = MTD_BLOCK_ALIGN mtd off \<Longrightarrow> off < mtd_size mtd \<Longrightarrow> \<not> skips w (off div eb_size mtd)) \<Longrightarrow>
    \<exists>w'. read_blocks K mtd blockstart len off buf w =
        Some (Some (if len = 0 then off else usable mtd (skips w) off ! nat (len - 1) + 1),
              buf @ map (cells (kern w)) (take (nat len) (usable mtd (skips w) off)), w') \<and>
      frame w w' \<and> cells (kern w') = cells (kern w)"
proof (induction "nat len" arbitrary: blockstart len off buf w rule: less_induct)
  case less
  let ?e = "eb_size mtd"
  have e: "0 < ?e" using wf by (rule wf_mtd_pos)
  show ?case
  proof (cases "len = 0")
    case True
    then have "read_blocks K mtd blockstart len off buf w = Some (Some off, buf, w)" by (simp add: read_blocks.simps)
    with True show ?thesis by (intro exI [of _ w]) simp
  next
    case False
    with less.prems(4) have len: "0 < len" by simp
    with less.prems(5) have ne: "usable mtd (skips w) off \<noteq> []" by auto
    then have lt: "off < mtd_size mtd" by (metis usable_end not_le)
    define U where "U = usable mtd (skips w) off"
    obtain off' where o: "enter_block mtd w blockstart off = Some (Inr (off', MTD_BLOCK_ALIGN mtd off'))" "off \<le> off'"
      "off' < mtd_size mtd" "usable mtd (skips w) off' = U" "\<not> skips w (off' div ?e)"
      using enter_block_finds [OF wf nand less.prems(1,3) lt less.prems(6) ne] lt unfolding U_def by blast
    have o0: "0 \<le> off'" using o(2) less.prems(3) by simp
    define room where "room = ?e - off' mod ?e"
    define u where "u = (if len > room then room else len)"
    have room: "0 < room" using pos_mod_bound [OF e, of off'] by (simp add: room_def)
    then have u: "0 < u" "u \<le> len" "u \<le> room" using len by (auto simp: u_def)
    have "off' = off' div ?e * ?e + off' mod ?e" by simp
    then have b: "off' + u \<le> (off' div ?e + 1) * ?e" using u(3) unfolding room_def distrib_right by linarith
    have U: "U = [off'..off' + u - 1] @ usable mtd (skips w) (off' + u)"
      using usable_in_block [OF wf o(3) _ b, of "skips w"] o(4,5) u(1) by simp
    have lu: "length [off'..off' + u - 1] = nat u" by simp
    obtain w1 where w1: "mtd_read K mtd fd (off' div ?e) (off' mod ?e) u w =
        Some (0, map (cells (kern w)) [off'..off' + u - 1], w1)" "frame w w1" "cells (kern w1) = cells (kern w)"
      using mtd_read_delivers [OF dev wf o0 o(3), of u w] u(1,3) unfolding room_def by auto
    let ?buf = "buf @ map (cells (kern w)) [off'..off' + u - 1]"
    have step: "read_blocks K mtd blockstart len off buf w =
        read_blocks K mtd (MTD_BLOCK_ALIGN mtd off') (len - u) (off' + u) ?buf w1"
      using len lt by (simp add: read_blocks.simps [of K mtd blockstart len off] o(1) less.prems(2) eb_index [OF o0]
          o0 room_def [symmetric] u_def [symmetric] w1(1))
    have sk: "skips w1 = skips w" by (rule skips_frame [OF w1(2)])
    have start: "\<not> skips w1 ((off' + u) div ?e)" if "MTD_BLOCK_ALIGN mtd off' = MTD_BLOCK_ALIGN mtd (off' + u)"
      using that e o(5) by (simp add: block_align [OF wf] sk)
    have fd: "fds w1 (part_id mtd) = fd" using w1(2) less.prems(2) by (simp add: frame_def)
    have cov: "table_covers mtd w1" using less.prems(1) table_covers_frame [OF w1(2)] by simp
    have fit: "len - u \<le> int (length (usable mtd (skips w1) (off' + u)))"
      using less.prems(5) U u(1) by (simp add: sk U_def [symmetric])
    have "nat (len - u) < nat len" "0 \<le> off' + u" "0 \<le> len - u" using u len o0 by linarith+
    then obtain w' where w': "read_blocks K mtd (MTD_BLOCK_ALIGN mtd off') (len - u) (off' + u) ?buf w1 =
        Some (Some (if len - u = 0 then off' + u else usable mtd (skips w1) (off' + u) ! nat (len - u - 1) + 1),
              ?buf @ map (cells (kern w1)) (take (nat (len - u)) (usable mtd (skips w1) (off' + u))), w')"
      "frame w1 w'" "cells (kern w') = cells (kern w1)"
      using less.hyps [of "len - u" w1 "off' + u" "MTD_BLOCK_ALIGN mtd off'" ?buf] cov fd fit start by blast
    have "take (nat len) U = [off'..off' + u - 1] @ take (nat (len - u)) (usable mtd (skips w) (off' + u))"
      using u lu by (simp add: U nat_diff_distrib)
    moreover have "U ! nat (len - 1) + 1 =
        (if len - u = 0 then off' + u else usable mtd (skips w) (off' + u) ! nat (len - u - 1) + 1)"
    proof (cases "len = u")
      case True
      then show ?thesis using u(1) by (simp add: U nth_append)
    next
      case False
      then have "nat (len - 1) = nat u + nat (len - u - 1)" using u by linarith
      then have "U ! nat (len - 1) = usable mtd (skips w) (off' + u) ! nat (len - u - 1)"
        unfolding U using nth_append_length_plus [of "[off'..off' + u - 1]"] lu by metis
      with False show ?thesis by simp
    qed
    ultimately show ?thesis
      unfolding step using w' w1(3) len frame_trans [OF w1(2) w'(2)] by (simp add: sk U_def)
  qed
qed

lemma read_delivers:
  assumes "wf_mtd mtd" "mtd_type_is_nand mtd" "readable_device K (fds w (part_id mtd)) cells pos (mtd_size mtd)"
    and "block_map w \<noteq> None" "table_covers mtd w" "params fs = Some p" "p_mtd p = Some mtd"
    and "part_start mtd \<le> p_offset p" "0 < p_length p"
    and "p_length p \<le> int (length (usable mtd (skips w) (p_offset p - part_start mtd)))"
  shows "\<exists>w'. mtd_basic_read K fs w =
      Some (part_start mtd + usable mtd (skips w) (p_offset p - part_start mtd) ! nat (p_length p - 1) + 1,
            map (cells (kern w)) (take (nat (p_length p)) (usable mtd (skips w) (p_offset p - part_start mtd))), w') \<and>
    frame w w' \<and> cells (kern w') = cells (kern w)"
proof -
  let ?off = "p_offset p - part_start mtd"
  have "MTD_BLOCK_ALIGN mtd ?off \<noteq> -1"
    using assms(8) wf_mtd_pos [OF assms(1)] by (simp add: block_align [OF assms(1)] pos_imp_zdiv_nonneg_iff)
      (smt (verit) mult_nonneg_nonneg pos_imp_zdiv_nonneg_iff)
  then show ?thesis
    using read_blocks_delivers [OF assms(1,2,3,5) refl, of ?off "p_length p" "-1" "[]"] assms(4,6-10)
    by (auto simp: mtd_basic_read_def mtd_bm_block_map_is_valid_def)
qed


end
