(* ===== verification/SysInfo.thy ===== *)
theory SysInfo
  imports FlashRead
begin

text \<open>
  The system areas of the flash, \<open>client/recovery/block/sysinfo/sysinfo_manager.c\<close>: before a
  block is erased the areas in it are read into memory (\<open>traversal_save\<close>), and every page
  written is overlaid with them (\<open>traversal_merge\<close>). The static table \<open>layout\<close> is the field
  of the same name of the state. \<open>sysinfo_set_value\<close> needs the write and is in
  \<open>SysFlag\<close>. Allocation is taken to succeed.
\<close>

section \<open>The table\<close>

definition SYSINFO_FLASHINFO_PARTINFO :: int where "SYSINFO_FLASHINFO_PARTINFO = 0"
definition SYSINFO_FLAG :: int where "SYSINFO_FLAG = 1"

text \<open>The table as the program is loaded.\<close>

definition sysinfo_table :: "sysinfo_layout list" where
  "sysinfo_table =
     [\<lparr>si_offset = 0x3c00, si_length = 0x400, si_value = Null, si_reserve = SYSINFO_RESERVED\<rparr>,
      \<lparr>si_offset = 0x6000, si_length = 0x400, si_value = Null, si_reserve = SYSINFO_RESERVED\<rparr>]"

definition sysinfo_id_valid :: "'k world \<Rightarrow> int \<Rightarrow> bool" where
  "sysinfo_id_valid w sid \<longleftrightarrow> \<not> (sid < 0 \<or> sid \<ge> int (length (layout w)))"

definition sysinfo_get_offset :: "'k world \<Rightarrow> int \<Rightarrow> int" where
  "sysinfo_get_offset w sid = (if \<not> sysinfo_id_valid w sid then -1 else si_offset (layout w ! nat sid))"

definition sysinfo_get_length :: "'k world \<Rightarrow> int \<Rightarrow> int" where
  "sysinfo_get_length w sid = (if \<not> sysinfo_id_valid w sid then -1 else si_length (layout w ! nat sid))"

text \<open>What \<open>sysinfo_get_value_address\<close> points to, and a store through that pointer.\<close>

definition sysinfo_get_value_address :: "'k world \<Rightarrow> int \<Rightarrow> si_value option" where
  "sysinfo_get_value_address w sid = (if \<not> sysinfo_id_valid w sid then None else Some (si_value (layout w ! nat sid)))"

definition si_store :: "int \<Rightarrow> si_value \<Rightarrow> 'k world \<Rightarrow> 'k world" where
  "si_store sid v w = w\<lparr>layout := (layout w)[nat sid := (layout w ! nat sid)\<lparr>si_value := v\<rparr>]\<rparr>"

definition sysinfo_get_reserve :: "'k world \<Rightarrow> int \<Rightarrow> sysinfo_reserve option" where
  "sysinfo_get_reserve w sid = (if \<not> sysinfo_id_valid w sid then None else Some (si_reserve (layout w ! nat sid)))"

definition sysinfo_set_reserve :: "int \<Rightarrow> sysinfo_reserve \<Rightarrow> 'k world \<Rightarrow> int \<times> 'k world" where
  "sysinfo_set_reserve sid r w =
     (if \<not> sysinfo_id_valid w sid then (-1, w)
      else (0, w\<lparr>layout := (layout w)[nat sid := (layout w ! nat sid)\<lparr>si_reserve := r\<rparr>]\<rparr>))"

definition sysinfo_init :: int where "sysinfo_init = 0"

text \<open>Memory released earlier without clearing the pointer is released again: \<open>None\<close>.\<close>

definition sysinfo_exit :: "'k world \<Rightarrow> (int \<times> 'k world) option" where
  "sysinfo_exit w =
     (if \<exists>l\<in>set (layout w). si_value l = Freed then None
      else Some (0, w\<lparr>layout := map (\<lambda>l. l\<lparr>si_value := Null\<rparr>) (layout w)\<rparr>))"

section \<open>Reading an area\<close>

datatype sysinfo_operation = SYSINFO_OPERATION_RAM | SYSINFO_OPERATION_DEV

text \<open>\<open>buf\<close> overwritten from its start.\<close>

definition overwrite :: "u8 list \<Rightarrow> u8 list \<Rightarrow> u8 list" where
  "overwrite buf bytes = bytes @ drop (length bytes) buf"

text \<open>
  The pointer handed out through \<open>buf\<close> is the area's own, so the result is read from the
  table.
\<close>

definition sysinfo_read_dev :: "'k kernel \<Rightarrow> bm_env \<Rightarrow> int \<Rightarrow> u8 list \<Rightarrow> 'k world \<Rightarrow> (int \<times> 'k world) option" where
  "sysinfo_read_dev K env sid data w =
     (case fs_new ''normal'' (bm_filesystems env) of
        None \<Rightarrow> Some (-1, w)
      | Some fs \<Rightarrow>
          if \<not> bm_sysinfo env then Some (-1, w)
          else (case mtd_get_dev_info_by_offset env (sysinfo_get_offset w sid) of
                  None \<Rightarrow> Some (-1, w)
                | Some mtd \<Rightarrow>
                    let fs = fs_set_params fs data (sysinfo_get_offset w sid) (sysinfo_get_length w sid)
                               BM_OPERATION_METHOD_RANDOM (Some mtd)
                    in if bm_name env = ''mtd'' then
                         (case mtd_block_scan K env fs w of
                            None \<Rightarrow> None
                          | Some (room, w) \<Rightarrow>
                              if room \<le> 0 then Some (-1, w)
                              else (case mtd_basic_read K fs w of
                                      None \<Rightarrow> None
                                    | Some (ret, bytes, w) \<Rightarrow>
                                        let w = si_store sid (Buf (overwrite data bytes)) w
                                        in Some (if ret < 0 then -1 else 0, w)))
                       else Some (0, w)))"

definition sysinfo_get_value ::
  "'k kernel \<Rightarrow> bm_env \<Rightarrow> int \<Rightarrow> sysinfo_operation \<Rightarrow> 'k world \<Rightarrow> (int \<times> 'k world) option" where
  "sysinfo_get_value K env sid mode w =
     (if sysinfo_get_offset w sid < 0 \<or> sysinfo_get_length w sid < 0 then Some (-1, w)
      else case sysinfo_get_value_address w sid of
        None \<Rightarrow> Some (-1, w)
      | Some v \<Rightarrow>
          let data = (case v of Buf b \<Rightarrow> b | _ \<Rightarrow> replicate (nat (sysinfo_get_length w sid)) 0);
              w = (if v = Null then si_store sid (Buf data) w else w)
          in if v = Freed then None
             else (case mode of
                     SYSINFO_OPERATION_DEV \<Rightarrow> sysinfo_read_dev K env sid data w
                   | SYSINFO_OPERATION_RAM \<Rightarrow> Some (0, w)))"

section \<open>Saving and merging\<close>

definition apart :: "sysinfo_layout \<Rightarrow> int \<Rightarrow> int \<Rightarrow> bool" where
  "apart l start fin \<longleftrightarrow> fin \<le> si_offset l \<or> start \<ge> si_offset l + si_length l"

fun save_from ::
  "'k kernel \<Rightarrow> bm_env \<Rightarrow> int \<Rightarrow> int \<Rightarrow> nat list \<Rightarrow> 'k world \<Rightarrow> (int \<times> 'k world) option" where
  "save_from K env start fin [] w = Some (0, w)"
| "save_from K env start fin (i # is) w =
     (let l = layout w ! i
      in if apart l start fin \<or> si_reserve l \<noteq> SYSINFO_RESERVED then save_from K env start fin is w
         else (case sysinfo_get_value K env (int i) SYSINFO_OPERATION_DEV w of
                 None \<Rightarrow> None
               | Some (ret, w) \<Rightarrow> if ret < 0 then Some (-1, w) else save_from K env start fin is w))"

definition sysinfo_traversal_save ::
  "'k kernel \<Rightarrow> bm_env \<Rightarrow> int \<Rightarrow> int \<Rightarrow> 'k world \<Rightarrow> (int \<times> 'k world) option" where
  "sysinfo_traversal_save K env offset len w =
     (if offset > si_offset (last (layout w)) + si_length (last (layout w)) then Some (0, w)
      else save_from K env offset (offset + len) [0..<length (layout w)] w)"

text \<open>
  The overlay of one area on the page at \<open>start\<close>; \<open>None\<close> when the copy leaves a buffer or
  reads memory that was released.
\<close>

definition merge_area :: "sysinfo_layout \<Rightarrow> int \<Rightarrow> int \<Rightarrow> u8 list \<Rightarrow> (int \<times> u8 list) option" where
  "merge_area l start fin buf =
     (case si_value l of
        Null \<Rightarrow> Some (-1, buf)
      | Freed \<Rightarrow> None
      | Buf v \<Rightarrow>
          let overlap = min fin (si_offset l + si_length l) - max (si_offset l) start;
              t = (if si_offset l > start then si_offset l - start else 0);
              b = (if si_offset l < start then start - si_offset l else 0)
          in if overlap \<le> 0 then Some (-1, buf)
             else if t + overlap > int (length buf) \<or> b + overlap > int (length v) then None
             else Some (0, put_bytes buf (nat t) (take (nat overlap) (drop (nat b) v))))"

fun merge_from :: "sysinfo_layout list \<Rightarrow> int \<Rightarrow> int \<Rightarrow> u8 list \<Rightarrow> (int \<times> u8 list) option" where
  "merge_from [] start fin buf = Some (0, buf)"
| "merge_from (l # ls) start fin buf =
     (if si_reserve l \<noteq> SYSINFO_RESERVED \<or> apart l start fin then merge_from ls start fin buf
      else (case merge_area l start fin buf of
              None \<Rightarrow> None
            | Some (ret, buf) \<Rightarrow> if ret < 0 then Some (-1, buf) else merge_from ls start fin buf))"

definition sysinfo_traversal_merge :: "u8 list \<Rightarrow> int \<Rightarrow> int \<Rightarrow> 'k world \<Rightarrow> (int \<times> u8 list) option" where
  "sysinfo_traversal_merge buf offset len w =
     (if offset \<ge> si_offset (last (layout w)) + si_length (last (layout w)) then Some (0, buf)
      else merge_from (layout w) offset (offset + len) buf)"

section \<open>What merging does\<close>

text \<open>
  The byte a reserved area holds for a flash address; where areas overlapped the later one
  would win.
\<close>

definition area_holds :: "sysinfo_layout \<Rightarrow> int \<Rightarrow> bool" where
  "area_holds l a \<longleftrightarrow> si_reserve l = SYSINFO_RESERVED \<and> si_offset l \<le> a \<and> a < si_offset l + si_length l"

definition area_byte :: "sysinfo_layout \<Rightarrow> int \<Rightarrow> u8" where
  "area_byte l a = (case si_value l of Buf v \<Rightarrow> v ! nat (a - si_offset l) | _ \<Rightarrow> 0)"

definition sysinfo_byte :: "sysinfo_layout list \<Rightarrow> int \<Rightarrow> u8 \<Rightarrow> u8" where
  "sysinfo_byte ls a b = fold (\<lambda>l b. if area_holds l a then area_byte l a else b) ls b"

definition loaded :: "sysinfo_layout \<Rightarrow> bool" where
  "loaded l \<longleftrightarrow> (\<exists>v. si_value l = Buf v \<and> int (length v) = si_length l) \<and> 0 < si_length l"

lemma length_put_bytes: "at + length src \<le> length dst \<Longrightarrow> length (put_bytes dst at src) = length dst"
  by (simp add: put_bytes_def)

lemma nth_put_bytes:
  "at + length src \<le> length dst \<Longrightarrow> i < length dst \<Longrightarrow>
    put_bytes dst at src ! i = (if at \<le> i \<and> i < at + length src then src ! (i - at) else dst ! i)"
  by (auto simp: put_bytes_def nth_append not_less min_def)

lemma merge_area_bytes:
  assumes "loaded l" "\<not> apart l start fin" "si_reserve l = SYSINFO_RESERVED" "int (length buf) = fin - start" "start < fin"
  shows "\<exists>buf'. merge_area l start fin buf = Some (0, buf') \<and> length buf' = length buf \<and>
    (\<forall>i < length buf. buf' ! i = (if area_holds l (start + int i) then area_byte l (start + int i) else buf ! i))"
proof -
  obtain v where v: "si_value l = Buf v" "int (length v) = si_length l" using assms(1) by (auto simp: loaded_def)
  define overlap where "overlap = min fin (si_offset l + si_length l) - max (si_offset l) start"
  define t where "t = (if si_offset l > start then si_offset l - start else 0)"
  define b where "b = (if si_offset l < start then start - si_offset l else 0)"
  define src where "src = take (nat overlap) (drop (nat b) v)"
  have ap: "si_offset l < fin" "start < si_offset l + si_length l" using assms(2) by (simp_all add: apart_def)
  have len: "0 \<le> si_length l" using v(2) by linarith
  have pos: "0 < overlap"
    using ap assms(1,5) by (auto simp: overlap_def loaded_def)
  have fit: "t + overlap \<le> int (length buf)" "b + overlap \<le> int (length v)" "0 \<le> t" "0 \<le> b"
    using assms(4) v(2) ap by (auto simp: t_def b_def overlap_def min_def max_def)
  then have ls: "length src = nat overlap" by (simp add: src_def)
  have at: "nat t + length src \<le> length buf" using fit pos by (simp add: ls)
  have "put_bytes buf (nat t) src ! i = (if area_holds l (start + int i) then area_byte l (start + int i) else buf ! i)"
    if i: "i < length buf" for i
  proof -
    have iff: "nat t \<le> i \<and> i < nat t + length src \<longleftrightarrow> area_holds l (start + int i)"
      using i assms(3,4) ap pos fit by (auto simp: ls area_holds_def t_def overlap_def min_def max_def)
    have "src ! (i - nat t) = v ! nat (start + int i - si_offset l)" if "nat t \<le> i" "i < nat t + length src"
    proof -
      have "nat b + (i - nat t) = nat (start + int i - si_offset l)"
        using that fit by (auto simp: t_def b_def)
      moreover have "src ! (i - nat t) = drop (nat b) v ! (i - nat t)"
        unfolding src_def by (rule nth_take) (use that ls in simp)
      moreover have "drop (nat b) v ! (i - nat t) = v ! (nat b + (i - nat t))"
        by (rule nth_drop) (use fit pos in simp)
      ultimately show ?thesis by (simp only:)
    qed
    then show ?thesis using iff at i v(1) by (auto simp: nth_put_bytes area_byte_def)
  qed
  moreover have "merge_area l start fin buf = Some (0, put_bytes buf (nat t) src)"
    using pos fit by (simp add: merge_area_def v(1) overlap_def [symmetric] t_def [symmetric] b_def [symmetric] src_def)
  ultimately show ?thesis using length_put_bytes [OF at] by auto
qed

lemma sysinfo_byte_Cons:
  "sysinfo_byte (l # ls) a b = sysinfo_byte ls a (if area_holds l a then area_byte l a else b)"
  by (simp add: sysinfo_byte_def)

lemma merge_from_bytes:
  assumes "start < fin"
  shows "(\<And>l. l \<in> set ls \<Longrightarrow> si_reserve l = SYSINFO_RESERVED \<Longrightarrow> \<not> apart l start fin \<Longrightarrow> loaded l) \<Longrightarrow>
    int (length buf) = fin - start \<Longrightarrow>
    \<exists>buf'. merge_from ls start fin buf = Some (0, buf') \<and> length buf' = length buf \<and>
      (\<forall>i < length buf. buf' ! i = sysinfo_byte ls (start + int i) (buf ! i))"
proof (induction ls arbitrary: buf)
  case (Cons l ls)
  show ?case
  proof (cases "si_reserve l \<noteq> SYSINFO_RESERVED \<or> apart l start fin")
    case True
    have no: "\<not> area_holds l (start + int i)" if "i < length buf" for i
      using True that Cons.prems(2) by (auto simp: area_holds_def apart_def)
    from True Cons.IH [of buf] Cons.prems obtain buf' where
      "merge_from (l # ls) start fin buf = Some (0, buf')" "length buf' = length buf"
      "\<forall>i < length buf. buf' ! i = sysinfo_byte ls (start + int i) (buf ! i)" by auto
    with no show ?thesis by (simp add: sysinfo_byte_Cons)
  next
    case False
    then obtain buf1 where b1: "merge_area l start fin buf = Some (0, buf1)" "length buf1 = length buf"
      "\<forall>i < length buf. buf1 ! i = (if area_holds l (start + int i) then area_byte l (start + int i) else buf ! i)"
      using merge_area_bytes [of l start fin buf] Cons.prems assms by auto
    moreover obtain buf' where "merge_from ls start fin buf1 = Some (0, buf')" "length buf' = length buf1"
      "\<forall>i < length buf1. buf' ! i = sysinfo_byte ls (start + int i) (buf1 ! i)"
      using Cons.IH [of buf1] Cons.prems b1(2) by auto
    ultimately show ?thesis using False by (simp add: sysinfo_byte_Cons)
  qed
qed (simp add: sysinfo_byte_def)

end
