(* ===== verification/MtdWrite.thy ===== *)
theory MtdWrite
  imports SysInfo Crc
begin

text \<open>
  Erasing and writing a partition: \<open>mtd_basic_erase\<close> and \<open>mtd_basic_write\<close> of
  \<open>client/recovery/block/blocks/mtd/base.c\<close>, with the JFFS2 clean marker of
  \<open>block/fs/jffs2.c\<close>. Both keep the system areas: the erase saves the areas of a block
  before erasing it, the write overlays them on every page.
\<close>

section \<open>The JFFS2 clean marker\<close>

definition le32_bytes :: "u32 \<Rightarrow> u8 list" where
  "le32_bytes x = [ucast x, ucast (drop_bit 8 x), ucast (drop_bit 16 x), ucast (drop_bit 24 x)]"

text \<open>Magic 0x1985, node type 0x2003, the total length and the checksum of the rest, little endian.\<close>

definition jffs2_cleanmarker :: "u32 \<Rightarrow> u8 list" where
  "jffs2_cleanmarker totlen =
     (let h = [0x85, 0x19, 0x03, 0x20] @ le32_bytes totlen in h @ le32_bytes (local_crc32 0 h))"

text \<open>The result, the marker, and the position and length of its copy in the OOB area.\<close>

definition jffs2_init_cleanmarker ::
  "'k kernel \<Rightarrow> mtd_dev \<Rightarrow> 'k world \<Rightarrow> (u8 list \<times> int \<times> int) option \<times> 'k world" where
  "jffs2_init_cleanmarker K mtd w =
     (if \<not> mtd_type_is_nand mtd then (Some (jffs2_cleanmarker 12, 0, 8), w)
      else let (r, w) = syscall K (fds w (part_id mtd)) MEMGETOOBSEL w
           in if rep_ret r \<noteq> 0 then (None, w)
              else if rep_autoplace r then
                (case rep_oobfree r of
                   [] \<Rightarrow> (None, w)
                 | (pos, len) # _ \<Rightarrow>
                     if len = 0 then (None, w)
                     else (Some (jffs2_cleanmarker 8, pos, if len > 8 then 8 else len), w))
              else if oob_size mtd = 8 then (Some (jffs2_cleanmarker 8, 6, 2), w)
              else if oob_size mtd = 16 then (Some (jffs2_cleanmarker 8, 8, 8), w)
              else if oob_size mtd = 64 then (Some (jffs2_cleanmarker 8, 16, 8), w)
              else (Some (jffs2_cleanmarker 8, 0, 8), w))"

definition jffs2_write_cleanmarker ::
  "'k kernel \<Rightarrow> mtd_dev \<Rightarrow> int \<Rightarrow> u8 list \<times> int \<times> int \<Rightarrow> 'k world \<Rightarrow> int \<times> 'k world" where
  "jffs2_write_cleanmarker K mtd offset marker w =
     (let (bytes, clmpos, clmlen) = marker; fd = fds w (part_id mtd)
      in if mtd_type_is_nand mtd then
           let (ret, w) = do_oob_write K mtd fd (offset + clmpos) (take (nat clmlen) bytes) w
           in (if ret \<noteq> 0 then -1 else 0, w)
         else let (r, w) = syscall K fd (PWRITE offset bytes) w
              in (if rep_ret r \<noteq> int (length bytes) then -1 else 0, w))"

section \<open>The hooks for the system areas\<close>

text \<open>Both are called only when the areas are bound to the manager.\<close>

definition save_areas :: "'k kernel \<Rightarrow> bm_env \<Rightarrow> int \<Rightarrow> int \<Rightarrow> 'k world \<Rightarrow> (int \<times> 'k world) option" where
  "save_areas K env offset len w = (if bm_sysinfo env then sysinfo_traversal_save K env offset len w else Some (0, w))"

definition merge_areas :: "bm_env \<Rightarrow> u8 list \<Rightarrow> int \<Rightarrow> int \<Rightarrow> 'k world \<Rightarrow> (int \<times> u8 list) option" where
  "merge_areas env buf offset len w = (if bm_sysinfo env then sysinfo_traversal_merge buf offset len w else Some (0, buf))"

section \<open>Erasing\<close>

datatype erase_verdict = EraseDone | EraseSkipped | EraseCrashed

text \<open>
  One round of the loop for block \<open>eb\<close>: \<open>EraseSkipped\<close> are the branches that leave the
  block and count it in \<open>bad_unlock_nerase_ebs\<close>, \<open>EraseCrashed\<close> those to \<open>closeall\<close>.
\<close>

definition erase_failed :: "'k kernel \<Rightarrow> mtd_dev \<Rightarrow> int \<Rightarrow> 'k world \<Rightarrow> (erase_verdict \<times> 'k world) option" where
  "erase_failed K mtd eb w =
     (if errno w \<noteq> EIO then Some (EraseCrashed, w)
      else let (ret, w) = mtd_mark_bad K mtd (fds w (part_id mtd)) eb w
           in if ret \<noteq> 0 then Some (EraseCrashed, w)
              else map_option (Pair EraseSkipped)
                     (mtd_bm_block_map_set (MTD_EB_RELATIVE_TO_ABSOLUTE mtd eb) MTD_BLK_BAD w))"

definition erase_one ::
  "'k kernel \<Rightarrow> mtd_dev \<Rightarrow> (u8 list \<times> int \<times> int) option \<Rightarrow> int \<Rightarrow> 'k world \<Rightarrow> (erase_verdict \<times> 'k world) option" where
  "erase_one K mtd marker eb w =
     (let (err, w) = mtd_erase K mtd (fds w (part_id mtd)) eb w
      in if err \<noteq> 0 then erase_failed K mtd eb w
         else (case mtd_bm_block_map_set (MTD_EB_RELATIVE_TO_ABSOLUTE mtd eb) MTD_BLK_ERASED w of
                 None \<Rightarrow> None
               | Some w \<Rightarrow>
                   (case marker of
                      None \<Rightarrow> Some (EraseDone, w)
                    | Some m \<Rightarrow>
                        let (ret, w) = jffs2_write_cleanmarker K mtd (eb * eb_size mtd) m w
                        in Some (if ret < 0 then EraseCrashed else EraseDone, w))))"

definition erase_round ::
  "'k kernel \<Rightarrow> bm_env \<Rightarrow> filesystem \<Rightarrow> mtd_dev \<Rightarrow> (u8 list \<times> int \<times> int) option \<Rightarrow> int \<Rightarrow> int \<Rightarrow> int \<Rightarrow> 'k world \<Rightarrow>
     (erase_verdict \<times> 'k world) option" where
  "erase_round K env fs mtd marker total_bytes erased_bytes eb w =
     (case set_process_info env mtd BM_OPERATION_ERASE erased_bytes total_bytes w of None \<Rightarrow> None | Some w \<Rightarrow>
      case (if mtd_type_is_nand mtd \<and> \<not> fs_flags_get fs
            then mtd_bm_block_map_is_bad w (MTD_EB_RELATIVE_TO_ABSOLUTE mtd eb) else Some False) of
        None \<Rightarrow> None
      | Some bad \<Rightarrow>
          if bad then Some (EraseSkipped, w)
          else let (ret, w) = (if FS_FLAG_IS_SET fs FS_FLAG_UNLOCK
                               then mtd_unlock K mtd (fds w (part_id mtd)) eb w else (0, w))
               in if ret \<noteq> 0 then Some (EraseSkipped, w)
                  else (case save_areas K env (eb * eb_size mtd + part_start mtd) (eb_size mtd) w of
                          None \<Rightarrow> None
                        | Some (err, w) \<Rightarrow>
                            if err < 0 then Some (EraseCrashed, w) else erase_one K mtd marker eb w))"

text \<open>
  The loop returns whether it crashed, the block it stopped at, the bytes erased and the
  blocks left out.
\<close>

function erase_loop ::
  "'k kernel \<Rightarrow> bm_env \<Rightarrow> filesystem \<Rightarrow> mtd_dev \<Rightarrow> (u8 list \<times> int \<times> int) option \<Rightarrow> int \<Rightarrow> int \<Rightarrow> int \<Rightarrow> int \<Rightarrow> 'k world \<Rightarrow>
     (bool \<times> int \<times> int \<times> int \<times> 'k world) option" where
  "erase_loop K env fs mtd marker total_bytes erased_bytes left_ebs eb w =
     (if erased_bytes < total_bytes \<and> eb < eb_cnt mtd then
        (case erase_round K env fs mtd marker total_bytes erased_bytes eb w of
           None \<Rightarrow> None
         | Some (EraseCrashed, w) \<Rightarrow> Some (False, eb, erased_bytes, left_ebs, w)
         | Some (EraseSkipped, w) \<Rightarrow>
             erase_loop K env fs mtd marker total_bytes erased_bytes (left_ebs + 1) (eb + 1) w
         | Some (EraseDone, w) \<Rightarrow>
             erase_loop K env fs mtd marker total_bytes (erased_bytes + eb_size mtd) left_ebs (eb + 1) w)
      else Some (True, eb, erased_bytes, left_ebs, w))"
  by pat_completeness auto
termination
  by (relation "measure (\<lambda>(K, env, fs, mtd, m, t, b, l, eb, w). nat (eb_cnt mtd - eb))") auto

declare erase_loop.simps [simp del]

definition erase_extent ::
  "'k kernel \<Rightarrow> bm_env \<Rightarrow> filesystem \<Rightarrow> mtd_dev \<Rightarrow> (u8 list \<times> int \<times> int) option \<Rightarrow> int \<Rightarrow> int \<Rightarrow> 'k world \<Rightarrow>
     (int option \<times> 'k world) option" where
  "erase_extent K env fs mtd marker start total_bytes w =
     (case erase_loop K env fs mtd marker total_bytes 0 0 start w of
        None \<Rightarrow> None
      | Some (ok, eb, erased_bytes, left_ebs, w) \<Rightarrow>
          if \<not> ok then Some (None, w)
          else if eb \<ge> eb_cnt mtd \<and> erased_bytes + left_ebs * eb_size mtd < total_bytes then Some (None, w)
          else map_option (Pair (Some (MTD_EB_RELATIVE_TO_ABSOLUTE mtd eb * eb_size mtd)))
                 (set_process_info env mtd BM_OPERATION_ERASE erased_bytes total_bytes w))"

text \<open>
  The extent is computed from the start of the partition, not from the offset of the
  operation.
\<close>

definition mtd_basic_erase :: "'k kernel \<Rightarrow> bm_env \<Rightarrow> filesystem \<Rightarrow> 'k world \<Rightarrow> (int \<times> 'k world) option" where
  "mtd_basic_erase K env fs w =
     (case params fs of None \<Rightarrow> None | Some p \<Rightarrow>
      case p_mtd p of None \<Rightarrow> None | Some mtd \<Rightarrow>
      let is_jffs2 = (fs_name fs = ''jffs2'')
      in if is_jffs2 \<and> mtd_type_is_mlc_nand mtd then Some (-1, closeall K mtd w)
         else let (marker, w) = (if is_jffs2 then jffs2_init_cleanmarker K mtd w else (None, w))
              in if is_jffs2 \<and> marker = None then Some (-1, closeall K mtd w)
                 else let offset = part_start mtd;
                          start = MTD_OFFSET_TO_EB_INDEX mtd offset;
                          fin = MTD_OFFSET_TO_EB_INDEX mtd (MTD_BLOCK_ALIGN mtd (offset + p_length p + eb_size mtd - 1));
                          total_bytes = (fin - start) * eb_size mtd;
                          start = MTD_EB_ABSOLUTE_TO_RELATIVE mtd start;
                          fin = MTD_EB_ABSOLUTE_TO_RELATIVE mtd fin
                      in if \<not> mtd_boundary_is_valid mtd start fin then Some (-1, closeall K mtd w)
                         else if \<not> mtd_bm_block_map_is_valid w then Some (-1, closeall K mtd w)
                         else (case erase_extent K env fs mtd marker start total_bytes w of
                                 None \<Rightarrow> None
                               | Some (None, w) \<Rightarrow> Some (-1, closeall K mtd w)
                               | Some (Some ret, w) \<Rightarrow> Some (ret, w)))"

section \<open>Writing\<close>

text \<open>
  The locals of \<open>mtd_basic_write\<close> that its loop changes. \<open>wc_buffer\<close> are the bytes
  \<open>w_buffer\<close> points to; \<open>wc_padded\<close> says that it points into \<open>pad_buffer\<close>.
\<close>

record write_cursor =
  wc_offset :: int
  wc_blockstart :: int
  wc_length :: int
  wc_buffer :: "u8 list"
  wc_padded :: bool
  wc_writeoob :: bool
  wc_progress :: int

definition write_mode :: "write_flags \<Rightarrow> oob_mode" where
  "write_mode f = (if noecc f then MTD_OPS_RAW else if autoplace f then MTD_OPS_AUTO_OOB else MTD_OPS_PLACE_OOB)"

text \<open>
  The page to be written: a short last page is copied into \<open>pad_buffer\<close> after that has been
  filled with 0xff, which erases it first if it is the very buffer copied from.
\<close>

definition pad_page :: "int \<Rightarrow> write_cursor \<Rightarrow> (u8 list \<times> bool) option" where
  "pad_page pagelen c =
     (let writen = (if wc_length c > pagelen then pagelen else wc_length c)
      in if writen mod pagelen \<noteq> 0 then
           (if wc_padded c then Some (replicate (nat pagelen) 0xff, True)
            else if int (length (wc_buffer c)) < writen then None
            else Some (take (nat writen) (wc_buffer c) @ replicate (nat (pagelen - writen)) 0xff, True))
         else if int (length (wc_buffer c)) < pagelen then None
         else Some (wc_buffer c, wc_padded c))"

text \<open>
  A write that failed: the block is erased, marked bad on request and recorded bad (under
  the number it has in its partition), and the page is tried again in the next block.
\<close>

definition write_failed ::
  "'k kernel \<Rightarrow> mtd_dev \<Rightarrow> write_flags \<Rightarrow> write_cursor \<Rightarrow> 'k world \<Rightarrow> (bool \<times> write_cursor \<times> 'k world) option" where
  "write_failed K mtd f c w =
     (let eb = MTD_OFFSET_TO_EB_INDEX mtd (wc_offset c); fd = fds w (part_id mtd)
      in if errno w \<noteq> EIO then Some (False, c, w)
         else let (ret, w) = mtd_erase K mtd fd eb w
              in if ret \<noteq> 0 \<and> errno w \<noteq> EIO then Some (False, c, w)
                 else let (ret, w) = (if markbad f then mtd_mark_bad K mtd fd eb w else (0, w))
                      in if ret \<noteq> 0 then Some (False, c, w)
                         else map_option (\<lambda>w. (True, c\<lparr>wc_offset := MTD_BLOCK_ALIGN mtd (wc_offset c + eb_size mtd)\<rparr>, w))
                                (mtd_bm_block_map_set eb MTD_BLK_BAD w))"

definition write_page ::
  "'k kernel \<Rightarrow> bm_env \<Rightarrow> mtd_dev \<Rightarrow> write_flags \<Rightarrow> int \<Rightarrow> int \<Rightarrow> write_cursor \<Rightarrow> 'k world \<Rightarrow>
     (bool \<times> write_cursor \<times> 'k world) option" where
  "write_page K env mtd f pagelen max_size c w =
     (case pad_page pagelen c of None \<Rightarrow> None | Some (page, padded) \<Rightarrow>
      let writen = (if wc_length c > pagelen then pagelen else wc_length c);
          with_oob = (writen > min_io_size mtd \<and> wc_writeoob c);
          io = nat (min_io_size mtd);
          c = c\<lparr>wc_buffer := page, wc_padded := padded, wc_writeoob := with_oob\<rparr>
      in case set_process_info env mtd BM_OPERATION_WRITE (wc_progress c) max_size w of None \<Rightarrow> None | Some w \<Rightarrow>
         case merge_areas env (take io page) (wc_offset c + part_start mtd) (min_io_size mtd) w of
           None \<Rightarrow> None
         | Some (ret, data) \<Rightarrow>
             let page = data @ drop io page;
                 c = c\<lparr>wc_buffer := page\<rparr>
             in if ret < 0 then Some (False, c, w)
                else let (ret, w) = mtd_write K mtd (fds w (part_id mtd)) (MTD_OFFSET_TO_EB_INDEX mtd (wc_offset c))
                                      (cmod (wc_offset c) (eb_size mtd)) data
                                      (if with_oob then Some (take (nat (oobsize f)) (drop io page)) else None)
                                      (write_mode f) w
                     in if ret \<noteq> 0 then write_failed K mtd f c w
                        else Some (True, c\<lparr>wc_offset := wc_offset c + min_io_size mtd,
                                           wc_buffer := drop (nat pagelen) page,
                                           wc_length := wc_length c - writen,
                                           wc_progress := wc_progress c + writen\<rparr>, w))"

partial_function (option) write_loop ::
  "'k kernel \<Rightarrow> bm_env \<Rightarrow> mtd_dev \<Rightarrow> write_flags \<Rightarrow> int \<Rightarrow> int \<Rightarrow> write_cursor \<Rightarrow> 'k world \<Rightarrow>
     (bool \<times> write_cursor \<times> 'k world) option" where
  "write_loop K env mtd f pagelen max_size c w =
     (if wc_length c > 0 \<and> wc_offset c < mtd_size mtd then
        (case enter_block mtd w (wc_blockstart c) (wc_offset c) of
           None \<Rightarrow> None
         | Some (Inl _) \<Rightarrow> Some (False, c, w)
         | Some (Inr (offset, blockstart)) \<Rightarrow>
             (case write_page K env mtd f pagelen max_size (c\<lparr>wc_offset := offset, wc_blockstart := blockstart\<rparr>) w of
                None \<Rightarrow> None
              | Some (ok, c, w) \<Rightarrow>
                  if ok then write_loop K env mtd f pagelen max_size c w else Some (False, c, w)))
      else Some (True, c, w))"

definition page_length :: "mtd_dev \<Rightarrow> write_flags \<Rightarrow> int" where
  "page_length mtd f =
     (if mtd_type_is_nand mtd then min_io_size mtd + (if writeoob f then oobsize f else 0) else min_io_size mtd)"

text \<open>The checks before the loop; they can switch the descriptor to raw mode.\<close>

definition write_checks ::
  "'k kernel \<Rightarrow> mtd_dev \<Rightarrow> write_flags \<Rightarrow> int \<Rightarrow> int \<Rightarrow> 'k world \<Rightarrow> (bool \<times> 'k world) option" where
  "write_checks K mtd f len offset w =
     (if offset < 0 then Some (False, w)
      else if offset AND (min_io_size mtd - 1) \<noteq> 0 then Some (False, w)
      else let (r, w) = (if noecc f then map_prod rep_ret (\<lambda>w. w) (syscall K (fds w (part_id mtd)) MTDFILEMODE_RAW w) else (0, w));
               pagelen = page_length mtd f
           in if r \<noteq> 0 then Some (False, w)
              else if pagelen = 0 then None
              else if \<not> pad f \<and> cmod len pagelen \<noteq> 0 then Some (False, w)
              else if cdiv len pagelen * min_io_size mtd > mtd_size mtd - offset then Some (False, w)
              else Some (mtd_bm_block_map_is_valid w, w))"

definition mtd_basic_write ::
  "'k kernel \<Rightarrow> bm_env \<Rightarrow> filesystem \<Rightarrow> 'k world \<Rightarrow> (int \<times> filesystem \<times> 'k world) option" where
  "mtd_basic_write K env fs w =
     (case params fs of None \<Rightarrow> None | Some p \<Rightarrow>
      case p_mtd p of None \<Rightarrow> None | Some mtd \<Rightarrow>
      let f = fs_write_flags_get fs mtd;
          offset = p_offset p - part_start mtd
      in case write_checks K mtd f (p_length p) offset w of
           None \<Rightarrow> None
         | Some (ok, w) \<Rightarrow>
             if \<not> ok then Some (-1, fs, closeall K mtd w)
             else (case write_loop K env mtd f (page_length mtd f) (p_max_size p)
                          \<lparr>wc_offset = offset, wc_blockstart = -1, wc_length = p_length p, wc_buffer = p_buf p,
                           wc_padded = False, wc_writeoob = writeoob f, wc_progress = p_progress_size p\<rparr> w of
                     None \<Rightarrow> None
                   | Some (ok, c, w) \<Rightarrow>
                       let fs = fs\<lparr>params := Some (p\<lparr>p_progress_size := wc_progress c\<rparr>)\<rparr>
                       in if \<not> ok then Some (-1, fs, closeall K mtd w)
                          else map_option (\<lambda>w. (wc_offset c + part_start mtd, fs, w))
                                 (set_process_info env mtd BM_OPERATION_WRITE (wc_progress c) (p_max_size p) w)))"

end
