(* ===== verification/FlashWrite.thy ===== *)
theory FlashWrite
  imports MtdWrite
begin

text \<open>
  What the write of \<open>MtdWrite\<close> leaves on a device that behaves: the image, padded to whole
  pages and overlaid with the system areas, at the first offsets that are not in a block
  recorded bad, and everything else as it was. With the read of \<open>FlashRead\<close> this gives the
  round trip through the flash.
\<close>

section \<open>The device\<close>

definition stored :: "(int \<Rightarrow> u8) \<Rightarrow> int \<Rightarrow> u8 list \<Rightarrow> int \<Rightarrow> u8" where
  "stored cells s d = (\<lambda>a. if s \<le> a \<and> a < s + int (length d) then d ! nat (a - s) else cells a)"

text \<open>
  \<open>write(2)\<close> on an MTD descriptor: bytes that are erased (0xff) take the data written.
\<close>

definition writable_device ::
  "'k kernel \<Rightarrow> int \<Rightarrow> ('k \<Rightarrow> int \<Rightarrow> u8) \<Rightarrow> ('k \<Rightarrow> int) \<Rightarrow> int \<Rightarrow> bool" where
  "writable_device K fd cells pos limit \<longleftrightarrow>
     (\<forall>d k. 0 \<le> pos k \<and> pos k + int (length d) \<le> limit \<and>
        (\<forall>a. pos k \<le> a \<and> a < pos k + int (length d) \<longrightarrow> cells k a = 0xff) \<longrightarrow>
        rep_ret (fst (K fd (WRITE d) k)) = int (length d) \<and>
        cells (snd (K fd (WRITE d) k)) = stored (cells k) (pos k) d)"

definition same_program :: "'k world \<Rightarrow> 'k world \<Rightarrow> bool" where
  "same_program w w' \<longleftrightarrow> block_map w' = block_map w \<and> fds w' = fds w \<and> layout w' = layout w"

lemma same_program_refl [simp]: "same_program w w"
  by (simp add: same_program_def)

lemma same_program_trans: "same_program w w' \<Longrightarrow> same_program w' w'' \<Longrightarrow> same_program w w''"
  by (simp add: same_program_def)

lemma same_program_frame: "frame w w' \<Longrightarrow> same_program w w'"
  by (simp add: same_program_def frame_def)

lemma same_program_skips: "same_program w w' \<Longrightarrow> skips w' = skips w"
  by (simp add: same_program_def fun_eq_iff skips_def block_state_def)

lemma same_program_covers: "same_program w w' \<Longrightarrow> table_covers mtd w' = table_covers mtd w"
  by (simp add: same_program_def table_covers_def block_state_def)

lemma write_data_stores:
  assumes "readable_device K fd cells pos limit" "writable_device K fd cells pos limit"
    and "0 \<le> s" "s + int (length d) \<le> limit" "\<And>a. s \<le> a \<Longrightarrow> a < s + int (length d) \<Longrightarrow> cells (kern w) a = 0xff"
  shows "\<exists>w'. write_data K fd s d w = (0, w') \<and> frame w w' \<and> cells (kern w') = stored (cells (kern w)) s d"
proof -
  obtain r1 w1 where 1: "syscall K fd (LSEEK s) w = (r1, w1)" by (metis surj_pair)
  have k1: "rep_ret r1 = s" "cells (kern w1) = cells (kern w)" "pos (kern w1) = s"
    using device_seek [OF assms(1) assms(3) _ 1] assms(4) by simp_all
  obtain r2 w2 where 2: "syscall K fd (WRITE d) w1 = (r2, w2)" by (metis surj_pair)
  have k2: "rep_ret r2 = int (length d)" "cells (kern w2) = stored (cells (kern w)) s d"
    using assms(2-5) k1 by (simp_all add: writable_device_def syscall_fields(1,2) [OF 2])
  have "write_data K fd s d w = (0, w2)" by (simp add: write_data_def 1 2 k1(1) k2(1))
  then show ?thesis using frame_trans [OF frame_syscall [OF 1] frame_syscall [OF 2]] k2(2) by blast
qed

section \<open>The overlay of the system areas\<close>

text \<open>
  The areas the write may have to overlay are in memory, and the last entry of the table is
  the one that ends last, as the code takes for granted.
\<close>

definition areas_ready :: "bm_env \<Rightarrow> 'k world \<Rightarrow> bool" where
  "areas_ready env w \<longleftrightarrow> (bm_sysinfo env \<longrightarrow> layout w \<noteq> [] \<and>
     (\<forall>l\<in>set (layout w). (si_reserve l = SYSINFO_RESERVED \<longrightarrow> loaded l) \<and>
        si_offset l + si_length l \<le> si_offset (last (layout w)) + si_length (last (layout w))))"

definition overlay :: "bm_env \<Rightarrow> 'k world \<Rightarrow> int \<Rightarrow> u8 \<Rightarrow> u8" where
  "overlay env w a b = (if bm_sysinfo env then sysinfo_byte (layout w) a b else b)"

lemma sysinfo_byte_outside:
  "(\<And>l. l \<in> set ls \<Longrightarrow> \<not> area_holds l a) \<Longrightarrow> sysinfo_byte ls a b = b"
  by (induction ls arbitrary: b) (auto simp: sysinfo_byte_def)

lemma traversal_merge_bytes:
  assumes "layout w \<noteq> []" and "\<And>l. l \<in> set (layout w) \<Longrightarrow> si_reserve l = SYSINFO_RESERVED \<Longrightarrow> loaded l"
    and "\<And>l. l \<in> set (layout w) \<Longrightarrow> si_offset l + si_length l \<le> si_offset (last (layout w)) + si_length (last (layout w))"
    and "buf \<noteq> []"
  shows "sysinfo_traversal_merge buf offset (int (length buf)) w =
    Some (0, map (\<lambda>i. sysinfo_byte (layout w) (offset + int i) (buf ! i)) [0..<length buf])"
proof (cases "offset \<ge> si_offset (last (layout w)) + si_length (last (layout w))")
  case True
  have "sysinfo_byte (layout w) (offset + int i) b = b" for i b
  proof (rule sysinfo_byte_outside)
    fix l assume "l \<in> set (layout w)"
    with assms(3) [of l] True show "\<not> area_holds l (offset + int i)" by (auto simp: area_holds_def)
  qed
  with True show ?thesis by (simp add: sysinfo_traversal_merge_def map_nth)
next
  case False
  have lt: "offset < offset + int (length buf)" using assms(4) by simp
  obtain buf' where b: "merge_from (layout w) offset (offset + int (length buf)) buf = Some (0, buf')"
    "length buf' = length buf" "\<forall>i < length buf. buf' ! i = sysinfo_byte (layout w) (offset + int i) (buf ! i)"
    using merge_from_bytes [OF lt, of "layout w" buf] assms(2) by auto
  then have "buf' = map (\<lambda>i. sysinfo_byte (layout w) (offset + int i) (buf ! i)) [0..<length buf]"
    by (intro nth_equalityI) simp_all
  with False b(1) show ?thesis by (simp add: sysinfo_traversal_merge_def)
qed

text \<open>
  C27. Writing keeps the system areas. The overlay of a page replaces exactly the bytes at
  flash addresses inside a reserved area by the saved contents of that area, and no others,
  wherever the page lies.
\<close>

theorem sysinfo_traversal_merge_overlays:
  assumes "areas_ready env w" "bm_sysinfo env" "buf \<noteq> []"
  shows "sysinfo_traversal_merge buf offset (int (length buf)) w =
    Some (0, map (\<lambda>i. sysinfo_byte (layout w) (offset + int i) (buf ! i)) [0..<length buf])"
  using traversal_merge_bytes [of w buf offset] assms by (simp add: areas_ready_def)

section \<open>The image on the flash\<close>

text \<open>The image, padded with 0xff to whole pages.\<close>

definition padded :: "int \<Rightarrow> u8 list \<Rightarrow> u8 list" where
  "padded io buf = buf @ replicate (nat ((- int (length buf)) mod io)) 0xff"

text \<open>
  The cells after a write: the bytes of the image at the usable offsets, in order.
\<close>

definition written :: "bm_env \<Rightarrow> 'k world \<Rightarrow> mtd_dev \<Rightarrow> int \<Rightarrow> u8 list \<Rightarrow> (int \<Rightarrow> u8) \<Rightarrow> int \<Rightarrow> u8" where
  "written env w mtd off img cells a =
     (case map_of (zip (usable mtd (skips w) off) img) a of
        None \<Rightarrow> cells a
      | Some b \<Rightarrow> overlay env w (a + part_start mtd) b)"

lemma page_in_block:
  assumes wf: "wf_mtd mtd" and al: "off mod min_io_size mtd = 0"
  shows "(off mod eb_size mtd) mod min_io_size mtd = 0" "off mod eb_size mtd + min_io_size mtd \<le> eb_size mtd"
    "(off mod eb_size mtd) mod subpage_size mtd = 0"
proof -
  let ?e = "eb_size mtd" and ?io = "min_io_size mtd"
  have e: "0 < ?e" using wf by (rule wf_mtd_pos)
  have io: "0 < ?io" "?io dvd ?e" "subpage_size mtd dvd ?io" using wf by (auto simp: wf_mtd_def)
  have d: "?io dvd off mod ?e" using al io(2) by (simp add: dvd_mod_iff mod_eq_0_iff_dvd)
  then show "(off mod ?e) mod ?io = 0" by simp
  have "?io dvd ?e - off mod ?e" by (rule dvd_diff [OF io(2) d])
  moreover have "0 < ?e - off mod ?e" using pos_mod_bound [OF e, of off] by simp
  ultimately show "off mod ?e + ?io \<le> ?e" using zdvd_imp_le by fastforce
  show "(off mod ?e) mod subpage_size mtd = 0" using d io(3) by (simp add: mod_eq_0_iff_dvd dvd_trans)
qed

definition overlaid :: "bm_env \<Rightarrow> 'k world \<Rightarrow> int \<Rightarrow> u8 list \<Rightarrow> u8 list" where
  "overlaid env w addr page = map (\<lambda>i. overlay env w (addr + int i) (page ! i)) [0..<length page]"

lemma length_overlaid [simp]: "length (overlaid env w addr page) = length page"
  by (simp add: overlaid_def)

lemma overlaid_nth: "i < length page \<Longrightarrow> overlaid env w addr page ! i = overlay env w (addr + int i) (page ! i)"
  by (simp add: overlaid_def)

lemma merge_page:
  assumes "areas_ready env w" "page \<noteq> []"
  shows "merge_areas env page addr (int (length page)) w = Some (0, overlaid env w addr page)"
  using traversal_merge_bytes [of w page addr] assms
  by (simp add: merge_areas_def areas_ready_def overlaid_def overlay_def map_nth)

lemma mtd_write_page:
  assumes wf: "wf_mtd mtd" and dev: "readable_device K fd cells pos (mtd_size mtd)" "writable_device K fd cells pos (mtd_size mtd)"
    and off: "0 \<le> off" "off < mtd_size mtd" "off mod min_io_size mtd = 0" and d: "int (length d) = min_io_size mtd"
    and er: "\<And>a. off \<le> a \<Longrightarrow> a < off + min_io_size mtd \<Longrightarrow> cells (kern w) a = 0xff"
  shows "\<exists>w'. mtd_write K mtd fd (off div eb_size mtd) (off mod eb_size mtd) d None m w = (0, w') \<and>
    frame w w' \<and> cells (kern w') = stored (cells (kern w)) off d"
proof -
  let ?e = "eb_size mtd"
  have e: "0 < ?e" using wf by (rule wf_mtd_pos)
  have size: "mtd_size mtd = eb_cnt mtd * ?e" using wf by (simp add: wf_mtd_def)
  have lt: "off div ?e < eb_cnt mtd" using off(2) e by (simp add: size int_div_less_iff)
  have v: "mtd_valid_erase_block mtd (off div ?e)"
    using off(1) lt e by (simp add: mtd_valid_erase_block_def pos_imp_zdiv_nonneg_iff)
  note P = page_in_block [OF wf off(3)]
  have "off = off div ?e * ?e + off mod ?e" by simp
  then have "off + min_io_size mtd \<le> (off div ?e + 1) * ?e" using P(2) unfolding distrib_right by linarith
  also have "\<dots> \<le> mtd_size mtd" by (rule block_end_le [OF wf off(2)])
  finally have lim: "off + int (length d) \<le> mtd_size mtd" using d by simp
  have "mtd_write K mtd fd (off div ?e) (off mod ?e) d None m w = write_data K fd off d w"
    using v P wf d pos_mod_sign [OF e, of off] by (simp add: mtd_write_def Let_def wf_mtd_def not_less)
  then show ?thesis using write_data_stores [OF dev off(1) lim, of w] er d by simp
qed

text \<open>The first page of what is left of the image, padded.\<close>

definition first_page :: "int \<Rightarrow> u8 list \<Rightarrow> u8 list" where
  "first_page io buf = take (nat io) (padded io buf)"

lemma padded_length: "0 < io \<Longrightarrow> int (length (padded io buf)) mod io = 0"
proof -
  assume io: "0 < io"
  have "int (length (padded io buf)) = int (length buf) + (- int (length buf)) mod io"
    using io by (simp add: padded_def)
  also have "\<dots> mod io = 0" by (simp add: mod_add_right_eq)
  finally show ?thesis .
qed

lemma padded_short:
  assumes "0 < int (length buf)" "int (length buf) \<le> io"
  shows "padded io buf = buf @ replicate (nat (io - int (length buf))) 0xff"
proof (cases "int (length buf) = io")
  case True
  then show ?thesis by (simp add: padded_def)
next
  case False
  then have "(- int (length buf)) mod io = io - int (length buf)"
    using assms by (simp add: zmod_zminus1_eq_if)
  then show ?thesis by (simp add: padded_def)
qed

lemma padded_long:
  assumes "0 < io" "io < int (length buf)"
  shows "padded io buf = take (nat io) buf @ padded io (drop (nat io) buf)"
proof -
  have "int (length (drop (nat io) buf)) = int (length buf) - io" using assms by simp
  then have "(- int (length (drop (nat io) buf))) mod io = (- int (length buf)) mod io"
    using mod_add_self2 [of "- int (length buf)" io] by (simp add: algebra_simps)
  then show ?thesis by (simp add: padded_def append_assoc [symmetric] del: append_assoc length_drop)
qed

lemma padded_length_ge:
  assumes "0 < io" "buf \<noteq> []" shows "nat io \<le> length (padded io buf)"
proof -
  have "io dvd int (length (padded io buf))" using padded_length [OF assms(1)] by (simp add: mod_eq_0_iff_dvd)
  moreover have "padded io buf \<noteq> []" using assms(2) by (simp add: padded_def)
  then have "0 < int (length (padded io buf))" by simp
  ultimately have "io \<le> int (length (padded io buf))" by (intro zdvd_imp_le)
  then show ?thesis by simp
qed

lemma write_page_stores:
  assumes wf: "wf_mtd mtd" and dev: "readable_device K (fds w (part_id mtd)) cells pos (mtd_size mtd)"
      "writable_device K (fds w (part_id mtd)) cells pos (mtd_size mtd)"
    and off: "0 \<le> wc_offset c" "wc_offset c < mtd_size mtd" "wc_offset c mod min_io_size mtd = 0"
    and c: "wc_length c = int (length (wc_buffer c))" "wc_buffer c \<noteq> []" "\<not> wc_padded c" "\<not> wc_writeoob c"
    and ready: "areas_ready env w" "max_size \<noteq> 0"
    and er: "\<And>a. wc_offset c \<le> a \<Longrightarrow> a < wc_offset c + min_io_size mtd \<Longrightarrow> cells (kern w) a = 0xff"
  defines "n \<equiv> (if wc_length c > min_io_size mtd then min_io_size mtd else wc_length c)"
  shows "\<exists>c' w'. write_page K env mtd f (min_io_size mtd) max_size c w = Some (True, c', w') \<and>
    wc_offset c' = wc_offset c + min_io_size mtd \<and> wc_length c' = wc_length c - n \<and>
    wc_progress c' = wc_progress c + n \<and> wc_blockstart c' = wc_blockstart c \<and> \<not> wc_writeoob c' \<and>
    (wc_length c > min_io_size mtd \<longrightarrow> wc_buffer c' = drop (nat (min_io_size mtd)) (wc_buffer c) \<and> \<not> wc_padded c') \<and>
    same_program w w' \<and>
    cells (kern w') = stored (cells (kern w)) (wc_offset c)
      (overlaid env w (wc_offset c + part_start mtd) (first_page (min_io_size mtd) (wc_buffer c)))"
proof -
  let ?io = "min_io_size mtd" and ?buf = "wc_buffer c"
  have io: "0 < ?io" using wf by (simp add: wf_mtd_def)
  have len: "0 < wc_length c" using c(1,2) by simp
  define page where "page = (if wc_length c < ?io then padded ?io ?buf else ?buf)"
  have pp: "pad_page ?io c = Some (page, wc_length c < ?io)"
  proof (cases "wc_length c < ?io")
    case True
    then have "wc_length c mod ?io \<noteq> 0" using len by simp
    then show ?thesis using True c io padded_short [of ?buf ?io] len by (simp add: pad_page_def page_def)
  next
    case False
    then show ?thesis using c io by (auto simp: pad_page_def page_def)
  qed
  have tp: "take (nat ?io) page = first_page ?io ?buf"
  proof (cases "?io < wc_length c")
    case True
    then show ?thesis using io c(1) padded_long [of ?io ?buf] by (simp add: page_def first_page_def)
  next
    case False
    then show ?thesis using c(1) len padded_short [of ?buf ?io]
      by (cases "wc_length c = ?io") (simp_all add: page_def first_page_def)
  qed
  have lf: "int (length (first_page ?io ?buf)) = ?io"
  proof (cases "?io < wc_length c")
    case True
    then show ?thesis using io c(1) by (simp add: first_page_def padded_def)
  next
    case False
    then show ?thesis using c(1) len padded_short [of ?buf ?io] by (simp add: first_page_def)
  qed
  then have ne: "first_page ?io ?buf \<noteq> []" using io by auto
  define d where "d = overlaid env w (wc_offset c + part_start mtd) (first_page ?io ?buf)"
  obtain w1 where w1: "set_process_info env mtd BM_OPERATION_WRITE (wc_progress c) max_size w = Some w1"
    "kern w1 = kern w" "block_map w1 = block_map w" "fds w1 = fds w" "layout w1 = layout w"
    using ready(2) by (cases "bm_listening env") (simp_all add: set_process_info_def)
  have ov: "overlaid env w1 = overlaid env w" by (simp add: fun_eq_iff overlaid_def overlay_def w1(5))
  have r1: "areas_ready env w1" using ready(1) by (simp add: areas_ready_def w1(5))
  have mg: "merge_areas env (first_page ?io ?buf) (wc_offset c + part_start mtd) ?io w1 = Some (0, d)"
    using merge_page [OF r1 ne, of "wc_offset c + part_start mtd"] unfolding lf ov d_def .
  have ld: "int (length d) = ?io" using lf by (simp add: d_def)
  obtain w2 where w2: "mtd_write K mtd (fds w1 (part_id mtd)) (wc_offset c div eb_size mtd) (wc_offset c mod eb_size mtd) d None
      (write_mode f) w1 = (0, w2)" "frame w1 w2" "cells (kern w2) = stored (cells (kern w1)) (wc_offset c) d"
    using mtd_write_page [OF wf _ _ off ld, of K "fds w1 (part_id mtd)" cells pos w1] dev er by (auto simp: w1(2,4))
  have sp: "same_program w w2" using same_program_frame [OF w2(2)] by (simp add: same_program_def w1)
  have n: "n = (if wc_length c > ?io then ?io else wc_length c)" by (simp add: n_def)
  define c1 where "c1 = c\<lparr>wc_buffer := drop (nat ?io) (d @ drop (nat ?io) page),
      wc_padded := (wc_length c < ?io), wc_writeoob := False, wc_offset := wc_offset c + ?io,
      wc_length := wc_length c - n, wc_progress := wc_progress c + n\<rparr>"
  have wp: "write_page K env mtd f ?io max_size c w = Some (True, c1, w2)"
    using c(4) by (simp add: write_page_def pp Let_def w1(1) tp mg eb_index [OF off(1)] off(1) w2(1) n c1_def)
  have db: "drop (nat ?io) (d @ drop (nat ?io) page) = drop (nat ?io) page" using ld by simp
  have "wc_length c > ?io \<Longrightarrow> wc_buffer c1 = drop (nat ?io) ?buf \<and> \<not> wc_padded c1"
    unfolding c1_def db by (simp add: page_def)
  then show ?thesis
    using wp sp w2(3) w1(2) by (intro exI [of _ c1] exI [of _ w2]) (simp add: c1_def d_def)
qed

section \<open>The loop\<close>

lemma map_of_zip_upto:
  assumes "int (length p) = n"
  shows "map_of (zip [s..s + n - 1] p) a = (if s \<le> a \<and> a < s + n then Some (p ! nat (a - s)) else None)"
proof (cases "s \<le> a \<and> a < s + n")
  case True
  have "map_of (zip [s..s + n - 1] p) ([s..s + n - 1] ! nat (a - s)) = Some (p ! nat (a - s))"
    using True assms by (intro map_of_zip_nth) (simp_all add: nat_less_iff)
  moreover have "[s..s + n - 1] ! nat (a - s) = a" using True by simp
  ultimately show ?thesis using True by simp
next
  case False
  then have "a \<notin> set (map fst (zip [s..s + n - 1] p))" using assms by (auto dest: set_zip_leftD)
  then show ?thesis using False by (metis (mono_tags, lifting) map_of_eq_None_iff list.set_map)
qed

lemma written_same_program:
  assumes "same_program w w'" shows "written env w' = written env w"
proof -
  have "overlay env w' = overlay env w" using assms by (simp add: fun_eq_iff overlay_def same_program_def)
  then show ?thesis by (intro ext) (simp only: written_def same_program_skips [OF assms])
qed

lemma usable_ge: "a \<in> set (usable mtd bad off) \<Longrightarrow> off \<le> a"
  by (simp add: usable_def)

text \<open>Writing the first page and then the rest writes the whole image.\<close>

lemma written_step:
  assumes u: "usable mtd (skips w) off = [s..s + io - 1] @ usable mtd (skips w) (s + io)" and "int (length page) = io"
  shows "written env w mtd (s + io) rest (stored cells s (overlaid env w (s + part_start mtd) page)) =
    written env w mtd off (page @ rest) cells"
proof
  fix a
  let ?m = "map_of (zip (usable mtd (skips w) (s + io)) rest)"
  have l: "length [s..s + io - 1] = length page" using assms(2) by simp
  have ge: "s + io \<le> a" if "?m a = Some b" for b
    using that by (auto dest!: map_of_SomeD set_zip_leftD usable_ge)
  have m: "map_of (zip (usable mtd (skips w) off) (page @ rest)) a =
      (case ?m a of Some b \<Rightarrow> Some b | None \<Rightarrow> if s \<le> a \<and> a < s + io then Some (page ! nat (a - s)) else None)"
    unfolding u zip_append [OF l] map_of_append map_add_def map_of_zip_upto [OF assms(2)]
    using ge by (auto split: option.split)
  have ov: "overlaid env w (s + part_start mtd) page ! nat (a - s) = overlay env w (a + part_start mtd) (page ! nat (a - s))"
    if "s \<le> a" "a < s + io"
  proof -
    have "nat (a - s) < length page" using that assms(2) by (simp add: nat_less_iff)
    moreover have "s + part_start mtd + int (nat (a - s)) = a + part_start mtd" using that(1) by linarith
    ultimately show ?thesis by (simp only: overlaid_nth)
  qed
  show "written env w mtd (s + io) rest (stored cells s (overlaid env w (s + part_start mtd) page)) a =
      written env w mtd off (page @ rest) cells a"
    using assms(2) ov by (auto simp: written_def m stored_def split: option.split)
qed

lemma write_loop_stores:
  assumes wf: "wf_mtd mtd" and nand: "mtd_type_is_nand mtd"
    and dev: "readable_device K fd cells pos (mtd_size mtd)" "writable_device K fd cells pos (mtd_size mtd)"
    and ms: "max_size \<noteq> 0"
  shows "wc_length c = int (length (wc_buffer c)) \<Longrightarrow> \<not> wc_padded c \<Longrightarrow> \<not> wc_writeoob c \<Longrightarrow>
    table_covers mtd w \<Longrightarrow> fds w (part_id mtd) = fd \<Longrightarrow> areas_ready env w \<Longrightarrow>
    0 \<le> wc_offset c \<Longrightarrow> wc_offset c mod min_io_size mtd = 0 \<Longrightarrow>
    length (padded (min_io_size mtd) (wc_buffer c)) \<le> length (usable mtd (skips w) (wc_offset c)) \<Longrightarrow>
    (wc_blockstart c = MTD_BLOCK_ALIGN mtd (wc_offset c) \<Longrightarrow> wc_offset c < mtd_size mtd \<Longrightarrow>
       \<not> skips w (wc_offset c div eb_size mtd)) \<Longrightarrow>
    (\<And>a. a \<in> set (take (length (padded (min_io_size mtd) (wc_buffer c))) (usable mtd (skips w) (wc_offset c))) \<Longrightarrow>
       cells (kern w) a = 0xff) \<Longrightarrow>
    \<exists>c' w'. write_loop K env mtd f (min_io_size mtd) max_size c w = Some (True, c', w') \<and>
      wc_offset c' = (if wc_buffer c = [] then wc_offset c
        else usable mtd (skips w) (wc_offset c) ! (length (padded (min_io_size mtd) (wc_buffer c)) - 1) + 1) \<and>
      wc_progress c' = wc_progress c + wc_length c \<and> same_program w w' \<and>
      cells (kern w') = written env w mtd (wc_offset c) (padded (min_io_size mtd) (wc_buffer c)) (cells (kern w))"
proof (induction "length (wc_buffer c)" arbitrary: c w rule: less_induct)
  case less
  let ?io = "min_io_size mtd" and ?buf = "wc_buffer c" and ?off = "wc_offset c"
  have io: "0 < ?io" using wf by (simp add: wf_mtd_def)
  show ?case
  proof (cases "?buf = []")
    case True
    then have "write_loop K env mtd f ?io max_size c w = Some (True, c, w)" using less.prems(1) by (simp add: write_loop.simps)
    moreover have "written env w mtd ?off (padded ?io []) (cells (kern w)) = cells (kern w)"
      by (simp add: fun_eq_iff written_def padded_def)
    ultimately show ?thesis using True less.prems(1) by (intro exI [of _ c] exI [of _ w]) simp
  next
    case False
    let ?U = "usable mtd (skips w) ?off" and ?P = "padded ?io ?buf"
    have len: "0 < wc_length c" using False less.prems(1) by simp
    have "?P \<noteq> []" using False by (simp add: padded_def)
    then have ne: "?U \<noteq> []" using less.prems(9) by auto
    have lt: "?off < mtd_size mtd"
    proof (rule ccontr)
      assume "\<not> ?off < mtd_size mtd"
      with ne show False by simp
    qed
    have "\<not> skips w (?off div eb_size mtd)" if "wc_blockstart c = MTD_BLOCK_ALIGN mtd ?off"
      using less.prems(10) that lt by simp
    then obtain off' where o: "enter_block mtd w (wc_blockstart c) ?off = Some (Inr (off', MTD_BLOCK_ALIGN mtd off'))" "?off \<le> off'"
      "off' < mtd_size mtd" "usable mtd (skips w) off' = ?U" "\<not> skips w (off' div eb_size mtd)"
      "off' = ?off \<or> off' mod eb_size mtd = 0"
      using enter_block_finds [OF wf nand less.prems(4,7) lt _ ne, of "wc_blockstart c"] by auto
    have o0: "0 \<le> off'" using o(2) less.prems(7) by simp
    have "?io dvd eb_size mtd" using wf by (simp add: wf_mtd_def mod_eq_0_iff_dvd)
    then have al: "off' mod ?io = 0" using o(6) less.prems(8) by (auto simp: mod_eq_0_iff_dvd intro: dvd_trans)
    define c0 where "c0 = c\<lparr>wc_offset := off', wc_blockstart := MTD_BLOCK_ALIGN mtd off'\<rparr>"
    define page where "page = first_page ?io ?buf"
    have "off' = off' div eb_size mtd * eb_size mtd + off' mod eb_size mtd" by simp
    then have b: "off' + ?io \<le> (off' div eb_size mtd + 1) * eb_size mtd"
      using page_in_block(2) [OF wf al] unfolding distrib_right by linarith
    have U: "?U = [off'..off' + ?io - 1] @ usable mtd (skips w) (off' + ?io)"
      using usable_in_block [OF wf o(3) _ b, of "skips w"] o(4,5) io by simp
    have er: "cells (kern w) a = 0xff" if "off' \<le> a" "a < off' + ?io" for a
    proof -
      have "length [off'..off' + ?io - 1] \<le> length ?P"
        using padded_length_ge [OF io False] by simp
      then show ?thesis using that by (intro less.prems(11)) (simp add: U)
    qed
    define n where "n = (if wc_length c > ?io then ?io else wc_length c)"
    obtain c1 w1 where w1: "write_page K env mtd f ?io max_size c0 w = Some (True, c1, w1)"
      "wc_offset c1 = off' + ?io" "wc_length c1 = wc_length c - n" "wc_progress c1 = wc_progress c + n"
      "wc_blockstart c1 = MTD_BLOCK_ALIGN mtd off'" "\<not> wc_writeoob c1"
      "wc_length c > ?io \<Longrightarrow> wc_buffer c1 = drop (nat ?io) ?buf \<and> \<not> wc_padded c1" "same_program w w1"
      "cells (kern w1) = stored (cells (kern w)) off' (overlaid env w (off' + part_start mtd) page)"
      using write_page_stores [OF wf, of K w cells pos c0 env max_size f] dev less.prems(1-3,5,6) False o0 o(3) al ms er
      by (auto simp: c0_def n_def page_def)
    have step: "write_loop K env mtd f ?io max_size c w = write_loop K env mtd f ?io max_size c1 w1"
      using len lt by (simp add: write_loop.simps [of K env mtd f ?io max_size c w] o(1) c0_def [symmetric] w1(1))
    show ?thesis
    proof (cases "?io < wc_length c")
      case True
      have buf1: "wc_buffer c1 = drop (nat ?io) ?buf" "\<not> wc_padded c1" using w1(7) True by simp_all
      have P: "?P = page @ padded ?io (wc_buffer c1)" "int (length page) = ?io"
        using padded_long [OF io, of ?buf] True less.prems(1) io by (simp_all add: page_def first_page_def buf1)
      have ne1: "wc_buffer c1 \<noteq> []" using True less.prems(1) io by (simp add: buf1)
      have nP: "padded ?io (wc_buffer c1) \<noteq> []" using ne1 by (simp add: padded_def)
      have sk: "skips w1 = skips w" by (rule same_program_skips [OF w1(8)])
      have len1: "wc_length c1 = int (length (wc_buffer c1))" using True less.prems(1) io by (simp add: w1(3) n_def buf1)
      have less1: "length (wc_buffer c1) < length ?buf" using True less.prems(1) io by (simp add: buf1)
      have cov: "table_covers mtd w1" using less.prems(4) same_program_covers [OF w1(8)] by simp
      have fd1: "fds w1 (part_id mtd) = fd" using less.prems(5) w1(8) by (simp add: same_program_def)
      have rd: "areas_ready env w1" using less.prems(6) w1(8) by (simp add: areas_ready_def same_program_def)
      have off1: "0 \<le> wc_offset c1" "wc_offset c1 mod ?io = 0" using o0 al io by (simp_all add: w1(2))
      have fit: "length (padded ?io (wc_buffer c1)) \<le> length (usable mtd (skips w1) (wc_offset c1))"
        using less.prems(9) P by (simp add: U sk w1(2))
      have bs: "\<not> skips w1 (wc_offset c1 div eb_size mtd)" if "wc_blockstart c1 = MTD_BLOCK_ALIGN mtd (wc_offset c1)"
        using that o(5) wf_mtd_pos [OF wf] by (simp add: block_align [OF wf] w1(2,5) sk)
      have er1: "cells (kern w1) a = 0xff"
        if "a \<in> set (take (length (padded ?io (wc_buffer c1))) (usable mtd (skips w1) (wc_offset c1)))" for a
      proof -
        have "nat ?io = length page" using P(2) by linarith
        then have a: "a \<in> set (take (length ?P) ?U)" "a \<in> set (usable mtd (skips w) (off' + ?io))"
          using that P in_set_takeD [OF that] by (simp_all add: w1(2) sk U nat_diff_distrib)
        then show ?thesis
          using less.prems(11) [OF a(1)] usable_ge [OF a(2)] P(2) by (simp add: w1(9) stored_def)
      qed
      obtain c' w' where w': "write_loop K env mtd f ?io max_size c1 w1 = Some (True, c', w')"
        "wc_offset c' = usable mtd (skips w1) (wc_offset c1) ! (length (padded ?io (wc_buffer c1)) - 1) + 1"
        "wc_progress c' = wc_progress c1 + wc_length c1" "same_program w1 w'"
        "cells (kern w') = written env w1 mtd (wc_offset c1) (padded ?io (wc_buffer c1)) (cells (kern w1))"
        using less.hyps [OF less1 len1 buf1(2) w1(6) cov fd1 rd off1 fit bs er1] ne1 by auto
      have "?U ! (length ?P - 1) = usable mtd (skips w) (off' + ?io) ! (length (padded ?io (wc_buffer c1)) - 1)"
      proof -
        have "length ?P - 1 = length [off'..off' + ?io - 1] + (length (padded ?io (wc_buffer c1)) - 1)"
          using P nP io by (simp add: Suc_leI)
        then show ?thesis unfolding U by (simp only: nth_append_length_plus)
      qed
      moreover have "written env w mtd ?off ?P (cells (kern w)) = cells (kern w')"
        unfolding P(1) written_step [OF U P(2), symmetric] w'(5)
        by (simp add: written_same_program [OF w1(8)] w1(2,9))
      ultimately show ?thesis
        unfolding step using w' False same_program_trans [OF w1(8) w'(4)] w1(2-4)
        by (intro exI [of _ c'] exI [of _ w']) (simp add: sk)
    next
      case no: False
      have P: "?P = page" "int (length page) = ?io"
        using padded_short [of ?buf ?io] no len less.prems(1) by (simp_all add: page_def first_page_def)
      have stop: "write_loop K env mtd f ?io max_size c1 w1 = Some (True, c1, w1)"
        using no by (simp add: write_loop.simps w1(3) n_def)
      have "nat ?io - 1 < length [off'..off' + ?io - 1]" using io by simp
      then have "?U ! (nat ?io - 1) = off' + int (nat ?io - 1)" unfolding U by (simp add: nth_append)
      moreover have "length ?P - 1 = nat ?io - 1" using P by simp
      ultimately have "?U ! (length ?P - 1) + 1 = off' + ?io" using io by simp
      moreover have "written env w mtd ?off ?P (cells (kern w)) = cells (kern w1)"
        using written_step [OF U P(2), where env = env and rest = "[]" and cells = "cells (kern w)"]
        by (simp add: P(1) w1(9) written_def fun_eq_iff)
      ultimately show ?thesis
        unfolding step using stop False w1(2-4,8) no
        by (intro exI [of _ c1] exI [of _ w1]) (simp add: n_def)
    qed
  qed
qed

section \<open>Writing a partition\<close>

text \<open>
  A write of the page-aligned kind the filesystems without OOB data ask for (\<open>normal\<close>,
  \<open>cramfs\<close>, \<open>jffs2\<close>): corrected data, padded.
\<close>

definition write_request :: "mtd_dev \<Rightarrow> fs_operation_params \<Rightarrow> filesystem \<Rightarrow> bool" where
  "write_request mtd p fs \<longleftrightarrow> params fs = Some p \<and> p_mtd p = Some mtd \<and>
     \<not> FS_FLAG_IS_SET fs FS_FLAG_NOECC \<and> \<not> FS_FLAG_IS_SET fs FS_FLAG_WRITEOOB \<and> FS_FLAG_IS_SET fs FS_FLAG_PAD \<and>
     part_start mtd \<le> p_offset p \<and> (p_offset p - part_start mtd) mod min_io_size mtd = 0 \<and>
     p_buf p \<noteq> [] \<and> p_length p = int (length (p_buf p)) \<and> p_max_size p \<noteq> 0"

lemma divides_power2: "0 < d \<Longrightarrow> d dvd 2 ^ k \<Longrightarrow> \<exists>j. d = (2 :: int) ^ j"
proof (induction k arbitrary: d)
  case 0
  then show ?case by (intro exI [of _ 0]) (simp add: zdvd1_eq)
next
  case (Suc k)
  show ?case
  proof (cases "even d")
    case True
    then obtain c where c: "d = 2 * c" by (rule dvdE)
    with Suc.prems have "0 < c" "c dvd 2 ^ k" by simp_all
    then obtain j where "c = 2 ^ j" using Suc.IH by blast
    with c show ?thesis by (intro exI [of _ "Suc j"]) simp
  next
    case False
    then have "coprime d 2" by simp
    with Suc.prems(2) have "d dvd 2 ^ k" by (simp add: coprime_dvd_mult_right_iff)
    with Suc show ?thesis by blast
  qed
qed

lemma min_io_power: "wf_mtd mtd \<Longrightarrow> \<exists>j. min_io_size mtd = 2 ^ j"
  using divides_power2 [of "min_io_size mtd"] by (auto simp: wf_mtd_def mod_eq_0_iff_dvd)

lemma page_aligned:
  assumes "wf_mtd mtd" shows "off AND (min_io_size mtd - 1) = off mod min_io_size mtd"
proof -
  obtain j where "min_io_size mtd = 2 ^ j" using min_io_power [OF assms] by blast
  then show ?thesis by (simp add: mask_eq_exp_minus_1 [symmetric] take_bit_eq_mask [symmetric] take_bit_eq_mod)
qed

lemma length_padded: "0 < io \<Longrightarrow> length buf \<le> length (padded io buf)"
  by (simp add: padded_def)

lemma length_usable: "off \<le> mtd_size mtd \<Longrightarrow> int (length (usable mtd bad off)) \<le> mtd_size mtd - off"
  using length_filter_le [of _ "[off..mtd_size mtd - 1]"] by (simp add: usable_def) (metis int_nat_eq le_diff_eq
    of_nat_le_iff diff_ge_0_iff_ge)

lemma write_checks_pass:
  assumes wf: "wf_mtd mtd" and nand: "mtd_type_is_nand mtd" and f: "\<not> noecc f" "\<not> writeoob f" "pad f"
    and off: "0 \<le> off" "off mod min_io_size mtd = 0" "off \<le> mtd_size mtd"
    and len: "0 \<le> len" "len \<le> mtd_size mtd - off" and m: "block_map w \<noteq> None"
  shows "write_checks K mtd f len off w = Some (True, w)" "page_length mtd f = min_io_size mtd"
proof -
  have io: "0 < min_io_size mtd" using wf by (simp add: wf_mtd_def)
  show pl: "page_length mtd f = min_io_size mtd" using nand f by (simp add: page_length_def)
  have "cdiv len (min_io_size mtd) * min_io_size mtd \<le> len"
    using len(1) io pos_mod_sign [OF io, of len] by (simp add: cdiv_def minus_mod_eq_div_mult [symmetric])
  then show "write_checks K mtd f len off w = Some (True, w)"
    using f off len io m by (simp add: write_checks_def pl page_aligned [OF wf] mtd_bm_block_map_is_valid_def)
qed

lemma write_stores:
  assumes wf: "wf_mtd mtd" and nand: "mtd_type_is_nand mtd"
    and dev: "readable_device K (fds w (part_id mtd)) cells pos (mtd_size mtd)"
      "writable_device K (fds w (part_id mtd)) cells pos (mtd_size mtd)"
    and cov: "block_map w \<noteq> None" "table_covers mtd w" and req: "write_request mtd p fs" and ready: "areas_ready env w"
  defines "off \<equiv> p_offset p - part_start mtd" and "img \<equiv> padded (min_io_size mtd) (p_buf p)"
  assumes fit: "length img \<le> length (usable mtd (skips w) off)"
    and er: "\<forall>a\<in>set (take (length img) (usable mtd (skips w) off)). cells (kern w) a = 0xff"
  shows "\<exists>fs' w'. mtd_basic_write K env fs w =
      Some (part_start mtd + usable mtd (skips w) off ! (length img - 1) + 1, fs', w') \<and>
    same_program w w' \<and> cells (kern w') = written env w mtd off img (cells (kern w)) \<and>
    fs' = fs\<lparr>params := Some (p\<lparr>p_progress_size := p_progress_size p + p_length p\<rparr>)\<rparr>"
proof -
  let ?io = "min_io_size mtd"
  have io: "0 < ?io" using wf by (simp add: wf_mtd_def)
  have off: "0 \<le> off" "off mod ?io = 0" using req by (simp_all add: write_request_def off_def)
  have ne: "p_buf p \<noteq> []" "p_length p = int (length (p_buf p))" "p_max_size p \<noteq> 0" using req by (simp_all add: write_request_def)
  have r: "params fs = Some p" "p_mtd p = Some mtd" using req by (simp_all add: write_request_def)
  have "img \<noteq> []" using ne(1) by (simp add: img_def padded_def)
  then have "usable mtd (skips w) off \<noteq> []" using fit by auto
  then have lt: "off < mtd_size mtd" by (metis usable_end not_le)
  define f where "f = fs_write_flags_get fs mtd"
  have f: "\<not> noecc f" "\<not> writeoob f" "pad f" using req by (simp_all add: f_def fs_write_flags_get_def write_request_def)
  have "int (length img) \<le> mtd_size mtd - off"
    using fit length_usable [of off mtd "skips w"] lt by linarith
  then have len: "p_length p \<le> mtd_size mtd - off"
    using length_padded [OF io, of "p_buf p"] by (simp add: ne(2) img_def)
  have C: "write_checks K mtd f (p_length p) off w = Some (True, w)" "page_length mtd f = ?io"
    using write_checks_pass [OF wf nand f off _ _ len cov(1)] lt ne(2) by simp_all
  define c where "c = \<lparr>wc_offset = off, wc_blockstart = -1, wc_length = p_length p, wc_buffer = p_buf p,
      wc_padded = False, wc_writeoob = writeoob f, wc_progress = p_progress_size p\<rparr>"
  have "MTD_BLOCK_ALIGN mtd off \<noteq> -1"
    using off(1) wf_mtd_pos [OF wf] zdiv_eq_0_iff by (simp add: block_align [OF wf]) (smt (verit) mult_nonneg_nonneg
      pos_imp_zdiv_nonneg_iff)
  then obtain c' w' where L: "write_loop K env mtd f ?io (p_max_size p) c w = Some (True, c', w')"
    "wc_offset c' = usable mtd (skips w) off ! (length img - 1) + 1" "wc_progress c' = p_progress_size p + p_length p"
    "same_program w w'" "cells (kern w') = written env w mtd off img (cells (kern w))"
    using write_loop_stores [OF wf nand dev ne(3), of c w env f] ne f(2) cov(2) ready off fit er
    by (auto simp: c_def img_def)
  obtain w'' where E: "set_process_info env mtd BM_OPERATION_WRITE (wc_progress c') (p_max_size p) w' = Some w''"
    "kern w'' = kern w'" "block_map w'' = block_map w'" "fds w'' = fds w'" "layout w'' = layout w'"
    using ne(3) by (cases "bm_listening env") (simp_all add: set_process_info_def)
  have "mtd_basic_write K env fs w = Some (part_start mtd + usable mtd (skips w) off ! (length img - 1) + 1,
      fs\<lparr>params := Some (p\<lparr>p_progress_size := p_progress_size p + p_length p\<rparr>)\<rparr>, w'')"
    by (simp add: mtd_basic_write_def r Let_def f_def [symmetric] off_def [symmetric] C c_def [symmetric] L(1-2) E(1) L(3) [symmetric])
  moreover have "same_program w w''" using L(4) E(3-5) by (simp add: same_program_def)
  ultimately show ?thesis using L(5) E(2) by simp
qed


lemma distinct_usable: "distinct (usable mtd bad off)"
  by (simp add: usable_def)

lemma written_nth:
  assumes "length img \<le> length (usable mtd (skips w) off)" "i < length img"
  shows "written env w mtd off img cells (usable mtd (skips w) off ! i) =
    overlay env w (usable mtd (skips w) off ! i + part_start mtd) (img ! i)"
proof -
  let ?U = "usable mtd (skips w) off" and ?n = "length img"
  have "zip (take ?n ?U) img = zip ?U img" using take_zip [of ?n ?U img] by simp
  moreover have "map_of (zip (take ?n ?U) img) (take ?n ?U ! i) = Some (img ! i)"
    using assms distinct_usable [of mtd "skips w" off] by (intro map_of_zip_nth) simp_all
  ultimately show ?thesis using assms(2) by (simp add: written_def)
qed

lemma nth_padded: "i < length buf \<Longrightarrow> padded io buf ! i = buf ! i"
  by (simp add: padded_def nth_append)

text \<open>
  C29. What is written can be read back. After such a write, a read of as many bytes from the
  same offset delivers the image byte for byte, with the bytes in reserved system areas at
  their saved values.
\<close>

theorem mtd_write_read_roundtrip:
  assumes "wf_mtd mtd" "mtd_type_is_nand mtd"
    and "readable_device K (fds w (part_id mtd)) cells pos (mtd_size mtd)"
    and "writable_device K (fds w (part_id mtd)) cells pos (mtd_size mtd)"
    and "block_map w \<noteq> None" "table_covers mtd w" "write_request mtd p fs" "areas_ready env w"
    and "length (padded (min_io_size mtd) (p_buf p)) \<le> length (usable mtd (skips w) (p_offset p - part_start mtd))"
    and "\<forall>a\<in>set (take (length (padded (min_io_size mtd) (p_buf p))) (usable mtd (skips w) (p_offset p - part_start mtd))).
      cells (kern w) a = 0xff"
    and "params rd = Some q" "p_mtd q = Some mtd" "p_offset q = p_offset p" "p_length q = p_length p"
  shows "\<exists>pos1 fs' w1 pos2 w2. mtd_basic_write K env fs w = Some (pos1, fs', w1) \<and>
    mtd_basic_read K rd w1 = Some (pos2,
      map (\<lambda>i. overlay env w (usable mtd (skips w) (p_offset p - part_start mtd) ! i + part_start mtd) (p_buf p ! i))
        [0..<length (p_buf p)], w2)"
proof -
  let ?off = "p_offset p - part_start mtd" and ?img = "padded (min_io_size mtd) (p_buf p)" and ?n = "length (p_buf p)"
  let ?U = "usable mtd (skips w) ?off"
  obtain pos1 fs' w1 where W: "mtd_basic_write K env fs w = Some (pos1, fs', w1)" "same_program w w1"
    "cells (kern w1) = written env w mtd ?off ?img (cells (kern w))"
    using write_stores [OF assms(1-10)] by blast
  have sk: "skips w1 = skips w" by (rule same_program_skips [OF W(2)])
  have r: "part_start mtd \<le> p_offset p" "0 < ?n" "p_length p = int ?n"
    using assms(7) by (simp_all add: write_request_def)
  have n: "?n \<le> length ?img" using length_padded [of "min_io_size mtd"] assms(1) by (simp add: wf_mtd_def)
  have dev: "readable_device K (fds w1 (part_id mtd)) cells pos (mtd_size mtd)" "block_map w1 \<noteq> None" "table_covers mtd w1"
    using W(2) assms(3,5,6) same_program_covers [OF W(2)] by (simp_all add: same_program_def)
  obtain pos2 w2 where R: "mtd_basic_read K rd w1 = Some (pos2, map (cells (kern w1)) (take ?n ?U), w2)"
  proof -
    have "p_length q \<le> int (length (usable mtd (skips w1) (p_offset q - part_start mtd)))"
      using assms(9,13,14) r n by (simp add: sk)
    then show thesis
      using read_delivers [OF assms(1,2) dev assms(11,12)] assms(13,14) r that by (auto simp: sk)
  qed
  have "map (cells (kern w1)) (take ?n ?U) = map (\<lambda>i. overlay env w (?U ! i + part_start mtd) (p_buf p ! i)) [0..<?n]"
    using n assms(9) by (intro nth_equalityI) (simp_all add: W(3) written_nth nth_padded)
  with R have "mtd_basic_read K rd w1 =
      Some (pos2, map (\<lambda>i. overlay env w (?U ! i + part_start mtd) (p_buf p ! i)) [0..<?n], w2)" by simp
  with W(1) show ?thesis by blast
qed

end
