(* ===== verification/SysFlag.thy ===== *)
theory SysFlag
  imports FlashWrite
begin

text \<open>
  Writing a system area back to the flash (\<open>sysinfo_set_value\<close> of
  \<open>client/recovery/block/sysinfo/sysinfo_manager.c\<close>) and the update flag kept in one of the
  areas (\<open>client/recovery/block/sysinfo/flag.c\<close>). The area is written by reading the erase
  block around it, patching it, erasing and writing it back. Allocation is taken to succeed,
  and printing is left out.
\<close>

section \<open>Writing an area\<close>

text \<open>
  The error exit releases the copy of the area and leaves the pointer to it behind. Where the
  area does not exist the exit reads through a null pointer (\<open>None\<close>).
\<close>

definition set_value_failed :: "int \<Rightarrow> 'k world \<Rightarrow> (int \<times> 'k world) option" where
  "set_value_failed sid w = Some (-1, si_store sid Freed w)"

definition patch :: "u8 list \<Rightarrow> nat \<Rightarrow> u8 list \<Rightarrow> u8 list option" where
  "patch dst at_pos src = (if at_pos + length src > length dst then None else Some (put_bytes dst at_pos src))"

text \<open>Read, patch, erase and write the block at \<open>fs\<close>; \<open>ok\<close> is false for the error exit.\<close>

definition rewrite_block ::
  "'k kernel \<Rightarrow> bm_env \<Rightarrow> filesystem \<Rightarrow> mtd_dev \<Rightarrow> nat \<Rightarrow> u8 list \<Rightarrow> 'k world \<Rightarrow> (bool \<times> 'k world) option" where
  "rewrite_block K env fs mtd at_pos data w =
     (case mtd_block_scan K env fs w of None \<Rightarrow> None | Some (room, w) \<Rightarrow>
      if room \<le> 0 then Some (False, w)
      else case mtd_basic_read K fs w of None \<Rightarrow> None | Some (ret, bytes, w) \<Rightarrow>
      if ret < 0 then Some (False, w)
      else case patch (overwrite (replicate (nat (eb_size mtd)) 0) bytes) at_pos data of None \<Rightarrow> None | Some tmpbuf \<Rightarrow>
      case mtd_basic_erase K env fs w of None \<Rightarrow> None | Some (ret, w) \<Rightarrow>
      if ret < 0 then Some (False, w)
      else case mtd_basic_write K env
                  (fs_set_params_process (fs\<lparr>params := map_option (p_buf_update (\<lambda>_. tmpbuf)) (params fs)\<rparr>) (eb_size mtd)) w of
             None \<Rightarrow> None
           | Some (ret, _, w) \<Rightarrow> Some (\<not> ret < 0, w))"

definition sysinfo_write_dev ::
  "'k kernel \<Rightarrow> bm_env \<Rightarrow> int \<Rightarrow> u8 list \<Rightarrow> 'k world \<Rightarrow> (bool \<times> 'k world) option" where
  "sysinfo_write_dev K env sid data w =
     (case fs_new ''normal'' (bm_filesystems env) of
        None \<Rightarrow> Some (False, w)
      | Some fs \<Rightarrow>
          if \<not> bm_sysinfo env then Some (False, w)
          else if bm_name env \<noteq> ''mtd'' then Some (True, w)
          else case mtd_get_dev_info_by_offset env (sysinfo_get_offset w sid) of
                 None \<Rightarrow> Some (False, w)
               | Some mtd \<Rightarrow>
                   if sysinfo_get_length w sid > eb_size mtd then Some (False, w)
                   else let blkaligned = sysinfo_get_offset w sid AND NOT (eb_size mtd - 1);
                            fs = fs_set_params fs [] blkaligned (eb_size mtd) BM_OPERATION_METHOD_RANDOM (Some mtd)
                        in rewrite_block K env fs mtd (nat (sysinfo_get_offset w sid - blkaligned)) data w)"

definition sysinfo_set_value ::
  "'k kernel \<Rightarrow> bm_env \<Rightarrow> int \<Rightarrow> u8 list option \<Rightarrow> sysinfo_operation \<Rightarrow> 'k world \<Rightarrow> (int \<times> 'k world) option" where
  "sysinfo_set_value K env sid buf mode w =
     (if sysinfo_get_offset w sid < 0 \<or> sysinfo_get_length w sid < 0 then None
      else case sysinfo_get_value_address w sid of
        None \<Rightarrow> None
      | Some v \<Rightarrow>
          let len = nat (sysinfo_get_length w sid);
              old = (case v of Buf b \<Rightarrow> b | _ \<Rightarrow> replicate len 0);
              data = (case buf of None \<Rightarrow> old | Some b \<Rightarrow> overwrite old (take len b))
          in if v = Freed then (if buf = None \<and> mode = SYSINFO_OPERATION_RAM then Some (0, w) else None)
             else if (case buf of None \<Rightarrow> False | Some b \<Rightarrow> length b < len) then None
             else let w = si_store sid (Buf data) w
                  in (case mode of
                        SYSINFO_OPERATION_RAM \<Rightarrow> Some (0, w)
                      | SYSINFO_OPERATION_DEV \<Rightarrow>
                          (case sysinfo_write_dev K env sid (take len data) w of
                             None \<Rightarrow> None
                           | Some (ok, w) \<Rightarrow> if ok then Some (0, w) else set_value_failed sid w)))"

section \<open>The update flag\<close>

record sysinfo_flag_layout =
  flag_offset :: int
  flag_length :: int

definition flag_layout :: "sysinfo_flag_layout list" where
  "flag_layout = [\<lparr>flag_offset = 0, flag_length = 4\<rparr>]"

definition SYSINFO_FLAG_ID_UPDATE_DONE :: int where "SYSINFO_FLAG_ID_UPDATE_DONE = 0"
definition SYSINFO_FLAG_VALUE_UPDATE_START :: u32 where "SYSINFO_FLAG_VALUE_UPDATE_START = 0x5A5A5A5A"
definition SYSINFO_FLAG_VALUE_UPDATE_DONE :: u32 where "SYSINFO_FLAG_VALUE_UPDATE_DONE = 0xA5A5A5A5"

definition flag_id_valid :: "int \<Rightarrow> bool" where
  "flag_id_valid fid \<longleftrightarrow> \<not> (fid < 0 \<or> fid \<ge> int (length flag_layout))"

definition sysinfo_get_flag_size :: "int \<Rightarrow> int" where
  "sysinfo_get_flag_size fid = (if \<not> flag_id_valid fid then -1 else flag_length (flag_layout ! nat fid))"

definition flag_slice :: "int \<Rightarrow> u8 list \<Rightarrow> u8 list option" where
  "flag_slice fid b =
     (let l = flag_layout ! nat fid
      in if flag_offset l + flag_length l > int (length b) then None
         else Some (take (nat (flag_length l)) (drop (nat (flag_offset l)) b)))"

text \<open>The bytes stored through \<open>flag\<close>.\<close>

definition sysinfo_read_flag :: "'k kernel \<Rightarrow> bm_env \<Rightarrow> int \<Rightarrow> 'k world \<Rightarrow> (int \<times> u8 list \<times> 'k world) option" where
  "sysinfo_read_flag K env fid w =
     (if \<not> flag_id_valid fid then Some (-1, [], w)
      else case sysinfo_get_value K env SYSINFO_FLAG SYSINFO_OPERATION_DEV w of
        None \<Rightarrow> None
      | Some (ret, w) \<Rightarrow>
          if ret < 0 then Some (-1, [], w)
          else case sysinfo_get_value_address w SYSINFO_FLAG of
                 Some (Buf b) \<Rightarrow> map_option (\<lambda>bytes. (0, bytes, w)) (flag_slice fid b)
               | _ \<Rightarrow> None)"

text \<open>The reservation of the area is restored only after success.\<close>

definition sysinfo_write_flag :: "'k kernel \<Rightarrow> bm_env \<Rightarrow> int \<Rightarrow> u8 list \<Rightarrow> 'k world \<Rightarrow> (int \<times> 'k world) option" where
  "sysinfo_write_flag K env fid bytes w =
     (if \<not> flag_id_valid fid then Some (-1, w)
      else case sysinfo_get_value K env SYSINFO_FLAG SYSINFO_OPERATION_RAM w of
        None \<Rightarrow> None
      | Some (ret, w) \<Rightarrow>
          if ret < 0 then Some (-1, w)
          else case sysinfo_get_value_address w SYSINFO_FLAG of
                 Some (Buf b) \<Rightarrow>
                   (case patch b (nat (flag_offset (flag_layout ! nat fid))) (take (nat (flag_length (flag_layout ! nat fid))) bytes) of
                      None \<Rightarrow> None
                    | Some b \<Rightarrow>
                        let w = si_store SYSINFO_FLAG (Buf b) w;
                            reserve_org = (case sysinfo_get_reserve w SYSINFO_FLAG of Some r \<Rightarrow> r | None \<Rightarrow> SYSINFO_NO_RESERVED);
                            w = snd (sysinfo_set_reserve SYSINFO_FLAG SYSINFO_NO_RESERVED w)
                        in (case sysinfo_set_value K env SYSINFO_FLAG None SYSINFO_OPERATION_DEV w of
                              None \<Rightarrow> None
                            | Some (ret, w) \<Rightarrow>
                                if ret \<noteq> 0 then Some (-1, w)
                                else Some (0, snd (sysinfo_set_reserve SYSINFO_FLAG reserve_org w))))
               | _ \<Rightarrow> None)"

end
