(* ===== verification/FirstBlock.thy ===== *)
theory FirstBlock
  imports SysFlag
begin

text \<open>
  The first erase block of the flash, where the boot loader, the description of the partitions
  and the update flag live: what a scan, a read and an erase of it do on a device that
  behaves, and that writing a system area back (\<open>sysinfo_set_value\<close>) replaces the area and
  leaves every other byte of the flash as it was.
\<close>

section \<open>The device\<close>

definition blanked :: "(int \<Rightarrow> u8) \<Rightarrow> int \<Rightarrow> int \<Rightarrow> int \<Rightarrow> u8" where
  "blanked cells s l = (\<lambda>a. if s \<le> a \<and> a < s + l then 0xff else cells a)"

text \<open>Both erase requests succeed, and the first block is reported good.\<close>

definition erasable_device :: "'k kernel \<Rightarrow> int \<Rightarrow> ('k \<Rightarrow> int \<Rightarrow> u8) \<Rightarrow> int \<Rightarrow> bool" where
  "erasable_device K fd cells limit \<longleftrightarrow>
     (\<forall>s l k. 0 \<le> s \<and> s + l \<le> limit \<longrightarrow>
        rep_ret (fst (K fd (MEMERASE64 s l) k)) = 0 \<and> cells (snd (K fd (MEMERASE64 s l) k)) = blanked (cells k) s l \<and>
        rep_ret (fst (K fd (MEMERASE s l) k)) = 0 \<and> cells (snd (K fd (MEMERASE s l) k)) = blanked (cells k) s l)"

definition first_block_good :: "'k kernel \<Rightarrow> int \<Rightarrow> ('k \<Rightarrow> int \<Rightarrow> u8) \<Rightarrow> bool" where
  "first_block_good K fd cells \<longleftrightarrow>
     (\<forall>k. rep_ret (fst (K fd (MEMGETBADBLOCK 0) k)) = 0 \<and> cells (snd (K fd (MEMGETBADBLOCK 0) k)) = cells k)"

definition healthy :: "'k kernel \<Rightarrow> mtd_dev \<Rightarrow> int \<Rightarrow> ('k \<Rightarrow> int \<Rightarrow> u8) \<Rightarrow> ('k \<Rightarrow> int) \<Rightarrow> bool" where
  "healthy K mtd fd cells pos \<longleftrightarrow>
     wf_mtd mtd \<and> mtd_type_is_nand mtd \<and> part_start mtd = 0 \<and> 0 < eb_cnt mtd \<and> mtd_size mtd \<le> 0xFFFFFFFF \<and>
     readable_device K fd cells pos (mtd_size mtd) \<and> writable_device K fd cells pos (mtd_size mtd) \<and>
     erasable_device K fd cells (mtd_size mtd) \<and> first_block_good K fd cells"

text \<open>The table is there, covers the partition and has the first block usable.\<close>

definition first_ok :: "mtd_dev \<Rightarrow> 'k world \<Rightarrow> bool" where
  "first_ok mtd w \<longleftrightarrow> block_map w \<noteq> None \<and> table_covers mtd w \<and> \<not> skips w 0"

definition undisturbed :: "('k \<Rightarrow> int \<Rightarrow> u8) \<Rightarrow> 'k world \<Rightarrow> 'k world \<Rightarrow> bool" where
  "undisturbed cells w w' \<longleftrightarrow> cells (kern w') = cells (kern w) \<and> fds w' = fds w"

lemma undisturbed_refl [simp]: "undisturbed cells w w"
  by (simp add: undisturbed_def)

lemma undisturbed_trans: "undisturbed cells w w' \<Longrightarrow> undisturbed cells w' w'' \<Longrightarrow> undisturbed cells w w''"
  by (simp add: undisturbed_def)

text \<open>A plain access to the first block.\<close>

definition first_request :: "mtd_dev \<Rightarrow> fs_operation_params \<Rightarrow> filesystem \<Rightarrow> bool" where
  "first_request mtd p fs \<longleftrightarrow> params fs = Some p \<and> p_mtd p = Some mtd \<and> p_method p = BM_OPERATION_METHOD_RANDOM \<and>
     0 \<le> p_offset p \<and> 0 < p_length p \<and> p_offset p + p_length p \<le> eb_size mtd \<and> \<not> fs_flags_get fs"

lemma covers_state: "table_covers mtd w \<Longrightarrow> 0 \<le> eb \<Longrightarrow> eb < eb_cnt mtd \<Longrightarrow> \<exists>s. block_state w eb = Some s"
  by (auto simp: table_covers_def)

lemma first_ok_set:
  assumes "first_ok mtd w" "0 < eb_cnt mtd" "status \<noteq> MTD_BLK_BAD"
  shows "\<exists>w'. mtd_bm_block_map_set 0 status w = Some w' \<and> first_ok mtd w' \<and> only_table w w'"
proof -
  obtain s where s: "block_state w 0 = Some s" using assms covers_state [of mtd w 0] by (auto simp: first_ok_def)
  then obtain w' where w': "mtd_bm_block_map_set 0 status w = Some w'" "only_table w w'"
    "\<forall>e. block_state w' e = (if e = 0 \<and> s \<noteq> MTD_BLK_BAD then Some status else block_state w e)"
    using block_map_set by blast
  moreover have "block_map w' \<noteq> None" using w'(3) s by (auto simp: block_state_def split: option.splits if_splits)
  ultimately show ?thesis using assms(1,3) by (auto simp: first_ok_def table_covers_def skips_def)
qed

section \<open>Scanning and reading\<close>

lemma scan_block_first:
  assumes h: "healthy K mtd (fds w (part_id mtd)) cells pos" and f: "first_ok mtd w"
  shows "\<exists>w'. scan_block K mtd False 0 w = Some (Usable, w') \<and> first_ok mtd w' \<and> undisturbed cells w w' \<and> layout w' = layout w"
proof -
  have wf: "wf_mtd mtd" and n: "0 < eb_cnt mtd" "mtd_type_is_nand mtd" and p: "part_start mtd = 0"
    using h by (simp_all add: healthy_def)
  have abs: "MTD_EB_RELATIVE_TO_ABSOLUTE mtd 0 = 0" using p by (simp add: rel_to_abs [OF wf] first_eb_def)
  have nor: "\<not> mtd_type_is_nor mtd" using n(2) by (auto simp: mtd_type_is_nor_def mtd_type_is_nand_def)
  obtain s where s: "block_state w 0 = Some s" "s \<noteq> MTD_BLK_BAD"
    using f n covers_state [of mtd w 0] by (auto simp: first_ok_def skips_def)
  show ?thesis
  proof (cases "taged s")
    case True
    then have "scan_block K mtd False 0 w = Some (Usable, w)"
      using s by (simp add: scan_block_def abs mtd_bm_block_map_is_taged_def mtd_bm_block_map_is_bad_def taged_def)
    with f show ?thesis by simp
  next
    case False
    obtain w1 where w1: "mtd_bm_block_map_set 0 MTD_BLK_SCAN w = Some w1" "first_ok mtd w1" "only_table w w1"
      using first_ok_set [OF f n(1), of MTD_BLK_SCAN] by auto
    have v: "mtd_valid_erase_block mtd 0" using n(1) by (simp add: mtd_valid_erase_block_def)
    show ?thesis
    proof (cases "bb_allowed mtd")
      case False
      then have "mtd_is_bad K mtd (fds w1 (part_id mtd)) 0 w1 = (0, w1)" using v by (simp add: mtd_is_bad_def)
      then have "scan_block K mtd False 0 w = Some (Usable, w1)"
        using s \<open>\<not> taged s\<close> w1(1) nor
        by (simp add: scan_block_def abs mtd_bm_block_map_is_taged_def mtd_bm_block_map_is_bad_def taged_def)
      with w1 show ?thesis by (simp add: undisturbed_def)
    next
      case True
      obtain r w2 where k: "syscall K (fds w (part_id mtd)) (MEMGETBADBLOCK 0) w1 = (r, w2)" by (metis surj_pair)
      have r: "rep_ret r = 0" "cells (kern w2) = cells (kern w)"
        using h syscall_fields(1,2) [OF k] w1(3) by (simp_all add: healthy_def first_block_good_def)
      have "mtd_is_bad K mtd (fds w1 (part_id mtd)) 0 w1 = (0, w2)"
        using v True k r(1) w1(3) by (simp add: mtd_is_bad_def)
      then have "scan_block K mtd False 0 w = Some (Usable, w2)"
        using s \<open>\<not> taged s\<close> w1(1) nor
        by (simp add: scan_block_def abs mtd_bm_block_map_is_taged_def mtd_bm_block_map_is_bad_def taged_def)
      moreover have "frame w1 w2" by (rule frame_syscall [OF k])
      ultimately show ?thesis using w1 r(2) skips_frame [of w1 w2] table_covers_frame [of w1 w2 mtd]
        by (simp add: undisturbed_def first_ok_def frame_def)
    qed
  qed
qed

lemma scan_first:
  assumes h: "healthy K mtd (fds w (part_id mtd)) cells pos" and f: "first_ok mtd (mtd_bm_block_map_init env mtd w)"
    and req: "first_request mtd p fs"
  shows "\<exists>w'. mtd_block_scan K env fs w = Some (eb_size mtd, w') \<and> first_ok mtd w' \<and> undisturbed cells w w' \<and> layout w' = layout w"
proof -
  have wf: "wf_mtd mtd" and n: "0 < eb_cnt mtd" and p: "part_start mtd = 0" using h by (simp_all add: healthy_def)
  have e: "0 < eb_size mtd" by (rule wf_mtd_pos [OF wf])
  have r: "params fs = Some p" "p_mtd p = Some mtd" "p_method p = BM_OPERATION_METHOD_RANDOM" "0 \<le> p_offset p"
    "0 < p_length p" "p_offset p + p_length p \<le> eb_size mtd" "\<not> fs_flags_get fs" using req by (simp_all add: first_request_def)
  have m: "BM_OPERATION_METHOD_RANDOM \<noteq> BM_OPERATION_METHOD_PARTITION"
    by (simp add: BM_OPERATION_METHOD_RANDOM_def BM_OPERATION_METHOD_PARTITION_def)
  let ?w0 = "mtd_bm_block_map_init env mtd w"
  have t: "only_table w ?w0" by (simp add: mtd_bm_block_map_init_def Let_def split: option.split)
  have d: "p_offset p div eb_size mtd = 0" using r(4-6) by simp
  have "(p_offset p + p_length p + eb_size mtd - 1) div eb_size mtd = (p_offset p + p_length p - 1) div eb_size mtd + 1"
    using e div_add_self2 [of "eb_size mtd" "p_offset p + p_length p - 1"] by (simp add: algebra_simps)
  also have "(p_offset p + p_length p - 1) div eb_size mtd = 0" using r(4-6) by simp
  finally have d': "(p_offset p + p_length p + eb_size mtd - 1) div eb_size mtd = 1" by simp
  have v: "mtd_boundary_is_valid mtd 0 1"
  proof -
    have "MTD_OFFSET_TO_EB_INDEX mtd (mtd_size mtd) = eb_cnt mtd" using wf e n by (simp add: wf_mtd_def eb_index)
    then show ?thesis using n by (simp add: mtd_boundary_is_valid_def)
  qed
  have h0: "healthy K mtd (fds ?w0 (part_id mtd)) cells pos" using h t by simp
  obtain w' where w': "scan_block K mtd False 0 ?w0 = Some (Usable, w')" "first_ok mtd w'" "undisturbed cells ?w0 w'" "layout w' = layout ?w0"
    using scan_block_first [OF h0 f] by blast
  have "mtd_block_scan K env fs w = Some (eb_size mtd, w')"
    using r m n e d d' v f w'(1)
    by (simp add: mtd_block_scan_def scan_end_def eb_index abs_to_rel [OF wf] first_eb_def p first_ok_def
        mtd_bm_block_map_is_valid_def Let_def scan_loop.simps)
  then show ?thesis using w' t by (simp add: undisturbed_def)
qed

lemma usable_first:
  assumes "wf_mtd mtd" "0 < eb_cnt mtd" "\<not> skips w 0" "0 \<le> off" "0 < n" "off + n \<le> eb_size mtd"
  shows "take (nat n) (usable mtd (skips w) off) = [off..off + n - 1]" "n \<le> int (length (usable mtd (skips w) off))"
    "usable mtd (skips w) off ! nat (n - 1) = off + n - 1"
proof -
  have e: "0 < eb_size mtd" by (rule wf_mtd_pos [OF assms(1)])
  have "1 * eb_size mtd \<le> eb_cnt mtd * eb_size mtd" using assms(2) e by (intro mult_right_mono) simp_all
  moreover have "mtd_size mtd = eb_cnt mtd * eb_size mtd" using assms(1) by (simp add: wf_mtd_def)
  ultimately have lt: "off < mtd_size mtd" using assms(4-6) by linarith
  have d: "off div eb_size mtd = 0" using assms(4-6) by simp
  have u: "usable mtd (skips w) off = [off..off + n - 1] @ usable mtd (skips w) (off + n)"
    using usable_in_block [OF assms(1) lt, of "off + n" "skips w"] assms(3,5,6) d by simp
  then show "take (nat n) (usable mtd (skips w) off) = [off..off + n - 1]" by simp
  show "n \<le> int (length (usable mtd (skips w) off))" unfolding u using assms(5) by simp
  show "usable mtd (skips w) off ! nat (n - 1) = off + n - 1" unfolding u using assms(5) by (simp add: nth_append)
qed

lemma read_first:
  assumes h: "healthy K mtd (fds w (part_id mtd)) cells pos" and f: "first_ok mtd w" and req: "first_request mtd p fs"
  shows "\<exists>w'. mtd_basic_read K fs w =
      Some (p_offset p + p_length p, map (cells (kern w)) [p_offset p..p_offset p + p_length p - 1], w') \<and>
    frame w w' \<and> cells (kern w') = cells (kern w)"
proof -
  note H = h [unfolded healthy_def] and R = req [unfolded first_request_def]
  have "\<not> skips w 0" using f by (simp add: first_ok_def)
  note U = usable_first [of mtd w "p_offset p" "p_length p"]
  show ?thesis
    using read_delivers [of mtd K w cells pos fs p] H R f U by (simp add: first_ok_def)
qed

section \<open>Loading an area\<close>

lemma first_ok_layout [simp]: "first_ok mtd (w\<lparr>layout := ls\<rparr>) = first_ok mtd w"
  by (simp add: first_ok_def table_covers_def skips_def block_state_def)

lemma first_ok_frame: "frame w w' \<Longrightarrow> first_ok mtd w' = first_ok mtd w"
  using skips_frame [of w w'] table_covers_frame [of w w' mtd] by (auto simp: first_ok_def frame_def)

lemma first_ok_events [simp]: "first_ok mtd (w\<lparr>events := v\<rparr>) = first_ok mtd w"
  by (simp add: first_ok_def table_covers_def skips_def block_state_def)

lemma map_init_layout [simp]:
  "mtd_bm_block_map_init env mtd (w\<lparr>layout := ls\<rparr>) = (mtd_bm_block_map_init env mtd w)\<lparr>layout := ls\<rparr>"
  by (simp add: mtd_bm_block_map_init_def Let_def split: option.split)

lemma map_init_done: "first_ok mtd w \<Longrightarrow> mtd_bm_block_map_init env mtd w = w"
  by (auto simp: first_ok_def mtd_bm_block_map_init_def)

text \<open>
  The block manager the areas are bound to: an MTD one whose first partition is \<open>mtd\<close>, with
  the filesystem \<open>normal\<close> as its initialisation leaves it.
\<close>

definition sysinfo_bound :: "bm_env \<Rightarrow> mtd_dev \<Rightarrow> filesystem \<Rightarrow> bool" where
  "sysinfo_bound env mtd fs \<longleftrightarrow> bm_sysinfo env \<and> bm_name env = ''mtd'' \<and> (\<exists>rest. bm_parts env = mtd # rest) \<and>
     fs_new ''normal'' (bm_filesystems env) = Some fs \<and> params fs = Some zero_params \<and> fs_name fs = ''normal'' \<and>
     \<not> FS_FLAG_IS_SET fs FS_FLAG_NOSKIPBAD \<and> \<not> FS_FLAG_IS_SET fs FS_FLAG_NOECC \<and> \<not> FS_FLAG_IS_SET fs FS_FLAG_UNLOCK \<and>
     \<not> FS_FLAG_IS_SET fs FS_FLAG_WRITEOOB \<and> FS_FLAG_IS_SET fs FS_FLAG_PAD"

definition area_sound :: "mtd_dev \<Rightarrow> sysinfo_layout \<Rightarrow> bool" where
  "area_sound mtd l \<longleftrightarrow> 0 \<le> si_offset l \<and> 0 < si_length l \<and> si_offset l + si_length l \<le> eb_size mtd \<and>
     (si_value l = Null \<or> (\<exists>b. si_value l = Buf b \<and> int (length b) = si_length l))"

definition area_cells :: "(int \<Rightarrow> u8) \<Rightarrow> sysinfo_layout \<Rightarrow> u8 list" where
  "area_cells c l = map c [si_offset l..si_offset l + si_length l - 1]"

lemma sysinfo_bound_dev:
  "sysinfo_bound env mtd fs \<Longrightarrow> off < mtd_size mtd \<Longrightarrow> mtd_get_dev_info_by_offset env off = Some mtd"
  by (auto simp: sysinfo_bound_def mtd_get_dev_info_by_offset_def)

lemma first_block_fits: "healthy K mtd fd cells pos \<Longrightarrow> eb_size mtd \<le> mtd_size mtd"
proof -
  assume h: "healthy K mtd fd cells pos"
  then have "0 < eb_size mtd" by (simp add: healthy_def wf_mtd_pos)
  then have "1 * eb_size mtd \<le> eb_cnt mtd * eb_size mtd" using h by (intro mult_right_mono) (simp_all add: healthy_def)
  then show ?thesis using h by (simp add: healthy_def wf_mtd_def)
qed

lemma get_value_loads:
  assumes h: "healthy K mtd (fds w (part_id mtd)) cells pos" and f: "first_ok mtd (mtd_bm_block_map_init env mtd w)"
    and b: "sysinfo_bound env mtd fs" and i: "i < length (layout w)" and a: "area_sound mtd (layout w ! i)"
  shows "\<exists>w'. sysinfo_get_value K env (int i) SYSINFO_OPERATION_DEV w = Some (0, w') \<and> first_ok mtd w' \<and>
    undisturbed cells w w' \<and>
    layout w' = (layout w)[i := (layout w ! i)\<lparr>si_value := Buf (area_cells (cells (kern w)) (layout w ! i))\<rparr>]"
proof -
  let ?l = "layout w ! i"
  define data where "data = (case si_value ?l of Buf b \<Rightarrow> b | _ \<Rightarrow> replicate (nat (si_length ?l)) 0)"
  have ld: "int (length data) = si_length ?l" using a by (auto simp: area_sound_def data_def)
  have A: "0 \<le> si_offset ?l" "0 < si_length ?l" "si_offset ?l + si_length ?l \<le> eb_size mtd" "si_value ?l \<noteq> Freed"
    using a by (auto simp: area_sound_def)
  define w0 where "w0 = (if si_value ?l = Null then si_store (int i) (Buf data) w else w)"
  have w0: "kern w0 = kern w" "fds w0 = fds w" "block_map w0 = block_map w" "length (layout w0) = length (layout w)"
    "si_offset (layout w0 ! i) = si_offset ?l" "si_length (layout w0 ! i) = si_length ?l"
    "\<And>v. (layout w0)[i := (layout w0 ! i)\<lparr>si_value := v\<rparr>] = (layout w)[i := ?l\<lparr>si_value := v\<rparr>]"
    using i by (simp_all add: w0_def si_store_def)
  define p where "p = zero_params\<lparr>p_buf := data, p_offset := si_offset ?l, p_length := si_length ?l,
      p_method := BM_OPERATION_METHOD_RANDOM, p_mtd := Some mtd\<rparr>"
  define fs' where "fs' = fs_set_params fs data (si_offset ?l) (si_length ?l) BM_OPERATION_METHOD_RANDOM (Some mtd)"
  have req: "first_request mtd p fs'"
    using A b by (simp add: first_request_def fs'_def p_def fs_set_params_def sysinfo_bound_def fs_flags_get_def FS_FLAG_IS_SET_def)
  have h0: "healthy K mtd (fds w0 (part_id mtd)) cells pos" using h by (simp add: w0(2))
  have f0: "first_ok mtd (mtd_bm_block_map_init env mtd w0)" using f by (simp add: w0_def si_store_def)
  obtain w1 where w1: "mtd_block_scan K env fs' w0 = Some (eb_size mtd, w1)" "first_ok mtd w1" "undisturbed cells w0 w1"
    "layout w1 = layout w0" using scan_first [OF h0 f0 req] by blast
  have h1: "healthy K mtd (fds w1 (part_id mtd)) cells pos" using h0 w1(3) by (simp add: undisturbed_def)
  obtain w2 where w2: "mtd_basic_read K fs' w1 = Some (si_offset ?l + si_length ?l, area_cells (cells (kern w1)) ?l, w2)"
    "frame w1 w2" "cells (kern w2) = cells (kern w1)"
    using read_first [OF h1 w1(2) req] by (auto simp: p_def area_cells_def)
  have c: "cells (kern w1) = cells (kern w)" using w1(3) by (simp add: undisturbed_def w0)
  have ov: "overwrite data (area_cells (cells (kern w)) ?l) = area_cells (cells (kern w)) ?l"
    using ld A(2) by (simp add: overwrite_def area_cells_def)
  define w3 where "w3 = si_store (int i) (Buf (area_cells (cells (kern w)) ?l)) w2"
  have e: "0 < eb_size mtd" using h by (simp add: healthy_def wf_mtd_pos)
  have d: "mtd_get_dev_info_by_offset env (si_offset ?l) = Some mtd"
    using first_block_fits [OF h] A by (intro sysinfo_bound_dev [OF b]) simp
  have "sysinfo_read_dev K env (int i) data w0 = Some (0, w3)"
    using b A e i by (simp add: sysinfo_read_dev_def sysinfo_bound_def sysinfo_get_offset_def sysinfo_get_length_def
        sysinfo_id_valid_def w0 d fs'_def [symmetric] w1(1) w2(1) c ov w3_def)
  then have "sysinfo_get_value K env (int i) SYSINFO_OPERATION_DEV w = Some (0, w3)"
  proof -
    have g: "sysinfo_get_offset w (int i) = si_offset ?l" "sysinfo_get_length w (int i) = si_length ?l"
      "sysinfo_get_value_address w (int i) = Some (si_value ?l)"
      using i by (simp_all add: sysinfo_get_offset_def sysinfo_get_length_def sysinfo_get_value_address_def sysinfo_id_valid_def)
    assume "sysinfo_read_dev K env (int i) data w0 = Some (0, w3)"
    then show ?thesis
      unfolding sysinfo_get_value_def g option.case data_def [symmetric] Let_def w0_def [symmetric] using A by simp
  qed
  moreover have "first_ok mtd w3"
    using w1(2) first_ok_frame [OF w2(2)] by (simp add: w3_def si_store_def)
  moreover have "undisturbed cells w w3" using w1(3) w2(2,3) c by (simp add: undisturbed_def w3_def si_store_def frame_def w0)
  moreover have "layout w3 = (layout w)[i := ?l\<lparr>si_value := Buf (area_cells (cells (kern w)) ?l)\<rparr>]"
    using w2(2) w1(4) w0(7) by (simp add: w3_def si_store_def frame_def)
  ultimately show ?thesis by blast
qed

text \<open>The table after all its reserved areas have been saved.\<close>

definition saved :: "(int \<Rightarrow> u8) \<Rightarrow> sysinfo_layout \<Rightarrow> sysinfo_layout" where
  "saved c l = (if si_reserve l = SYSINFO_RESERVED then l\<lparr>si_value := Buf (area_cells c l)\<rparr> else l)"

lemma saved_fields [simp]:
  "si_offset (saved c l) = si_offset l" "si_length (saved c l) = si_length l" "si_reserve (saved c l) = si_reserve l"
  by (simp_all add: saved_def)

lemma area_sound_saved: "area_sound mtd l \<Longrightarrow> area_sound mtd (saved c l)"
  by (auto simp: area_sound_def saved_def area_cells_def)

lemma save_from_saves:
  assumes "0 \<le> fin" and b: "sysinfo_bound env mtd fs"
  shows "healthy K mtd (fds w (part_id mtd)) cells pos \<Longrightarrow> first_ok mtd w \<Longrightarrow>
    (\<forall>l\<in>set (layout w). area_sound mtd l) \<Longrightarrow> distinct is \<Longrightarrow> (\<forall>i\<in>set is. i < length (layout w)) \<Longrightarrow> fin = eb_size mtd \<Longrightarrow>
    \<exists>w'. save_from K env 0 fin is w = Some (0, w') \<and> first_ok mtd w' \<and> undisturbed cells w w' \<and>
      length (layout w') = length (layout w) \<and>
      (\<forall>i<length (layout w). layout w' ! i = (if i \<in> set is then saved (cells (kern w)) (layout w ! i) else layout w ! i))"
proof (induction "is" arbitrary: w)
  case Nil
  then show ?case by simp
next
  case (Cons i "is")
  have i: "i < length (layout w)" and a: "area_sound mtd (layout w ! i)" using Cons.prems(3,5) by auto
  then have ap: "\<not> apart (layout w ! i) 0 fin" using Cons.prems(6) by (auto simp: apart_def area_sound_def)
  show ?case
  proof (cases "si_reserve (layout w ! i) = SYSINFO_RESERVED")
    case False
    then have s: "saved c (layout w ! i) = layout w ! i" for c by (simp add: saved_def)
    have step: "save_from K env 0 fin (i # is) w = save_from K env 0 fin is w" using False by (simp add: Let_def)
    obtain w' where w': "save_from K env 0 fin is w = Some (0, w')" "first_ok mtd w'" "undisturbed cells w w'"
      "length (layout w') = length (layout w)"
      "\<forall>j<length (layout w). layout w' ! j = (if j \<in> set is then saved (cells (kern w)) (layout w ! j) else layout w ! j)"
      using Cons.IH [OF Cons.prems(1-3)] Cons.prems(4-6) by auto
    then show ?thesis using s Cons.prems(4) unfolding step by (intro exI [of _ w']) auto
  next
    case True
    obtain w1 where w1: "sysinfo_get_value K env (int i) SYSINFO_OPERATION_DEV w = Some (0, w1)" "first_ok mtd w1"
      "undisturbed cells w w1" "layout w1 = (layout w)[i := saved (cells (kern w)) (layout w ! i)]"
      using get_value_loads [OF Cons.prems(1) _ b i a] Cons.prems(2) True by (auto simp: map_init_done saved_def)
    have step: "save_from K env 0 fin (i # is) w = save_from K env 0 fin is w1" using True ap by (simp add: w1(1))
    have c: "cells (kern w1) = cells (kern w)" "fds w1 = fds w" using w1(3) by (simp_all add: undisturbed_def)
    have snd1: "\<forall>l\<in>set (layout w1). area_sound mtd l"
      using Cons.prems(3) a by (auto simp: w1(4) area_sound_saved dest!: set_update_subset_insert [THEN subsetD])
    have h1: "healthy K mtd (fds w1 (part_id mtd)) cells pos" using Cons.prems(1) by (simp add: c)
    have d1: "distinct is" "\<forall>j\<in>set is. j < length (layout w1)" using Cons.prems(4,5) by (simp_all add: w1(4))
    obtain w' where w': "save_from K env 0 fin is w1 = Some (0, w')" "first_ok mtd w'" "undisturbed cells w1 w'"
      "length (layout w') = length (layout w1)"
      "\<forall>j<length (layout w1). layout w' ! j = (if j \<in> set is then saved (cells (kern w1)) (layout w1 ! j) else layout w1 ! j)"
      using Cons.IH [OF h1 w1(2) snd1 d1 Cons.prems(6)] by blast
    show ?thesis
      using w' w1(3,4) i Cons.prems(4) undisturbed_trans [OF w1(3) w'(3)] unfolding step
      by (intro exI [of _ w']) (auto simp: c nth_list_update)
  qed
qed

section \<open>Erasing the block\<close>

definition saved_layout :: "('k \<Rightarrow> int \<Rightarrow> u8) \<Rightarrow> 'k world \<Rightarrow> sysinfo_layout list" where
  "saved_layout cells w = map (saved (cells (kern w))) (layout w)"

lemma save_areas_saves:
  assumes h: "healthy K mtd (fds w (part_id mtd)) cells pos" and f: "first_ok mtd w" and b: "sysinfo_bound env mtd fs"
    and a: "layout w \<noteq> []" "\<forall>l\<in>set (layout w). area_sound mtd l"
  shows "\<exists>w'. save_areas K env 0 (eb_size mtd) w = Some (0, w') \<and> first_ok mtd w' \<and> undisturbed cells w w' \<and>
    layout w' = saved_layout cells w"
proof -
  have e: "0 < eb_size mtd" using h by (simp add: healthy_def wf_mtd_pos)
  have "area_sound mtd (last (layout w))" using a by simp
  then have "\<not> 0 > si_offset (last (layout w)) + si_length (last (layout w))" by (simp add: area_sound_def)
  then have s: "save_areas K env 0 (eb_size mtd) w = save_from K env 0 (eb_size mtd) [0..<length (layout w)] w"
    using b by (simp add: save_areas_def sysinfo_traversal_save_def sysinfo_bound_def)
  have "\<forall>i\<in>set [0..<length (layout w)]. i < length (layout w)" by simp
  from save_from_saves [OF less_imp_le [OF e] b h f a(2) distinct_upt this refl]
  obtain w' where w': "save_from K env 0 (eb_size mtd) [0..<length (layout w)] w = Some (0, w')" "first_ok mtd w'"
    "undisturbed cells w w'" "length (layout w') = length (layout w)"
    "\<forall>i<length (layout w). layout w' ! i = (if i \<in> set [0..<length (layout w)] then saved (cells (kern w)) (layout w ! i) else layout w ! i)"
    by (elim exE conjE) (rule that)
  have "layout w' = saved_layout cells w" using w'(4,5) by (intro nth_equalityI) (simp_all add: saved_layout_def)
  with s w' show ?thesis by simp
qed

lemma mtd_erase_first:
  assumes h: "healthy K mtd fd cells pos"
  shows "\<exists>w'. mtd_erase K mtd fd 0 w = (0, w') \<and> frame w w' \<and> cells (kern w') = blanked (cells (kern w)) 0 (eb_size mtd)"
proof -
  have v: "mtd_valid_erase_block mtd 0" using h by (simp add: healthy_def mtd_valid_erase_block_def)
  have e: "eb_size mtd \<le> mtd_size mtd" by (rule first_block_fits [OF h])
  have d: "erasable_device K fd cells (mtd_size mtd)" using h by (simp add: healthy_def)
  obtain r w1 where k: "syscall K fd (MEMERASE64 0 (eb_size mtd)) w = (r, w1)" by (metis surj_pair)
  obtain r' w2 where k': "syscall K fd (MEMERASE 0 (eb_size mtd)) w = (r', w2)" by (metis surj_pair)
  have r: "rep_ret r = 0" "cells (kern w1) = blanked (cells (kern w)) 0 (eb_size mtd)"
    "rep_ret r' = 0" "cells (kern w2) = blanked (cells (kern w)) 0 (eb_size mtd)"
    using d e syscall_fields(1,2) [OF k] syscall_fields(1,2) [OF k'] by (simp_all add: erasable_device_def)
  have "\<not> eb_size mtd > 0xFFFFFFFF" using e h by (simp add: healthy_def)
  then have "mtd_erase K mtd fd 0 w = (0, if offs64 w \<noteq> OFFS64_IOCTLS_NOT_SUPPORTED then w1 else w2)"
    using v k k' r by (simp add: mtd_erase_def Let_def)
  then show ?thesis using r frame_syscall [OF k] frame_syscall [OF k'] by auto
qed

text \<open>An erase of as many bytes as a block holds, of the partition \<open>mtd\<close>.\<close>

definition erase_request :: "mtd_dev \<Rightarrow> fs_operation_params \<Rightarrow> filesystem \<Rightarrow> bool" where
  "erase_request mtd p fs \<longleftrightarrow> first_request mtd p fs \<and> p_length p = eb_size mtd \<and> fs_name fs = ''normal'' \<and>
     \<not> FS_FLAG_IS_SET fs FS_FLAG_UNLOCK"

lemma erase_first:
  assumes h: "healthy K mtd (fds w (part_id mtd)) cells pos" and f: "first_ok mtd w" and b: "sysinfo_bound env mtd fs0"
    and a: "layout w \<noteq> []" "\<forall>l\<in>set (layout w). area_sound mtd l" and req: "erase_request mtd p fs"
  shows "\<exists>w'. mtd_basic_erase K env fs w = Some (eb_size mtd, w') \<and> first_ok mtd w' \<and> fds w' = fds w \<and>
    layout w' = saved_layout cells w \<and> cells (kern w') = blanked (cells (kern w)) 0 (eb_size mtd)"
proof -
  let ?e = "eb_size mtd"
  have wf: "wf_mtd mtd" and n: "0 < eb_cnt mtd" and ps: "part_start mtd = 0" using h by (simp_all add: healthy_def)
  have e: "0 < ?e" by (rule wf_mtd_pos [OF wf])
  have r: "params fs = Some p" "p_mtd p = Some mtd" "p_length p = ?e" "fs_name fs \<noteq> ''jffs2''" "\<not> fs_flags_get fs"
    "\<not> FS_FLAG_IS_SET fs FS_FLAG_UNLOCK" using req by (simp_all add: erase_request_def first_request_def)
  have abs: "MTD_EB_RELATIVE_TO_ABSOLUTE mtd eb = eb" "MTD_EB_ABSOLUTE_TO_RELATIVE mtd eb = eb" for eb
    by (simp_all add: rel_to_abs [OF wf] abs_to_rel [OF wf] first_eb_def ps)
  obtain w0 where w0: "set_process_info env mtd BM_OPERATION_ERASE 0 ?e w = Some w0" "first_ok mtd w0"
    "kern w0 = kern w" "fds w0 = fds w" "layout w0 = layout w"
    using e f by (cases "bm_listening env") (simp_all add: set_process_info_def)
  obtain w1 where w1: "save_areas K env 0 ?e w0 = Some (0, w1)" "first_ok mtd w1" "undisturbed cells w0 w1"
    "layout w1 = saved_layout cells w0"
    using save_areas_saves [OF _ w0(2) b, of K cells pos] h a w0(4,5) by auto
  have h1: "healthy K mtd (fds w1 (part_id mtd)) cells pos" using h w1(3) w0(4) by (simp add: undisturbed_def)
  obtain w2 where w2: "mtd_erase K mtd (fds w1 (part_id mtd)) 0 w1 = (0, w2)" "frame w1 w2"
    "cells (kern w2) = blanked (cells (kern w1)) 0 ?e" using mtd_erase_first [OF h1] by blast
  have f2: "first_ok mtd w2" using w1(2) first_ok_frame [OF w2(2)] by simp
  obtain w3 where w3: "mtd_bm_block_map_set 0 MTD_BLK_ERASED w2 = Some w3" "first_ok mtd w3" "only_table w2 w3"
    using first_ok_set [OF f2 n, of MTD_BLK_ERASED] by auto
  have bad: "mtd_bm_block_map_is_bad w0 0 = Some False"
    using w0(2) n covers_state [of mtd w0 0] by (auto simp: mtd_bm_block_map_is_bad_def first_ok_def skips_def)
  have round: "erase_round K env fs mtd None ?e 0 0 w = Some (EraseDone, w3)"
    using w0(1) w1(1) w2(1) w3(1) r bad by (simp add: erase_round_def erase_one_def abs ps)
  then have loop: "erase_loop K env fs mtd None ?e 0 0 0 w = Some (True, 1, ?e, 0, w3)"
    using e n by (simp add: erase_loop.simps)
  obtain w4 where w4: "set_process_info env mtd BM_OPERATION_ERASE ?e ?e w3 = Some w4" "first_ok mtd w4"
    "kern w4 = kern w3" "fds w4 = fds w3" "layout w4 = layout w3"
    using e w3(2) by (cases "bm_listening env") (simp_all add: set_process_info_def)
  have fin: "MTD_OFFSET_TO_EB_INDEX mtd (MTD_BLOCK_ALIGN mtd (2 * ?e - 1)) = 1"
  proof -
    have "(2 * ?e - 1) div ?e = 1" using e div_add_self2 [of ?e "?e - 1"] by (simp add: algebra_simps)
    then show ?thesis using e by (simp add: block_align [OF wf] eb_index)
  qed
  have v: "mtd_boundary_is_valid mtd 0 1"
  proof -
    have "MTD_OFFSET_TO_EB_INDEX mtd (mtd_size mtd) = eb_cnt mtd" using wf e n by (simp add: wf_mtd_def eb_index)
    then show ?thesis using n by (simp add: mtd_boundary_is_valid_def)
  qed
  have bm: "mtd_bm_block_map_is_valid w" using f by (simp add: first_ok_def mtd_bm_block_map_is_valid_def)
  have "mtd_basic_erase K env fs w = Some (?e, w4)"
    using r bm v w4(1) loop by (simp add: mtd_basic_erase_def ps fin abs eb_index erase_extent_def Let_def)
  moreover have "fds w4 = fds w" using w4(4) w3(3) w2(2) w1(3) w0(4) by (simp add: frame_def undisturbed_def)
  moreover have "layout w4 = saved_layout cells w"
    using w4(5) w3(3) w2(2) w1(4) w0(3,5) by (simp add: frame_def saved_layout_def)
  moreover have "cells (kern w4) = blanked (cells (kern w)) 0 ?e"
    using w4(3) w3(3) w2(3) w1(3) w0(3) by (simp add: undisturbed_def)
  ultimately show ?thesis using w4(2) by blast
qed

section \<open>Writing an area back\<close>

text \<open>The areas lie in the first block, and the last of the table ends last.\<close>

definition areas_sound :: "mtd_dev \<Rightarrow> sysinfo_layout list \<Rightarrow> bool" where
  "areas_sound mtd ls \<longleftrightarrow> ls \<noteq> [] \<and>
     (\<forall>l\<in>set ls. area_sound mtd l \<and> si_offset l + si_length l \<le> si_offset (last ls) + si_length (last ls))"

definition reserved_at :: "sysinfo_layout list \<Rightarrow> int \<Rightarrow> bool" where
  "reserved_at ls a \<longleftrightarrow> (\<exists>l\<in>set ls. area_holds l a)"

lemma sysinfo_byte_uniform:
  "(\<And>l. l \<in> set ls \<Longrightarrow> area_holds l a \<Longrightarrow> area_byte l a = v) \<Longrightarrow> sysinfo_byte ls a b = (if reserved_at ls a then v else b)"
proof (induction ls arbitrary: b)
  case (Cons l ls)
  then have "sysinfo_byte ls a x = (if reserved_at ls a then v else x)" for x by simp
  then show ?case using Cons.prems [of l] by (simp add: sysinfo_byte_Cons reserved_at_def)
qed (simp add: sysinfo_byte_def reserved_at_def)

lemma area_holds_saved [simp]: "area_holds (saved c l) a = area_holds l a"
  by (simp add: area_holds_def)

lemma area_byte_saved: "area_holds l a \<Longrightarrow> area_byte (saved c l) a = c a"
  by (simp add: area_byte_def saved_def area_holds_def area_cells_def nat_less_iff)

lemma overlay_saved:
  "bm_sysinfo env \<Longrightarrow> layout w' = saved_layout cells w \<Longrightarrow>
    overlay env w' a b = (if reserved_at (layout w) a then cells (kern w) a else b)"
proof -
  assume "bm_sysinfo env" and l: "layout w' = saved_layout cells w"
  have "sysinfo_byte (saved_layout cells w) a b = (if reserved_at (saved_layout cells w) a then cells (kern w) a else b)"
    by (rule sysinfo_byte_uniform) (auto simp: saved_layout_def area_byte_saved)
  moreover have "reserved_at (saved_layout cells w) a = reserved_at (layout w) a"
    by (simp add: reserved_at_def saved_layout_def)
  ultimately show ?thesis using \<open>bm_sysinfo env\<close> l by (simp add: overlay_def)
qed

lemma areas_ready_saved:
  assumes "areas_sound mtd (layout w)" "layout w' = saved_layout cells w" shows "areas_ready env w'"
  using assms by (auto simp: areas_ready_def areas_sound_def saved_layout_def last_map loaded_def saved_def area_cells_def area_sound_def)

lemma patch_nth:
  assumes "at_pos + length d \<le> length b" "i < length b"
  shows "put_bytes b at_pos d ! i = (if at_pos \<le> i \<and> i < at_pos + length d then d ! (i - at_pos) else b ! i)"
  by (rule nth_put_bytes [OF assms])

lemma rewrite_first:
  assumes h: "healthy K mtd (fds w (part_id mtd)) cells pos" and f: "first_ok mtd (mtd_bm_block_map_init env mtd w)"
    and b: "sysinfo_bound env mtd fs0" and a: "areas_sound mtd (layout w)"
    and fs: "fs = fs_set_params fs0 [] 0 (eb_size mtd) BM_OPERATION_METHOD_RANDOM (Some mtd)"
    and fit: "int (at_pos + length data) \<le> eb_size mtd"
  shows "\<exists>w'. rewrite_block K env fs mtd at_pos data w = Some (True, w') \<and> first_ok mtd w' \<and> fds w' = fds w \<and>
    layout w' = saved_layout cells w \<and>
    cells (kern w') = (\<lambda>x. if reserved_at (layout w) x then cells (kern w) x else stored (cells (kern w)) (int at_pos) data x)"
proof -
  let ?e = "eb_size mtd" and ?c = "cells (kern w)"
  have wf: "wf_mtd mtd" and n: "0 < eb_cnt mtd" and ps: "part_start mtd = 0" using h by (simp_all add: healthy_def)
  have e: "0 < ?e" by (rule wf_mtd_pos [OF wf])
  define p where "p = zero_params\<lparr>p_offset := 0, p_length := ?e, p_method := BM_OPERATION_METHOD_RANDOM, p_mtd := Some mtd\<rparr>"
  have pp: "p_offset p = 0" "p_length p = ?e" by (simp_all add: p_def)
  have par: "params fs = Some p" using b by (simp add: fs fs_set_params_def sysinfo_bound_def p_def zero_params_def)
  have flags: "fs_name fs = ''normal''" "FS_FLAG_IS_SET fs bit = FS_FLAG_IS_SET fs0 bit" for bit
    using b by (simp_all add: fs fs_set_params_def FS_FLAG_IS_SET_def sysinfo_bound_def)
  have req: "first_request mtd p fs" using e b par by (simp add: first_request_def p_def sysinfo_bound_def fs_flags_get_def flags)
  have ereq: "erase_request mtd p fs" using req b by (simp add: erase_request_def pp flags sysinfo_bound_def)
  obtain w1 where w1: "mtd_block_scan K env fs w = Some (?e, w1)" "first_ok mtd w1" "undisturbed cells w w1" "layout w1 = layout w"
    using scan_first [OF h f req] by blast
  have h1: "healthy K mtd (fds w1 (part_id mtd)) cells pos" using h w1(3) by (simp add: undisturbed_def)
  obtain w2 where w2: "mtd_basic_read K fs w1 = Some (?e, map (cells (kern w1)) [0..?e - 1], w2)" "frame w1 w2"
    "cells (kern w2) = cells (kern w1)" using read_first [OF h1 w1(2) req] by (auto simp: pp)
  have c: "cells (kern w1) = ?c" "cells (kern w2) = ?c" using w1(3) w2(3) by (simp_all add: undisturbed_def)
  define blk where "blk = map ?c [0..?e - 1]"
  have lb: "int (length blk) = ?e" using e by (simp add: blk_def)
  define tmp where "tmp = put_bytes blk at_pos data"
  have fit': "at_pos + length data \<le> length blk" using fit lb by linarith
  have lt: "int (length tmp) = ?e" using length_put_bytes [OF fit'] lb by (simp add: tmp_def)
  have ov: "overwrite (replicate (nat ?e) 0) blk = blk" using lb by (simp add: overwrite_def)
  have pt: "patch (overwrite (replicate (nat ?e) 0) blk) at_pos data = Some tmp"
    using fit' by (simp add: ov patch_def tmp_def)
  have h2: "healthy K mtd (fds w2 (part_id mtd)) cells pos" "first_ok mtd w2" "layout w2 = layout w"
    using h1 w2(2) w1(2,4) first_ok_frame [OF w2(2)] by (simp_all add: frame_def)
  obtain w3 where w3: "mtd_basic_erase K env fs w2 = Some (?e, w3)" "first_ok mtd w3" "fds w3 = fds w2"
    "layout w3 = saved_layout cells w2" "cells (kern w3) = blanked (cells (kern w2)) 0 ?e"
    using erase_first [OF h2(1,2) b _ _ ereq] a h2(3) by (auto simp: areas_sound_def)
  have l3: "layout w3 = saved_layout cells w" using w3(4) by (simp add: saved_layout_def c h2(3))
  define fs2 where "fs2 = fs_set_params_process (fs\<lparr>params := map_option (p_buf_update (\<lambda>_. tmp)) (params fs)\<rparr>) ?e"
  define p2 where "p2 = p\<lparr>p_buf := tmp, p_progress_size := 0, p_max_size := ?e\<rparr>"
  have wreq: "write_request mtd p2 fs2"
    using e b lt by (auto simp: write_request_def fs2_def p2_def p_def fs_set_params_process_def par FS_FLAG_IS_SET_def
        sysinfo_bound_def ps flags(2) [unfolded FS_FLAG_IS_SET_def])
  have pad: "padded (min_io_size mtd) tmp = tmp"
    using wf lt by (simp add: padded_def wf_mtd_def mod_eq_0_iff_dvd)
  have P: "padded (min_io_size mtd) (p_buf p2) = tmp" "p_offset p2 - part_start mtd = 0"
    using pad by (simp_all add: p2_def pp ps)
  have sk3: "\<not> skips w3 0" using w3(2) by (simp add: first_ok_def)
  note U = usable_first [OF wf n sk3 order_refl e]
  have nl: "nat ?e = length tmp" using lt by linarith
  have U': "take (length tmp) (usable mtd (skips w3) 0) = [0..?e - 1]" "length tmp \<le> length (usable mtd (skips w3) 0)"
    using U by (simp_all add: nl [symmetric])
  have er: "\<forall>x\<in>set (take (length tmp) (usable mtd (skips w3) 0)). cells (kern w3) x = 0xff"
    by (simp add: U' w3(5) blanked_def)
  have h3: "healthy K mtd (fds w3 (part_id mtd)) cells pos" using h2(1) by (simp add: w3(3))
  note H3 = h3 [unfolded healthy_def]
  obtain fs' w4 where w4: "mtd_basic_write K env fs2 w3 = Some (part_start mtd + usable mtd (skips w3) 0 ! (length tmp - 1) + 1, fs', w4)"
    "same_program w3 w4" "cells (kern w4) = written env w3 mtd 0 tmp (cells (kern w3))"
    using write_stores [of mtd K w3 cells pos p2 fs2 env] H3 w3(2) wreq areas_ready_saved [OF a l3] U' er
    unfolding P by (auto simp: first_ok_def)
  have ge: "\<not> part_start mtd + usable mtd (skips w3) 0 ! (length tmp - 1) + 1 < 0"
  proof -
    have "usable mtd (skips w3) 0 ! (length tmp - 1) \<in> set (usable mtd (skips w3) 0)"
      using U'(2) lt e by (intro nth_mem) linarith
    then have "0 \<le> usable mtd (skips w3) 0 ! (length tmp - 1)" by (rule usable_ge)
    then show ?thesis by (simp add: ps)
  qed
  have "rewrite_block K env fs mtd at_pos data w = Some (True, w4)"
    using e ge by (simp add: rewrite_block_def w1(1) w2(1) c blk_def [symmetric] pt w3(1) fs2_def [symmetric] w4(1))
  moreover have "first_ok mtd w4" using w3(2) w4(2) same_program_covers [OF w4(2)] same_program_skips [OF w4(2)]
    by (simp add: first_ok_def same_program_def)
  moreover have "fds w4 = fds w" using w4(2) w3(3) w2(2) w1(3) by (simp add: same_program_def frame_def undisturbed_def)
  moreover have "layout w4 = saved_layout cells w" using w4(2) l3 by (simp add: same_program_def)
  moreover have "cells (kern w4) = (\<lambda>x. if reserved_at (layout w) x then ?c x else stored ?c (int at_pos) data x)"
  proof
    fix x
    have bs: "bm_sysinfo env" using b by (simp add: sysinfo_bound_def)
    show "cells (kern w4) x = (if reserved_at (layout w) x then ?c x else stored ?c (int at_pos) data x)"
    proof (cases "0 \<le> x \<and> x < ?e")
      case True
      have i: "nat x < length tmp" using True lt by (simp add: nat_less_iff)
      have "usable mtd (skips w3) 0 ! nat x = take (length tmp) (usable mtd (skips w3) 0) ! nat x" using i by simp
      also have "\<dots> = x" using True by (simp add: U'(1))
      finally have ux: "usable mtd (skips w3) 0 ! nat x = x" .
      have "cells (kern w4) x = overlay env w3 (x + part_start mtd) (tmp ! nat x)"
        using written_nth [OF U'(2) i, of env "cells (kern w3)"] by (simp add: w4(3) ux)
      also have "\<dots> = (if reserved_at (layout w) x then ?c x else tmp ! nat x)"
        using overlay_saved [OF bs l3] by (simp add: ps)
      also have "tmp ! nat x = stored ?c (int at_pos) data x"
      proof -
        have "blk ! nat x = ?c x" using True by (simp add: blk_def)
        moreover have "nat x < length blk" using True lb by (simp add: nat_less_iff)
        moreover have "at_pos \<le> nat x \<longleftrightarrow> int at_pos \<le> x" "nat x < at_pos + length data \<longleftrightarrow> x < int at_pos + int (length data)"
          using True by linarith+
        moreover have "nat x - at_pos = nat (x - int at_pos)" using True by linarith
        ultimately show ?thesis using patch_nth [OF fit', of "nat x"] by (simp add: tmp_def stored_def)
      qed
      finally show ?thesis .
    next
      case False
      have "map_of (zip (usable mtd (skips w3) 0) tmp) x = None"
      proof -
        have "zip (usable mtd (skips w3) 0) tmp = zip [0..?e - 1] tmp"
          using take_zip [of "length tmp" "usable mtd (skips w3) 0" tmp] by (simp add: U'(1))
        then show ?thesis using False map_of_zip_upto [OF lt, of 0 x] by simp
      qed
      then have "cells (kern w4) x = ?c x" using False by (auto simp: w4(3) written_def w3(5) blanked_def c)
      moreover have "stored ?c (int at_pos) data x = ?c x" using False fit by (auto simp: stored_def)
      ultimately show ?thesis by simp
    qed
  qed
  ultimately show ?thesis by blast
qed

lemma sid_fields:
  assumes "i < length (layout w)"
  shows "sysinfo_get_offset w (int i) = si_offset (layout w ! i)" "sysinfo_get_length w (int i) = si_length (layout w ! i)"
    "sysinfo_get_value_address w (int i) = Some (si_value (layout w ! i))"
    "sysinfo_get_reserve w (int i) = Some (si_reserve (layout w ! i))" "sysinfo_id_valid w (int i)"
  using assms by (simp_all add: sysinfo_get_offset_def sysinfo_get_length_def sysinfo_get_value_address_def
      sysinfo_get_reserve_def sysinfo_id_valid_def)

text \<open>Storing contents of the right length in the copy of an area disturbs nothing here.\<close>

lemma areas_sound_update:
  assumes "areas_sound mtd ls" "i < length ls" "si_offset l = si_offset (ls ! i)" "si_length l = si_length (ls ! i)"
    and "si_value l = Null \<or> (\<exists>b. si_value l = Buf b \<and> int (length b) = si_length l)"
  shows "areas_sound mtd (ls[i := l])"
proof -
  have m: "area_sound mtd (ls ! i)" "si_offset (ls ! i) + si_length (ls ! i) \<le> si_offset (last ls) + si_length (last ls)"
    using assms(1,2) by (auto simp: areas_sound_def)
  have e: "si_offset (last (ls[i := l])) + si_length (last (ls[i := l])) = si_offset (last ls) + si_length (last ls)"
    using assms(1-4) by (auto simp: areas_sound_def last_conv_nth nth_list_update)
  have "area_sound mtd l" using m(1) assms(3-5) by (simp add: area_sound_def)
  then show ?thesis using assms(1,3,4) m(2) unfolding areas_sound_def e
    by (auto dest!: set_update_subset_insert [THEN subsetD])
qed

lemma area_holds_value [simp]: "area_holds (l\<lparr>si_value := v\<rparr>) a = area_holds l a"
  by (simp add: area_holds_def)

lemma reserved_at_value:
  "i < length ls \<Longrightarrow> reserved_at (ls[i := (ls ! i)\<lparr>si_value := v\<rparr>]) a = reserved_at ls a"
proof -
  assume i: "i < length ls"
  have R: "reserved_at xs a \<longleftrightarrow> (\<exists>j<length xs. area_holds (xs ! j) a)" for xs
    by (metis reserved_at_def in_set_conv_nth)
  have "area_holds (ls[i := (ls ! i)\<lparr>si_value := v\<rparr>] ! j) a = area_holds (ls ! j) a" if "j < length ls" for j
    using i that by (simp add: nth_list_update)
  then show ?thesis unfolding R by auto
qed

lemma set_value_dev:
  assumes h: "healthy K mtd (fds w (part_id mtd)) cells pos" and f: "first_ok mtd (mtd_bm_block_map_init env mtd w)"
    and b: "sysinfo_bound env mtd fs" and a: "areas_sound mtd (layout w)" and i: "i < length (layout w)"
    and data: "int (length data) = si_length (layout w ! i)"
    and buf: "case buf of None \<Rightarrow> si_value (layout w ! i) = Buf data
        | Some d \<Rightarrow> length data \<le> length d \<and> data = take (length data) d"
  shows "\<exists>w'. sysinfo_set_value K env (int i) buf SYSINFO_OPERATION_DEV w = Some (0, w') \<and> first_ok mtd w' \<and> fds w' = fds w \<and>
    layout w' = map (saved (cells (kern w))) ((layout w)[i := (layout w ! i)\<lparr>si_value := Buf data\<rparr>]) \<and>
    cells (kern w') = (\<lambda>x. if reserved_at (layout w) x then cells (kern w) x
                            else stored (cells (kern w)) (si_offset (layout w ! i)) data x)"
proof -
  let ?l = "layout w ! i"
  have al: "area_sound mtd ?l" using a i by (auto simp: areas_sound_def)
  have A: "0 \<le> si_offset ?l" "0 < si_length ?l" "si_offset ?l + si_length ?l \<le> eb_size mtd" "si_value ?l \<noteq> Freed"
    using al by (auto simp: area_sound_def)
  have nl: "nat (si_length ?l) = length data" using data by linarith
  define w0 where "w0 = si_store (int i) (Buf data) w"
  have l0: "layout w0 = (layout w)[i := ?l\<lparr>si_value := Buf data\<rparr>]" by (simp add: w0_def si_store_def)
  have a0: "areas_sound mtd (layout w0)" unfolding l0 using data by (intro areas_sound_update [OF a i]) simp_all
  have w0: "kern w0 = kern w" "fds w0 = fds w" by (simp_all add: w0_def si_store_def)
  have f0: "first_ok mtd (mtd_bm_block_map_init env mtd w0)" using f by (simp add: w0_def si_store_def)
  have h0: "healthy K mtd (fds w0 (part_id mtd)) cells pos" using h by (simp add: w0)
  have i0: "i < length (layout w0)" "layout w0 ! i = ?l\<lparr>si_value := Buf data\<rparr>" using i by (simp_all add: l0)
  have wf: "wf_mtd mtd" using h by (simp add: healthy_def)
  have al0: "si_offset ?l AND NOT (eb_size mtd - 1) = 0"
  proof -
    have "si_offset ?l AND NOT (eb_size mtd - 1) = MTD_BLOCK_ALIGN mtd (si_offset ?l)"
      by (simp add: MTD_BLOCK_ALIGN_def not_int_def)
    also have "\<dots> = 0" using A by (simp add: block_align [OF wf])
    finally show ?thesis .
  qed
  have d: "mtd_get_dev_info_by_offset env (si_offset ?l) = Some mtd"
    using first_block_fits [OF h] A by (intro sysinfo_bound_dev [OF b]) simp
  obtain w' where w': "rewrite_block K env (fs_set_params fs [] 0 (eb_size mtd) BM_OPERATION_METHOD_RANDOM (Some mtd)) mtd
      (nat (si_offset ?l)) data w0 = Some (True, w')" "first_ok mtd w'" "fds w' = fds w0" "layout w' = saved_layout cells w0"
    "cells (kern w') = (\<lambda>x. if reserved_at (layout w0) x then cells (kern w0) x
        else stored (cells (kern w0)) (int (nat (si_offset ?l))) data x)"
    using rewrite_first [OF h0 f0 b a0 refl, of "nat (si_offset ?l)" data] A data by auto
  have dev: "sysinfo_write_dev K env (int i) data w0 = Some (True, w')"
    using b A w'(1) by (simp add: sysinfo_write_dev_def sysinfo_bound_def sid_fields i0 d al0 Let_def)
  have "sysinfo_set_value K env (int i) buf SYSINFO_OPERATION_DEV w = Some (0, w')"
  proof -
    have len: "(case si_value ?l of Buf b \<Rightarrow> length b | _ \<Rightarrow> length data) = length data"
      using al data by (auto simp: area_sound_def)
    have D: "(case buf of None \<Rightarrow> (case si_value ?l of Buf b \<Rightarrow> b | _ \<Rightarrow> replicate (length data) 0)
        | Some b \<Rightarrow> overwrite (case si_value ?l of Buf b \<Rightarrow> b | _ \<Rightarrow> replicate (length data) 0) (take (length data) b)) = data"
    proof (cases buf)
      case None
      then show ?thesis using buf by simp
    next
      case (Some d)
      then have "take (length data) d = data" using buf by simp
      moreover have "length (case si_value ?l of Buf b \<Rightarrow> b | _ \<Rightarrow> replicate (length data) 0) \<le> length data"
        using al data by (auto simp: area_sound_def)
      ultimately show ?thesis by (simp add: Some overwrite_def)
    qed
    have "\<not> (case buf of None \<Rightarrow> False | Some b \<Rightarrow> length b < length data)" using buf by (cases buf) simp_all
    then show ?thesis
      unfolding sysinfo_set_value_def sid_fields [OF i] nl option.case Let_def D w0_def [symmetric]
      using A dev by simp
  qed
  moreover have "int (nat (si_offset ?l)) = si_offset ?l" using A(1) by simp
  then have "cells (kern w') = (\<lambda>x. if reserved_at (layout w) x then cells (kern w) x
      else stored (cells (kern w)) (si_offset ?l) data x)"
    by (simp only: w'(5) w0 l0 reserved_at_value [OF i])
  ultimately show ?thesis using w'(2-4) by (intro exI [of _ w']) (simp add: w0 saved_layout_def l0)
qed

text \<open>
  C31. Writing a system area. On a NAND flash that behaves, with the areas in its first block,
  \<open>sysinfo_set_value\<close> succeeds and the only bytes of the flash that change are those of the
  area, which become the value given, except that bytes of areas that are reserved keep what
  the flash held: so a reserved area is reported written without being written.
\<close>

theorem sysinfo_set_value_stores:
  assumes "healthy K mtd (fds w (part_id mtd)) cells pos" "first_ok mtd (mtd_bm_block_map_init env mtd w)"
    and "sysinfo_bound env mtd fs" "areas_sound mtd (layout w)" "i < length (layout w)" "si_length (layout w ! i) \<le> int (length b)"
  shows "\<exists>w'. sysinfo_set_value K env (int i) (Some b) SYSINFO_OPERATION_DEV w = Some (0, w') \<and> first_ok mtd w' \<and> fds w' = fds w \<and>
    cells (kern w') = (\<lambda>x. if reserved_at (layout w) x then cells (kern w) x
      else stored (cells (kern w)) (si_offset (layout w ! i)) (take (nat (si_length (layout w ! i))) b) x)"
proof -
  have "0 < si_length (layout w ! i)" using assms(4,5) by (auto simp: areas_sound_def area_sound_def)
  then have n: "length (take (nat (si_length (layout w ! i))) b) = nat (si_length (layout w ! i))"
    "int (nat (si_length (layout w ! i))) = si_length (layout w ! i)" using assms(6) by simp_all
  then have "nat (si_length (layout w ! i)) \<le> length b" using assms(6) by linarith
  then show ?thesis
    using set_value_dev [OF assms(1-5), of "take (nat (si_length (layout w ! i))) b" "Some b"] n by auto
qed

section \<open>The update flag\<close>

lemma get_value_ram:
  assumes "i < length (layout w)" "area_sound mtd (layout w ! i)"
  shows "\<exists>old. int (length old) = si_length (layout w ! i) \<and>
    sysinfo_get_value K env (int i) SYSINFO_OPERATION_RAM w =
      Some (0, w\<lparr>layout := (layout w)[i := (layout w ! i)\<lparr>si_value := Buf old\<rparr>]\<rparr>)"
proof -
  let ?l = "layout w ! i"
  note S = sysinfo_get_value_def sid_fields [OF assms(1)] Let_def si_store_def
  have A: "0 \<le> si_offset ?l" "0 < si_length ?l" using assms(2) by (simp_all add: area_sound_def)
  show ?thesis
  proof (cases "si_value ?l")
    case Null
    then show ?thesis using A by (intro exI [of _ "replicate (nat (si_length ?l)) 0"]) (simp add: S)
  next
    case (Buf b)
    then have "?l\<lparr>si_value := Buf b\<rparr> = ?l" by simp
    then have "w = w\<lparr>layout := (layout w)[i := ?l\<lparr>si_value := Buf b\<rparr>]\<rparr>" by simp
    with Buf show ?thesis using A assms(2) by (intro exI [of _ b]) (simp add: S area_sound_def)
  next
    case Freed
    then show ?thesis using assms(2) by (simp add: area_sound_def)
  qed
qed

text \<open>No reserved area but its own covers a byte of area \<open>i\<close>.\<close>

definition alone :: "sysinfo_layout list \<Rightarrow> nat \<Rightarrow> bool" where
  "alone ls i \<longleftrightarrow> (\<forall>j<length ls. j \<noteq> i \<longrightarrow> (\<forall>a. si_offset (ls ! i) \<le> a \<and> a < si_offset (ls ! i) + si_length (ls ! i) \<longrightarrow>
     \<not> area_holds (ls ! j) a))"

lemma flag_write_read:
  assumes h: "healthy K mtd (fds w (part_id mtd)) cells pos" and f: "first_ok mtd (mtd_bm_block_map_init env mtd w)"
    and b: "sysinfo_bound env mtd fs" and a: "areas_sound mtd (layout w)" and i: "i < length (layout w)" "SYSINFO_FLAG = int i"
    and al: "alone (layout w) i" and len: "4 \<le> si_length (layout w ! i)" and v: "length v = 4"
  shows "\<exists>w1 w2. sysinfo_write_flag K env SYSINFO_FLAG_ID_UPDATE_DONE v w = Some (0, w1) \<and>
    sysinfo_read_flag K env SYSINFO_FLAG_ID_UPDATE_DONE w1 = Some (0, v, w2) \<and>
    (\<forall>x. x < si_offset (layout w ! i) \<or> si_offset (layout w ! i) + si_length (layout w ! i) \<le> x \<longrightarrow>
       cells (kern w1) x = cells (kern w) x) \<and>
    cells (kern w2) = cells (kern w1) \<and> si_reserve (layout w1 ! i) = si_reserve (layout w ! i)"
proof -
  let ?l = "layout w ! i" and ?c = "cells (kern w)"
  have s1: "area_sound mtd ?l" using a i by (auto simp: areas_sound_def)
  have F: "SYSINFO_FLAG = int i" "flag_id_valid SYSINFO_FLAG_ID_UPDATE_DONE" "flag_layout ! nat SYSINFO_FLAG_ID_UPDATE_DONE = \<lparr>flag_offset = 0, flag_length = 4\<rparr>"
    using i(2) by (simp_all add: flag_id_valid_def flag_layout_def SYSINFO_FLAG_ID_UPDATE_DONE_def)
  obtain old where old: "int (length old) = si_length ?l" "sysinfo_get_value K env (int i) SYSINFO_OPERATION_RAM w =
      Some (0, w\<lparr>layout := (layout w)[i := ?l\<lparr>si_value := Buf old\<rparr>]\<rparr>)"
    using get_value_ram [OF i(1) s1] by blast
  define new where "new = put_bytes old 0 v"
  have fit: "0 + length v \<le> length old" using len old(1) v by linarith
  have ln: "int (length new) = si_length ?l" using length_put_bytes [OF fit] old(1) by (simp add: new_def)
  define w0 where "w0 = w\<lparr>layout := (layout w)[i := ?l\<lparr>si_value := Buf new, si_reserve := SYSINFO_NO_RESERVED\<rparr>]\<rparr>"
  have l0: "layout w0 ! i = ?l\<lparr>si_value := Buf new, si_reserve := SYSINFO_NO_RESERVED\<rparr>" "i < length (layout w0)"
    using i by (simp_all add: w0_def)
  have "areas_sound mtd ((layout w)[i := ?l\<lparr>si_value := Buf new, si_reserve := SYSINFO_NO_RESERVED\<rparr>])"
    using ln by (intro areas_sound_update [OF a i(1)]) simp_all
  then have a0: "areas_sound mtd (layout w0)" by (simp add: w0_def)
  have h0: "healthy K mtd (fds w0 (part_id mtd)) cells pos" "first_ok mtd (mtd_bm_block_map_init env mtd w0)"
    using h f by (simp_all add: w0_def)
  obtain w' where w': "sysinfo_set_value K env (int i) None SYSINFO_OPERATION_DEV w0 = Some (0, w')" "first_ok mtd w'" "fds w' = fds w0"
    "layout w' = map (saved (cells (kern w0))) ((layout w0)[i := (layout w0 ! i)\<lparr>si_value := Buf new\<rparr>])"
    "cells (kern w') = (\<lambda>x. if reserved_at (layout w0) x then cells (kern w0) x
        else stored (cells (kern w0)) (si_offset (layout w0 ! i)) new x)"
    using set_value_dev [OF h0 b a0 l0(2), of new None] ln by (auto simp: l0(1))
  define w1 where "w1 = w'\<lparr>layout := (layout w')[i := (layout w' ! i)\<lparr>si_reserve := si_reserve ?l\<rparr>]\<rparr>"
  have id1: "sysinfo_id_valid w' (int i)" using w'(4) i by (simp add: sysinfo_id_valid_def w0_def)
  have W: "sysinfo_write_flag K env SYSINFO_FLAG_ID_UPDATE_DONE v w = Some (0, w1)"
  proof -
    define wa where "wa = w\<lparr>layout := (layout w)[i := ?l\<lparr>si_value := Buf old\<rparr>]\<rparr>"
    define wb where "wb = si_store (int i) (Buf new) wa"
    have ia: "i < length (layout wa)" "i < length (layout wb)" using i(1) by (simp_all add: wa_def wb_def si_store_def)
    have va: "sysinfo_get_value_address wa (int i) = Some (Buf old)" using i(1) by (simp add: sid_fields [OF ia(1)], simp add: wa_def)
    have rb: "sysinfo_get_reserve wb (int i) = Some (si_reserve ?l)"
      using i(1) by (simp add: sid_fields [OF ia(2)], simp add: wb_def si_store_def wa_def)
    have wc: "snd (sysinfo_set_reserve (int i) SYSINFO_NO_RESERVED wb) = w0"
      using i(1) by (simp add: sysinfo_set_reserve_def sid_fields [OF ia(2)], simp add: wb_def si_store_def wa_def w0_def)
    have r1: "snd (sysinfo_set_reserve (int i) (si_reserve ?l) w') = w1" using id1 by (simp add: sysinfo_set_reserve_def w1_def)
    have "patch old 0 (take 4 v) = Some new" using fit v by (simp add: patch_def new_def)
    then show ?thesis
      using va rb wc r1 w'(1) by (simp add: sysinfo_write_flag_def F old(2) wa_def [symmetric] wb_def [symmetric])
  qed
  have k1: "kern w1 = kern w'" "fds w1 = fds w" using w'(3) by (simp_all add: w1_def w0_def)
  have k0: "kern w0 = kern w" "si_offset (layout w0 ! i) = si_offset ?l" using l0(1) by (simp_all add: w0_def)
  have c': "cells (kern w1) x = (if reserved_at (layout w0) x then ?c x else stored ?c (si_offset ?l) new x)" for x
    unfolding k1 w'(5) k0 by (rule refl)
  have un: "\<not> reserved_at (layout w0) x" if "si_offset ?l \<le> x" "x < si_offset ?l + si_length ?l" for x
  proof
    assume "reserved_at (layout w0) x"
    then obtain j where j: "j < length (layout w0)" "area_holds (layout w0 ! j) x"
      by (metis reserved_at_def in_set_conv_nth)
    show False
    proof (cases "j = i")
      case True
      then show ?thesis using j(2) by (simp add: l0 area_holds_def)
    next
      case False
      then have "layout w0 ! j = layout w ! j" "j < length (layout w)" using j(1) by (simp_all add: w0_def)
      then show ?thesis using al that j(2) False by (simp add: alone_def)
    qed
  qed
  have in_area: "cells (kern w1) x = new ! nat (x - si_offset ?l)" if "si_offset ?l \<le> x" "x < si_offset ?l + si_length ?l" for x
    using un [OF that] that ln by (simp add: c' stored_def)
  have outside: "cells (kern w1) x = ?c x" if "x < si_offset ?l \<or> si_offset ?l + si_length ?l \<le> x" for x
  proof -
    have "\<not> (si_offset ?l \<le> x \<and> x < si_offset ?l + int (length new))" using that ln by linarith
    then have "stored ?c (si_offset ?l) new x = ?c x" unfolding stored_def by (rule if_not_P)
    then show ?thesis by (simp add: c')
  qed
  have l1: "length (layout w1) = length (layout w)" using i by (simp add: w1_def w'(4) w0_def)
  have l1': "layout w1 ! i = ?l\<lparr>si_value := Buf new\<rparr>" using i by (simp add: w1_def w'(4) w0_def saved_def)
  have h1: "healthy K mtd (fds w1 (part_id mtd)) cells pos" using h by (simp add: k1)
  have f1: "first_ok mtd (mtd_bm_block_map_init env mtd w1)" using w'(2) by (simp add: w1_def map_init_done)
  have sd1: "area_sound mtd (layout w1 ! i)" using s1 ln by (simp add: l1' area_sound_def)
  obtain w2 where w2: "sysinfo_get_value K env (int i) SYSINFO_OPERATION_DEV w1 = Some (0, w2)" "undisturbed cells w1 w2"
    "layout w2 = (layout w1)[i := (layout w1 ! i)\<lparr>si_value := Buf (area_cells (cells (kern w1)) (layout w1 ! i))\<rparr>]"
    using get_value_loads [OF h1 f1 b _ sd1] i by (auto simp: l1)
  have "area_cells (cells (kern w1)) (layout w1 ! i) = new"
    using in_area ln by (intro nth_equalityI) (simp_all add: area_cells_def l1' nat_less_iff)
  then have v2: "sysinfo_get_value_address w2 (int i) = Some (Buf new)"
    using i(1) sid_fields(3) [of i w2] by (simp add: w2(3) l1)
  have "flag_slice SYSINFO_FLAG_ID_UPDATE_DONE new = Some v"
    using ln len v fit by (simp add: flag_slice_def F new_def put_bytes_def)
  then have R: "sysinfo_read_flag K env SYSINFO_FLAG_ID_UPDATE_DONE w1 = Some (0, v, w2)"
    using w2(1) v2 by (simp add: sysinfo_read_flag_def F)
  show ?thesis using W R outside w2(2) l1' by (intro exI [of _ w1] exI [of _ w2]) (simp add: undisturbed_def)
qed

text \<open>
  C32. The update flag survives. On a flash that behaves, with the areas in its first block
  and no other reserved area over that of the flag, a flag written is read back, no byte of
  the flash outside the flag's area changes, and the reservation of the area is as before.
\<close>

theorem update_flag_roundtrip:
  assumes "healthy K mtd (fds w (part_id mtd)) cells pos" "first_ok mtd (mtd_bm_block_map_init env mtd w)"
    and "sysinfo_bound env mtd fs" "areas_sound mtd (layout w)" "1 < length (layout w)"
    and "alone (layout w) 1" "4 \<le> si_length (layout w ! 1)" "length v = 4"
  shows "\<exists>w1 w2. sysinfo_write_flag K env SYSINFO_FLAG_ID_UPDATE_DONE v w = Some (0, w1) \<and>
    sysinfo_read_flag K env SYSINFO_FLAG_ID_UPDATE_DONE w1 = Some (0, v, w2) \<and>
    (\<forall>x. x < si_offset (layout w ! 1) \<or> si_offset (layout w ! 1) + si_length (layout w ! 1) \<le> x \<longrightarrow>
       cells (kern w1) x = cells (kern w) x) \<and>
    cells (kern w2) = cells (kern w1) \<and> si_reserve (layout w1 ! 1) = si_reserve (layout w ! 1)"
  by (rule flag_write_read [OF assms(1-5) _ assms(6-8)]) (simp add: SYSINFO_FLAG_def)

end
