(* ===== verification/EraseSafe.thy ===== *)
theory EraseSafe
  imports MtdWrite
begin

text \<open>
  What an erase may ask of the device, whatever the kernel answers: a scan, a read, saving
  the system areas and the clean marker never erase anything (\<open>calm\<close>), and the loop of
  \<open>mtd_basic_erase\<close> erases only whole blocks of its partition that are not recorded bad.
\<close>

section \<open>Calm steps\<close>

fun erases :: "kcall \<Rightarrow> bool" where
  "erases (MEMERASE64 s l) = True"
| "erases (MEMERASE s l) = True"
| "erases _ = False"

definition still_bad :: "'k world \<Rightarrow> 'k world \<Rightarrow> bool" where
  "still_bad w w' \<longleftrightarrow> (\<forall>eb. block_state w eb = Some MTD_BLK_BAD \<longrightarrow> block_state w' eb = Some MTD_BLK_BAD)"

definition calm :: "'k world \<Rightarrow> 'k world \<Rightarrow> bool" where
  "calm w w' \<longleftrightarrow> extends (\<lambda>c. \<not> erases c) w w' \<and> still_bad w w'"

named_theorems calm_steps

lemma calm_refl [simp]: "calm w w"
  by (auto simp: calm_def still_bad_def)

lemma calm_trans [trans]: "calm w w' \<Longrightarrow> calm w' w'' \<Longrightarrow> calm w w''"
  unfolding calm_def still_bad_def by (blast intro: extends_trans)

lemma block_state_updates [simp]:
  "block_state (w\<lparr>offs64 := x1\<rparr>) = block_state w" "block_state (w\<lparr>fds := x2\<rparr>) = block_state w"
  "block_state (w\<lparr>events := x3\<rparr>) = block_state w" "block_state (w\<lparr>layout := x4\<rparr>) = block_state w"
  "block_state (set_errno x5 w) = block_state w"
  by (simp_all add: fun_eq_iff block_state_def set_errno_def)

lemma calm_updates [simp]:
  "calm w (set_errno e w') = calm w w'" "calm w (w'\<lparr>offs64 := s\<rparr>) = calm w w'" "calm w (w'\<lparr>fds := f\<rparr>) = calm w w'"
  "calm w (w'\<lparr>events := v\<rparr>) = calm w w'" "calm w (w'\<lparr>layout := l\<rparr>) = calm w w'"
  by (simp_all add: calm_def still_bad_def) (simp_all add: extends_def)

lemma calm_syscall: "syscall K fd c w = (r, w') \<Longrightarrow> \<not> erases c \<Longrightarrow> calm w w'"
  by (simp add: calm_def still_bad_def extends_syscall block_state_syscall)

lemma calm_si_store [simp]: "calm w (si_store sid v w') = calm w w'" "calm (si_store sid v w) w' = calm w w'"
  by (simp_all add: si_store_def) (simp add: calm_def still_bad_def extends_def)

lemma calm_map_set: "mtd_bm_block_map_set eb status w = Some w' \<Longrightarrow> calm w w'"
proof -
  assume s: "mtd_bm_block_map_set eb status w = Some w'"
  then obtain x where x: "block_state w eb = Some x"
    by (cases "block_state w eb") (auto simp: mtd_bm_block_map_set_def split: option.splits)
  obtain w'' where "mtd_bm_block_map_set eb status w = Some w''" "only_table w w''"
    "\<forall>e. block_state w'' e = (if e = eb \<and> x \<noteq> MTD_BLK_BAD then Some status else block_state w e)"
    using block_map_set [OF x] by blast
  with s x show ?thesis by (auto simp: calm_def still_bad_def extends_same_trace)
qed

lemma calm_map_init: "calm w (mtd_bm_block_map_init env mtd w)"
  by (auto simp: mtd_bm_block_map_init_def Let_def calm_def still_bad_def extends_same_trace block_state_def split: option.splits)

lemma calm_is_bad [calm_steps]: "mtd_is_bad K mtd fd eb w = (r, w') \<Longrightarrow> calm w w'"
  by (auto simp: mtd_is_bad_def Let_def split: if_splits prod.splits intro: calm_syscall)

lemma calm_mark_bad [calm_steps]: "mtd_mark_bad K mtd fd eb w = (r, w') \<Longrightarrow> calm w w'"
  by (auto simp: mtd_mark_bad_def Let_def split: if_splits prod.splits intro: calm_syscall)

lemma calm_unlock [calm_steps]: "mtd_unlock K mtd fd eb w = (r, w') \<Longrightarrow> calm w w'"
  by (auto simp: mtd_unlock_def Let_def split: if_splits prod.splits intro: calm_syscall)

lemma calm_closeall: "calm w (closeall K mtd w)"
proof -
  obtain r w' where "syscall K (fds w (part_id mtd)) CLOSE w = (r, w')" by (metis surj_pair)
  then show ?thesis using calm_syscall [of K "fds w (part_id mtd)" CLOSE w r w'] by (simp add: closeall_def)
qed

lemma calm_read_loop: "read_loop K fd len acc w = Some y \<Longrightarrow> calm w (snd (snd y))"
proof (rule read_loop.raw_induct [where P = "\<lambda>_ _ _ _ w y. calm w (snd (snd y))"])
  fix rl K fd len acc w y
  assume IH: "\<And>K fd len acc w y. rl K fd len acc w = Some y \<Longrightarrow> calm w (snd (snd y))"
    and step: "(if int (length acc) < len then let (r, w) = syscall K fd (READ (len - int (length acc))) w
       in if rep_ret r < 0 then Some (-1, acc, w) else rl K fd len (acc @ take (nat (rep_ret r)) (rep_bytes r)) w
       else Some (0, acc, w)) = Some y"
  obtain r w1 where k: "syscall K fd (READ (len - int (length acc))) w = (r, w1)" by (metis surj_pair)
  then have "calm w w1" by (rule calm_syscall) simp
  then show "calm w (snd (snd y))" using step k by (auto split: if_splits dest!: IH elim: calm_trans)
qed

lemma calm_read [calm_steps]: "mtd_read K mtd fd eb offs len w = Some (r, bs, w') \<Longrightarrow> calm w w'"
proof -
  assume m: "mtd_read K mtd fd eb offs len w = Some (r, bs, w')"
  obtain r1 w1 where k: "syscall K fd (LSEEK (eb * eb_size mtd + offs)) w = (r1, w1)" by (metis surj_pair)
  then have "calm w w1" by (rule calm_syscall) simp
  then show ?thesis using m k calm_read_loop [of K fd len "[]" w1 "(r, bs, w')"]
    by (auto simp: mtd_read_def split: if_splits dest: calm_trans)
qed

lemma calm_oob_write [calm_steps]:
  assumes "do_oob_write K mtd fd start data w = (r, w')" shows "calm w w'"
proof -
  obtain r1 w1 where k1: "syscall K fd (MEMWRITEOOB64 start data) w = (r1, w1)" by (metis surj_pair)
  have c1: "calm w w1" by (rule calm_syscall [OF k1]) simp
  have leg: "calm v v'" if "syscall K fd (MEMWRITEOOB start data) v = (x, v')" for v v' x
    by (rule calm_syscall [OF that]) simp
  obtain r2 w2 where k2: "syscall K fd (MEMWRITEOOB start data) w = (r2, w2)" by (metis surj_pair)
  obtain r3 w3 where k3: "syscall K fd (MEMWRITEOOB start data) (w1\<lparr>offs64 := OFFS64_IOCTLS_NOT_SUPPORTED\<rparr>) = (r3, w3)"
    by (metis surj_pair)
  have "calm w (w1\<lparr>offs64 := OFFS64_IOCTLS_NOT_SUPPORTED\<rparr>)" using c1 by simp
  then have c3: "calm w w3" using leg [OF k3] by (rule calm_trans)
  show ?thesis using assms k1 k2 k3 c1 leg [OF k2] c3
    by (simp add: do_oob_write_def Let_def split: if_splits) auto
qed

section \<open>Scanning, reading and saving\<close>

lemma calm_scan_block:
  assumes "scan_block K mtd n eb w = Some (v, w')" shows "calm w w'"
proof -
  let ?abs = "MTD_EB_RELATIVE_TO_ABSOLUTE mtd eb"
  obtain t b where tb: "mtd_bm_block_map_is_taged w ?abs = Some t" "mtd_bm_block_map_is_bad w ?abs = Some b"
    using assms by (auto simp: scan_block_def Let_def split: option.splits)
  show ?thesis
  proof (cases "t \<and> \<not> b")
    case True
    then show ?thesis using assms tb by (simp add: scan_block_def)
  next
    case False
    then obtain w1 where w1: "mtd_bm_block_map_set ?abs MTD_BLK_SCAN w = Some w1"
      using assms tb by (auto simp: scan_block_def Let_def split: option.splits if_splits)
    obtain r w2 where w2: "mtd_is_bad K mtd (fds w1 (part_id mtd)) eb w1 = (r, w2)" by (metis surj_pair)
    have c: "calm w w1" "calm w w2" using calm_map_set [OF w1] calm_is_bad [OF w2] by (auto intro: calm_trans)
    show ?thesis using assms tb False w1 w2 c calm_map_set [of ?abs MTD_BLK_BAD w2]
      by (auto simp: scan_block_def Let_def split: if_splits dest: calm_trans)
  qed
qed

lemma calm_scan_loop: "scan_loop K mtd n t eb pass w = Some (ok, e, w') \<Longrightarrow> calm w w'"
proof (induction K mtd n t eb pass w rule: scan_loop.induct)
  case (1 K mtd n t eb pass w)
  show ?case
  proof (cases "eb < eb_cnt mtd")
    case False
    then show ?thesis using 1(3) by (simp add: scan_loop.simps)
  next
    case True
    then obtain v w1 where v: "scan_block K mtd n eb w = Some (v, w1)"
      using 1(3) by (auto simp: scan_loop.simps split: option.splits)
    note c = calm_scan_block [OF v]
    show ?thesis using 1 True v c by (cases v) (auto simp: scan_loop.simps split: if_splits intro: calm_trans)
  qed
qed

lemma calm_scan [calm_steps]: "mtd_block_scan K env fs w = Some (r, w') \<Longrightarrow> calm w w'"
  by (auto simp: mtd_block_scan_def Let_def split: option.splits if_splits intro: calm_map_init
      dest!: calm_trans [OF calm_map_init calm_scan_loop])

lemma calm_read_blocks: "read_blocks K mtd bs len off buf w = Some y \<Longrightarrow> calm w (snd (snd y))"
proof (rule read_blocks.raw_induct [where P = "\<lambda>_ _ _ _ _ _ w y. calm w (snd (snd y))"])
  fix rb K mtd bs len off buf w y
  assume IH: "\<And>K mtd bs len off buf w y. rb K mtd bs len off buf w = Some y \<Longrightarrow> calm w (snd (snd y))"
    and step: "(if len > 0 \<and> off < mtd_size mtd then
        (case enter_block mtd w bs off of
           None \<Rightarrow> None
         | Some (Inl _) \<Rightarrow> Some (None, buf, w)
         | Some (Inr (off, bs)) \<Rightarrow>
             let room = eb_size mtd - cmod off (eb_size mtd);
                 read_unit = (if len > room then room else len)
             in case mtd_read K mtd (fds w (part_id mtd)) (MTD_OFFSET_TO_EB_INDEX mtd off)
                       (cmod off (eb_size mtd)) read_unit w of
                  None \<Rightarrow> None
                | Some (ret, bytes, w) \<Rightarrow>
                    if ret \<noteq> 0 then Some (None, buf @ bytes, w)
                    else rb K mtd bs (len - read_unit) (off + read_unit) (buf @ bytes) w)
      else Some (Some off, buf, w)) = Some y"
  show "calm w (snd (snd y))"
    using step by (auto simp: Let_def split: if_splits option.splits sum.splits dest!: calm_read IH) (erule (1) calm_trans)+
qed

lemma calm_basic_read [calm_steps]: "mtd_basic_read K fs w = Some (r, bs, w') \<Longrightarrow> calm w w'"
  by (auto simp: mtd_basic_read_def split: option.splits if_splits dest!: calm_read_blocks
      intro: calm_closeall calm_trans [OF _ calm_closeall])

lemma calm_read_dev: "sysinfo_read_dev K env sid data w = Some (r, w') \<Longrightarrow> calm w w'"
  by (auto simp: sysinfo_read_dev_def Let_def split: option.splits if_splits dest!: calm_scan calm_basic_read)
    (erule (1) calm_trans)+

lemma calm_get_value [calm_steps]: "sysinfo_get_value K env sid mode w = Some (r, w') \<Longrightarrow> calm w w'"
  by (auto simp: sysinfo_get_value_def Let_def split: option.splits if_splits sysinfo_operation.splits si_value.splits dest!: calm_read_dev)

lemma calm_save_from: "save_from K env s f is w = Some (r, w') \<Longrightarrow> calm w w'"
proof (induction "is" arbitrary: w)
  case (Cons i "is")
  then show ?case
    by (auto simp: Let_def split: option.splits if_splits dest!: calm_get_value intro: calm_trans)
qed simp

lemma calm_save_areas [calm_steps]: "save_areas K env off len w = Some (r, w') \<Longrightarrow> calm w w'"
  by (auto simp: save_areas_def sysinfo_traversal_save_def split: if_splits intro: calm_save_from)

lemma calm_process_info: "set_process_info env mtd t o1 o2 w = Some w' \<Longrightarrow> calm w w'"
  by (auto simp: set_process_info_def split: if_splits)

lemma calm_init_cleanmarker: "jffs2_init_cleanmarker K mtd w = (m, w') \<Longrightarrow> calm w w'"
  by (auto simp: jffs2_init_cleanmarker_def Let_def split: if_splits prod.splits list.splits intro: calm_syscall)

lemma calm_write_cleanmarker: "jffs2_write_cleanmarker K mtd off m w = (r, w') \<Longrightarrow> calm w w'"
  by (auto simp: jffs2_write_cleanmarker_def Let_def split: if_splits prod.splits dest!: calm_oob_write intro: calm_syscall)

section \<open>The erase\<close>

text \<open>
  An erase request the partition permits, with the table of block states as it is in \<open>w\<close>:
  for one whole block of the partition that is not recorded bad.
\<close>

definition permitted :: "mtd_dev \<Rightarrow> 'k world \<Rightarrow> kcall \<Rightarrow> bool" where
  "permitted mtd w c \<longleftrightarrow> (erases c \<longrightarrow> (\<exists>eb. 0 \<le> eb \<and> eb < eb_cnt mtd \<and> in_block mtd eb c \<and>
     block_state w (MTD_EB_RELATIVE_TO_ABSOLUTE mtd eb) \<noteq> Some MTD_BLK_BAD))"

definition guarded :: "mtd_dev \<Rightarrow> 'k world \<Rightarrow> 'k world \<Rightarrow> 'k world \<Rightarrow> bool" where
  "guarded mtd w0 w w' \<longleftrightarrow> extends (permitted mtd w0) w w' \<and> still_bad w w'"

lemma guarded_refl [simp]: "guarded mtd w0 w w"
  by (auto simp: guarded_def still_bad_def)

lemma guarded_trans [trans]: "guarded mtd w0 w w' \<Longrightarrow> guarded mtd w0 w' w'' \<Longrightarrow> guarded mtd w0 w w''"
  unfolding guarded_def still_bad_def by (blast intro: extends_trans)

lemma calm_guarded: "calm w w' \<Longrightarrow> guarded mtd w0 w w'"
  unfolding calm_def guarded_def by (auto simp: permitted_def elim: extends_mono)

lemma still_bad_trans: "still_bad w w' \<Longrightarrow> still_bad w' w'' \<Longrightarrow> still_bad w w''"
  by (auto simp: still_bad_def)

lemma erase_guarded:
  assumes "mtd_erase K mtd fd eb w = (r, w')" "block_state w0 (MTD_EB_RELATIVE_TO_ABSOLUTE mtd eb) \<noteq> Some MTD_BLK_BAD"
  shows "guarded mtd w0 w w'"
proof -
  have l: "lib_step mtd eb w w'" by (rule mtd_erase_step [OF assms(1)])
  have "extends (permitted mtd w0) w w'"
    using l assms(2) unfolding lib_step_def
    by (auto elim!: extends_mono simp: permitted_def mtd_valid_erase_block_def)
  moreover have "block_state w' = block_state w" using l by (simp add: fun_eq_iff lib_step_def frame_def block_state_def)
  ultimately show ?thesis by (simp add: guarded_def still_bad_def)
qed

lemma erase_failed_calm: "erase_failed K mtd eb w = Some (v, w') \<Longrightarrow> calm w w'"
  by (auto simp: erase_failed_def split: if_splits prod.splits dest!: calm_mark_bad calm_map_set)
    (erule (1) calm_trans)+

lemma erase_one_guarded:
  assumes "erase_one K mtd marker eb w = Some (v, w')"
    and "block_state w0 (MTD_EB_RELATIVE_TO_ABSOLUTE mtd eb) \<noteq> Some MTD_BLK_BAD"
  shows "guarded mtd w0 w w'"
proof -
  obtain r w1 where e: "mtd_erase K mtd (fds w (part_id mtd)) eb w = (r, w1)" by (metis surj_pair)
  have g: "guarded mtd w0 w w1" by (rule erase_guarded [OF e assms(2)])
  have "calm w1 w'"
    using assms(1) e
    by (auto simp: erase_one_def split: if_splits option.splits prod.splits
        dest!: erase_failed_calm calm_map_set calm_write_cleanmarker) (erule (1) calm_trans)+
  then show ?thesis by (rule guarded_trans [OF g calm_guarded])
qed

lemma erase_round_guarded:
  assumes "erase_round K env fs mtd marker t b eb w = Some (v, w')" "mtd_type_is_nand mtd" "\<not> fs_flags_get fs" "still_bad w0 w"
  shows "guarded mtd w0 w w'"
proof -
  let ?abs = "MTD_EB_RELATIVE_TO_ABSOLUTE mtd eb"
  obtain w1 where w1: "set_process_info env mtd BM_OPERATION_ERASE b t w = Some w1"
    using assms(1) by (auto simp: erase_round_def split: option.splits)
  have c1: "calm w w1" by (rule calm_process_info [OF w1])
  obtain bad where bad: "mtd_bm_block_map_is_bad w1 ?abs = Some bad"
    using assms(1-3) w1 by (auto simp: erase_round_def split: option.splits)
  obtain r w2 where w2: "(if FS_FLAG_IS_SET fs FS_FLAG_UNLOCK then mtd_unlock K mtd (fds w1 (part_id mtd)) eb w1 else (0, w1)) = (r, w2)"
    by (metis surj_pair)
  have c2: "calm w1 w2" using w2 by (auto split: if_splits dest: calm_unlock)
  have c12: "calm w w2" by (rule calm_trans [OF c1 c2])
  show ?thesis
  proof (cases "bad \<or> r \<noteq> 0")
    case True
    then have "w' = w1 \<or> w' = w2" using assms(1-3) w1 bad w2 by (auto simp: erase_round_def split: if_splits)
    with c1 c12 show ?thesis by (auto intro: calm_guarded)
  next
    case False
    obtain e w3 where w3: "save_areas K env (eb * eb_size mtd + part_start mtd) (eb_size mtd) w2 = Some (e, w3)"
      using assms(1-3) w1 bad w2 False by (auto simp: erase_round_def split: option.splits)
    have c13: "calm w w3" by (rule calm_trans [OF c12 calm_save_areas [OF w3]])
    show ?thesis
    proof (cases "e < 0")
      case True
      then have "w' = w3" using assms(1-3) w1 bad w2 w3 False by (auto simp: erase_round_def)
      with c13 show ?thesis by (auto intro: calm_guarded)
    next
      case no: False
      then have one: "erase_one K mtd marker eb w3 = Some (v, w')"
        using assms(1-3) w1 bad w2 w3 False by (auto simp: erase_round_def)
      have "block_state w1 ?abs \<noteq> Some MTD_BLK_BAD" using bad False by (auto simp: mtd_bm_block_map_is_bad_def)
      moreover have "still_bad w0 w1" using still_bad_trans [OF assms(4)] c1 by (simp add: calm_def)
      ultimately have "block_state w0 ?abs \<noteq> Some MTD_BLK_BAD" by (auto simp: still_bad_def)
      from guarded_trans [OF calm_guarded [OF c13] erase_one_guarded [OF one this]] show ?thesis .
    qed
  qed
qed

lemma erase_loop_guarded:
  assumes "mtd_type_is_nand mtd" "\<not> fs_flags_get fs"
  shows "erase_loop K env fs mtd marker t b l eb w = Some (ok, e, b', l', w') \<Longrightarrow> still_bad w0 w \<Longrightarrow> guarded mtd w0 w w'"
  using assms
proof (induction K env fs mtd marker t b l eb w rule: erase_loop.induct)
  case (1 K env fs mtd marker t b l eb w)
  show ?case
  proof (cases "b < t \<and> eb < eb_cnt mtd")
    case False
    then show ?thesis using 1(3) by (auto simp: erase_loop.simps)
  next
    case True
    then obtain v w1 where v: "erase_round K env fs mtd marker t b eb w = Some (v, w1)"
      using 1(3) by (auto simp: erase_loop.simps split: option.splits)
    have g: "guarded mtd w0 w w1" by (rule erase_round_guarded [OF v 1(5,6,4)])
    then have s: "still_bad w0 w1" using still_bad_trans [OF 1(4)] by (simp add: guarded_def)
    show ?thesis using 1 True v g s by (cases v) (auto simp: erase_loop.simps intro: guarded_trans)
  qed
qed

lemma erase_extent_guarded:
  assumes "erase_extent K env fs mtd m s t v = Some (x, v')" "calm w v" and "mtd_type_is_nand mtd" "\<not> fs_flags_get fs"
  shows "guarded mtd w w v'" "guarded mtd w w (closeall K mtd v')"
proof -
  obtain ok e b l v1 where v1: "erase_loop K env fs mtd m t 0 0 s v = Some (ok, e, b, l, v1)"
    using assms(1) by (auto simp: erase_extent_def split: option.splits)
  have "still_bad w v" using assms(2) by (simp add: calm_def)
  then have "guarded mtd w v v1" by (rule erase_loop_guarded [OF assms(3,4) v1])
  moreover have "calm v1 v'" using assms(1) v1 by (auto simp: erase_extent_def split: if_splits dest!: calm_process_info)
  ultimately show g: "guarded mtd w w v'" using assms(2) by (meson calm_guarded guarded_trans)
  show "guarded mtd w w (closeall K mtd v')" by (rule guarded_trans [OF g calm_guarded [OF calm_closeall]])
qed

lemma basic_erase_guarded:
  assumes "mtd_basic_erase K env fs w = Some (r, w')" "params fs = Some p" "p_mtd p = Some mtd"
    and "mtd_type_is_nand mtd" "\<not> fs_flags_get fs"
  shows "guarded mtd w w w'"
proof -
  obtain m w1 where m: "(if fs_name fs = ''jffs2'' then jffs2_init_cleanmarker K mtd w else (None, w)) = (m, w1)" by (metis surj_pair)
  have c1: "calm w w1" using m by (auto split: if_splits dest: calm_init_cleanmarker)
  show ?thesis
    using assms(1-3) m c1
    by (auto simp: mtd_basic_erase_def Let_def split: if_splits option.splits
        intro: calm_guarded calm_closeall calm_trans [OF _ calm_closeall])
      (erule erase_extent_guarded [OF _ _ assms(4,5)], simp)+
qed

text \<open>
  C30. An erase stays within its partition and leaves bad blocks alone. Whatever the kernel
  answers, including failures half way, every erase request \<open>mtd_basic_erase\<close> issues on a
  NAND partition (bad blocks to be skipped) is for one whole erase block of that partition
  which was not recorded bad when it began, and no block recorded bad ever becomes usable.
\<close>

theorem mtd_basic_erase_confined:
  assumes "mtd_basic_erase K env fs w = Some (r, w')" "params fs = Some p" "p_mtd p = Some mtd"
    and "mtd_type_is_nand mtd" "\<not> fs_flags_get fs"
  shows "\<exists>cs. trace w' = trace w @ cs \<and>
    (\<forall>(fd, c)\<in>set cs. erases c \<longrightarrow> (\<exists>eb. 0 \<le> eb \<and> eb < eb_cnt mtd \<and> in_block mtd eb c \<and>
       block_state w (MTD_EB_RELATIVE_TO_ABSOLUTE mtd eb) \<noteq> Some MTD_BLK_BAD)) \<and>
    (\<forall>eb. block_state w eb = Some MTD_BLK_BAD \<longrightarrow> block_state w' eb = Some MTD_BLK_BAD)"
  using basic_erase_guarded [OF assms] by (auto simp: guarded_def extends_def permitted_def still_bad_def)

end
