(* ===== verification/BadBlock.thy ===== *)
theory BadBlock
  imports FlashWrite
begin

text \<open>
  What \<open>mtd_basic_write\<close> does when the block it is told to write to is recorded bad: the
  whole write moves to the next block, which matters to the callers that compute the offset
  of the next write themselves.
\<close>

lemma skip_bad_step:
  assumes wf: "wf_mtd mtd" and off: "0 \<le> off" "off mod eb_size mtd = 0" "off + eb_size mtd < mtd_size mtd"
    and bad: "skips w (off div eb_size mtd)"
  shows "skip_bad mtd w off = skip_bad mtd w (off + eb_size mtd)"
proof -
  have e: "0 < eb_size mtd" using wf by (rule wf_mtd_pos)
  have "MTD_BLOCK_ALIGN mtd (off + eb_size mtd) = off + eb_size mtd"
    using off(2) e by (simp add: block_align [OF wf]) (metis div_add_self2 less_irrefl minus_mod_eq_div_mult mod_add_self2 diff_zero)
  moreover have "mtd_bm_block_map_is_bad w (MTD_OFFSET_TO_EB_INDEX mtd off) = Some True"
    using bad off(1) by (simp add: mtd_bm_block_map_is_bad_def eb_index skips_def)
  ultimately show ?thesis using off(3) by (simp add: skip_bad.simps [of mtd w off])
qed

lemma enter_bad_block:
  assumes wf: "wf_mtd mtd" and nand: "mtd_type_is_nand mtd" and off: "0 \<le> off" "off mod eb_size mtd = 0" "off + eb_size mtd < mtd_size mtd"
    and bad: "skips w (off div eb_size mtd)"
  shows "enter_block mtd w (-1) off = enter_block mtd w (-1) (off + eb_size mtd)"
proof -
  have e: "0 < eb_size mtd" using wf by (rule wf_mtd_pos)
  have "MTD_BLOCK_ALIGN mtd a \<noteq> -1" if "0 \<le> a" for a
  proof -
    have "0 \<le> MTD_BLOCK_ALIGN mtd a" using that e by (simp add: block_align [OF wf] pos_imp_zdiv_nonneg_iff)
    then show ?thesis by linarith
  qed
  then have "(-1 = MTD_BLOCK_ALIGN mtd off) = False" "(-1 = MTD_BLOCK_ALIGN mtd (off + eb_size mtd)) = False"
    using off(1) e by (metis add_nonneg_nonneg less_imp_le)+
  then show ?thesis
    using nand skip_bad_step [OF wf off bad] by (simp add: enter_block_def)
qed

lemma write_checks_later:
  assumes wf: "wf_mtd mtd" and off: "0 \<le> off" and fit: "cdiv len (page_length mtd f) * min_io_size mtd \<le> mtd_size mtd - (off + eb_size mtd)"
  shows "write_checks K mtd f len off w = write_checks K mtd f len (off + eb_size mtd) w"
proof -
  have e: "0 < eb_size mtd" using wf by (rule wf_mtd_pos)
  have "min_io_size mtd dvd eb_size mtd" using wf by (simp add: wf_mtd_def mod_eq_0_iff_dvd)
  then have "(off + eb_size mtd) mod min_io_size mtd = off mod min_io_size mtd"
    by (simp add: mod_add_eq [symmetric, of off] dvd_imp_mod_0)
  moreover have "(mtd_size mtd - off < cdiv len (page_length mtd f) * min_io_size mtd) = False"
    "(mtd_size mtd - (off + eb_size mtd) < cdiv len (page_length mtd f) * min_io_size mtd) = False"
    using fit e by (simp_all add: not_less)
  moreover have "(off < 0) = False" "(off + eb_size mtd < 0) = False" using off e by (simp_all add: not_less)
  ultimately show ?thesis unfolding write_checks_def page_aligned [OF wf] Let_def by (simp only:)
qed

lemma write_flags_params [simp]: "fs_write_flags_get (fs\<lparr>params := x\<rparr>) mtd = fs_write_flags_get fs mtd"
  by (simp add: fs_write_flags_get_def FS_FLAG_IS_SET_def)

lemma write_checks_world: "\<not> noecc f \<Longrightarrow> write_checks K mtd f len off w = Some (ok, w') \<Longrightarrow> w' = w"
  by (auto simp: write_checks_def Let_def split: if_splits)

definition loop_outcome :: "bool \<times> write_cursor \<times> 'k world \<Rightarrow> bool \<times> int \<times> int \<times> 'k world" where
  "loop_outcome r = (case r of (ok, c, w) \<Rightarrow> (ok, wc_progress c, if ok then wc_offset c else 0, w))"

lemma write_loop_bad_block:
  assumes "wf_mtd mtd" "mtd_type_is_nand mtd" "0 \<le> off" "off mod eb_size mtd = 0" "off + eb_size mtd < mtd_size mtd" "skips w (off div eb_size mtd)"
    and "wc_offset c = off" "wc_blockstart c = -1" "0 < wc_length c"
  shows "map_option loop_outcome (write_loop K env mtd f pagelen max_size c w) =
    map_option loop_outcome (write_loop K env mtd f pagelen max_size (c\<lparr>wc_offset := off + eb_size mtd\<rparr>) w)"
proof -
  have e: "0 < eb_size mtd" using assms(1) by (rule wf_mtd_pos)
  have "off < mtd_size mtd" using assms(5) e by simp
  then show ?thesis
    using assms(5,7,8,9) enter_bad_block [OF assms(1-6)]
    by (simp add: write_loop.simps [of K env mtd f pagelen max_size] loop_outcome_def split: option.split sum.split)
qed


end
