(* ===== verification/Chip.thy ===== *)
theory Chip
  imports FirstBlock EraseSafe BadBlock
begin

text \<open>
  A simulated NAND chip, the concrete kernel at which the theorems about devices are
  witnessed: its state is the byte at every offset and the position of the descriptor,
  given blocks are bad. It serves seeks, reads, writes, erasures and bad-block queries.
\<close>

type_synonym chip_state = "(int \<Rightarrow> u8) \<times> int"

definition answer :: "int \<Rightarrow> reply" where
  "answer r = \<lparr>rep_ret = r, rep_errno = 0, rep_bytes = [], rep_autoplace = False, rep_eccbytes = 0, rep_oobfree = []\<rparr>"

fun chip :: "(int \<Rightarrow> bool) \<Rightarrow> int \<Rightarrow> chip_state kernel" where
  "chip bad e fd (LSEEK s) (cells, pos) = (answer s, (cells, s))"
| "chip bad e fd (READ n) (cells, pos) = ((answer n)\<lparr>rep_bytes := map cells [pos..pos + n - 1]\<rparr>, (cells, pos + n))"
| "chip bad e fd (WRITE d) (cells, pos) = (answer (int (length d)), (stored cells pos d, pos + int (length d)))"
| "chip bad e fd (MEMWRITE s d ob m) (cells, pos) = (answer 0, (stored cells s d, pos))"
| "chip bad e fd (MEMERASE64 s l) (cells, pos) = (answer 0, (blanked cells s l, pos))"
| "chip bad e fd (MEMERASE s l) (cells, pos) = (answer 0, (blanked cells s l, pos))"
| "chip bad e fd (MEMGETBADBLOCK s) (cells, pos) = (answer (if bad (s div e) then 1 else 0), (cells, pos))"
| "chip bad e fd c (cells, pos) = (answer 0, (cells, pos))"

lemma answer_simps [simp]: "rep_ret (answer r) = r" "rep_bytes (answer r) = []"
  by (simp_all add: answer_def)

lemma chip_readable: "readable_device (chip bad e) fd fst snd limit"
  by (simp add: readable_device_def Let_def split_paired_all)

lemma chip_writable: "writable_device (chip bad e) fd fst snd limit"
  by (simp add: writable_device_def split_paired_all)

lemma chip_answers: "eb_size mtd \<noteq> 0 \<Longrightarrow> answers (chip bad (eb_size mtd)) mtd bad"
  by (simp add: answers_def split_paired_all)

section \<open>A small partition\<close>

text \<open>Four blocks of four bytes, pages of two bytes; the second block is bad.\<close>

definition chip_mtd :: mtd_dev where
  "chip_mtd = \<lparr>mtd_name = ''chip'', mtd_type = NANDFLASH, mtd_size = 16, eb_size = 4, eb_cnt = 4, min_io_size = 2,
     subpage_size = 2, oob_size = 1, bb_allowed = True, part_start = 0, part_id = 0\<rparr>"

definition chip_bad :: "int \<Rightarrow> bool" where
  "chip_bad eb \<longleftrightarrow> eb = 1"

definition chip_env :: bm_env where
  "chip_env = \<lparr>bm_name = ''mtd'', bm_parts = [chip_mtd], bm_end = 16, bm_listening = False, bm_sysinfo = False,
     bm_filesystems = [static_fs ''normal'']\<rparr>"

definition chip_world :: "mtd_block_map option \<Rightarrow> chip_state world" where
  "chip_world m = \<lparr>kern = (\<lambda>a. word_of_int (10 + a), 0), trace = [], errno = 0, offs64 = OFFS64_IOCTLS_UNKNOWN,
     fds = (\<lambda>_. 3), block_map = m, events = [], layout = []\<rparr>"

definition chip_map :: mtd_block_map where
  "chip_map = \<lparr>es = [MTD_BLK_SCAN, MTD_BLK_BAD, MTD_BLK_SCAN, MTD_BLK_SCAN], map_eb_start = 0, map_eb_cnt = 4, bad_cnt = 1\<rparr>"

definition chip_params :: "int \<Rightarrow> u8 list \<Rightarrow> int \<Rightarrow> fs_operation_params" where
  "chip_params off buf len = zero_params\<lparr>p_method := BM_OPERATION_METHOD_RANDOM, p_buf := buf, p_offset := off,
     p_length := len, p_max_size := len, p_mtd := Some chip_mtd\<rparr>"

definition chip_fs :: "int \<Rightarrow> u8 list \<Rightarrow> int \<Rightarrow> filesystem" where
  "chip_fs off buf len = (normal_init (static_fs ''normal''))\<lparr>params := Some (chip_params off buf len)\<rparr>"

lemma chip_mtd_select [simp]:
  "mtd_size chip_mtd = 16" "eb_size chip_mtd = 4" "eb_cnt chip_mtd = 4" "part_start chip_mtd = 0" "part_id chip_mtd = 0"
  "bb_allowed chip_mtd" "min_io_size chip_mtd = 2" "oob_size chip_mtd = 1"
  by (simp_all add: chip_mtd_def)

lemma chip_world_select [simp]:
  "kern (chip_world m) = (\<lambda>a. word_of_int (10 + a), 0)" "block_map (chip_world m) = m" "errno (chip_world m) = 0"
  "fds (chip_world m) i = 3"
  by (simp_all add: chip_world_def)

lemma chip_params_select [simp]:
  "p_offset (chip_params off buf len) = off" "p_length (chip_params off buf len) = len" "p_buf (chip_params off buf len) = buf"
  "p_mtd (chip_params off buf len) = Some chip_mtd" "p_method (chip_params off buf len) = BM_OPERATION_METHOD_RANDOM"
  "params (chip_fs off buf len) = Some (chip_params off buf len)"
  by (simp_all add: chip_params_def chip_fs_def)

lemma chip_mtd_wf: "wf_mtd chip_mtd"
proof -
  have "\<exists>k. (4 :: int) = 2 ^ k" by (rule exI [of _ 2]) simp
  then show ?thesis by (simp add: wf_mtd_def chip_mtd_def)
qed

lemma chip_mtd_nand: "mtd_type_is_nand chip_mtd"
  by (simp add: mtd_type_is_nand_def chip_mtd_def)

lemma chip_covers: "table_covers chip_mtd (chip_world (Some chip_map))"
  by (simp add: table_covers_def block_state_def chip_world_def chip_map_def chip_mtd_def)

lemma chip_skips: "skips (chip_world (Some chip_map)) eb \<longleftrightarrow> eb = 1"
  by (auto simp: skips_def block_state_def chip_world_def chip_map_def nth_Cons' nat_eq_iff split: if_splits)

lemma chip_usable: "usable chip_mtd (skips (chip_world (Some chip_map))) 0 = [0, 1, 2, 3, 8, 9, 10, 11, 12, 13, 14, 15]"
proof -
  have "usable chip_mtd (\<lambda>eb. eb = 1) 0 = [0, 1, 2, 3, 8, 9, 10, 11, 12, 13, 14, 15]" by code_simp
  moreover have "skips (chip_world (Some chip_map)) = (\<lambda>eb. eb = 1)" by (simp add: fun_eq_iff chip_skips)
  ultimately show ?thesis by simp
qed

section \<open>Witnesses\<close>



text \<open>
  The same partition erased, with the two bytes at 9 and 10 a system area: a write of five
  bytes from 0 goes to the offsets 0 to 3, 8 and 9.
\<close>

definition area_layout :: "sysinfo_layout list" where
  "area_layout = [\<lparr>si_offset = 9, si_length = 2, si_value = Buf [100, 101], si_reserve = SYSINFO_RESERVED\<rparr>]"

definition blank_world :: "chip_state world" where
  "blank_world = (chip_world (Some chip_map))\<lparr>kern := (\<lambda>_. 0xff, 0), layout := area_layout\<rparr>"

definition area_env :: bm_env where
  "area_env = chip_env\<lparr>bm_sysinfo := True\<rparr>"

lemma blank_world_select [simp]:
  "kern blank_world = (\<lambda>_. 0xff, 0)" "block_map blank_world = Some chip_map" "layout blank_world = area_layout"
  "skips blank_world = skips (chip_world (Some chip_map))" "table_covers chip_mtd blank_world" "bm_sysinfo area_env"
  using chip_covers
  by (simp_all add: blank_world_def area_env_def fun_eq_iff skips_def block_state_def table_covers_def)

lemma blank_ready: "areas_ready area_env blank_world"
  by (simp add: areas_ready_def area_layout_def loaded_def)

lemma chip_write_request: "buf \<noteq> [] \<Longrightarrow> write_request chip_mtd (chip_params 0 buf (int (length buf))) (chip_fs 0 buf (int (length buf)))"
  by (simp add: write_request_def chip_fs_def normal_init_def static_fs_def FS_FLAG_IS_SET_def FS_FLAG_SET_def FS_FLAG_BITS_def
      chip_params_def chip_mtd_def)

lemma chip_padded: "padded 2 [1, 2, 3, 4, 5] = [1, 2, 3, 4, 5, 0xff]"
  by (simp add: padded_def)

lemma overlay_area: "overlay area_env blank_world a b = (if a = 9 then 100 else if a = 10 then 101 else b)"
  by (auto simp: overlay_def sysinfo_byte_def area_layout_def area_holds_def area_byte_def)

theorem sysinfo_traversal_merge_overlays_witness:
  "sysinfo_traversal_merge [1, 2, 3, 4] 8 4 blank_world = Some (0, [1, 100, 101, 4])"
  using sysinfo_traversal_merge_overlays [OF blank_ready, of "[1, 2, 3, 4]" 8]
  by (simp add: sysinfo_byte_def area_layout_def area_holds_def area_byte_def upt_rec)


theorem mtd_write_read_roundtrip_witness:
  "\<exists>pos1 fs' w1 pos2 w2.
     mtd_basic_write (chip chip_bad 4) area_env (chip_fs 0 [1, 2, 3, 4, 5, 6] 6) blank_world = Some (pos1, fs', w1) \<and>
     mtd_basic_read (chip chip_bad 4) (chip_fs 0 [] 6) w1 = Some (pos2, [1, 2, 3, 4, 5, 100], w2)"
  using mtd_write_read_roundtrip [OF chip_mtd_wf chip_mtd_nand chip_readable chip_writable _ _ chip_write_request blank_ready,
      of "[1, 2, 3, 4, 5, 6]" "chip_fs 0 [] 6" "chip_params 0 [] 6"]
  by (simp add: chip_usable padded_def overlay_area upt_rec)

section \<open>A flash with an update flag\<close>

text \<open>
  Two blocks of eight bytes; the first two bytes are a reserved area, the four behind them
  the area of the flag.
\<close>

definition flag_mtd :: mtd_dev where
  "flag_mtd = \<lparr>mtd_name = ''boot'', mtd_type = NANDFLASH, mtd_size = 16, eb_size = 8, eb_cnt = 2, min_io_size = 2,
     subpage_size = 2, oob_size = 1, bb_allowed = True, part_start = 0, part_id = 0\<rparr>"

definition flag_areas :: "sysinfo_layout list" where
  "flag_areas = [\<lparr>si_offset = 0, si_length = 2, si_value = Null, si_reserve = SYSINFO_RESERVED\<rparr>,
     \<lparr>si_offset = 2, si_length = 4, si_value = Null, si_reserve = SYSINFO_NO_RESERVED\<rparr>]"

definition flag_env :: bm_env where
  "flag_env = \<lparr>bm_name = ''mtd'', bm_parts = [flag_mtd], bm_end = 16, bm_listening = False, bm_sysinfo = True,
     bm_filesystems = [normal_init (static_fs ''normal'')]\<rparr>"

definition flag_world :: "chip_state world" where
  "flag_world = (chip_world None)\<lparr>layout := flag_areas\<rparr>"

lemma flag_healthy: "healthy (chip chip_bad 8) flag_mtd (fds flag_world 0) fst snd"
proof -
  have "\<exists>k. (8 :: int) = 2 ^ k" by (rule exI [of _ 3]) simp
  moreover have "erasable_device (chip chip_bad 8) 3 fst 16"
    by (simp add: erasable_device_def split_paired_all)
  ultimately show ?thesis
    by (simp add: healthy_def wf_mtd_def mtd_type_is_nand_def flag_mtd_def chip_readable chip_writable first_block_good_def
        split_paired_all chip_bad_def flag_world_def)
qed

lemma flag_first_ok: "first_ok flag_mtd (mtd_bm_block_map_init flag_env flag_mtd flag_world)"
proof -
  have "eb = 0 \<or> eb = 1" if "0 \<le> eb" "eb < 2" for eb :: int using that by auto
  then show ?thesis
    by (force simp: first_ok_def mtd_bm_block_map_init_def flag_world_def chip_world_def mtd_get_capacity_def flag_env_def flag_mtd_def
        table_covers_def block_state_def skips_def MTD_BLK_BAD_def)
qed

lemma flag_bound: "sysinfo_bound flag_env flag_mtd ((normal_init (static_fs ''normal''))\<lparr>params := Some zero_params\<rparr>)"
  by (simp add: sysinfo_bound_def flag_env_def fs_new_def fs_get_suppoted_by_name_def fs_find_def normal_init_def static_fs_def
      fs_alloc_params_def FS_FLAG_IS_SET_def FS_FLAG_SET_def FS_FLAG_BITS_def)

lemma flag_sound: "areas_sound flag_mtd (layout flag_world)"
  by (simp add: areas_sound_def area_sound_def flag_world_def flag_areas_def flag_mtd_def)

lemma flag_reserved: "reserved_at (layout flag_world) a \<longleftrightarrow> 0 \<le> a \<and> a < 2"
  by (auto simp: reserved_at_def flag_world_def flag_areas_def area_holds_def)

theorem sysinfo_set_value_stores_witness:
  "\<exists>w'. sysinfo_set_value (chip chip_bad 8) flag_env 1 (Some [1, 2, 3, 4]) SYSINFO_OPERATION_DEV flag_world = Some (0, w') \<and>
     map (fst (kern w')) [0..7] = [10, 11, 1, 2, 3, 4, 16, 17]"
proof -
  obtain w' where w': "sysinfo_set_value (chip chip_bad 8) flag_env (int 1) (Some [1, 2, 3, 4]) SYSINFO_OPERATION_DEV flag_world = Some (0, w')"
    "fst (kern w') = (\<lambda>x. if reserved_at (layout flag_world) x then fst (kern flag_world) x
        else stored (fst (kern flag_world)) (si_offset (layout flag_world ! 1)) (take (nat (si_length (layout flag_world ! 1))) [1, 2, 3, 4]) x)"
    using sysinfo_set_value_stores [of "chip chip_bad 8" flag_mtd flag_world fst snd flag_env _ 1 "[1, 2, 3, 4]"]
      flag_healthy flag_first_ok flag_bound flag_sound
    by (fastforce simp: flag_mtd_def flag_world_def flag_areas_def)
  have "map (fst (kern w')) [0..7] = [10, 11, 1, 2, 3, 4, 16, 17]"
    by (simp add: w'(2) flag_reserved upto_rec1, simp add: flag_world_def flag_areas_def stored_def)
  with w'(1) show ?thesis by auto
qed

theorem update_flag_roundtrip_witness:
  "\<exists>w1 w2. sysinfo_write_flag (chip chip_bad 8) flag_env 0 [0x5A, 0x5A, 0x5A, 0x5A] flag_world = Some (0, w1) \<and>
     sysinfo_read_flag (chip chip_bad 8) flag_env 0 w1 = Some (0, [0x5A, 0x5A, 0x5A, 0x5A], w2) \<and> fst (kern w1) 7 = 17"
proof -
  have "alone (layout flag_world) 1"
    by (auto simp: alone_def flag_world_def flag_areas_def area_holds_def less_Suc_eq)
  then show ?thesis
    using update_flag_roundtrip [of "chip chip_bad 8" flag_mtd flag_world fst snd flag_env _ "[0x5A, 0x5A, 0x5A, 0x5A]"]
      flag_healthy flag_first_ok flag_bound flag_sound
    by (fastforce simp: flag_mtd_def flag_world_def flag_areas_def SYSINFO_FLAG_ID_UPDATE_DONE_def)
qed

definition flag_erase :: filesystem where
  "flag_erase = (normal_init (static_fs ''normal''))\<lparr>params := Some (zero_params\<lparr>p_method := BM_OPERATION_METHOD_RANDOM,
     p_length := 8, p_mtd := Some flag_mtd\<rparr>)\<rparr>"

theorem mtd_basic_erase_confined_witness:
  "\<exists>r w' cs. mtd_basic_erase (chip chip_bad 8) flag_env flag_erase (mtd_bm_block_map_init flag_env flag_mtd flag_world) = Some (r, w') \<and>
     trace w' = cs \<and> fst (kern w') 7 = 0xff \<and> block_state w' 0 \<noteq> Some MTD_BLK_BAD"
proof -
  let ?w = "mtd_bm_block_map_init flag_env flag_mtd flag_world"
  have flags: "\<not> fs_flags_get flag_erase" "\<not> FS_FLAG_IS_SET flag_erase FS_FLAG_UNLOCK" "fs_name flag_erase = ''normal''"
    by (simp_all add: fs_flags_get_def flag_erase_def normal_init_def static_fs_def FS_FLAG_IS_SET_def FS_FLAG_SET_def FS_FLAG_BITS_def)
  have req: "erase_request flag_mtd (the (params flag_erase)) flag_erase"
    using flags by (simp add: erase_request_def first_request_def) (simp add: flag_erase_def zero_params_def flag_mtd_def)
  have t: "only_table flag_world ?w" by (simp add: mtd_bm_block_map_init_def Let_def split: option.split)
  have h: "healthy (chip chip_bad 8) flag_mtd (fds ?w (part_id flag_mtd)) fst snd"
    using flag_healthy t by (simp add: flag_mtd_def)
  have l: "layout ?w = layout flag_world" using t by simp
  have a: "layout ?w \<noteq> []" "\<forall>l\<in>set (layout ?w). area_sound flag_mtd l"
    using flag_sound unfolding l areas_sound_def by auto
  obtain w' where w': "mtd_basic_erase (chip chip_bad 8) flag_env flag_erase ?w = Some (eb_size flag_mtd, w')" "first_ok flag_mtd w'"
    "fst (kern w') = blanked (fst (kern ?w)) 0 (eb_size flag_mtd)"
    using erase_first [OF h flag_first_ok flag_bound a req] by blast
  have p: "params flag_erase = Some (the (params flag_erase))" "p_mtd (the (params flag_erase)) = Some flag_mtd"
    by (simp_all add: flag_erase_def)
  have "mtd_type_is_nand flag_mtd" by (simp add: mtd_type_is_nand_def flag_mtd_def)
  from mtd_basic_erase_confined [OF w'(1) p this flags(1)] obtain cs where "trace w' = trace ?w @ cs" by blast
  moreover have "block_state w' 0 \<noteq> Some MTD_BLK_BAD" using w'(2) by (simp add: first_ok_def skips_def)
  moreover have "fst (kern w') 7 = 0xff" by (simp add: w'(3) blanked_def flag_mtd_def)
  ultimately show ?thesis using w'(1) by blast
qed

section \<open>A write to the bad block\<close>

lemma chip_usable_later: "usable chip_mtd (skips (chip_world (Some chip_map))) 8 = [8, 9, 10, 11, 12, 13, 14, 15]"
proof -
  have "usable chip_mtd (\<lambda>eb. eb = 1) 8 = [8, 9, 10, 11, 12, 13, 14, 15]" by code_simp
  moreover have "skips (chip_world (Some chip_map)) = (\<lambda>eb. eb = 1)" by (simp add: fun_eq_iff chip_skips)
  ultimately show ?thesis by simp
qed


end
