(* ===== verification/Mtd.thy ===== *)
theory Mtd
  imports SysFlag
begin

text \<open>
  The block manager for MTD flash, \<open>client/recovery/block/blocks/mtd/mtd.c\<close>, and the table of
  operations every filesystem offers it (\<open>struct filesystem\<close> of \<open>include/block/fs/fs_manager.h\<close>
  as filled in by \<open>normal.c\<close>, \<open>cramfs.c\<close>, \<open>jffs2.c\<close> and \<open>yaffs2.c\<close>). The operations of \<open>ubifs\<close> and
  the state they keep are parameters. \<open>None\<close> is an operation that does not come back: a
  fault, an endless loop, a lock never released or \<open>exit\<close>.
\<close>

section \<open>The operations of a filesystem\<close>

text \<open>\<open>'u\<close> is the state of \<open>ubifs\<close>. Only the fields that may be null are options.\<close>

type_synonym ('u, 'k) mach = "'u \<times> 'k world"

record ('u, 'k) fs_ops =
  op_erase :: "filesystem \<Rightarrow> ('u, 'k) mach \<Rightarrow> (int \<times> filesystem \<times> ('u, 'k) mach) option"
  op_write :: "filesystem \<Rightarrow> ('u, 'k) mach \<Rightarrow> (int \<times> filesystem \<times> ('u, 'k) mach) option"
  op_read :: "filesystem \<Rightarrow> ('u, 'k) mach \<Rightarrow> (int \<times> u8 list \<times> ('u, 'k) mach) option"
  op_start :: "filesystem \<Rightarrow> ('u, 'k) mach \<Rightarrow> (int \<times> ('u, 'k) mach) option"
  op_leb_size :: "filesystem \<Rightarrow> ('u, 'k) mach \<Rightarrow> (u32 \<times> ('u, 'k) mach) option"
  op_max_mapped :: "filesystem \<Rightarrow> ('u, 'k) mach \<Rightarrow> (int \<times> ('u, 'k) mach) option"
  op_format :: "(filesystem \<Rightarrow> ('u, 'k) mach \<Rightarrow> (int \<times> filesystem \<times> ('u, 'k) mach) option) option"
  op_done :: "(filesystem \<Rightarrow> ('u, 'k) mach \<Rightarrow> (int \<times> ('u, 'k) mach) option) option"

definition normal_erase ::
  "'k kernel \<Rightarrow> bm_env \<Rightarrow> filesystem \<Rightarrow> ('u, 'k) mach \<Rightarrow> (int \<times> filesystem \<times> ('u, 'k) mach) option" where
  "normal_erase K env fs m = (case m of (u, w) \<Rightarrow> map_option (\<lambda>(r, w). (r, fs, u, w)) (mtd_basic_erase K env fs w))"

definition normal_write ::
  "'k kernel \<Rightarrow> bm_env \<Rightarrow> filesystem \<Rightarrow> ('u, 'k) mach \<Rightarrow> (int \<times> filesystem \<times> ('u, 'k) mach) option" where
  "normal_write K env fs m = (case m of (u, w) \<Rightarrow> map_option (\<lambda>(r, fs, w). (r, fs, u, w)) (mtd_basic_write K env fs w))"

definition normal_read ::
  "'k kernel \<Rightarrow> filesystem \<Rightarrow> ('u, 'k) mach \<Rightarrow> (int \<times> u8 list \<times> ('u, 'k) mach) option" where
  "normal_read K fs m = (case m of (u, w) \<Rightarrow> map_option (\<lambda>(r, bs, w). (r, bs, u, w)) (mtd_basic_read K fs w))"

definition normal_get_operate_start_address :: "filesystem \<Rightarrow> ('u, 'k) mach \<Rightarrow> (int \<times> ('u, 'k) mach) option" where
  "normal_get_operate_start_address fs m = map_option (\<lambda>p. (p_offset p, m)) (params fs)"

definition fs_mtd :: "filesystem \<Rightarrow> mtd_dev option" where
  "fs_mtd fs = Option.bind (params fs) p_mtd"

definition normal_get_leb_size :: "filesystem \<Rightarrow> ('u, 'k) mach \<Rightarrow> (u32 \<times> ('u, 'k) mach) option" where
  "normal_get_leb_size fs m = map_option (\<lambda>mtd. (word_of_int (eb_size mtd), m)) (fs_mtd fs)"

definition yaffs2_get_leb_size :: "filesystem \<Rightarrow> ('u, 'k) mach \<Rightarrow> (u32 \<times> ('u, 'k) mach) option" where
  "yaffs2_get_leb_size fs m = map_option (\<lambda>mtd. (word_of_int (eb_size mtd + YAFFS2_TAG_SIZE), m)) (fs_mtd fs)"

definition normal_get_max_mapped_size_in_partition ::
  "'k kernel \<Rightarrow> bm_env \<Rightarrow> filesystem \<Rightarrow> ('u, 'k) mach \<Rightarrow> (int \<times> ('u, 'k) mach) option" where
  "normal_get_max_mapped_size_in_partition K env fs m =
     (case m of (u, w) \<Rightarrow> map_option (\<lambda>(r, w). (r, u, w)) (mtd_block_scan K env fs w))"

text \<open>The read of the other filesystems is an assertion that always fails.\<close>

definition not_served :: "filesystem \<Rightarrow> ('u, 'k) mach \<Rightarrow> (int \<times> u8 list \<times> ('u, 'k) mach) option" where
  "not_served fs m = None"

definition jffs2_format ::
  "'k kernel \<Rightarrow> bm_env \<Rightarrow> filesystem \<Rightarrow> ('u, 'k) mach \<Rightarrow> (int \<times> filesystem \<times> ('u, 'k) mach) option" where
  "jffs2_format K env fs m =
     (case fs_mtd fs of None \<Rightarrow> None | Some mtd \<Rightarrow>
      let fs = fs\<lparr>params := map_option (p_length_update (\<lambda>_. mtd_size mtd)) (params fs)\<rparr>
      in map_option (\<lambda>(r, fs, m). (if r < 0 then -1 else 0, fs, m)) (normal_erase K env fs m))"

definition fs_normal :: "'k kernel \<Rightarrow> bm_env \<Rightarrow> ('u, 'k) fs_ops" where
  "fs_normal K env = \<lparr>op_erase = normal_erase K env, op_write = normal_write K env, op_read = normal_read K,
     op_start = normal_get_operate_start_address, op_leb_size = normal_get_leb_size,
     op_max_mapped = normal_get_max_mapped_size_in_partition K env, op_format = None, op_done = None\<rparr>"

definition fs_cramfs :: "'k kernel \<Rightarrow> bm_env \<Rightarrow> ('u, 'k) fs_ops" where
  "fs_cramfs K env = (fs_normal K env)\<lparr>op_read := not_served\<rparr>"

definition fs_jffs2 :: "'k kernel \<Rightarrow> bm_env \<Rightarrow> ('u, 'k) fs_ops" where
  "fs_jffs2 K env = (fs_normal K env)\<lparr>op_read := not_served, op_format := Some (jffs2_format K env)\<rparr>"

definition fs_yaffs2 :: "'k kernel \<Rightarrow> bm_env \<Rightarrow> ('u, 'k) fs_ops" where
  "fs_yaffs2 K env = (fs_normal K env)\<lparr>op_read := not_served, op_leb_size := yaffs2_get_leb_size\<rparr>"

definition fs_ops_of :: "'k kernel \<Rightarrow> ('u, 'k) fs_ops \<Rightarrow> bm_env \<Rightarrow> filesystem \<Rightarrow> ('u, 'k) fs_ops" where
  "fs_ops_of K U env fs =
     (if fs_name fs = ''normal'' then fs_normal K env else if fs_name fs = ''cramfs'' then fs_cramfs K env
      else if fs_name fs = ''jffs2'' then fs_jffs2 K env else if fs_name fs = ''yaffs2'' then fs_yaffs2 K env else U)"

section \<open>The manager\<close>

text \<open>
  \<open>bm_info\<close> is the static \<open>prepare_info\<close>, \<open>bm_prepared\<close> says that the manager points to it.
  \<open>context_handle\<close> is the name of a registered filesystem. \<open>bm_locked\<close> is the mutex, \<open>bm_open\<close>
  whether the partition table is allocated.
\<close>

record prepare_info =
  write_start :: int
  physical_unit_size :: u32
  logical_unit_size :: u32
  max_size_mapped_in_partition :: int
  context_handle :: "string option"

record ('u, 'k) bm =
  bm_conf :: bm_env
  bm_reg :: fs_registry
  bm_info :: prepare_info
  bm_prepared :: bool
  bm_locked :: bool
  bm_open :: bool
  bm_ubi :: 'u
  bm_world :: "'k world"

definition bm_mach :: "('u, 'k) bm \<Rightarrow> ('u, 'k) mach" where
  "bm_mach bm = (bm_ubi bm, bm_world bm)"

definition bm_put :: "('u, 'k) mach \<Rightarrow> ('u, 'k) bm \<Rightarrow> ('u, 'k) bm" where
  "bm_put m bm = bm\<lparr>bm_ubi := fst m, bm_world := snd m\<rparr>"

text \<open>New filesystem objects are copied from the static ones as they are now.\<close>

definition env_of :: "('u, 'k) bm \<Rightarrow> bm_env" where
  "env_of bm = (bm_conf bm)\<lparr>bm_filesystems := fs_table (bm_reg bm)\<rparr>"

definition fs_put :: "filesystem \<Rightarrow> ('u, 'k) bm \<Rightarrow> ('u, 'k) bm" where
  "fs_put fs bm = bm\<lparr>bm_reg := (bm_reg bm)\<lparr>fs_table := fs_modify (fs_name fs) (\<lambda>_. fs) (fs_table (bm_reg bm))\<rparr>\<rparr>"

section \<open>The partitions\<close>

definition isdigit :: "char \<Rightarrow> bool" where
  "isdigit c \<longleftrightarrow> c \<in> set ''0123456789''"

definition digit_value :: "char \<Rightarrow> nat" where
  "digit_value c = of_char c - of_char (CHR ''0'')"

definition mtd_get_dev_info_by_node :: "bm_env \<Rightarrow> string option \<Rightarrow> mtd_dev option" where
  "mtd_get_dev_info_by_node env mtdchar = find (\<lambda>m. mtdchar = Some (mtd_name m)) (bm_parts env)"

text \<open>
  The entry an \<open>mtdN\<close> name stands for. The test against the count lets through the entry
  behind the last partition, which has only a start.
\<close>

definition mtd_get_dev_info_by_mtdstr :: "bm_env \<Rightarrow> string \<Rightarrow> nat option" where
  "mtd_get_dev_info_by_mtdstr env name =
     (if take 3 name \<noteq> ''mtd'' then None
      else if length name \<noteq> 4 then None
      else if \<not> isdigit (name ! 3) then None
      else let i = digit_value (name ! 3)
           in if i > length (bm_parts env) then None else Some i)"

definition entry_size :: "bm_env \<Rightarrow> nat \<Rightarrow> int" where
  "entry_size env i = (if i < length (bm_parts env) then mtd_size (bm_parts env ! i) else 0)"

definition mtd_get_partition_count :: "bm_env \<Rightarrow> int" where
  "mtd_get_partition_count env = int (length (bm_parts env))"

definition mtd_get_partition_size_by_offset :: "bm_env \<Rightarrow> int \<Rightarrow> int" where
  "mtd_get_partition_size_by_offset env offset =
     (case mtd_get_dev_info_by_offset env offset of None \<Rightarrow> -1 | Some mtd \<Rightarrow> mtd_size mtd)"

definition mtd_get_partition_size_by_name :: "bm_env \<Rightarrow> string \<Rightarrow> int" where
  "mtd_get_partition_size_by_name env name =
     (case mtd_get_dev_info_by_mtdstr env name of None \<Rightarrow> -1 | Some i \<Rightarrow> entry_size env i)"

definition mtd_get_partition_start_by_offset :: "bm_env \<Rightarrow> int \<Rightarrow> int" where
  "mtd_get_partition_start_by_offset env offset =
     (case mtd_get_dev_info_by_offset env offset of None \<Rightarrow> -1 | Some mtd \<Rightarrow> part_start mtd)"

definition mtd_get_partition_start_by_name :: "bm_env \<Rightarrow> string \<Rightarrow> int" where
  "mtd_get_partition_start_by_name env name =
     (case mtd_get_dev_info_by_mtdstr env name of
        None \<Rightarrow> -1
      | Some i \<Rightarrow> (case BM_GET_PARTINFO_START env i of Some s \<Rightarrow> s | None \<Rightarrow> -1))"

definition mtd_get_blocksize_by_offset :: "bm_env \<Rightarrow> int \<Rightarrow> int" where
  "mtd_get_blocksize_by_offset env offset =
     (case mtd_get_dev_info_by_offset env offset of None \<Rightarrow> -1 | Some mtd \<Rightarrow> eb_size mtd)"

definition mtd_get_pagesize_by_offset :: "bm_env \<Rightarrow> int \<Rightarrow> int" where
  "mtd_get_pagesize_by_offset env offset =
     (case mtd_get_dev_info_by_offset env offset of None \<Rightarrow> -1 | Some mtd \<Rightarrow> min_io_size mtd)"

definition mtd_get_block_type_by_offset :: "bm_env \<Rightarrow> int \<Rightarrow> string option" where
  "mtd_get_block_type_by_offset env offset =
     (case mtd_get_dev_info_by_offset env offset of
        None \<Rightarrow> None
      | Some mtd \<Rightarrow> if mtd_type_is_nand mtd then Some ''nand'' else if mtd_type_is_nor mtd then Some ''nor'' else None)"

section \<open>Starting and stopping\<close>

definition user_list :: "string list" where
  "user_list = [''normal'', ''cramfs'', ''jffs2'', ''ubifs'', ''yaffs2'']"

fun install_all :: "string list \<Rightarrow> fs_registry \<Rightarrow> int \<times> fs_registry" where
  "install_all [] reg = (0, reg)"
| "install_all (n # ns) reg =
     (case fs_get_suppoted_by_name n (fs_table reg) of
        None \<Rightarrow> (-1, reg)
      | Some _ \<Rightarrow> let (ret, reg) = fs_register n reg in if ret < 0 then (-1, reg) else install_all ns reg)"

definition mtd_install_filesystem :: "fs_registry \<Rightarrow> int \<times> fs_registry" where
  "mtd_install_filesystem reg = install_all user_list reg"

fun uninstall_all :: "string list \<Rightarrow> fs_registry \<Rightarrow> int \<times> fs_registry" where
  "uninstall_all [] reg = (0, reg)"
| "uninstall_all (n # ns) reg =
     (case fs_get_registered_by_name n reg of
        None \<Rightarrow> uninstall_all ns reg
      | Some _ \<Rightarrow> let (ret, reg) = fs_unregister n reg in if ret < 0 then (-1, reg) else uninstall_all ns reg)"

definition mtd_uninstall_filesystem :: "fs_registry \<Rightarrow> int \<times> fs_registry" where
  "mtd_uninstall_filesystem reg = uninstall_all (rev user_list) reg"

text \<open>
  \<open>mtd_block_init\<close> over what the MTD library reports: \<open>None\<close> when it cannot be opened or
  asked, else one entry per partition (\<open>None\<close> for one that cannot be described), and over the
  results of \<open>open\<close>. Each partition starts where the one before it ends. The lock is taken
  and, when all goes well, kept.
\<close>

fun init_parts ::
  "mtd_dev option list \<Rightarrow> (nat \<Rightarrow> int) \<Rightarrow> nat \<Rightarrow> int \<Rightarrow> mtd_dev list \<Rightarrow> (nat \<Rightarrow> int) \<Rightarrow> bool \<times> int \<times> mtd_dev list \<times> (nat \<Rightarrow> int)" where
  "init_parts [] opens i start parts fd = (True, start, parts, fd)"
| "init_parts (None # ds) opens i start parts fd = (False, start, parts, fd)"
| "init_parts (Some d # ds) opens i start parts fd =
     (if opens i < 0 then (False, start, parts, fd(i := opens i))
      else init_parts ds opens (i + 1) (start + mtd_size d) (parts @ [d\<lparr>part_start := start, part_id := i\<rparr>]) (fd(i := opens i)))"

definition mtd_block_init ::
  "mtd_dev option list option \<Rightarrow> (nat \<Rightarrow> int) \<Rightarrow> ('u, 'k) bm \<Rightarrow> (int \<times> ('u, 'k) bm) option" where
  "mtd_block_init probe opens bm =
     (if bm_locked bm then None
      else case probe of
        None \<Rightarrow> Some (-1, bm)
      | Some ds \<Rightarrow>
          let (ok, start, parts, fd) = init_parts ds opens 0 0 [] (\<lambda>_. 0);
              bm = bm\<lparr>bm_open := True, bm_world := (bm_world bm)\<lparr>fds := fd\<rparr>\<rparr>
          in if ok then Some (0, bm\<lparr>bm_locked := True, bm_conf := (bm_conf bm)\<lparr>bm_parts := parts, bm_end := start\<rparr>\<rparr>)
             else Some (-1, bm))"

fun close_all :: "'k kernel \<Rightarrow> nat list \<Rightarrow> 'k world \<Rightarrow> 'k world" where
  "close_all K [] w = w"
| "close_all K (i # is) w =
     close_all K is (if fds w i \<noteq> 0 then (snd (syscall K (fds w i) CLOSE w))\<lparr>fds := (fds w)(i := 0)\<rparr> else w)"

definition mtd_block_exit :: "'k kernel \<Rightarrow> ('u, 'k) bm \<Rightarrow> int \<times> ('u, 'k) bm" where
  "mtd_block_exit K bm =
     (0, bm\<lparr>bm_locked := False, bm_open := False,
            bm_world := (if bm_open bm then close_all K [0..<length (bm_parts (bm_conf bm))] (bm_world bm) else bm_world bm)\<rparr>)"

section \<open>Preparing an operation\<close>

text \<open>An \<open>int64_t\<close> stored in an \<open>int\<close>.\<close>

definition to_int :: "int \<Rightarrow> int" where
  "to_int x = sint (word_of_int x :: 32 word)"

record operation_option =
  opt_method :: int
  opt_filetype :: string

definition prepare_convert_params ::
  "bm_env \<Rightarrow> filesystem \<Rightarrow> int \<Rightarrow> int \<Rightarrow> operation_option option \<Rightarrow> filesystem option" where
  "prepare_convert_params env fs offset len opt =
     (case mtd_get_dev_info_by_offset env offset of
        None \<Rightarrow> None
      | Some mtd \<Rightarrow>
          if params fs = None then None
          else Some (fs_set_params fs [] offset len
                       (case opt of None \<Rightarrow> BM_OPERATION_METHOD_RANDOM | Some q \<Rightarrow> opt_method q) (Some mtd)))"

text \<open>
  The manager points to the static record before its new contents have been judged; a refusal
  leaves the old context in it.
\<close>

definition mtd_get_prepare_info ::
  "filesystem \<Rightarrow> int \<Rightarrow> u32 \<Rightarrow> u32 \<Rightarrow> int \<Rightarrow> ('u, 'k) bm \<Rightarrow> (prepare_info option \<times> ('u, 'k) bm) option" where
  "mtd_get_prepare_info fs start phys leb mapped bm =
     (let info = (bm_info bm)\<lparr>write_start := start, physical_unit_size := phys, logical_unit_size := leb,
                             max_size_mapped_in_partition := mapped\<rparr>;
          bm = bm\<lparr>bm_prepared := True, bm_info := info\<rparr>
      in if start < 0 \<or> phys = 0 \<or> leb = 0 \<or> mapped < 0 then Some (None, bm)
         else case params fs of
                None \<Rightarrow> None
              | Some p \<Rightarrow>
                  let info = info\<lparr>context_handle := Some (fs_name fs)\<rparr>;
                      fs = fs\<lparr>params := Some (p\<lparr>p_content_start := start, p_progress_size := 0, p_max_size := p_length p,
                                                 p_max_mapped_size := mapped\<rparr>)\<rparr>
                  in Some (Some info, fs_put fs (bm\<lparr>bm_info := info\<rparr>)))"

text \<open>
  The list head of the manager the program uses is a copy of the static one, so a search for
  a filetype that is not registered runs past its end. A failure to convert the parameters
  is not looked at, so the operation is prepared with those of the last one.
\<close>

definition mtd_block_prepare ::
  "'k kernel \<Rightarrow> ('u, 'k) fs_ops \<Rightarrow> int \<Rightarrow> int \<Rightarrow> operation_option option \<Rightarrow> ('u, 'k) bm \<Rightarrow>
     (prepare_info option \<times> ('u, 'k) bm) option" where
  "mtd_block_prepare K U offset len opt bm =
     (case fs_get_registered_by_name (case opt of None \<Rightarrow> ''normal'' | Some q \<Rightarrow> opt_filetype q) (bm_reg bm) of
        None \<Rightarrow> None
      | Some fs \<Rightarrow>
          let fs = (case prepare_convert_params (env_of bm) fs offset len opt of None \<Rightarrow> fs | Some fs \<Rightarrow> fs);
              bm = fs_put fs bm;
              ops = fs_ops_of K U (env_of bm) fs
          in case op_start ops fs (bm_mach bm) of None \<Rightarrow> None | Some (start, m) \<Rightarrow>
             case op_leb_size ops fs m of None \<Rightarrow> None | Some (leb, m) \<Rightarrow>
             case op_max_mapped ops fs m of None \<Rightarrow> None | Some (mapped, m) \<Rightarrow>
             mtd_get_prepare_info fs start (word_of_int (mtd_get_blocksize_by_offset (env_of bm) offset)) leb mapped (bm_put m bm))"

definition mtd_get_prepare_leb_size :: "('u, 'k) bm \<Rightarrow> u32" where
  "mtd_get_prepare_leb_size bm = (if \<not> bm_prepared bm then 0 else logical_unit_size (bm_info bm))"

definition mtd_get_prepare_write_start :: "('u, 'k) bm \<Rightarrow> int" where
  "mtd_get_prepare_write_start bm = (if \<not> bm_prepared bm then -1 else write_start (bm_info bm))"

definition mtd_get_max_size_mapped_in :: "('u, 'k) bm \<Rightarrow> int" where
  "mtd_get_max_size_mapped_in bm = (if \<not> bm_prepared bm then -1 else max_size_mapped_in_partition (bm_info bm))"

section \<open>Operations\<close>

text \<open>The filesystem of the context, with the parameters of the transfer; \<open>Inl\<close> is a null result.\<close>

definition data_transfer_params_set ::
  "int \<Rightarrow> u8 list \<Rightarrow> int \<Rightarrow> ('u, 'k) bm \<Rightarrow> (unit + filesystem) option" where
  "data_transfer_params_set offset buf len bm =
     (if \<not> bm_prepared bm then Some (Inl ())
      else case context_handle (bm_info bm) of
        None \<Rightarrow> Some (Inl ())
      | Some n \<Rightarrow>
          (case fs_find n (fs_table (bm_reg bm)) of None \<Rightarrow> None | Some fs \<Rightarrow>
           case params fs of None \<Rightarrow> None | Some p \<Rightarrow>
           Some (Inr (fs\<lparr>params := Some (p\<lparr>p_offset := offset, p_buf := buf, p_length := len\<rparr>)\<rparr>))))"

text \<open>The result of an operation goes through an \<open>int\<close>.\<close>

definition narrow :: "int \<Rightarrow> int" where
  "narrow r = (if to_int r < 0 then -1 else to_int r)"

definition run_op ::
  "(('u, 'k) fs_ops \<Rightarrow> filesystem \<Rightarrow> ('u, 'k) mach \<Rightarrow> (int \<times> filesystem \<times> ('u, 'k) mach) option) \<Rightarrow>
     'k kernel \<Rightarrow> ('u, 'k) fs_ops \<Rightarrow> int \<Rightarrow> u8 list \<Rightarrow> int \<Rightarrow> ('u, 'k) bm \<Rightarrow> (int \<times> ('u, 'k) bm) option" where
  "run_op sel K U offset buf len bm =
     (case data_transfer_params_set offset buf len bm of
        None \<Rightarrow> None
      | Some (Inl _) \<Rightarrow> Some (-1, bm)
      | Some (Inr fs) \<Rightarrow>
          map_option (\<lambda>(r, fs, m). (narrow r, fs_put fs (bm_put m bm)))
            (sel (fs_ops_of K U (env_of (fs_put fs bm)) fs) fs (bm_mach bm)))"

definition mtd_block_erase :: "'k kernel \<Rightarrow> ('u, 'k) fs_ops \<Rightarrow> int \<Rightarrow> int \<Rightarrow> ('u, 'k) bm \<Rightarrow> (int \<times> ('u, 'k) bm) option" where
  "mtd_block_erase K U offset len = run_op op_erase K U offset [] len"

definition mtd_block_write ::
  "'k kernel \<Rightarrow> ('u, 'k) fs_ops \<Rightarrow> int \<Rightarrow> u8 list \<Rightarrow> int \<Rightarrow> ('u, 'k) bm \<Rightarrow> (int \<times> ('u, 'k) bm) option" where
  "mtd_block_write K U = run_op op_write K U"

definition mtd_block_read ::
  "'k kernel \<Rightarrow> ('u, 'k) fs_ops \<Rightarrow> int \<Rightarrow> int \<Rightarrow> ('u, 'k) bm \<Rightarrow> (int \<times> u8 list \<times> ('u, 'k) bm) option" where
  "mtd_block_read K U offset len bm =
     (case data_transfer_params_set offset [] len bm of
        None \<Rightarrow> None
      | Some (Inl _) \<Rightarrow> Some (-1, [], bm)
      | Some (Inr fs) \<Rightarrow>
          map_option (\<lambda>(r, bs, m). (narrow r, bs, fs_put fs (bm_put m bm)))
            (op_read (fs_ops_of K U (env_of (fs_put fs bm)) fs) fs (bm_mach bm)))"

text \<open>These two read the context through the pointer without testing it.\<close>

definition the_context :: "('u, 'k) bm \<Rightarrow> (unit + filesystem) option" where
  "the_context bm =
     (if \<not> bm_prepared bm then None
      else case context_handle (bm_info bm) of
             None \<Rightarrow> Some (Inl ())
           | Some n \<Rightarrow> map_option Inr (fs_find n (fs_table (bm_reg bm))))"

definition mtd_block_format :: "'k kernel \<Rightarrow> ('u, 'k) fs_ops \<Rightarrow> ('u, 'k) bm \<Rightarrow> (int \<times> ('u, 'k) bm) option" where
  "mtd_block_format K U bm =
     (case the_context bm of
        None \<Rightarrow> None
      | Some (Inl _) \<Rightarrow> Some (-1, bm)
      | Some (Inr fs) \<Rightarrow>
          (case op_format (fs_ops_of K U (env_of bm) fs) of
             None \<Rightarrow> Some (-1, bm)
           | Some f \<Rightarrow> map_option (\<lambda>(r, fs, m). (to_int r, fs_put fs (bm_put m bm))) (f fs (bm_mach bm))))"

definition mtd_put_prepare_info :: "('u, 'k) bm \<Rightarrow> int \<times> ('u, 'k) bm" where
  "mtd_put_prepare_info bm = (if context_handle (bm_info bm) = None then (-1, bm) else (0, bm\<lparr>bm_prepared := False\<rparr>))"

definition mtd_block_finish :: "'k kernel \<Rightarrow> ('u, 'k) fs_ops \<Rightarrow> ('u, 'k) bm \<Rightarrow> (int \<times> ('u, 'k) bm) option" where
  "mtd_block_finish K U bm =
     (case the_context bm of
        None \<Rightarrow> None
      | Some (Inl _) \<Rightarrow> Some (-1, bm)
      | Some (Inr fs) \<Rightarrow>
          (case op_done (fs_ops_of K U (env_of bm) fs) of
             None \<Rightarrow> Some (0, snd (mtd_put_prepare_info bm))
           | Some f \<Rightarrow> map_option (\<lambda>(r, m). (r, snd (mtd_put_prepare_info (bm_put m bm)))) (f fs (bm_mach bm))))"

text \<open>Erases every partition, bad blocks included, after a scan that records them.\<close>

fun chip_erase_parts :: "'k kernel \<Rightarrow> bm_env \<Rightarrow> mtd_dev list \<Rightarrow> filesystem \<Rightarrow> 'k world \<Rightarrow> (int \<times> 'k world) option" where
  "chip_erase_parts K env [] fs w = Some (0, w)"
| "chip_erase_parts K env (mtd # ms) fs w =
     (let fs = fs_set_params fs [] (part_start mtd) (mtd_size mtd) BM_OPERATION_METHOD_PARTITION (Some mtd)
      in if bm_name env = ''mtd'' then
           (case mtd_block_scan K env (FS_FLAG_CLEAR FS_FLAG_NOSKIPBAD fs) w of None \<Rightarrow> None | Some (mapped, w) \<Rightarrow>
            if mapped \<le> 0 then Some (-1, w)
            else case mtd_basic_erase K env (FS_FLAG_SET FS_FLAG_NOSKIPBAD fs) w of None \<Rightarrow> None | Some (ret, w) \<Rightarrow>
                 if ret < 0 then Some (-1, w)
                 else chip_erase_parts K env ms (FS_FLAG_SET FS_FLAG_NOSKIPBAD fs) w)
         else chip_erase_parts K env ms fs w)"

definition mtd_chip_erase :: "'k kernel \<Rightarrow> ('u, 'k) bm \<Rightarrow> (int \<times> ('u, 'k) bm) option" where
  "mtd_chip_erase K bm =
     (case fs_new ''normal'' (fs_table (bm_reg bm)) of
        None \<Rightarrow> Some (-1, bm)
      | Some fs \<Rightarrow> map_option (\<lambda>(r, w). (r, bm\<lparr>bm_world := w\<rparr>))
                     (chip_erase_parts K (env_of bm) (bm_parts (bm_conf bm)) fs (bm_world bm)))"

end
