(* ===== verification/BlockManager.thy ===== *)
theory BlockManager
  imports Mtd CStrings
begin

text \<open>
  The registry of block managers and the construction of the one the program uses,
  \<open>client/recovery/block/block_manager.c\<close>, with the entry points \<open>mtd_manager_init\<close> and
  \<open>mtd_manager_destroy\<close> of \<open>block/blocks/mtd/mtd.c\<close>. A registered manager is its name; the
  static MTD manager is the record of \<open>Mtd\<close>. What the platform is, what the MTD library
  reports and what \<open>open\<close> returns are parameters.
\<close>

section \<open>The registry\<close>

definition register_block_manager :: "string \<Rightarrow> string list \<Rightarrow> int \<times> string list" where
  "register_block_manager n ms = (if n \<in> set ms then (-1, ms) else (0, ms @ [n]))"

definition unregister_block_manager :: "string \<Rightarrow> string list \<Rightarrow> int \<times> string list" where
  "unregister_block_manager n ms = (if n \<in> set ms then (0, remove1 n ms) else (-1, ms))"

definition get_block_manager :: "string \<Rightarrow> string list \<Rightarrow> string option" where
  "get_block_manager n ms = find (\<lambda>m. m = n) ms"

section \<open>Options and names\<close>

fun comma_list :: "string list \<Rightarrow> string" where
  "comma_list [] = ''''"
| "comma_list [s] = s"
| "comma_list (s # ss) = s @ '','' @ comma_list ss"

definition get_supported_filetype :: string where
  "get_supported_filetype = ''['' @ comma_list user_list @ '']''"

text \<open>The option as it is left: the method is stored before the filetype is judged.\<close>

definition set_operation_option :: "operation_option option \<Rightarrow> int \<Rightarrow> string \<Rightarrow> int \<times> operation_option option" where
  "set_operation_option opt method filetype =
     (case opt of
        None \<Rightarrow> (-1, None)
      | Some q \<Rightarrow>
          let q = q\<lparr>opt_method := method\<rparr>
          in if length filetype > 19 then (-1, Some q) else (0, Some (q\<lparr>opt_filetype := filetype\<rparr>)))"

fun operation_to_string :: "bm_operation \<Rightarrow> string" where
  "operation_to_string BM_OPERATION_ERASE = ''Earse''"
| "operation_to_string BM_OPERATION_WRITE = ''Write''"
| "operation_to_string BM_OPERATION_READ = ''Read''"
| "operation_to_string BM_OPERATION_ERASE_WRITE = ''Earse write''"
| "operation_to_string BM_OPERATION_FORMAT = ''Format''"

section \<open>Construction\<close>

text \<open>\<open>XBURST\<close> is the platform whose system areas the program keeps.\<close>

record ('u, 'k) block_managers =
  managers :: "string list"
  static_mtd :: "('u, 'k) bm"

definition mtd_manager_init ::
  "mtd_dev option list option \<Rightarrow> (nat \<Rightarrow> int) \<Rightarrow> ('u, 'k) block_managers \<Rightarrow> (int \<times> ('u, 'k) block_managers) option" where
  "mtd_manager_init probe opens s =
     (case mtd_block_init probe opens (static_mtd s) of
        None \<Rightarrow> None
      | Some (ret, bm) \<Rightarrow>
          let s = s\<lparr>static_mtd := bm\<rparr>
          in if ret \<noteq> 0 then Some (-1, s)
             else let (ret, ms) = register_block_manager ''mtd'' (managers s); s = s\<lparr>managers := ms\<rparr>
                  in if ret \<noteq> 0 then Some (-1, s)
                     else let (ret, reg) = mtd_install_filesystem (bm_reg bm)
                          in Some (if ret \<noteq> 0 then -1 else 0, s\<lparr>static_mtd := bm\<lparr>bm_reg := reg\<rparr>\<rparr>))"

text \<open>
  The manager handed out is a copy of the static one. A failure, or another manager than
  the MTD one, ends the program.
\<close>

definition construct_block_manager ::
  "mtd_dev option list option \<Rightarrow> (nat \<Rightarrow> int) \<Rightarrow> bool \<Rightarrow> string \<Rightarrow> bool \<Rightarrow> ('u, 'k) block_managers \<Rightarrow>
     (('u, 'k) bm \<times> ('u, 'k) block_managers) option" where
  "construct_block_manager probe opens xburst blockname listening s =
     (case mtd_manager_init probe opens s of
        None \<Rightarrow> None
      | Some (ret, s) \<Rightarrow>
          if ret < 0 then None
          else (case get_block_manager blockname (managers s) of
                  None \<Rightarrow> None
                | Some _ \<Rightarrow>
                    let bm = static_mtd s;
                        bm = bm\<lparr>bm_conf := (bm_conf bm)\<lparr>bm_listening := listening\<rparr>\<rparr>;
                        s = s\<lparr>static_mtd := bm\<rparr>
                    in Some (bm\<lparr>bm_conf := (bm_conf bm)\<lparr>bm_sysinfo := xburst\<rparr>\<rparr>, s)))"

definition mtd_manager_destroy :: "'k kernel \<Rightarrow> ('u, 'k) block_managers \<Rightarrow> int \<times> ('u, 'k) block_managers" where
  "mtd_manager_destroy K s =
     (let (ret, reg) = mtd_uninstall_filesystem (bm_reg (static_mtd s));
          s = s\<lparr>static_mtd := (static_mtd s)\<lparr>bm_reg := reg\<rparr>\<rparr>
      in if ret \<noteq> 0 then (-1, s)
         else let (ret, ms) = unregister_block_manager ''mtd'' (managers s); s = s\<lparr>managers := ms\<rparr>
              in if ret \<noteq> 0 then (-1, s)
                 else let (ret, bm) = mtd_block_exit K (static_mtd s) in (if ret \<noteq> 0 then -1 else 0, s\<lparr>static_mtd := bm\<rparr>))"

text \<open>The copy \<open>bm\<close> and the static manager share the kernel and the table of descriptors.\<close>

definition destruct_block_manager ::
  "'k kernel \<Rightarrow> ('u, 'k) bm \<Rightarrow> ('u, 'k) block_managers \<Rightarrow> ('u, 'k) block_managers option" where
  "destruct_block_manager K bm s =
     (case (if bm_sysinfo (bm_conf bm) then sysinfo_exit (bm_world bm) else Some (0, bm_world bm)) of
        None \<Rightarrow> None
      | Some (ret, w) \<Rightarrow>
          if ret < 0 then None
          else let (ret, s) = mtd_manager_destroy K (s\<lparr>static_mtd := (static_mtd s)\<lparr>bm_world := w\<rparr>\<rparr>)
               in if ret < 0 then None else Some s)"

section \<open>The partitions\<close>

text \<open>Each partition starts where the one before it ends, from \<open>start\<close> on.\<close>

fun tiled :: "int \<Rightarrow> nat \<Rightarrow> mtd_dev list \<Rightarrow> bool" where
  "tiled start i [] = True"
| "tiled start i (p # ps) = (part_start p = start \<and> part_id p = i \<and> tiled (start + mtd_size p) (i + 1) ps)"

definition total_size :: "mtd_dev list \<Rightarrow> int" where
  "total_size ps = sum_list (map mtd_size ps)"

lemma tiled_snoc: "tiled start i ps \<Longrightarrow> part_start p = start + total_size ps \<Longrightarrow> part_id p = i + length ps \<Longrightarrow> tiled start i (ps @ [p])"
  by (induction ps arbitrary: start i) (auto simp: total_size_def algebra_simps)

lemma init_parts_tiled:
  "init_parts ds opens i start parts fd = (True, fin, parts', fd') \<Longrightarrow> tiled 0 0 parts \<Longrightarrow> start = total_size parts \<Longrightarrow> i = length parts \<Longrightarrow>
    tiled 0 0 parts' \<and> fin = total_size parts' \<and> map Some (map mtd_size parts') = map Some (map mtd_size parts) @ map (map_option mtd_size) ds"
proof (induction ds opens i start parts fd rule: init_parts.induct)
  case (3 d ds opens i start parts fd)
  have "tiled 0 0 (parts @ [d\<lparr>part_start := start, part_id := i\<rparr>])"
    using 3(3,4,5) by (intro tiled_snoc) simp_all
  then show ?case using 3 by (auto simp: total_size_def fun_upd_def split: if_splits)
qed auto

lemma dev_by_offset_tiled:
  assumes "tiled start i ps" "start \<le> off" "\<forall>p\<in>set ps. 0 \<le> mtd_size p"
  shows "case dev_by_offset ps start off of
      None \<Rightarrow> start + total_size ps \<le> off
    | Some p \<Rightarrow> p \<in> set ps \<and> part_start p \<le> off \<and> off < part_start p + mtd_size p"
  using assms
proof (induction ps arbitrary: start i)
  case Nil
  then show ?case by (simp add: total_size_def)
next
  case (Cons p ps)
  show ?case
  proof (cases "off < start + mtd_size p")
    case True
    then show ?thesis using Cons.prems by simp
  next
    case False
    then show ?thesis
      using Cons.IH [of "start + mtd_size p" "i + 1"] Cons.prems
      by (auto simp: total_size_def algebra_simps split: option.splits)
  qed
qed

text \<open>
  C33. The partition table covers the flash. After \<open>mtd_block_init\<close> has succeeded the
  partitions, with the sizes the kernel reports, tile the flash from 0: the partition the
  manager finds for an offset is the one the offset lies in, and it finds one for every
  offset below the capacity and for none above.
\<close>

theorem mtd_block_init_tiles:
  assumes "mtd_block_init (Some ds) opens bm = Some (0, bm')" "\<forall>d\<in>set ds. \<forall>m. d = Some m \<longrightarrow> 0 \<le> mtd_size m" "0 \<le> off"
  shows "map Some (map mtd_size (bm_parts (bm_conf bm'))) = map (map_option mtd_size) ds \<and>
    bm_end (bm_conf bm') = mtd_get_capacity (bm_conf bm') \<and>
    (case mtd_get_dev_info_by_offset (bm_conf bm') off of
       None \<Rightarrow> mtd_get_capacity (bm_conf bm') \<le> off
     | Some p \<Rightarrow> p \<in> set (bm_parts (bm_conf bm')) \<and> part_start p \<le> off \<and> off < part_start p + mtd_size p)"
proof -
  obtain ok fin ps fd where i: "init_parts ds opens 0 0 [] (\<lambda>_. 0) = (ok, fin, ps, fd)" by (metis prod_cases4)
  have ok: "ok" "bm_parts (bm_conf bm') = ps" "bm_end (bm_conf bm') = fin"
    using assms(1) i by (auto simp: mtd_block_init_def Let_def split: if_splits)
  have t: "tiled 0 0 ps" "fin = total_size ps" "map Some (map mtd_size ps) = map (map_option mtd_size) ds"
    using init_parts_tiled [of ds opens 0 0 "[]" "\<lambda>_. 0" fin ps fd] i ok(1) by (simp_all add: total_size_def)
  have nonneg: "\<forall>p\<in>set ps. 0 \<le> mtd_size p"
  proof
    fix p assume "p \<in> set ps"
    then have "Some (mtd_size p) \<in> set (map Some (map mtd_size ps))" by simp
    then have "Some (mtd_size p) \<in> map_option mtd_size ` set ds" unfolding t(3) by simp
    then obtain d where "d \<in> set ds" "map_option mtd_size d = Some (mtd_size p)" by (metis imageE)
    then show "0 \<le> mtd_size p" using assms(2) by auto
  qed
  show ?thesis
    using dev_by_offset_tiled [OF t(1) assms(3) nonneg] t(2,3)
    by (simp add: ok mtd_get_dev_info_by_offset_def mtd_get_capacity_def total_size_def split: option.splits)
qed

section \<open>The life of a manager\<close>

interpretation bmr: named_registry register_block_manager unregister_block_manager set "\<lambda>_. UNIV" distinct
  by unfold_locales (auto simp: register_block_manager_def unregister_block_manager_def split: if_splits)

lemma install_all_registers:
  "registry_sound reg \<Longrightarrow> set ns \<subseteq> known_fs reg \<Longrightarrow>
    \<exists>reg'. install_all ns reg = (0, reg') \<and> registry_sound reg' \<and> set (fs_registered reg') = set (fs_registered reg) \<union> set ns \<and>
      known_fs reg' = known_fs reg"
proof (rule fsr.add_all)
  fix n ns r assume "registry_sound r" "n \<in> known_fs r"
  moreover obtain r' where "fs_register n r = (0, r')" using fs_register_succeeds by blast
  ultimately show "\<exists>r'. fs_register n r = (0, r') \<and> install_all (n # ns) r = install_all ns r'"
    by (auto simp: known_fs_find fs_get_suppoted_by_name_def)
qed simp_all

lemma uninstall_all_unregisters:
  "registry_sound reg \<Longrightarrow>
    \<exists>reg'. uninstall_all ns reg = (0, reg') \<and> registry_sound reg' \<and> set (fs_registered reg') = set (fs_registered reg) - set ns"
proof (rule fsr.del_all)
  fix n ns r assume "registry_sound r"
  then have "fs_get_registered_by_name n r = None \<longleftrightarrow> n \<notin> set (fs_registered r)"
    using known_fs_find [of n r] by (auto simp: fs_get_registered_by_name_def registry_sound_def)
  then show "uninstall_all (n # ns) r =
      (if n \<in> set (fs_registered r) then let (c, r) = fs_unregister n r in if c < 0 then (-1, r) else uninstall_all ns r
       else uninstall_all ns r)" by (auto split: option.split)
qed simp_all


lemma init_parts_fds:
  "init_parts ds opens i start parts fd = (ok, fin, parts', fd') \<Longrightarrow> i = length parts \<Longrightarrow> \<forall>j\<ge>i. fd j = 0 \<Longrightarrow>
    ok \<Longrightarrow> \<forall>j\<ge>length parts'. fd' j = 0"
proof (induction ds opens i start parts fd rule: init_parts.induct)
  case (3 d ds opens i start parts fd)
  then show ?case by (auto simp: fun_upd_def split: if_splits)
qed auto

lemma close_all_layout: "layout (close_all K is w) = layout w"
proof (induction K "is" w rule: close_all.induct)
  case (2 K i "is" w)
  obtain r w' where "syscall K (fds w i) CLOSE w = (r, w')" by (metis surj_pair)
  with 2 syscall_fields(9) [OF this] show ?case by simp
qed simp

lemma close_all_fds: "fds (close_all K is w) j = (if j \<in> set is then 0 else fds w j)"
proof (induction K "is" w rule: close_all.induct)
  case (2 K i "is" w)
  obtain r w' where "syscall K (fds w i) CLOSE w = (r, w')" by (metis surj_pair)
  with 2 syscall_fields(6) [OF this] show ?case by auto
qed simp

lemma mtd_manager_init_state:
  assumes "mtd_manager_init (Some ds) opens s = Some (ret, s')" "0 \<le> ret" "managers s = []"
    and "fs_registered (bm_reg (static_mtd s)) = []" "set user_list \<subseteq> known_fs (bm_reg (static_mtd s))"
  shows "managers s' = [''mtd''] \<and> registry_sound (bm_reg (static_mtd s')) \<and>
    set (fs_registered (bm_reg (static_mtd s'))) = set user_list \<and> bm_locked (static_mtd s') \<and> bm_open (static_mtd s') \<and>
    layout (bm_world (static_mtd s')) = layout (bm_world (static_mtd s)) \<and>
    (\<forall>j\<ge>length (bm_parts (bm_conf (static_mtd s'))). fds (bm_world (static_mtd s')) j = 0)"
proof -
  obtain ok fin ps fd where i: "init_parts ds opens 0 0 [] (\<lambda>_. 0) = (ok, fin, ps, fd)" by (metis prod_cases4)
  have sound: "registry_sound (bm_reg (static_mtd s))" using assms(4) by (simp add: registry_sound_def)
  obtain reg' where reg': "install_all user_list (bm_reg (static_mtd s)) = (0, reg')" "registry_sound reg'"
      "set (fs_registered reg') = set user_list"
    using install_all_registers [OF sound assms(5)] assms(4) by auto
  have ok: "ok" "\<not> bm_locked (static_mtd s)"
    using assms(1,2) i by (auto simp: mtd_manager_init_def mtd_block_init_def Let_def split: if_splits)
  show ?thesis
    using assms(1-3) reg' init_parts_fds [OF i] ok i
    by (auto simp: mtd_manager_init_def mtd_block_init_def mtd_install_filesystem_def register_block_manager_def)
qed

text \<open>
  C34. The life of the manager. Once constructed the manager is the only one registered, with
  exactly the five filesystems of the program, and it keeps the lock of the MTD layer: a second
  construction never returns. Its destruction succeeds whatever the kernel answers, takes the
  filesystems and the manager out of their registries again, closes every descriptor and
  releases the lock.
\<close>

theorem block_manager_life:
  assumes "construct_block_manager (Some ds) opens xburst n listening s = Some (bm, s')" "managers s = []"
    and "fs_registered (bm_reg (static_mtd s)) = []" "set user_list \<subseteq> known_fs (bm_reg (static_mtd s))"
    and "\<forall>l\<in>set (layout (bm_world (static_mtd s))). si_value l \<noteq> Freed"
  shows "n = ''mtd'' \<and> managers s' = [''mtd''] \<and> set (fs_registered (bm_reg bm)) = set user_list \<and>
    construct_block_manager probe opens' xburst' n' listening' s' = None \<and>
    (\<exists>s''. destruct_block_manager K bm s' = Some s'' \<and> managers s'' = [] \<and> fs_registered (bm_reg (static_mtd s'')) = [] \<and>
       (\<forall>i. fds (bm_world (static_mtd s'')) i = 0) \<and> \<not> bm_locked (static_mtd s'') \<and> \<not> bm_open (static_mtd s''))"
proof -
  obtain ret s1 where i: "mtd_manager_init (Some ds) opens s = Some (ret, s1)" "0 \<le> ret"
    using assms(1) by (auto simp: construct_block_manager_def split: option.splits if_splits)
  note st = mtd_manager_init_state [OF i assms(2-4)]
  have n: "n = ''mtd''"
    and s': "s' = s1\<lparr>static_mtd := (static_mtd s1)\<lparr>bm_conf := (bm_conf (static_mtd s1))\<lparr>bm_listening := listening\<rparr>\<rparr>\<rparr>"
    and bm: "bm = (static_mtd s1)\<lparr>bm_conf := (bm_conf (static_mtd s1))\<lparr>bm_listening := listening, bm_sysinfo := xburst\<rparr>\<rparr>"
    using assms(1) i st by (auto simp: construct_block_manager_def get_block_manager_def Let_def split: if_splits)
  obtain w where w: "(if bm_sysinfo (bm_conf bm) then sysinfo_exit (bm_world bm) else Some (0, bm_world bm)) = Some (0, w)"
      "fds w = fds (bm_world (static_mtd s1))"
    using assms(5) st by (cases xburst) (auto simp: bm sysinfo_exit_def)
  obtain reg where reg: "uninstall_all (rev user_list) (bm_reg (static_mtd s1)) = (0, reg)" "set (fs_registered reg) = {}"
    using uninstall_all_unregisters [of "bm_reg (static_mtd s1)" "rev user_list"] st by auto
  have "construct_block_manager probe opens' xburst' n' listening' s' = None"
    using st by (simp add: s' construct_block_manager_def mtd_manager_init_def mtd_block_init_def)
  moreover have "\<exists>s''. destruct_block_manager K bm s' = Some s'' \<and> managers s'' = [] \<and> fs_registered (bm_reg (static_mtd s'')) = [] \<and>
       (\<forall>i. fds (bm_world (static_mtd s'')) i = 0) \<and> \<not> bm_locked (static_mtd s'') \<and> \<not> bm_open (static_mtd s'')"
    using st reg w(2) unfolding destruct_block_manager_def w(1)
    by (simp add: s' mtd_manager_destroy_def mtd_uninstall_filesystem_def Let_def unregister_block_manager_def mtd_block_exit_def close_all_fds)
  ultimately show ?thesis using n st by (simp add: s' bm)
qed

section \<open>Witnesses\<close>

text \<open>Two partitions of sixteen bytes; the kernel answers 0 to every call.\<close>

definition life_mtd :: mtd_dev where
  "life_mtd = \<lparr>mtd_name = ''life'', mtd_type = NANDFLASH, mtd_size = 16, eb_size = 4, eb_cnt = 4, min_io_size = 2,
     subpage_size = 2, oob_size = 1, bb_allowed = True, part_start = 0, part_id = 0\<rparr>"

definition life_start :: "(unit, unit) block_managers" where
  "life_start = \<lparr>managers = [], static_mtd =
     \<lparr>bm_conf = \<lparr>bm_name = ''mtd'', bm_parts = [], bm_end = 0, bm_listening = False, bm_sysinfo = False, bm_filesystems = []\<rparr>,
      bm_reg = \<lparr>fs_table = fs_supported_list, fs_registered = []\<rparr>,
      bm_info = \<lparr>write_start = 0, physical_unit_size = 0, logical_unit_size = 0, max_size_mapped_in_partition = 0, context_handle = None\<rparr>,
      bm_prepared = False, bm_locked = False, bm_open = False, bm_ubi = (),
      bm_world = \<lparr>kern = (), trace = [], errno = 0, offs64 = OFFS64_IOCTLS_UNKNOWN, fds = (\<lambda>_. 0), block_map = None,
        events = [], layout = []\<rparr>\<rparr>\<rparr>"

theorem mtd_block_init_tiles_witness:
  "\<exists>bm'. mtd_block_init (Some [Some life_mtd, Some life_mtd]) (\<lambda>i. 3 + int i) (static_mtd life_start) = Some (0, bm') \<and>
     mtd_get_capacity (bm_conf bm') = 32 \<and> mtd_get_dev_info_by_offset (bm_conf bm') 20 \<noteq> None"
proof -
  obtain bm' where bm': "mtd_block_init (Some [Some life_mtd, Some life_mtd]) (\<lambda>i. 3 + int i) (static_mtd life_start) = Some (0, bm')"
      "mtd_get_capacity (bm_conf bm') = 32"
    by (simp add: mtd_block_init_def life_start_def life_mtd_def mtd_get_capacity_def)
  then show ?thesis
    using mtd_block_init_tiles [OF bm'(1), of 20] by (auto simp: life_mtd_def split: option.splits)
qed

theorem block_manager_life_witness:
  "\<exists>bm s'. construct_block_manager (Some [Some life_mtd]) (\<lambda>_. 3) True ''mtd'' False life_start = Some (bm, s') \<and>
     construct_block_manager None (\<lambda>_. 3) True ''mtd'' False s' = None \<and>
     (\<exists>s''. destruct_block_manager (\<lambda>_ _ _. (\<lparr>rep_ret = 0, rep_errno = 0, rep_bytes = [], rep_autoplace = False, rep_eccbytes = 0,
        rep_oobfree = []\<rparr>, ())) bm s' = Some s'' \<and> managers s'' = [])"
proof -
  have u: "set user_list \<subseteq> known_fs (bm_reg (static_mtd life_start))"
    by (simp add: life_start_def known_fs_def user_list_def fs_supported_list_def static_fs_def)
  then obtain reg where reg: "install_all user_list (bm_reg (static_mtd life_start)) = (0, reg)"
    using install_all_registers [of "bm_reg (static_mtd life_start)" user_list] by (auto simp: registry_sound_def life_start_def)
  obtain bm s' where c: "construct_block_manager (Some [Some life_mtd]) (\<lambda>_. 3) True ''mtd'' False life_start = Some (bm, s')"
    using reg by (simp add: construct_block_manager_def mtd_manager_init_def mtd_block_init_def mtd_install_filesystem_def
        register_block_manager_def get_block_manager_def life_start_def)
  show ?thesis
    using c block_manager_life [OF c _ _ u] by (fastforce simp: life_start_def)
qed

end
