(* ===== verification/FileOps.thy ===== *)
theory FileOps
  imports Scan CStrings
begin

text \<open>
  The file helpers of \<open>client/recovery/utils/file_ops.c\<close>. What the operating system
  answers is the record \<open>platform\<close>, over a state of files the calls may change; names and
  error numbers are those of the system calls. \<open>dir_delete\<close> recurses over what
  \<open>readdir\<close> lists, which nothing bounds, so that not returning is the value \<open>None\<close>.
\<close>

section \<open>The platform\<close>

text \<open>
  \<open>pf_access\<close> is 0 or the error number; \<open>pf_size\<close> is \<open>st_size\<close> after a successful
  \<open>stat\<close>; \<open>pf_is_dir\<close> says after a successful \<open>lstat\<close> whether the path is a directory;
  \<open>pf_entries\<close> is what \<open>readdir\<close> lists after a successful \<open>opendir\<close>. The calls that
  change files return 0 or the error number.
\<close>

record 'p platform =
  pf_access :: "'p \<Rightarrow> string \<Rightarrow> int"
  pf_access_x :: "'p \<Rightarrow> string \<Rightarrow> int"
  pf_size :: "'p \<Rightarrow> string \<Rightarrow> int option"
  pf_is_dir :: "'p \<Rightarrow> string \<Rightarrow> bool option"
  pf_entries :: "'p \<Rightarrow> string \<Rightarrow> string list option"
  pf_content :: "'p \<Rightarrow> string \<Rightarrow> u8 list option"
  pf_mkdir :: "string \<Rightarrow> 'p \<Rightarrow> int \<times> 'p"
  pf_rmdir :: "string \<Rightarrow> 'p \<Rightarrow> int \<times> 'p"
  pf_unlink :: "string \<Rightarrow> 'p \<Rightarrow> int \<times> 'p"

definition ENOENT :: int where "ENOENT = 2"
definition PATH_MAX :: nat where "PATH_MAX = 4096"

section \<open>Files\<close>

definition file_exist :: "('p, 'z) platform_scheme \<Rightarrow> string \<Rightarrow> 'p \<Rightarrow> int" where
  "file_exist P path p = - pf_access P p path"

definition file_executable :: "('p, 'z) platform_scheme \<Rightarrow> string \<Rightarrow> 'p \<Rightarrow> int" where
  "file_executable P path p = - pf_access_x P p path"

text \<open>The size goes through an \<open>int\<close>.\<close>

definition get_file_size :: "('p, 'z) platform_scheme \<Rightarrow> string \<Rightarrow> 'p \<Rightarrow> int" where
  "get_file_size P path p = (case pf_size P p path of None \<Rightarrow> -1 | Some n \<Rightarrow> sint (word_of_int n :: 32 word))"

text \<open>
  \<open>fread\<close> is asked for one item of the whole size and returns the number of items, which
  is compared with the size.
\<close>

definition load_file :: "('p, 'z) platform_scheme \<Rightarrow> string \<Rightarrow> 'p \<Rightarrow> u8 list option" where
  "load_file P path p =
     (let len = unat (word_of_int (get_file_size P path p) :: 32 word)
      in case pf_content P p path of
           None \<Rightarrow> None
         | Some c \<Rightarrow>
             let items = (if 0 < len \<and> len \<le> length c then 1 else 0 :: nat)
             in if items \<noteq> len then None else Some (take len c))"

lemma load_file_tiny: "load_file P path p = Some b \<Longrightarrow> length b \<le> 1"
  by (auto simp: load_file_def Let_def split: option.splits if_splits)

section \<open>Directories\<close>

definition dir_exist :: "('p, 'z) platform_scheme \<Rightarrow> string \<Rightarrow> 'p \<Rightarrow> int" where
  "dir_exist P path p = (if pf_entries P p path = None then -1 else 0)"

definition is_separator :: "char \<Rightarrow> bool" where
  "is_separator c \<longleftrightarrow> c = CHR 0x5C \<or> c = CHR ''/''"

text \<open>
  The loop of \<open>dir_create\<close> from position \<open>i\<close> of the buffer on: each prefix that ends before
  a separator, and the whole path, is made; only a missing parent stops it.
\<close>

function make_prefixes :: "('p, 'z) platform_scheme \<Rightarrow> string \<Rightarrow> nat \<Rightarrow> 'p \<Rightarrow> int \<times> 'p" where
  "make_prefixes P buffer i p =
     (let j = i + length (takeWhile (\<lambda>c. \<not> is_separator c) (drop i buffer));
          (r, p) = pf_mkdir P (take j buffer) p
      in if r = ENOENT then (-1, p)
         else if length buffer \<le> j then (0, p)
         else make_prefixes P buffer (j + 1) p)"
  by auto
termination
  by (relation "measure (\<lambda>(_, buffer, i, _). length buffer - i)") auto

declare make_prefixes.simps [simp del]

definition dir_create :: "('p, 'z) platform_scheme \<Rightarrow> string \<Rightarrow> 'p \<Rightarrow> int \<times> 'p" where
  "dir_create P path p =
     (if path = [] then (-1, p)
      else let buffer = (if last path = CHR ''/'' then butlast path else path);
               (r, p) = pf_mkdir P buffer p
           in if r = 0 then (0, p) else make_prefixes P buffer 1 p)"

text \<open>
  \<open>dir_delete\<close> of a path (\<open>job = None\<close>), and its loop over the entries that are left
  (\<open>job = Some es\<close>). An entry that cannot be deleted ends the loop.
\<close>

definition failing :: "int \<times> 'p \<Rightarrow> int \<times> 'p" where
  "failing rp = (if fst rp = 0 then 0 else -1, snd rp)"

partial_function (option) delete_tree ::
  "('p, 'z) platform_scheme \<Rightarrow> string \<Rightarrow> string list option \<Rightarrow> 'p \<Rightarrow> (int \<times> 'p) option" where
  "delete_tree P path job p =
     (case job of
        None \<Rightarrow>
          (case pf_is_dir P p path of
             None \<Rightarrow> Some (-1, p)
           | Some d \<Rightarrow>
               (if \<not> d then Some (failing (pf_unlink P path p))
                else (case pf_entries P p path of
                        None \<Rightarrow> Some (-1, p)
                      | Some es \<Rightarrow> delete_tree P path (Some es) p)))
      | Some es \<Rightarrow>
          (case es of
             [] \<Rightarrow> Some (failing (pf_rmdir P path p))
           | e # es \<Rightarrow>
               (if e = ''..'' \<or> e = ''.'' then delete_tree P path (Some es) p
                else Option.bind (delete_tree P (take (PATH_MAX - 1) (path @ ''/'' @ e)) None p)
                       (\<lambda>(r, p). if r < 0 then Some (-1, p) else delete_tree P path (Some es) p))))"

definition dir_delete :: "('p, 'z) platform_scheme \<Rightarrow> string \<Rightarrow> 'p \<Rightarrow> (int \<times> 'p) option" where
  "dir_delete P path p = delete_tree P path None p"

text \<open>
  C35. Deleting a directory tree returns, whatever the calls answer, when the nesting is
  bounded: some measure of paths decreases from every directory to the entries it lists
  other than itself and its parent, as \<open>dir_delete\<close> composes their paths (it cuts them at
  \<open>PATH_MAX\<close>). The result is 0 or -1.
\<close>

theorem dir_delete_returns:
  assumes "\<And>p path es e. pf_entries P p path = Some es \<Longrightarrow> e \<in> set es \<Longrightarrow> e \<noteq> ''.'' \<Longrightarrow> e \<noteq> ''..'' \<Longrightarrow>
      nesting (take (PATH_MAX - 1) (path @ ''/'' @ e)) < (nesting path :: nat)"
  shows "\<exists>r p'. dir_delete P path p = Some (r, p') \<and> (r = 0 \<or> r = -1)"
proof -
  let ?ok = "\<lambda>x. \<exists>r p'. x = Some (r :: int, p' :: 'a) \<and> (r = 0 \<or> r = -1)"
  have "?ok (delete_tree P path None p)" for p
  proof (induction "nesting path" arbitrary: path p rule: less_induct)
    case less
    have loop: "?ok (delete_tree P path (Some es) q)"
      if "\<forall>e\<in>set es. e \<noteq> ''.'' \<longrightarrow> e \<noteq> ''..'' \<longrightarrow> nesting (take (PATH_MAX - 1) (path @ ''/'' @ e)) < nesting path" for es q
      using that
    proof (induction es arbitrary: q)
      case Nil
      then show ?case by (subst delete_tree.simps) (simp add: failing_def)
    next
      case (Cons e es)
      note IH = Cons.IH
      show ?case
      proof (cases "e = ''..'' \<or> e = ''.''")
        case True
        then show ?thesis using IH Cons.prems by (subst delete_tree.simps) simp
      next
        case False
        then obtain r q' where "delete_tree P (take (PATH_MAX - 1) (path @ ''/'' @ e)) None q = Some (r, q')"
          using less [of "take (PATH_MAX - 1) (path @ ''/'' @ e)" q] Cons.prems by auto
        then show ?thesis using False IH [of q'] Cons.prems by (subst delete_tree.simps) simp
      qed
    qed
    show ?case
    proof (cases "pf_is_dir P p path = Some True \<and> pf_entries P p path \<noteq> None")
      case True
      then obtain es where "pf_entries P p path = Some es" by auto
      then show ?thesis using True loop [of es p] assms [of p path es] by (subst delete_tree.simps) auto
    next
      case False
      then show ?thesis
        by (subst delete_tree.simps) (auto simp: failing_def split: option.split)
    qed
  qed
  then show ?thesis by (simp add: dir_delete_def)
qed

text \<open>A platform with one directory that holds a file.\<close>

definition one_dir :: "string set platform" where
  "one_dir = \<lparr>pf_access = (\<lambda>p n. if n \<in> p then 0 else ENOENT), pf_access_x = (\<lambda>p n. if n \<in> p then 0 else ENOENT),
     pf_size = (\<lambda>p n. if n \<in> p then Some 1 else None), pf_is_dir = (\<lambda>p n. if n \<in> p then Some (n = ''d'') else None),
     pf_entries = (\<lambda>p n. if n = ''d'' \<and> n \<in> p then Some ([''.'', ''..''] @ (if ''d/f'' \<in> p then [''f''] else [])) else None),
     pf_content = (\<lambda>p n. if n \<in> p then Some [0] else None), pf_mkdir = (\<lambda>n p. (0, insert n p)),
     pf_rmdir = (\<lambda>n p. (0, p - {n})), pf_unlink = (\<lambda>n p. (0, p - {n}))\<rparr>"

theorem dir_delete_returns_witness:
  "\<exists>r p'. dir_delete one_dir ''d'' {''d'', ''d/f'', ''e''} = Some (r, p') \<and> (r = 0 \<or> r = -1)"
  by (rule dir_delete_returns [where nesting = "\<lambda>n. if n = ''d'' then 1 else 0"])
    (auto simp: one_dir_def PATH_MAX_def split: if_splits)

lemma dir_delete_one_dir: "dir_delete one_dir ''d'' {''d'', ''d/f'', ''e''} = Some (0, {''e''})"
  by (auto simp: dir_delete_def delete_tree.simps one_dir_def failing_def PATH_MAX_def)

end
