(* ===== verification/Mount.thy ===== *)
theory Mount
  imports FileOps
begin

text \<open>
  The mount manager, \<open>client/recovery/mount/mount_manager.c\<close>: the list of mounted volumes as
  read from \<open>/proc/mounts\<close>, and mounting and unmounting over the system calls of the
  platform. The list is the state of the object; the program's death is the value \<open>None\<close>.
\<close>

section \<open>Volumes\<close>

record mounted_volume =
  vol_device :: string
  vol_mount_point :: string
  vol_filesystem :: string
  vol_flags :: string

text \<open>\<open>mount\<close> and \<open>umount\<close> return 0 or a negative number.\<close>

record 'p mount_platform = "'p platform" +
  pf_mount :: "string \<Rightarrow> string \<Rightarrow> string \<Rightarrow> 'p \<Rightarrow> int \<times> 'p"
  pf_umount :: "string \<Rightarrow> 'p \<Rightarrow> int \<times> 'p"

definition supported_filesystem_list :: "string list" where
  "supported_filesystem_list = [''vfat'', ''ntfs'', ''ext4'']"

section \<open>Reading the table\<close>

definition newline :: char where
  "newline = CHR 0x0A"

definition text_of :: "u8 list \<Rightarrow> string" where
  "text_of bs = map (\<lambda>b. char_of (unat b)) bs"

text \<open>\<open>fgets\<close> with the buffer of the code: up to a newline, at most 2047 characters.\<close>

function fgets_lines :: "string \<Rightarrow> string list" where
  "fgets_lines s =
     (if s = [] then []
      else let n = min 2047 (length (takeWhile (\<lambda>c. c \<noteq> newline) s) + 1)
           in take n s # fgets_lines (drop n s))"
  by auto
termination
  by (relation "measure length") (auto simp: neq_Nil_conv)

declare fgets_lines.simps [simp del]

text \<open>A conversion \<open>%<w>s\<close>.\<close>

definition scan_word :: "nat \<Rightarrow> string \<Rightarrow> (string \<times> string) option" where
  "scan_word w s =
     (let s = skip_ws s; t = take w (takeWhile (\<lambda>c. \<not> is_space c) s)
      in if s = [] then None else Some (t, drop (length t) s))"

definition parse_volume :: "string \<Rightarrow> mounted_volume option" where
  "parse_volume line =
     (case scan_word 63 line of None \<Rightarrow> None | Some (device, s) \<Rightarrow>
      case scan_word 63 s of None \<Rightarrow> None | Some (mount_point, s) \<Rightarrow>
      case scan_word 63 s of None \<Rightarrow> None | Some (filesystem, s) \<Rightarrow>
      map_option (\<lambda>(flags, _). \<lparr>vol_device = device, vol_mount_point = mount_point, vol_filesystem = filesystem, vol_flags = flags\<rparr>)
        (scan_word 127 s))"

definition scan_mounted_volumes :: "('p, 'z) platform_scheme \<Rightarrow> 'p \<Rightarrow> mounted_volume list option" where
  "scan_mounted_volumes P p =
     map_option (\<lambda>c. List.map_filter parse_volume (fgets_lines (text_of c))) (pf_content P p ''/proc/mounts'')"

definition find_mounted_volume_by_device :: "mounted_volume list \<Rightarrow> string \<Rightarrow> mounted_volume option" where
  "find_mounted_volume_by_device vols device = find (\<lambda>v. vol_device v = device) vols"

definition find_mounted_volume_by_mount_point :: "mounted_volume list \<Rightarrow> string \<Rightarrow> mounted_volume option" where
  "find_mounted_volume_by_mount_point vols mount_point = find (\<lambda>v. vol_mount_point v = mount_point) vols"

section \<open>Mounting and unmounting\<close>

definition mount_volume ::
  "('p, 'z) mount_platform_scheme \<Rightarrow> mounted_volume list \<Rightarrow> string \<Rightarrow> string \<Rightarrow> string \<Rightarrow> 'p \<Rightarrow> (int \<times> 'p) option" where
  "mount_volume P vols device mount_point filesystem p =
     (if filesystem = ''ramdisk'' then Some (0, p)
      else if find_mounted_volume_by_mount_point vols mount_point \<noteq> None then Some (0, p)
      else let (r, p) = dir_create P mount_point p
           in if r \<noteq> 0 then Some (-1, p)
              else if filesystem \<notin> set supported_filesystem_list
              then map_option (\<lambda>(_, p). (-1, p)) (dir_delete P mount_point p)
              else let (error, p) = pf_mount P device mount_point filesystem p
                   in if error < 0 then map_option (\<lambda>(_, p). (-1, p)) (dir_delete P mount_point p)
                      else Some (0, p))"

text \<open>The volume is one of the list, the first that is equal to it.\<close>

definition umount_volume ::
  "('p, 'z) mount_platform_scheme \<Rightarrow> mounted_volume \<Rightarrow> mounted_volume list \<Rightarrow> 'p \<Rightarrow> (int \<times> mounted_volume list \<times> 'p) option" where
  "umount_volume P v vols p =
     (if vol_filesystem v = ''ramdisk'' then Some (0, vols, p)
      else let (error, p) = pf_umount P (vol_mount_point v) p
           in if error < 0 then Some (-1, vols, p)
              else map_option (\<lambda>(_, p). (0, remove1 v vols, p)) (dir_delete P (vol_mount_point v) p))"

section \<open>The table is read as it is printed\<close>

text \<open>A line of the table: the four fields, a blank after each, and the rest.\<close>

definition is_word :: "nat \<Rightarrow> string \<Rightarrow> bool" where
  "is_word w s \<longleftrightarrow> s \<noteq> [] \<and> length s \<le> w \<and> list_all (\<lambda>c. \<not> is_space c) s"

definition mount_line :: "mounted_volume \<Rightarrow> string" where
  "mount_line v = vol_device v @ '' '' @ vol_mount_point v @ '' '' @ vol_filesystem v @ '' '' @ vol_flags v @ '' 0 0'' @ [newline]"

definition printable :: "mounted_volume \<Rightarrow> bool" where
  "printable v \<longleftrightarrow> is_word 63 (vol_device v) \<and> is_word 63 (vol_mount_point v) \<and> is_word 63 (vol_filesystem v) \<and> is_word 127 (vol_flags v)"

lemma space_is_space: "is_space CHR '' ''"
  by (simp add: is_space_def)

lemma skip_ws_word: "is_word w s \<Longrightarrow> skip_ws (s @ r) = s @ r" "is_word w s \<Longrightarrow> skip_ws (CHR '' '' # s @ r) = s @ r"
  by (cases s; simp add: is_word_def skip_ws_def space_is_space)+

lemma take_word: "is_word w s \<Longrightarrow> takeWhile (\<lambda>c. \<not> is_space c) (s @ CHR '' '' # r) = s"
  by (simp add: is_word_def list_all_iff space_is_space takeWhile_append)

lemma scan_word_reads:
  "is_word w s \<Longrightarrow> scan_word w (s @ CHR '' '' # r) = Some (s, CHR '' '' # r)"
  "is_word w s \<Longrightarrow> scan_word w (CHR '' '' # s @ CHR '' '' # r) = Some (s, CHR '' '' # r)"
  using take_word [of w s r] by (auto simp: scan_word_def skip_ws_word is_word_def Let_def)

lemma parse_mount_line: "printable v \<Longrightarrow> parse_volume (mount_line v) = Some v"
  by (simp add: printable_def parse_volume_def mount_line_def scan_word_reads)

lemma newline_is_space: "is_space newline"
  by (simp add: is_space_def newline_def)

lemma word_no_newline: "is_word w s \<Longrightarrow> newline \<notin> set s"
  using newline_is_space by (auto simp: is_word_def list_all_iff)

lemma fgets_line:
  assumes "newline \<notin> set l" "length l < 2047"
  shows "fgets_lines (l @ newline # r) = (l @ [newline]) # fgets_lines r"
proof -
  have "takeWhile (\<lambda>c. c \<noteq> newline) (l @ newline # r) = l"
    using assms(1) by (rule takeWhile_upto)
  moreover have "min 2047 (length l + 1) = length l + 1" using assms(2) by simp
  ultimately show ?thesis by (subst fgets_lines.simps) simp
qed

text \<open>
  C36. The table of mounted volumes is read back exactly: for every list of volumes whose
  fields fit the object, the text of the table gives that list, in its order, and nothing
  of an earlier scan.
\<close>

theorem scan_mounted_volumes_roundtrip:
  assumes "\<forall>v\<in>set vols. printable v"
    and "pf_content P p ''/proc/mounts'' = Some (map (\<lambda>c. word_of_nat (of_char c)) (concat (map mount_line vols)))"
  shows "scan_mounted_volumes P p = Some vols"
proof -
  have "text_of (map (\<lambda>c. word_of_nat (of_char c)) s) = s" for s :: string
    by (induction s) (simp_all add: text_of_def unat_of_nat take_bit_eq_mod [symmetric] del: of_nat_of_char)
  moreover have "List.map_filter parse_volume (fgets_lines (concat (map mount_line vols))) = vols"
    using assms(1)
  proof (induction vols)
    case Nil
    then show ?case by (simp add: fgets_lines.simps)
  next
    case (Cons v vols)
    let ?l = "vol_device v @ '' '' @ vol_mount_point v @ '' '' @ vol_filesystem v @ '' '' @ vol_flags v @ '' 0 0''"
    have l: "mount_line v = ?l @ [newline]" by (simp add: mount_line_def)
    have "newline \<notin> set ?l"
      using Cons.prems word_no_newline by (auto simp: printable_def) (simp_all add: newline_def)
    moreover have "length ?l < 2047" using Cons.prems by (simp add: printable_def is_word_def)
    ultimately have "fgets_lines (mount_line v @ concat (map mount_line vols)) = mount_line v # fgets_lines (concat (map mount_line vols))"
      using fgets_line [of ?l] l by simp
    then show ?case using Cons by (simp add: parse_mount_line)
  qed
  ultimately show ?thesis using assms(2) by (simp add: scan_mounted_volumes_def)
qed

definition stick :: mounted_volume where
  "stick = \<lparr>vol_device = ''/dev/sda1'', vol_mount_point = ''/mnt/sda1'', vol_filesystem = ''vfat'', vol_flags = ''ro''\<rparr>"

theorem scan_mounted_volumes_roundtrip_witness:
  "scan_mounted_volumes (one_dir\<lparr>pf_content := \<lambda>p n. Some (map (\<lambda>c. word_of_nat (of_char c)) (concat (map mount_line [stick, stick])))\<rparr>) {} =
     Some [stick, stick]"
  by (rule scan_mounted_volumes_roundtrip) (simp_all add: printable_def is_word_def stick_def is_space_def)

end
