(* ===== verification/Netlink.thy ===== *)
theory Netlink
  imports Scan CStrings "HOL-Library.While_Combinator"
begin

text \<open>
  Kernel events: the decoder of \<open>client/recovery/netlink/netlink_event.c\<close>, the list of
  handlers of \<open>netlink_listener.c\<close> with the handler objects of \<open>netlink_handler.c\<close>, and the
  guards of \<open>netlink_manager.c\<close>. A message is the list of its characters, NULs included.
  Handlers are identified by their addresses; each has its \<open>next\<close> pointer, so the list is
  a heap structure. Sockets, pipes and threads are the operating system's: the thread's loop
  is a function of the messages it receives.
\<close>

section \<open>Events\<close>

definition NL_PARAMS_MAX :: nat where
  "NL_PARAMS_MAX = 128"

datatype nl_action = NLACTION_UNKNOWN | NLACTION_ADD | NLACTION_REMOVE | NLACTION_CHANGE

record netlink_event =
  nl_seq :: int
  nl_path :: "string option"
  nl_action :: nl_action
  nl_subsystem :: "string option"
  nl_params :: "string list"

definition construct_netlink_event :: netlink_event where
  "construct_netlink_event = \<lparr>nl_seq = 0, nl_path = None, nl_action = NLACTION_UNKNOWN, nl_subsystem = None, nl_params = []\<rparr>"

text \<open>\<open>atoi\<close>: the \<open>long\<close> of the target is as wide as its \<open>int\<close>.\<close>

definition atoi :: "string \<Rightarrow> int" where
  "atoi s = (let (neg, s) = scan_sign (skip_ws s)
             in case scan_digits 10 s of None \<Rightarrow> 0 | Some (n, _) \<Rightarrow> strtol_val neg n)"

definition has_prefix :: "string \<Rightarrow> string \<Rightarrow> string option" where
  "has_prefix s prefix = (if length prefix \<le> length s \<and> take (length prefix) s = prefix then Some (drop (length prefix) s) else None)"

text \<open>
  The path: behind the \<open>@\<close> one character is skipped twice. A message without one, or one
  that ends with it, is read past its end.
\<close>

definition parse_path :: "string \<Rightarrow> string option" where
  "parse_path s =
     (let r = dropWhile (\<lambda>c. c \<noteq> CHR ''@'') s
      in if length r < 3 then None else Some (cstr (drop 2 r)))"

text \<open>One of the strings behind the path; \<open>s\<close> runs to the end of the message.\<close>

definition parse_param :: "string \<Rightarrow> netlink_event \<Rightarrow> netlink_event" where
  "parse_param s ev =
     (case has_prefix s ''ACTION='' of
        Some a \<Rightarrow>
          if cstr a = ''add'' then ev\<lparr>nl_action := NLACTION_ADD\<rparr>
          else if cstr a = ''remove'' then ev\<lparr>nl_action := NLACTION_REMOVE\<rparr>
          else if cstr a = ''change'' then ev\<lparr>nl_action := NLACTION_CHANGE\<rparr>
          else ev
      | None \<Rightarrow>
     (case has_prefix s ''SEQNUM='' of
        Some a \<Rightarrow> ev\<lparr>nl_seq := atoi (cstr a)\<rparr>
      | None \<Rightarrow>
     (case has_prefix s ''SUBSYSTEM='' of
        Some a \<Rightarrow> ev\<lparr>nl_subsystem := Some (cstr a)\<rparr>
      | None \<Rightarrow>
          if length (nl_params ev) < NL_PARAMS_MAX then ev\<lparr>nl_params := nl_params ev @ [cstr s]\<rparr> else ev)))"

function parse_params :: "string \<Rightarrow> netlink_event \<Rightarrow> netlink_event" where
  "parse_params s ev = (if s = [] then ev else parse_params (skip_string s) (parse_param s ev))"
  by auto
termination
  by (relation "measure (\<lambda>(s, _). length s)") (auto simp: length_skip_string)

declare parse_params.simps [simp del]

definition parseAsciiNetlinkMessage :: "string \<Rightarrow> netlink_event \<Rightarrow> (bool \<times> netlink_event) option" where
  "parseAsciiNetlinkMessage buffer ev =
     (if buffer = [] then Some (False, ev)
      else let s = buffer[length buffer - 1 := NUL]
           in map_option (\<lambda>path. (True, parse_params (skip_string s) (ev\<lparr>nl_path := Some path\<rparr>))) (parse_path s))"

definition parseBinaryNetlinkMessage :: "string \<Rightarrow> netlink_event \<Rightarrow> bool \<times> netlink_event" where
  "parseBinaryNetlinkMessage buffer ev = (False, ev)"

datatype nl_format = NETLINK_FORMAT_ASCII | NETLINK_FORMAT_BINARY

definition decode :: "nl_format \<Rightarrow> string \<Rightarrow> netlink_event \<Rightarrow> (bool \<times> netlink_event) option" where
  "decode format buffer ev =
     (case format of
        NETLINK_FORMAT_BINARY \<Rightarrow> Some (parseBinaryNetlinkMessage buffer ev)
      | NETLINK_FORMAT_ASCII \<Rightarrow> parseAsciiNetlinkMessage buffer ev)"

fun find_param_in :: "string list \<Rightarrow> string \<Rightarrow> string option" where
  "find_param_in [] name = None"
| "find_param_in (p # ps) name =
     (if take (length name) p = name \<and> deref (drop (length name) p) = CHR ''='' then Some (drop (length name + 1) p)
      else find_param_in ps name)"

definition find_param :: "netlink_event \<Rightarrow> string \<Rightarrow> string option" where
  "find_param ev name = find_param_in (nl_params ev) name"

section \<open>What the kernel sends is what is decoded\<close>

text \<open>
  An event as the kernel prints it: the action, the path, and the assignments in order, each
  string with its NUL. The action is also one of the assignments.
\<close>

definition assignment :: "string \<times> string \<Rightarrow> string" where
  "assignment kv = fst kv @ ''='' @ snd kv"

definition uevent :: "string \<Rightarrow> string \<Rightarrow> (string \<times> string) list \<Rightarrow> string" where
  "uevent act path kvs = act @ ''@'' @ path @ [NUL] @ concat (map (\<lambda>kv. assignment kv @ [NUL]) kvs)"

definition plain :: "string \<Rightarrow> bool" where
  "plain s \<longleftrightarrow> NUL \<notin> set s"

definition plain_key :: "string \<Rightarrow> bool" where
  "plain_key k \<longleftrightarrow> plain k \<and> CHR ''='' \<notin> set k"

definition special_keys :: "string list" where
  "special_keys = [''ACTION'', ''SEQNUM'', ''SUBSYSTEM'']"

definition action_of :: "string \<Rightarrow> nl_action \<Rightarrow> nl_action" where
  "action_of v a = (if v = ''add'' then NLACTION_ADD else if v = ''remove'' then NLACTION_REMOVE
     else if v = ''change'' then NLACTION_CHANGE else a)"

text \<open>The event the assignments are to give.\<close>

fun assign :: "netlink_event \<Rightarrow> string \<times> string \<Rightarrow> netlink_event" where
  "assign ev (k, v) =
     (if k = ''ACTION'' then ev\<lparr>nl_action := action_of v (nl_action ev)\<rparr>
      else if k = ''SEQNUM'' then ev\<lparr>nl_seq := atoi v\<rparr>
      else if k = ''SUBSYSTEM'' then ev\<lparr>nl_subsystem := Some v\<rparr>
      else if length (nl_params ev) < NL_PARAMS_MAX then ev\<lparr>nl_params := nl_params ev @ [assignment (k, v)]\<rparr>
      else ev)"

lemma NUL_not_plain: "NUL \<noteq> CHR ''=''" "NUL \<noteq> CHR ''@''"
  by (simp_all add: NUL_def)

lemma cstr_plain: "plain s \<Longrightarrow> cstr (s @ NUL # r) = s"
  by (simp add: cstr_def plain_def takeWhile_upto)

lemma skip_string_plain: "plain s \<Longrightarrow> skip_string (s @ NUL # r) = r"
  by (simp add: skip_string_def strlen_def cstr_plain)

lemma has_prefix_key:
  assumes "plain_key k" "plain_key q"
  shows "has_prefix (k @ CHR ''='' # r) (q @ ''='') = (if k = q then Some r else None)"
proof (cases "k = q")
  case True
  then show ?thesis by (simp add: has_prefix_def)
next
  case False
  have "take (length (q @ ''='')) (k @ CHR ''='' # r) \<noteq> q @ ''=''"
  proof
    assume "take (length (q @ ''='')) (k @ CHR ''='' # r) = q @ ''=''"
    then obtain t where t: "k @ CHR ''='' # r = q @ CHR ''='' # t"
      by (metis append.assoc append_Cons append_Nil append_take_drop_id)
    have "takeWhile (\<lambda>c. c \<noteq> CHR ''='') (k @ CHR ''='' # r) = k" "takeWhile (\<lambda>c. c \<noteq> CHR ''='') (q @ CHR ''='' # t) = q"
      using assms by (auto simp: plain_key_def intro!: takeWhile_upto)
    with t have "k = q" by simp
    with False show False ..
  qed
  with False show ?thesis by (simp add: has_prefix_def)
qed

lemma parse_param_assigns:
  assumes "plain_key k" "plain v"
  shows "parse_param (assignment (k, v) @ NUL # r) ev = assign ev (k, v)"
proof -
  have p: "has_prefix (assignment (k, v) @ NUL # r) (q @ ''='') = (if k = q then Some (v @ NUL # r) else None)"
    if "plain_key q" for q
    using has_prefix_key [OF assms(1) that, of "v @ NUL # r"] by (simp add: assignment_def)
  have "plain_key ''ACTION''" "plain_key ''SEQNUM''" "plain_key ''SUBSYSTEM''"
    by (simp_all add: plain_key_def plain_def NUL_def)
  note p [OF this(1)] p [OF this(2)] p [OF this(3)]
  moreover have "plain (assignment (k, v))"
    using assms NUL_not_plain by (simp add: assignment_def plain_def plain_key_def)
  ultimately show ?thesis
    using assms(2) by (simp add: parse_param_def cstr_plain action_of_def)
qed

lemma parse_params_assigns:
  "\<forall>(k, v)\<in>set kvs. plain_key k \<and> plain v \<Longrightarrow>
    parse_params (concat (map (\<lambda>kv. assignment kv @ [NUL]) kvs)) ev = foldl assign ev kvs"
proof (induction kvs arbitrary: ev)
  case Nil
  then show ?case by (simp add: parse_params.simps)
next
  case (Cons kv kvs)
  obtain k v where kv: "kv = (k, v)" by (cases kv)
  have "plain (assignment (k, v))"
    using Cons.prems NUL_not_plain by (simp add: kv assignment_def plain_def plain_key_def)
  then show ?case
    using Cons by (subst parse_params.simps) (simp add: kv parse_param_assigns skip_string_plain)
qed

lemma decode_uevent_lemma:
  assumes "plain act" "CHR ''@'' \<notin> set act" "plain path" "\<forall>(k, v)\<in>set kvs. plain_key k \<and> plain v"
  shows "decode NETLINK_FORMAT_ASCII (uevent act (CHR ''/'' # path) kvs) construct_netlink_event =
    Some (True, foldl assign (construct_netlink_event\<lparr>nl_path := Some path\<rparr>) kvs)"
proof -
  let ?b = "uevent act (CHR ''/'' # path) kvs" and ?tail = "concat (map (\<lambda>kv. assignment kv @ [NUL]) kvs)"
  have "last ?b = NUL" by (cases kvs rule: rev_cases) (simp_all add: uevent_def)
  then have b: "?b[length ?b - 1 := NUL] = ?b"
    by (metis append_butlast_last_id length_butlast list_update_length list_update_nonempty list_update.simps(1))
  have at: "dropWhile (\<lambda>c. c \<noteq> CHR ''@'') ?b = CHR ''@'' # CHR ''/'' # path @ NUL # ?tail"
    using assms(2) dropWhile_upto [of "CHR ''@''" act] by (simp add: uevent_def)
  have "plain (act @ ''@'' @ CHR ''/'' # path)"
    using assms(1,3) by (simp add: plain_def NUL_def)
  then have skip: "skip_string ?b = ?tail"
    using skip_string_plain [of "act @ ''@'' @ CHR ''/'' # path" ?tail] by (simp add: uevent_def)
  have "parse_path ?b = Some path"
    using at assms(3) by (simp add: parse_path_def cstr_plain Let_def)
  moreover have "?b \<noteq> []" by (simp add: uevent_def)
  ultimately show ?thesis
    using skip parse_params_assigns [OF assms(4)] by (simp add: decode_def parseAsciiNetlinkMessage_def b [simplified] Let_def)
qed

text \<open>
  C37. Events of the kernel are decoded: for every action word, path and list of
  assignments the decoder succeeds on the kernel's text, the path lacks its leading slash,
  and the fields are those of the assignments in their order.
\<close>

theorem decode_uevent:
  assumes "plain act" "CHR ''@'' \<notin> set act" "plain path" "\<forall>(k, v)\<in>set kvs. plain_key k \<and> plain v"
  shows "decode NETLINK_FORMAT_ASCII (uevent act (CHR ''/'' # path) kvs) construct_netlink_event =
    Some (True, foldl assign (construct_netlink_event\<lparr>nl_path := Some path\<rparr>) kvs)"
  using assms by (rule decode_uevent_lemma)

definition stick_event :: "(string \<times> string) list" where
  "stick_event = [(''ACTION'', ''add''), (''SUBSYSTEM'', ''block''), (''DEVNAME'', ''sda1''), (''DEVTYPE'', ''partition''), (''SEQNUM'', ''12'')]"

lemma stick_event_fields:
  "foldl assign (construct_netlink_event\<lparr>nl_path := Some ''devices/sda1''\<rparr>) stick_event =
     \<lparr>nl_seq = 12, nl_path = Some ''devices/sda1'', nl_action = NLACTION_ADD, nl_subsystem = Some ''block'',
       nl_params = [''DEVNAME=sda1'', ''DEVTYPE=partition'']\<rparr>"
proof -
  have "scan_sign (skip_ws ''12'') = (False, ''12'')" "scan_digits 10 ''12'' = Some (12, [])" by code_simp+
  then have "atoi ''12'' = 12" by (simp add: atoi_def strtol_val_def)
  then show ?thesis by (simp add: stick_event_def construct_netlink_event_def action_of_def assignment_def NL_PARAMS_MAX_def)
qed

theorem decode_uevent_witness:
  "decode NETLINK_FORMAT_ASCII (uevent ''add'' ''/devices/sda1'' stick_event) construct_netlink_event =
     Some (True, \<lparr>nl_seq = 12, nl_path = Some ''devices/sda1'', nl_action = NLACTION_ADD, nl_subsystem = Some ''block'',
        nl_params = [''DEVNAME=sda1'', ''DEVTYPE=partition'']\<rparr>)"
  using decode_uevent [of "''add''" "''devices/sda1''" stick_event]
  by (simp add: stick_event_fields) (simp add: plain_def plain_key_def NUL_def stick_event_def)

lemma deref_has_prefix:
  "take (length q) s = q \<and> deref (drop (length q) s) = CHR ''='' \<longleftrightarrow> has_prefix s (q @ ''='') \<noteq> None"
proof (cases "drop (length q) s")
  case Nil
  then show ?thesis using NUL_not_plain by (auto simp: deref_def has_prefix_def)
next
  case (Cons d r)
  then have l: "length q < length s" by (metis drop_all leI list.distinct(1))
  then have "s ! length q = d" using Cons by (simp add: nth_via_drop)
  then show ?thesis using Cons l by (auto simp: deref_def has_prefix_def take_Suc_conv_app_nth)
qed

lemma find_param_in_assignments:
  "\<forall>(k, v)\<in>set kvs. plain_key k \<Longrightarrow> plain_key name \<Longrightarrow> find_param_in (map assignment kvs) name = map_of kvs name"
proof (induction kvs)
  case (Cons kv kvs)
  obtain k v where kv: "kv = (k, v)" by (cases kv)
  have "take (length name) (assignment kv) = name \<and> deref (drop (length name) (assignment kv)) = CHR ''='' \<longleftrightarrow>
      has_prefix (k @ CHR ''='' # v) (name @ ''='') \<noteq> None"
    using deref_has_prefix [of name "assignment kv"] by (simp add: kv assignment_def)
  also have "\<dots> \<longleftrightarrow> k = name" using Cons.prems by (simp add: kv has_prefix_key)
  finally show ?case using Cons by (auto simp: kv assignment_def)
qed simp

section \<open>Handlers\<close>

text \<open>
  A handler is its address, \<open>nl_priority\<close> and \<open>nl_next\<close> are its fields. Both walks move
  \<open>head\<close> itself, and the priority that is compared is the new handler's own.
\<close>

record nl_handlers =
  nl_head :: "nat option"
  nl_next :: "nat \<Rightarrow> nat option"
  nl_priority :: "nat \<Rightarrow> int"

definition register_handler :: "nat \<Rightarrow> nl_handlers \<Rightarrow> nl_handlers option" where
  "register_handler h s =
     map_option (\<lambda>head. s\<lparr>nl_head := Some h, nl_next := (nl_next s)(h := head)\<rparr>)
       (while_option (\<lambda>head. head \<noteq> None \<and> \<not> nl_priority s h > nl_priority s h) (\<lambda>head. nl_next s (the head)) (nl_head s))"

definition unregister_handler :: "nat \<Rightarrow> nl_handlers \<Rightarrow> nl_handlers option" where
  "unregister_handler h s =
     map_option (\<lambda>head. s\<lparr>nl_head := (if head = None then None else nl_next s h)\<rparr>)
       (while_option (\<lambda>head. head \<noteq> None \<and> head \<noteq> Some h) (\<lambda>head. nl_next s (the head)) (nl_head s))"

text \<open>Delivery to the handlers from a pointer on; \<open>handle\<close> is what a handler does.\<close>

partial_function (option) dispatch_from ::
  "(nat \<Rightarrow> netlink_event \<Rightarrow> 's \<Rightarrow> 's option) \<Rightarrow> netlink_event \<Rightarrow> (nat \<Rightarrow> nat option) \<Rightarrow> nat option \<Rightarrow> 's \<Rightarrow> 's option" where
  "dispatch_from handle ev next nh x =
     (case nh of
        None \<Rightarrow> Some x
      | Some h \<Rightarrow> Option.bind (handle h ev x) (dispatch_from handle ev next (next h)))"

definition dispatch_event :: "(nat \<Rightarrow> netlink_event \<Rightarrow> 's \<Rightarrow> 's option) \<Rightarrow> netlink_event \<Rightarrow> nl_handlers \<Rightarrow> 's \<Rightarrow> 's option" where
  "dispatch_event handle ev s x = dispatch_from handle ev (nl_next s) (nl_head s) x"

text \<open>The states of the list a program can reach: handlers start unlinked.\<close>

inductive handlers_reachable :: "nl_handlers \<Rightarrow> bool" where
  start: "handlers_reachable \<lparr>nl_head = None, nl_next = (\<lambda>_. None), nl_priority = pr\<rparr>"
| register: "handlers_reachable s \<Longrightarrow> register_handler h s = Some s' \<Longrightarrow> handlers_reachable s'"
| unregister: "handlers_reachable s \<Longrightarrow> unregister_handler h s = Some s' \<Longrightarrow> handlers_reachable s'"

lemma handlers_unlinked: "handlers_reachable s \<Longrightarrow> nl_next s h = None"
proof (induction arbitrary: h rule: handlers_reachable.induct)
  case (register s g s')
  then obtain head where "s' = s\<lparr>nl_head := Some g, nl_next := (nl_next s)(g := head)\<rparr>"
      "while_option (\<lambda>head. head \<noteq> None \<and> \<not> nl_priority s g > nl_priority s g) (\<lambda>head. nl_next s (the head)) (nl_head s) = Some head"
    by (auto simp: register_handler_def)
  then show ?case using while_option_stop [of _ _ "nl_head s" head] register.IH by fastforce
qed (auto simp: unregister_handler_def)

lemma walk_ends:
  assumes "\<And>h. nl_next s h = None" "\<not> b None"
  shows "while_option b (\<lambda>head. nl_next s (the head)) head = Some (if b head then None else head)"
  using assms by (subst while_option_unfold) (simp add: while_option_unfold [of _ _ None])

lemma register_succeeds:
  assumes "handlers_reachable s"
  shows "\<exists>s'. register_handler h s = Some s'"
  by (simp add: register_handler_def walk_ends [OF handlers_unlinked [OF assms]])

lemma registered_state:
  assumes "handlers_reachable s" "register_handler h s = Some s'"
  shows "s' = s\<lparr>nl_head := Some h, nl_next := (nl_next s)(h := None)\<rparr>"
  using assms(2) by (cases "nl_head s") (simp_all add: register_handler_def walk_ends [OF handlers_unlinked [OF assms(1)]])

lemma registered_alone:
  assumes "handlers_reachable s" "register_handler h s = Some s'"
  shows "dispatch_event handle ev s' x = handle h ev x"
  by (cases "handle h ev x")
    (simp_all add: dispatch_event_def registered_state [OF assms] dispatch_from.simps [of _ _ _ "Some h"] dispatch_from.simps [of _ _ _ None])

text \<open>
  C38. Only one handler is ever kept. In every state that registrations and removals can
  reach, registering a handler returns and drops whatever was registered before, whatever
  the priorities: an event is then delivered to the new handler alone.
\<close>

theorem register_handler_forgets:
  assumes "handlers_reachable s"
  shows "\<exists>s'. register_handler h s = Some s' \<and> nl_head s' = Some h \<and> handlers_reachable s' \<and>
    (\<forall>ev x. dispatch_event handle ev s' x = handle h ev x) \<and>
    (\<forall>g. g \<noteq> h \<longrightarrow> (\<exists>s''. unregister_handler g s' = Some s'' \<and> nl_head s'' = None))"
proof -
  obtain s' where r: "register_handler h s = Some s'" using register_succeeds [OF assms] by blast
  have reach: "handlers_reachable s'" using assms r by (rule handlers_reachable.register)
  have "unregister_handler g s' = Some (s'\<lparr>nl_head := None\<rparr>)" if "g \<noteq> h" for g
    using that by (simp add: unregister_handler_def walk_ends [OF handlers_unlinked [OF reach]]) (simp add: registered_state [OF assms r])
  moreover have "dispatch_event handle ev s' x = handle h ev x" for ev x by (rule registered_alone [OF assms r])
  moreover have "nl_head s' = Some h" using registered_state [OF assms r] by simp
  ultimately show ?thesis using r reach by auto
qed

theorem register_handler_forgets_witness:
  "\<exists>s1 s2. register_handler 1 \<lparr>nl_head = None, nl_next = (\<lambda>_. None), nl_priority = int\<rparr> = Some s1 \<and> register_handler 2 s1 = Some s2 \<and>
     dispatch_event (\<lambda>h ev x. Some (x @ [h])) construct_netlink_event s2 [] = Some [2]"
proof -
  obtain s1 where s1: "register_handler 1 \<lparr>nl_head = None, nl_next = (\<lambda>_. None), nl_priority = int\<rparr> = Some s1" "handlers_reachable s1"
    using register_handler_forgets [OF handlers_reachable.start [of int]] by blast
  show ?thesis
    using register_handler_forgets [OF s1(2), of 2 "\<lambda>h ev x. Some (x @ [h])"] s1(1) by fastforce
qed

section \<open>The thread and the manager\<close>

text \<open>
  What one round of \<open>poll\<close> brings: nothing on the socket, a failed \<open>recv\<close> (which goes back
  to \<open>poll\<close> without looking at the pipe) or a message; and whether the pipe asks to stop.
  \<open>decode\<close> returns a truth value, so that its failure is never seen as a negative result.
\<close>

datatype nl_input = Nothing | Recv_failed | Message string

fun thread_loop ::
  "(nat \<Rightarrow> netlink_event \<Rightarrow> 's \<Rightarrow> 's option) \<Rightarrow> nl_format \<Rightarrow> nl_handlers \<Rightarrow> (nl_input \<times> bool) list \<Rightarrow> 's \<Rightarrow> 's option" where
  "thread_loop handle format s [] x = Some x"
| "thread_loop handle format s ((Recv_failed, stop) # rounds) x = thread_loop handle format s rounds x"
| "thread_loop handle format s ((Nothing, stop) # rounds) x = (if stop then Some x else thread_loop handle format s rounds x)"
| "thread_loop handle format s ((Message buffer, stop) # rounds) x =
     (case decode format buffer construct_netlink_event of
        None \<Rightarrow> None
      | Some (_, ev) \<Rightarrow>
          Option.bind (dispatch_event handle ev s x) (\<lambda>x. if stop then Some x else thread_loop handle format s rounds x))"

text \<open>
  \<open>stop_listener\<close> over the result of \<open>write\<close>; the manager takes its success for a failure.
  A manager is whether it has a listener; stopping one without is an assertion that fails.
\<close>

definition stop_listener :: "int \<Rightarrow> int" where
  "stop_listener wrote = (if wrote = 0 then -1 else 0)"

definition stop_manager :: "int \<Rightarrow> bool \<Rightarrow> (int \<times> bool) option" where
  "stop_manager wrote listener =
     (if \<not> listener then None
      else if stop_listener wrote = 0 then Some (-1, listener)
      else Some (0, False))"

lemma stop_manager_inverted:
  "stop_manager wrote True = (if wrote = 0 then Some (0, False) else Some (-1, True))"
  by (simp add: stop_manager_def stop_listener_def)

end
