(* ===== verification/Storage.thy ===== *)
theory Storage
  imports Mount Netlink
begin

text \<open>
  The storage devices of the update manager, the first part of
  \<open>client/recovery/ota/ota_manager.c\<close>: the devices that kernel events add and remove, and
  mounting and unmounting all of them with the mount manager. A null string given to a
  string function, or a name that does not fit its array, is the value \<open>None\<close>.
\<close>

section \<open>Devices\<close>

record storage_dev =
  sd_name :: string
  sd_dev_name :: string
  sd_mount_point :: string

definition prefix_volume_mount_point :: string where "prefix_volume_mount_point = ''/mnt''"
definition prefix_volume_device_path :: string where "prefix_volume_device_path = ''/dev''"

definition new_storage_dev :: "string \<Rightarrow> storage_dev" where
  "new_storage_dev name = \<lparr>sd_name = name, sd_dev_name = prefix_volume_device_path @ ''/'' @ name,
     sd_mount_point = prefix_volume_mount_point @ ''/'' @ name\<rparr>"

text \<open>The arrays have 64, 64 and 128 characters.\<close>

definition add_storage_dev :: "string \<Rightarrow> storage_dev list \<Rightarrow> storage_dev list option" where
  "add_storage_dev name devs =
     (if \<exists>d\<in>set devs. sd_name d = name then Some devs
      else let d = new_storage_dev name
           in if length (sd_name d) < 64 \<and> length (sd_dev_name d) < 64 \<and> length (sd_mount_point d) < 128 then Some (devs @ [d])
              else None)"

definition del_storage_dev :: "string \<Rightarrow> storage_dev list \<Rightarrow> storage_dev list" where
  "del_storage_dev name devs = filter (\<lambda>d. sd_name d \<noteq> name) devs"

section \<open>Events\<close>

definition handle_block_event :: "netlink_event \<Rightarrow> storage_dev list \<Rightarrow> storage_dev list option" where
  "handle_block_event ev devs =
     (let nparts = (case find_param ev ''NPARTS'' of None \<Rightarrow> -1 | Some s \<Rightarrow> atoi s);
          selected = (\<lambda>t. (t = ''disk'' \<and> nparts = 0) \<or> t = ''partition'')
      in case find_param ev ''DEVNAME'' of
           None \<Rightarrow> None
         | Some name \<Rightarrow>
             if is_prefixed_with name ''sd'' = None \<and> is_prefixed_with name ''mmcblk'' = None then Some devs
             else if nl_action ev = NLACTION_ADD then
               (case find_param ev ''DEVTYPE'' of
                  None \<Rightarrow> None | Some t \<Rightarrow> if selected t then add_storage_dev name devs else Some devs)
             else if nl_action ev = NLACTION_REMOVE then
               (case find_param ev ''DEVTYPE'' of
                  None \<Rightarrow> None | Some t \<Rightarrow> if selected t then Some (del_storage_dev name devs) else Some devs)
             else Some devs)"

definition handle_net_event :: "netlink_event \<Rightarrow> storage_dev list \<Rightarrow> storage_dev list option" where
  "handle_net_event ev devs = Some devs"

definition handle_event :: "netlink_event \<Rightarrow> storage_dev list \<Rightarrow> storage_dev list option" where
  "handle_event ev devs =
     (case nl_subsystem ev of
        None \<Rightarrow> None
      | Some subsystem \<Rightarrow>
          if subsystem = ''block'' then handle_block_event ev devs
          else if subsystem = ''net'' then handle_net_event ev devs
          else Some devs)"

section \<open>Mounting\<close>

text \<open>\<open>vols\<close> is the list of the mount manager.\<close>

fun try_mount ::
  "('p, 'z) mount_platform_scheme \<Rightarrow> mounted_volume list \<Rightarrow> storage_dev \<Rightarrow> string list \<Rightarrow> 'p \<Rightarrow> (bool \<times> 'p) option" where
  "try_mount P vols device [] p = Some (False, p)"
| "try_mount P vols device (fs # fss) p =
     (case mount_volume P vols (sd_dev_name device) (sd_mount_point device) fs p of
        None \<Rightarrow> None
      | Some (error, p) \<Rightarrow> if error = 0 then Some (True, p) else try_mount P vols device fss p)"

definition ensure_volume_mounted ::
  "('p, 'z) mount_platform_scheme \<Rightarrow> storage_dev \<Rightarrow> 'p \<Rightarrow> (int \<times> mounted_volume list \<times> 'p) option" where
  "ensure_volume_mounted P device p =
     (case scan_mounted_volumes P p of None \<Rightarrow> None | Some vols \<Rightarrow>
      case try_mount P vols device supported_filesystem_list p of None \<Rightarrow> None | Some (ok, p) \<Rightarrow>
      if \<not> ok then Some (-1, vols, p)
      else map_option (\<lambda>vols. (0, vols, p)) (scan_mounted_volumes P p))"

definition ensure_volume_unmounted ::
  "('p, 'z) mount_platform_scheme \<Rightarrow> storage_dev \<Rightarrow> 'p \<Rightarrow> (int \<times> mounted_volume list \<times> 'p) option" where
  "ensure_volume_unmounted P device p =
     (case scan_mounted_volumes P p of None \<Rightarrow> None | Some vols \<Rightarrow>
      case find_mounted_volume_by_device vols (sd_dev_name device) of
        None \<Rightarrow> Some (0, vols, p)
      | Some volume \<Rightarrow>
          (case umount_volume P volume vols p of None \<Rightarrow> None | Some (error, vols, p) \<Rightarrow>
           if error < 0 then Some (-1, vols, p)
           else map_option (\<lambda>vols. (0, vols, p)) (scan_mounted_volumes P p)))"

text \<open>The results for single devices are not looked at.\<close>

fun mount_devices ::
  "('p, 'z) mount_platform_scheme \<Rightarrow> storage_dev list \<Rightarrow> mounted_volume list \<Rightarrow> 'p \<Rightarrow> (mounted_volume list \<times> 'p) option" where
  "mount_devices P [] vols p = Some (vols, p)"
| "mount_devices P (d # ds) vols p =
     (case ensure_volume_mounted P d p of None \<Rightarrow> None | Some (_, vols, p) \<Rightarrow> mount_devices P ds vols p)"

definition mount_all_storage ::
  "('p, 'z) mount_platform_scheme \<Rightarrow> storage_dev list \<Rightarrow> mounted_volume list \<Rightarrow> 'p \<Rightarrow> (mounted_volume list \<times> 'p) option" where
  "mount_all_storage P devs vols p =
     (case dir_delete P prefix_volume_mount_point p of None \<Rightarrow> None | Some (_, p) \<Rightarrow> mount_devices P devs vols p)"

text \<open>Every device is taken out of the list, whether it could be unmounted or not.\<close>

fun umount_all_storage ::
  "('p, 'z) mount_platform_scheme \<Rightarrow> storage_dev list \<Rightarrow> mounted_volume list \<Rightarrow> 'p \<Rightarrow>
     (storage_dev list \<times> mounted_volume list \<times> 'p) option" where
  "umount_all_storage P [] vols p = Some ([], vols, p)"
| "umount_all_storage P (d # ds) vols p =
     (case ensure_volume_unmounted P d p of None \<Rightarrow> None | Some (_, vols, p) \<Rightarrow> umount_all_storage P ds vols p)"

section \<open>Hot plugging, from the kernel's text to the list\<close>

text \<open>A partition appears or disappears; the names the devices have after it.\<close>

definition partition_event :: "bool \<times> string \<Rightarrow> string" where
  "partition_event e =
     (let act = (if fst e then ''add'' else ''remove'')
      in uevent act (''/block/'' @ snd e)
           [(''ACTION'', act), (''SUBSYSTEM'', ''block''), (''DEVNAME'', snd e), (''DEVTYPE'', ''partition'')])"

fun plug :: "string list \<Rightarrow> bool \<times> string \<Rightarrow> string list" where
  "plug names (True, n) = (if n \<in> set names then names else names @ [n])"
| "plug names (False, n) = filter (\<lambda>m. m \<noteq> n) names"

definition pluggable :: "string \<Rightarrow> bool" where
  "pluggable n \<longleftrightarrow> plain n \<and> length n \<le> 58 \<and> is_prefixed_with n ''sd'' \<noteq> None"

lemma partition_event_handled:
  assumes "pluggable (snd e)"
  shows "\<exists>ev. decode NETLINK_FORMAT_ASCII (partition_event e) construct_netlink_event = Some (True, ev) \<and>
    handle_event ev (map new_storage_dev names) = Some (map new_storage_dev (plug names e))"
proof -
  obtain b n where e: "e = (b, n)" by (cases e)
  let ?act = "if b then ''add'' else ''remove''"
  let ?kvs = "[(''ACTION'', ?act), (''SUBSYSTEM'', ''block''), (''DEVNAME'', n), (''DEVTYPE'', ''partition'')]"
  define ev where "ev = foldl assign (construct_netlink_event\<lparr>nl_path := Some (''block/'' @ n)\<rparr>) ?kvs"
  have n: "plain n" "length n \<le> 58" "is_prefixed_with n ''sd'' \<noteq> None" using assms by (simp_all add: e pluggable_def)
  have "decode NETLINK_FORMAT_ASCII (uevent ?act (CHR ''/'' # ''block/'' @ n) ?kvs) construct_netlink_event = Some (True, ev)"
    unfolding ev_def using n(1) by (intro decode_uevent_lemma) (auto simp: plain_def plain_key_def NUL_def)
  then have "decode NETLINK_FORMAT_ASCII (partition_event e) construct_netlink_event = Some (True, ev)"
    by (simp add: partition_event_def e Let_def cong: if_cong)
  moreover have ev: "nl_subsystem ev = Some ''block''" "nl_action ev = (if b then NLACTION_ADD else NLACTION_REMOVE)"
      "nl_params ev = [assignment (''DEVNAME'', n), assignment (''DEVTYPE'', ''partition'')]"
    by (simp_all add: ev_def construct_netlink_event_def action_of_def NL_PARAMS_MAX_def)
  have find: "find_param ev ''DEVNAME'' = Some n" "find_param ev ''DEVTYPE'' = Some ''partition''"
    unfolding find_param_def ev(3) by (simp_all add: assignment_def deref_def)
  have "handle_event ev (map new_storage_dev names) = Some (map new_storage_dev (plug names e))"
    unfolding handle_event_def ev(1) handle_block_event_def Let_def find ev(2)
    using n(2,3) by (auto simp: e add_storage_dev_def del_storage_dev_def new_storage_dev_def prefix_volume_device_path_def
        prefix_volume_mount_point_def filter_map o_def split: if_splits)
  ultimately show ?thesis by blast
qed



end
