(* ===== verification/OtaMerge.thy ===== *)
theory OtaMerge
  imports UpdateFile Mtd
begin

text \<open>
  Judging an update against the device, in \<open>client/recovery/ota/ota_manager.c\<close>:
  \<open>check_device_info\<close> compares the partition table of the package with the flash, and
  \<open>merge_imginfo_into_partinfo\<close> hands the images of the update to the partitions they lie in.
  The update's list of images is walked with a pointer that is kept between partitions; a
  pointer into it is an index.
\<close>

section \<open>The partition table\<close>

text \<open>\<open>sscanf\<close> with \<open>mtdblock%d\<close>; the number stays 0 when nothing matches.\<close>

definition scan_blknum :: "string \<Rightarrow> int" where
  "scan_blknum s =
     (if take 8 s \<noteq> ''mtdblock'' then 0
      else let (neg, r) = scan_sign (skip_ws (drop 8 s))
           in case scan_digits 10 r of None \<Rightarrow> 0 | Some (n, _) \<Rightarrow> strtol_val neg n)"

definition show_int :: "int \<Rightarrow> string" where
  "show_int i = (if i < 0 then CHR ''-'' # show_base 10 (nat (- i)) else show_base 10 (nat i))"

text \<open>The name has room for eight characters; a longer one overruns the array.\<close>

definition check_part :: "bm_env \<Rightarrow> part_info \<Rightarrow> bool option" where
  "check_part env info =
     (let blkname = ''mtd'' @ show_int (scan_blknum (part_block_name info))
      in if 8 \<le> length blkname then None
         else Some (word_of_int (mtd_get_partition_start_by_name env blkname) = part_offset info \<and>
                    word_of_int (mtd_get_partition_size_by_name env blkname) = part_size info))"

fun check_parts :: "bm_env \<Rightarrow> part_info list \<Rightarrow> int option" where
  "check_parts env [] = Some 0"
| "check_parts env (info # infos) =
     (case check_part env info of None \<Rightarrow> None | Some ok \<Rightarrow> if ok then check_parts env infos else Some (-1))"

text \<open>An unsupported type of device ends the program.\<close>

definition check_device_info :: "bm_env \<Rightarrow> device_info \<Rightarrow> int option" where
  "check_device_info env di =
     (if dev_type di = ''nand'' \<or> dev_type di = ''nor'' then
        (if dev_part_count di \<noteq> word_of_int (mtd_get_partition_count env) then Some (-1)
         else check_parts env (dev_parts di))
      else None)"

section \<open>Images and partitions\<close>

text \<open>
  How the walk over the images ends for one partition: at an image in front of it (the whole
  function returns), at an image behind it, at the end of the list, at an image that leaves
  it, or at an image that another partition already has and whose links would be overwritten.
\<close>

datatype merge_end = Early | Crossed nat | Exhausted | Overlap | Relinked

definition add_image :: "image_info \<Rightarrow> part_info \<Rightarrow> part_info" where
  "add_image img part = part\<lparr>part_images := Some ((case part_images part of None \<Rightarrow> [] | Some l \<Rightarrow> l) @ [img]),
     part_image_count := part_image_count part + 1, part_total_chunks := part_total_chunks part + chunkcount img\<rparr>"

fun merge_images ::
  "image_info list \<Rightarrow> nat \<Rightarrow> u64 \<Rightarrow> u64 \<Rightarrow> nat list \<Rightarrow> part_info \<Rightarrow> merge_end \<times> nat list \<times> part_info" where
  "merge_images [] i left right linked part = (Exhausted, linked, part)"
| "merge_images (img # imgs) i left right linked part =
     (if img_offset img < left then (Early, linked, part)
      else if right \<le> img_offset img then (Crossed i, linked, part)
      else if right < img_offset img + img_size img then (Overlap, linked, part)
      else if i \<in> set linked then (Relinked, linked, part)
      else merge_images imgs (i + 1) left right (linked @ [i]) (add_image img part))"

text \<open>\<open>continue\<close> is \<open>pos_continue\<close>, at first null; \<open>None\<close> as result is a destroyed list.\<close>

fun merge_parts ::
  "image_info list \<Rightarrow> nat option \<Rightarrow> nat list \<Rightarrow> part_info list \<Rightarrow> int option \<times> part_info list" where
  "merge_parts imgs continue linked [] = (Some 0, [])"
| "merge_parts imgs continue linked (part # parts) =
     (let start = (case continue of None \<Rightarrow> 0 | Some i \<Rightarrow> i);
          left = part_offset part;
          (r, linked, part) = merge_images (drop start imgs) start left (left + part_size part) linked (part\<lparr>part_images := Some []\<rparr>)
      in case r of
           Early \<Rightarrow> (Some 0, part # parts)
         | Crossed i \<Rightarrow> apsnd ((#) part) (merge_parts imgs (Some i) linked parts)
         | Exhausted \<Rightarrow> apsnd ((#) part) (merge_parts imgs continue linked parts)
         | Overlap \<Rightarrow> (Some (-1), part # parts)
         | Relinked \<Rightarrow> (None, part # parts))"

definition merge_imginfo_into_partinfo :: "device_info \<Rightarrow> update_info \<Rightarrow> int option \<times> device_info" where
  "merge_imginfo_into_partinfo di ui =
     apsnd (\<lambda>parts. di\<lparr>dev_parts := parts\<rparr>) (merge_parts (upd_images ui) None [] (dev_parts di))"

section \<open>What each partition gets\<close>

definition fits :: "part_info \<Rightarrow> image_info \<Rightarrow> bool" where
  "fits part img \<longleftrightarrow> part_offset part \<le> img_offset img \<and> uint (img_offset img) < uint (part_offset part) + uint (part_size part) \<and>
     uint (img_offset img) + uint (img_size img) \<le> uint (part_offset part) + uint (part_size part)"

text \<open>Each partition begins where the one before it ends, and none reaches the limit of 64 bits.\<close>

fun adjacent :: "part_info list \<Rightarrow> bool" where
  "adjacent [] = True"
| "adjacent [p] = (uint (part_offset p) + uint (part_size p) < 2 ^ 64)"
| "adjacent (p # q # ps) = (uint (part_offset q) = uint (part_offset p) + uint (part_size p) \<and> adjacent (q # ps))"

definition fill :: "part_info \<Rightarrow> image_info list \<Rightarrow> part_info" where
  "fill part imgs = foldl (\<lambda>p img. add_image img p) (part\<lparr>part_images := Some []\<rparr>) imgs"

lemma uint_u64_add: "uint a + uint b < 2 ^ 64 \<Longrightarrow> uint (a + b) = uint a + uint b" for a b :: u64
  using uint_add_lem [of a b] by simp

lemma uint_u64_less: "uint a < 2 ^ 64" for a :: u64
  using unsigned_less [of a, where ?'a = int] by simp

lemma uint_nonnegative: "0 \<le> uint a" for a :: u64
  by simp

lemma adjacent_end: "adjacent (p # ps) \<Longrightarrow> uint (part_offset p) + uint (part_size p) < 2 ^ 64"
  using uint_u64_less by (cases ps) (auto, metis uint_u64_less power_one)

lemma adjacent_Cons: "adjacent (p # ps) \<Longrightarrow> adjacent ps"
  by (cases ps) auto

lemma part_end: "adjacent (p # ps) \<Longrightarrow> uint (part_offset p + part_size p) = uint (part_offset p) + uint (part_size p)"
  by (intro uint_u64_add adjacent_end)

lemma fits_tests:
  assumes "fits p img" "adjacent (p # ps)"
  shows "\<not> img_offset img < part_offset p" "\<not> part_offset p + part_size p \<le> img_offset img"
    "\<not> part_offset p + part_size p < img_offset img + img_size img"
proof -
  have "uint (img_offset img) + uint (img_size img) < 2 ^ 64"
    using assms(1) adjacent_end [OF assms(2)] by (simp add: fits_def)
  then have "uint (img_offset img + img_size img) = uint (img_offset img) + uint (img_size img)"
    by (rule uint_u64_add)
  then show "\<not> part_offset p + part_size p < img_offset img + img_size img"
    using assms(1) part_end [OF assms(2)] by (simp add: fits_def word_less_def)
qed (use assms part_end [OF assms(2)] in \<open>auto simp: fits_def word_less_def word_le_def\<close>)

lemma merge_images_group:
  assumes "adjacent (p # ps)" "\<forall>img\<in>set g. fits p img" "set linked \<subseteq> {..<i}"
    and "r = [] \<or> part_offset p + part_size p \<le> img_offset (hd r)"
  shows "merge_images (g @ r) i (part_offset p) (part_offset p + part_size p) linked part =
    (if r = [] then Exhausted else Crossed (i + length g), linked @ [i..<i + length g], foldl (\<lambda>p img. add_image img p) part g)"
  using assms(2,3)
proof (induction g arbitrary: i linked part)
  case Nil
  then show ?case
  proof (cases r)
    case (Cons img r')
    then have le: "part_offset p + part_size p \<le> img_offset img" using assms(4) by simp
    then have "uint (part_offset p) \<le> uint (img_offset img)"
      using part_end [OF assms(1)] uint_nonnegative [of "part_size p"] unfolding word_le_def by linarith
    then show ?thesis using le Cons by (simp add: word_less_def)
  qed simp
next
  case (Cons img g)
  have "fits p img" using Cons.prems by simp
  note t = fits_tests [OF this assms(1)]
  have new: "i \<notin> set linked" using Cons.prems by auto
  have idx: "[i..<i + length (img # g)] = i # [i + 1..<i + 1 + length g]" by (simp add: upt_conv_Cons del: upt_Suc)
  from new have "merge_images ((img # g) @ r) i (part_offset p) (part_offset p + part_size p) linked part =
      merge_images (g @ r) (i + 1) (part_offset p) (part_offset p + part_size p) (linked @ [i]) (add_image img part)"
    using t by simp
  also have "\<dots> = (if r = [] then Exhausted else Crossed (i + 1 + length g), (linked @ [i]) @ [i + 1..<i + 1 + length g],
      foldl (\<lambda>p img. add_image img p) (add_image img part) g)"
    using Cons.prems by (intro Cons.IH) (auto simp: less_Suc_eq)
  also have "\<dots> = (if r = [] then Exhausted else Crossed (i + length (img # g)), linked @ [i..<i + length (img # g)],
      foldl (\<lambda>p img. add_image img p) part (img # g))"
    unfolding idx by (simp del: upt_Suc)
  finally show ?case .
qed

lemma fits_after:
  assumes "adjacent (p # ps)" "q \<in> set ps" "fits q img"
  shows "part_offset p + part_size p \<le> img_offset img"
proof -
  have "uint (part_offset p) + uint (part_size p) \<le> uint (part_offset q)"
    using assms(1,2)
  proof (induction ps arbitrary: p)
    case (Cons a ps)
    then have "uint (part_offset a) = uint (part_offset p) + uint (part_size p)"
      "q = a \<or> uint (part_offset a) + uint (part_size a) \<le> uint (part_offset q)" using Cons.IH [of a] by auto
    then show ?case using uint_nonnegative [of "part_size a"] by (elim disjE) (simp, linarith)
  qed simp
  then show ?thesis
    using assms(3) part_end [OF assms(1)] by (simp add: fits_def word_le_def)
qed

lemma merge_parts_distributes:
  assumes "adjacent (ps @ rest)" "list_all2 (\<lambda>p g. \<forall>img\<in>set g. fits p img) ps gs" "gs \<noteq> []" "last gs \<noteq> []"
    and "imgs = pre @ concat gs" "continue = Some (length pre) \<or> (continue = None \<and> pre = [])" "set linked \<subseteq> {..<length pre}"
  shows "merge_parts imgs continue linked (ps @ rest) =
    (Some 0, map2 fill ps gs @ (case rest of [] \<Rightarrow> [] | q # qs \<Rightarrow> q\<lparr>part_images := Some []\<rparr> # qs))"
  using assms
proof (induction ps arbitrary: gs pre continue linked)
  case (Cons p ps)
  obtain g gs' where gs: "gs = g # gs'" "\<forall>img\<in>set g. fits p img" "list_all2 (\<lambda>p g. \<forall>img\<in>set g. fits p img) ps gs'"
    using Cons.prems(2) by (auto simp: list_all2_Cons1)
  have adj: "adjacent (p # ps @ rest)" using Cons.prems(1) by simp
  let ?start = "case continue of None \<Rightarrow> 0 | Some i \<Rightarrow> i"
  have start: "?start = length pre" using Cons.prems(6) by auto
  have d: "drop ?start imgs = g @ concat gs'" using Cons.prems(5) start by (simp add: gs(1))
  have ahead: "concat gs' = [] \<or> part_offset p + part_size p \<le> img_offset (hd (concat gs'))"
  proof (cases "concat gs'")
    case (Cons img r)
    then have "img \<in> set (concat gs')" by simp
    then obtain h where h: "h \<in> set gs'" "img \<in> set h" by auto
    then obtain k where k: "k < length gs'" "gs' ! k = h" by (meson in_set_conv_nth)
    then have "ps ! k \<in> set ps" "fits (ps ! k) img"
      using gs(3) h by (auto simp: list_all2_conv_all_nth)
    then show ?thesis using fits_after [OF adj, of "ps ! k"] Cons by simp
  qed simp
  have m: "merge_images (drop ?start imgs) ?start (part_offset p) (part_offset p + part_size p) linked (p\<lparr>part_images := Some []\<rparr>) =
      (if concat gs' = [] then Exhausted else Crossed (length pre + length g), linked @ [length pre..<length pre + length g], fill p g)"
    unfolding d unfolding start fill_def by (rule merge_images_group [OF adj gs(2) Cons.prems(7) ahead])
  show ?case
  proof (cases "gs' = []")
    case True
    then have ps: "ps = []" using gs(3) by simp
    have g: "g \<noteq> []" using Cons.prems(4) True gs(1) by simp
    show ?thesis
    proof (cases rest)
      case Nil
      then show ?thesis using m True ps by (simp add: gs(1))
    next
      case (Cons q qs)
      then have "part_offset p + part_size p = part_offset q"
        using adj part_end [OF adj] ps by (simp add: word_uint_eq_iff)
      moreover have "\<not> part_offset p + part_size p \<le> img_offset (hd g)"
        using fits_tests(2) [OF _ adj, of "hd g"] gs(2) g by simp
      ultimately have "img_offset (hd g) < part_offset q" by simp
      moreover have "drop ?start imgs = hd g # tl g" using d True g by simp
      ultimately have "merge_parts imgs continue l (q # qs) = (Some 0, q\<lparr>part_images := Some []\<rparr> # qs)" for l
        by (simp add: Let_def)
      then show ?thesis using m True ps Cons by (simp add: gs(1) Let_def)
    qed
  next
    case False
    then have ne: "concat gs' \<noteq> []" using Cons.prems(4) gs(1) by (auto simp: last_in_set)
    have "merge_parts imgs (Some (length pre + length g)) (linked @ [length pre..<length pre + length g]) (ps @ rest) =
        (Some 0, map2 fill ps gs' @ (case rest of [] \<Rightarrow> [] | q # qs \<Rightarrow> q\<lparr>part_images := Some []\<rparr> # qs))"
      using adjacent_Cons [OF adj] gs(3) False Cons.prems
      by (intro Cons.IH [of gs' "pre @ g"]) (auto simp: gs(1) intro: less_le_trans)
    then show ?thesis using m unfolding if_not_P [OF ne] by (simp add: gs(1) Let_def)
  qed
qed simp

text \<open>
  C40. Every image goes to its partition. When the partitions of the device are adjacent and
  the images come in the order of the partitions, each inside one (in any order within it),
  the merge succeeds and each partition up to the one with the last image holds exactly its
  images; the partition after that one is empty, and all further ones are returned as they
  came, their list heads never initialised.
\<close>

theorem merge_imginfo_distributes:
  assumes "dev_parts di = ps @ rest" "adjacent (ps @ rest)" "upd_images ui = concat gs" "gs \<noteq> []" "last gs \<noteq> []"
    and "list_all2 (\<lambda>p g. \<forall>img\<in>set g. fits p img) ps gs"
  shows "merge_imginfo_into_partinfo di ui =
    (Some 0, di\<lparr>dev_parts := map2 fill ps gs @ (case rest of [] \<Rightarrow> [] | q # qs \<Rightarrow> q\<lparr>part_images := Some []\<rparr> # qs)\<rparr>)"
  using merge_parts_distributes [OF assms(2,6,4,5), of "concat gs" "[]" None "[]"] assms(1,3)
  by (simp add: merge_imginfo_into_partinfo_def)

lemma fill_images: "part_images (fill p g) = Some g"
proof -
  have "part_images q = Some l \<Longrightarrow> part_images (foldl (\<lambda>p img. add_image img p) q g) = Some (l @ g)" for q l
    by (induction g arbitrary: q l) (simp_all add: add_image_def)
  then show ?thesis by (simp add: fill_def)
qed

text \<open>Four partitions of 16 bytes; an image in the first one.\<close>

definition quarter :: "u64 \<Rightarrow> part_info" where
  "quarter off = \<lparr>part_name = ''part'', part_offset = off, part_size = 16, part_block_name = ''mtdblock0'', part_image_count = 0,
     part_total_chunks = 0, part_images = None\<rparr>"

definition small_image :: image_info where
  "small_image = \<lparr>img_name = ''boot'', img_fs_type = ''normal'', img_offset = 0, img_size = 8, update_mode = UPDATE_MODE_FULL,
     chunksize = 0, chunkcount = 1\<rparr>"

theorem merge_imginfo_distributes_witness:
  "let r = merge_imginfo_into_partinfo ((new_device_info ''nand'')\<lparr>dev_parts := [quarter 0, quarter 16, quarter 32, quarter 48]\<rparr>)
       ((new_update_info ''nand'')\<lparr>upd_images := [small_image]\<rparr>)
   in fst r = Some 0 \<and> map part_images (dev_parts (snd r)) = [Some [small_image], Some [], None, None]"
  using merge_imginfo_distributes [of "(new_device_info ''nand'')\<lparr>dev_parts := [quarter 0, quarter 16, quarter 32, quarter 48]\<rparr>"
      "[quarter 0]" "[quarter 16, quarter 32, quarter 48]" "(new_update_info ''nand'')\<lparr>upd_images := [small_image]\<rparr>" "[[small_image]]"]
  by (simp add: fill_images quarter_def small_image_def fits_def)

end
