(* ===== verification/OtaWrite.thy ===== *)
theory OtaWrite
  imports OtaMerge BlockManager SysFlag Storage LoadKeys Verifier
begin

text \<open>
  Writing one package of an update to the flash, \<open>write_update_pkg\<close> of
  \<open>client/recovery/ota/ota_manager.c\<close>, and the state of the update manager. What the program
  calls outside the repository or through vendored code (files, the XML parser, unzip,
  download, echo) is the platform; the block manager is the one of \<open>Mtd\<close>. The buffer of the
  function is static: whether it is allocated, its size and the distance between two writes
  outlive a call. A failure frees the buffer; \<open>malloc\<close> succeeds.
\<close>

section \<open>The state\<close>

text \<open>
  \<open>pf_xml\<close> is what Mini-XML makes of a file, \<open>pf_download\<close> the exit status of wget for an
  address and a directory, \<open>pf_echo\<close> the result of pinging the server. \<open>pf_verify\<close> and \<open>pf_key\<close> hold the contents of
  the memory that is read before it is written when a package is verified.
\<close>

record 'p ota_platform = "'p mount_platform" +
  pf_xml :: "'p \<Rightarrow> string \<Rightarrow> xml_file"
  pf_unzip :: "string \<Rightarrow> string \<Rightarrow> 'p \<Rightarrow> int \<times> 'p"
  pf_download :: "string \<Rightarrow> string \<Rightarrow> 'p \<Rightarrow> int \<times> 'p"
  pf_echo :: "string \<Rightarrow> 'p \<Rightarrow> int \<times> 'p"
  pf_verify :: verify_env
  pf_key :: RSAPublicKey

text \<open>
  What an update does, a ghost field: the flag was written with this value and result, the
  signature of a package was found good, a file was written as chunk number \<open>n\<close> of an image
  with this result.
\<close>

datatype ota_event = Flag_write u32 int | Package_verified string | Chunk_write image_info nat int

record ('p, 'u, 'k) ota =
  o_files :: 'p
  o_bm :: "('u, 'k) bm"
  o_uf :: update_file
  o_volumes :: "mounted_volume list"
  o_devs :: "storage_dev list"
  next_write_offset :: int
  write_buffer :: bool
  write_buffer_size :: u32
  write_media_leap :: u32
  o_log :: "ota_event list"

definition unset_option :: operation_option where
  "unset_option = \<lparr>opt_method = 0, opt_filetype = []\<rparr>"

section \<open>The first package of a partition\<close>

text \<open>
  Preparing the partition: the filesystem, the buffer (of the smallest size the filesystem
  allows) and the distance, the erasure, and the offset of the first write; \<open>None\<close> inside
  the result is the jump to the failure. The test that the logical block size is negative and
  the branches of the other ways to choose a buffer can never be taken.
\<close>

definition begin_partition ::
  "'k kernel \<Rightarrow> ('u, 'k) fs_ops \<Rightarrow> image_info \<Rightarrow> ('p, 'u, 'k) ota \<Rightarrow> (int option \<times> ('p, 'u, 'k) ota) option" where
  "begin_partition K U img s =
     (let (error, opt) = set_operation_option (Some unset_option) BM_OPERATION_METHOD_PARTITION (img_fs_type img);
          off = sint (img_offset img)
      in if error < 0 then Some (None, s)
         else case mtd_block_prepare K U off (sint (img_size img)) opt (o_bm s) of
           None \<Rightarrow> None
         | Some (prepared, bm) \<Rightarrow>
             let s = s\<lparr>o_bm := bm\<rparr>
             in if prepared = None then Some (None, s)
                else let s = (if write_buffer s then s
                              else s\<lparr>write_buffer := True, write_buffer_size := mtd_get_prepare_leb_size bm,
                                     write_media_leap := word_of_int (mtd_get_blocksize_by_offset (env_of bm) off)\<rparr>)
                     in case mtd_block_erase K U off (mtd_get_partition_size_by_offset (env_of bm) off) bm of
                          None \<Rightarrow> None
                        | Some (error, bm) \<Rightarrow>
                            let s = s\<lparr>o_bm := bm\<rparr>
                            in if error < 0 then Some (None, s)
                               else let cur = mtd_get_prepare_write_start bm
                                    in Some (if cur < 0 then None else Some cur, s))"

section \<open>The loop over a file\<close>

text \<open>
  The file is read in pieces of the size of the buffer, each is written and the offset grows
  by the fixed distance. \<open>write\<close> is the block manager's operation over its state \<open>'b\<close>. A
  read into a null buffer fails; a file that ends early, or a buffer of size 0, keeps the loop
  from ending, which is the value \<open>None\<close>. The result says whether all went well.
\<close>

function chunk_loop ::
  "(int \<Rightarrow> u8 list \<Rightarrow> 'b \<Rightarrow> (int \<times> 'b) option) \<Rightarrow> bool \<Rightarrow> u32 \<Rightarrow> u32 \<Rightarrow> u8 list \<Rightarrow> nat \<Rightarrow> int \<Rightarrow> int \<Rightarrow> 'b \<Rightarrow>
     (bool \<times> int \<times> 'b) option" where
  "chunk_loop write buffer buffer_size leap data filesize cur next_offset b =
     (if filesize = 0 then Some (True, next_offset, b)
      else if buffer_size = 0 then None
      else let readsize = min filesize (unat buffer_size)
           in if data = [] \<or> (buffer \<and> length data < readsize) then None
              else if \<not> buffer then Some (False, next_offset, b)
              else case write cur (take readsize data) b of
                     None \<Rightarrow> None
                   | Some (r, b) \<Rightarrow>
                       if r < 0 then Some (False, r, b)
                       else chunk_loop write buffer buffer_size leap (drop readsize data) (filesize - readsize) (cur + uint leap) r b)"
  by auto
termination
  by (relation "measure (\<lambda>(_, _, _, _, _, filesize, _). filesize)") (auto simp: unat_gt_0)

declare chunk_loop.simps [simp del]

definition bm_write :: "'k kernel \<Rightarrow> ('u, 'k) fs_ops \<Rightarrow> int \<Rightarrow> u8 list \<Rightarrow> ('u, 'k) bm \<Rightarrow> (int \<times> ('u, 'k) bm) option" where
  "bm_write K U offset data bm = mtd_block_write K U offset data (int (length data)) bm"

section \<open>A package\<close>

definition pkg_failed :: "('p, 'u, 'k) ota \<Rightarrow> (int \<times> ('p, 'u, 'k) ota) option" where
  "pkg_failed s = Some (-1, s\<lparr>write_buffer := False\<rparr>)"

text \<open>The end of the last image's last package.\<close>

definition end_partition :: "'k kernel \<Rightarrow> ('u, 'k) fs_ops \<Rightarrow> ('p, 'u, 'k) ota \<Rightarrow> (int \<times> ('p, 'u, 'k) ota) option" where
  "end_partition K U s =
     (case mtd_block_finish K U (o_bm s) of
        None \<Rightarrow> None
      | Some (error, bm) \<Rightarrow>
          let s = s\<lparr>o_bm := bm\<rparr>
          in if error < 0 then pkg_failed s else Some (0, s\<lparr>write_buffer := False\<rparr>))"

text \<open>
  Where the first piece goes: the offset is compared and chosen as an unsigned number.
\<close>

definition write_start_of :: "int \<Rightarrow> int \<Rightarrow> image_info \<Rightarrow> int" where
  "write_start_of cur next_offset img =
     (if next_offset \<noteq> 0 \<and> cur = 0 then sint (max (word_of_int next_offset) (img_offset img)) else cur)"

definition write_pieces ::
  "'k kernel \<Rightarrow> ('u, 'k) fs_ops \<Rightarrow> part_info \<Rightarrow> image_info \<Rightarrow> u8 list \<Rightarrow> nat \<Rightarrow> int \<Rightarrow> bool \<Rightarrow> ('p, 'u, 'k) ota \<Rightarrow>
     (int \<times> ('p, 'u, 'k) ota) option" where
  "write_pieces K U part img data filesize cur is_last s =
     (if word_of_int (next_write_offset s) > part_offset part + part_size part then pkg_failed s
      else case chunk_loop (bm_write K U) (write_buffer s) (write_buffer_size s) (write_media_leap s) data filesize
                  (write_start_of cur (next_write_offset s) img) (next_write_offset s) (o_bm s) of
             None \<Rightarrow> None
           | Some (ok, next_offset, bm) \<Rightarrow>
               let s = s\<lparr>next_write_offset := next_offset, o_bm := bm\<rparr>
               in if \<not> ok then pkg_failed s
                  else if is_last then end_partition K U s
                  else Some (0, s))"

text \<open>
  \<open>chunk\<close> counts from 1. Images are told apart by their names. A partition without images has
  no first one to be looked at, and other devices than the two are not supported: both are
  the value \<open>None\<close>.
\<close>

definition write_update_pkg ::
  "('p, 'z) ota_platform_scheme \<Rightarrow> 'k kernel \<Rightarrow> ('u, 'k) fs_ops \<Rightarrow> update_info \<Rightarrow> part_info \<Rightarrow> image_info \<Rightarrow> string \<Rightarrow> nat \<Rightarrow>
     ('p, 'u, 'k) ota \<Rightarrow> (int \<times> ('p, 'u, 'k) ota) option" where
  "write_update_pkg P K U ui part img path chunk s =
     (case pf_content P (o_files s) path of
        None \<Rightarrow> pkg_failed s
      | Some data \<Rightarrow>
     (case part_images part of
        Some (first_image # images) \<Rightarrow>
          let filesize = unat (word_of_int (get_file_size P path (o_files s)) :: u32);
              last_image = last (first_image # images);
              is_last = (img_name last_image = img_name img \<and> chunk = unat (chunkcount img))
          in if upd_devtype ui \<noteq> ''nand'' \<and> upd_devtype ui \<noteq> ''nor'' then None
             else if img_name first_image = img_name img \<and> chunk = 1 then
               (case begin_partition K U img s of
                  None \<Rightarrow> None
                | Some (None, s) \<Rightarrow> pkg_failed s
                | Some (Some cur, s) \<Rightarrow> write_pieces K U part img data filesize cur is_last s)
             else write_pieces K U part img data filesize 0 is_last s
      | _ \<Rightarrow> None))"

end
