(* ===== verification/OtaStore.thy ===== *)
theory OtaStore
  imports OtaWrite FlashWrite
begin

text \<open>
  What the loop over the pieces of a package puts on the flash. The operation it calls is an
  interface, stated as a locale: a write of a piece into erased, good flash stores it and
  returns where it ended. The loop is proved once over the interface; the block manager's
  write is its instance. Bad blocks are where the loop and the interface do not fit together.
\<close>

section \<open>The interface\<close>

locale piece_writer =
  fixes put :: "int \<Rightarrow> u8 list \<Rightarrow> 'b \<Rightarrow> (int \<times> 'b) option"
    and ready :: "'b \<Rightarrow> bool"
    and cell :: "'b \<Rightarrow> int \<Rightarrow> u8"
    and shown :: "int \<Rightarrow> u8 \<Rightarrow> u8"
    and page low high :: int
  assumes put_piece:
    "ready b \<Longrightarrow> low \<le> off \<Longrightarrow> (off - low) mod page = 0 \<Longrightarrow> bs \<noteq> [] \<Longrightarrow>
     off + int (length (padded page bs)) \<le> high \<Longrightarrow>
     \<forall>a. off \<le> a \<and> a < off + int (length (padded page bs)) \<longrightarrow> cell b a = 0xff \<Longrightarrow>
     \<exists>b'. put off bs b = Some (off + int (length (padded page bs)), b') \<and> ready b' \<and>
       cell b' = (\<lambda>a. if off \<le> a \<and> a < off + int (length (padded page bs)) then shown a (padded page bs ! nat (a - off)) else cell b a)"
    and page_pos: "ready b \<Longrightarrow> 0 < page" and low_pos: "ready b \<Longrightarrow> 0 \<le> low"
begin

lemma padded_exact: "0 < page \<Longrightarrow> int (length bs) mod page = 0 \<Longrightarrow> padded page bs = bs"
  using mod_eq_0_iff_dvd [of "- int (length bs)" page] mod_eq_0_iff_dvd [of "int (length bs)" page] by (simp add: padded_def)

lemma padded_split:
  assumes "int n mod page = 0" "n \<le> length data"
  shows "padded page data = take n data @ padded page (drop n data)"
proof -
  have "(- int (length data)) mod page = (- int (length (drop n data))) mod page"
    using assms by (metis (no_types, lifting) length_drop minus_diff_eq mod_diff_right_eq of_nat_diff diff_zero mod_minus_cong)
  then show ?thesis by (simp add: padded_def)
qed

text \<open>
  A buffer of whole pages and a distance as long as the buffer: the file ends up in one piece
  from the first offset on, filled up to whole pages.
\<close>

lemma loop_stores:
  assumes "ready b" "low \<le> cur" "(cur - low) mod page = 0" "data \<noteq> []"
    and "cur + int (length (padded page data)) \<le> high"
    and "\<forall>a. cur \<le> a \<and> a < cur + int (length (padded page data)) \<longrightarrow> cell b a = 0xff"
    and "uint buffer_size mod page = 0" "buffer_size \<noteq> 0"
  shows "\<exists>b'. chunk_loop put True buffer_size buffer_size data (length data) cur next_offset b =
      Some (True, cur + int (length (padded page data)), b') \<and> ready b' \<and>
    cell b' = (\<lambda>a. if cur \<le> a \<and> a < cur + int (length (padded page data)) then shown a (padded page data ! nat (a - cur)) else cell b a)"
  using assms(1-6)
proof (induction "length data" arbitrary: data cur next_offset b rule: less_induct)
  case less
  note page = page_pos [OF less.prems(1)]
  define n where "n = min (length data) (unat buffer_size)"
  let ?L = "\<lambda>bs. int (length (padded page bs))"
  let ?bs = "take n data" and ?rest = "drop n data"
  have "0 < unat buffer_size" using assms(8) by (simp add: unat_gt_0)
  then have n: "0 < n" "n \<le> length data" using less.prems(4) by (simp_all add: n_def)
  then have bs: "?bs \<noteq> []" by (cases data) auto
  have whole: "int n mod page = 0 \<and> n = unat buffer_size" if "?rest \<noteq> []"
  proof -
    have eq: "n = unat buffer_size" using that by (simp add: n_def)
    moreover have "int n mod page = 0" unfolding eq using assms(7) by simp
    ultimately show ?thesis by simp
  qed
  have split: "padded page data = padded page ?bs @ (if ?rest = [] then [] else padded page ?rest)"
    using padded_split [of n data] padded_exact [OF page, of ?bs] whole n(2) by (cases "?rest = []") simp_all
  have len: "?L data = ?L ?bs + (if ?rest = [] then 0 else ?L ?rest)" using arg_cong [OF split, of length] by simp
  have le: "?L ?bs \<le> ?L data" unfolding len by simp
  have fit: "cur + ?L ?bs \<le> high" using less.prems(5) le by linarith
  have er: "\<forall>a. cur \<le> a \<and> a < cur + ?L ?bs \<longrightarrow> cell b a = 0xff"
  proof (intro allI impI)
    fix a assume "cur \<le> a \<and> a < cur + ?L ?bs"
    then have "cur \<le> a \<and> a < cur + ?L data" using le by linarith
    then show "cell b a = 0xff" using less.prems(6) by blast
  qed
  obtain b1 where b1: "put cur ?bs b = Some (cur + ?L ?bs, b1)" "ready b1"
    "cell b1 = (\<lambda>a. if cur \<le> a \<and> a < cur + ?L ?bs then shown a (padded page ?bs ! nat (a - cur)) else cell b a)"
    using put_piece [OF less.prems(1-3) bs fit er] by blast
  have "0 \<le> cur + ?L ?bs" using low_pos [OF less.prems(1)] less.prems(2) by simp
  then have step: "chunk_loop put True buffer_size buffer_size data (length data) cur next_offset b =
      chunk_loop put True buffer_size buffer_size ?rest (length data - n) (cur + uint buffer_size) (cur + ?L ?bs) b1"
    using less.prems(4) assms(8) b1(1) n by (subst chunk_loop.simps) (simp add: n_def [symmetric] Let_def)
  show ?case
  proof (cases "?rest = []")
    case True
    then have all: "?bs = data" "length data - n = 0" using n(2) by simp_all
    have stop: "chunk_loop put True buffer_size buffer_size r 0 c o' b1 = Some (True, o', b1)" for r c o'
      by (subst chunk_loop.simps) simp
    show ?thesis using b1 unfolding step all stop by simp
  next
    case False
    note w = whole [OF False]
    have "int (length ?bs) mod page = 0" using conjunct1 [OF w] n(2) by (simp only: length_take min_absorb2)
    from padded_exact [OF page this] n(2) have exact: "padded page ?bs = ?bs" "?L ?bs = int n" by simp_all
    have nb: "uint buffer_size = int n" using w by simp
    have al: "(cur + int n - low) mod page = 0"
    proof -
      have "page dvd (cur - low) + int n"
        using less.prems(3) conjunct1 [OF w] by (intro dvd_add) (simp_all only: mod_eq_0_iff_dvd)
      moreover have "cur + int n - low = (cur - low) + int n" by simp
      ultimately show ?thesis by (simp only: mod_eq_0_iff_dvd)
    qed
    have "\<exists>b'. chunk_loop put True buffer_size buffer_size ?rest (length ?rest) (cur + int n) (cur + int n) b1 =
        Some (True, cur + int n + ?L ?rest, b') \<and> ready b' \<and>
      cell b' = (\<lambda>a. if cur + int n \<le> a \<and> a < cur + int n + ?L ?rest then shown a (padded page ?rest ! nat (a - (cur + int n))) else cell b1 a)"
    proof (rule less.hyps [OF _ b1(2) _ al False])
      show "length ?rest < length data" using n by simp
      show "low \<le> cur + int n" using less.prems(2) by simp
      show "cur + int n + ?L ?rest \<le> high" using less.prems(5) len exact(2) False by simp
      show "\<forall>a. cur + int n \<le> a \<and> a < cur + int n + ?L ?rest \<longrightarrow> cell b1 a = 0xff"
        using less.prems(6) len exact(2) False by (auto simp: b1(3))
    qed
    then obtain b2 where b2: "chunk_loop put True buffer_size buffer_size ?rest (length ?rest) (cur + int n) (cur + int n) b1 =
        Some (True, cur + int n + ?L ?rest, b2)" "ready b2"
      "cell b2 = (\<lambda>a. if cur + int n \<le> a \<and> a < cur + int n + ?L ?rest then shown a (padded page ?rest ! nat (a - (cur + int n))) else cell b1 a)"
      by blast
    have "shown a (padded page data ! nat (a - cur)) = (if a < cur + int n then shown a (?bs ! nat (a - cur)) else shown a (padded page ?rest ! nat (a - (cur + int n))))"
      if "cur \<le> a" for a
    proof -
      have "nat (a - cur) - n = nat (a - (cur + int n))" using that by simp
      then show ?thesis using that split exact(1) False n(2) by (auto simp: nth_append nat_less_iff)
    qed
    then have "cell b2 = (\<lambda>a. if cur \<le> a \<and> a < cur + ?L data then shown a (padded page data ! nat (a - cur)) else cell b a)"
      using len exact False unfolding b2(3) b1(3) fun_eq_iff by auto
    moreover have "chunk_loop put True buffer_size buffer_size data (length data) cur next_offset b = Some (True, cur + ?L data, b2)"
      unfolding step nb exact(2) using b2(1) len exact(2) False by simp
    ultimately show ?thesis using b2(2) by blast
  qed
qed

end

section \<open>The block manager as an instance\<close>

text \<open>
  The manager is prepared for a filesystem without OOB data on a NAND partition, the device
  obeys seeks, reads and writes, and no block of the window from \<open>low\<close> to \<open>high\<close> is recorded
  bad. The window ends below 2 GiB: offsets from there on are reported as failures.
\<close>

definition context_ready :: "mtd_dev \<Rightarrow> ('u, 'k) bm \<Rightarrow> bool" where
  "context_ready mtd bm \<longleftrightarrow> bm_prepared bm \<and>
     (\<exists>n fs p. context_handle (bm_info bm) = Some n \<and> n \<in> {''normal'', ''cramfs'', ''jffs2''} \<and>
        fs_find n (fs_table (bm_reg bm)) = Some fs \<and> params fs = Some p \<and> p_mtd p = Some mtd \<and> p_max_size p \<noteq> 0 \<and>
        \<not> FS_FLAG_IS_SET fs FS_FLAG_NOECC \<and> \<not> FS_FLAG_IS_SET fs FS_FLAG_WRITEOOB \<and> FS_FLAG_IS_SET fs FS_FLAG_PAD)"

definition device_ready ::
  "'k kernel \<Rightarrow> mtd_dev \<Rightarrow> ('k \<Rightarrow> int \<Rightarrow> u8) \<Rightarrow> ('k \<Rightarrow> int) \<Rightarrow> int \<Rightarrow> int \<Rightarrow> 'k world \<Rightarrow> bool" where
  "device_ready K mtd cells pos low high w \<longleftrightarrow>
     readable_device K (fds w (part_id mtd)) cells pos (mtd_size mtd) \<and>
     writable_device K (fds w (part_id mtd)) cells pos (mtd_size mtd) \<and> block_map w \<noteq> None \<and> table_covers mtd w \<and>
     (\<forall>a. low \<le> a \<and> a < high \<longrightarrow> \<not> skips w ((a - part_start mtd) div eb_size mtd))"

definition writer_ready ::
  "'k kernel \<Rightarrow> mtd_dev \<Rightarrow> ('k \<Rightarrow> int \<Rightarrow> u8) \<Rightarrow> ('k \<Rightarrow> int) \<Rightarrow> bool \<Rightarrow> sysinfo_layout list \<Rightarrow> int \<Rightarrow> int \<Rightarrow> ('u, 'k) bm \<Rightarrow> bool" where
  "writer_ready K mtd cells pos sys areas low high bm \<longleftrightarrow>
     wf_mtd mtd \<and> mtd_type_is_nand mtd \<and> part_start mtd \<le> low \<and> (low - part_start mtd) mod min_io_size mtd = 0 \<and>
     high \<le> part_start mtd + mtd_size mtd \<and> high < 2 ^ 31 \<and> device_ready K mtd cells pos low high (bm_world bm) \<and>
     bm_sysinfo (bm_conf bm) = sys \<and> layout (bm_world bm) = areas \<and> areas_ready (bm_conf bm) (bm_world bm) \<and> context_ready mtd bm"

definition bm_cell :: "mtd_dev \<Rightarrow> ('k \<Rightarrow> int \<Rightarrow> u8) \<Rightarrow> ('u, 'k) bm \<Rightarrow> int \<Rightarrow> u8" where
  "bm_cell mtd cells bm a = cells (kern (bm_world bm)) (a - part_start mtd)"

definition area_overlay :: "bool \<Rightarrow> sysinfo_layout list \<Rightarrow> int \<Rightarrow> u8 \<Rightarrow> u8" where
  "area_overlay sys areas a b = (if sys then sysinfo_byte areas a b else b)"

lemma usable_clear:
  assumes "\<forall>a. off \<le> a \<and> a < off + int n \<longrightarrow> \<not> bad (a div eb_size mtd)" "off + int n \<le> mtd_size mtd"
  shows "\<exists>r. usable mtd bad off = [off..off + int n - 1] @ r"
proof -
  have "[off..mtd_size mtd - 1] = [off..off + int n - 1] @ [off + int n..mtd_size mtd - 1]"
    using upto_split [of off "off + int n" "mtd_size mtd - 1"] assms(2) by simp
  moreover have "filter (\<lambda>a. \<not> bad (a div eb_size mtd)) [off..off + int n - 1] = [off..off + int n - 1]"
    using assms(1) by (intro filter_True) auto
  ultimately show ?thesis by (simp add: usable_def)
qed

lemma written_clear:
  assumes "usable mtd (skips w) off = [off..off + int (length img) - 1] @ r"
  shows "written env w mtd off img c =
    (\<lambda>a. if off \<le> a \<and> a < off + int (length img) then overlay env w (a + part_start mtd) (img ! nat (a - off)) else c a)"
proof
  fix a
  have "zip (usable mtd (skips w) off) img = zip [off..off + int (length img) - 1] img"
    unfolding assms by (simp add: zip_append1)
  then show "written env w mtd off img c a =
      (if off \<le> a \<and> a < off + int (length img) then overlay env w (a + part_start mtd) (img ! nat (a - off)) else c a)"
    by (simp add: written_def map_of_zip_upto)
qed

lemma fs_find_name: "fs_find n table = Some fs \<Longrightarrow> fs_name fs = n"
  by (auto simp: fs_find_def find_Some_iff)

lemma fs_find_put:
  "fs_find n table = Some fs \<Longrightarrow> fs_name fs2 = n \<Longrightarrow> fs_find n (fs_modify n (\<lambda>_. fs2) table) = Some fs2"
  by (induction table) (auto simp: fs_find_def fs_modify_def)

lemma narrow_small: "0 \<le> r \<Longrightarrow> r < 2 ^ 31 \<Longrightarrow> narrow r = r"
  by (simp add: narrow_def to_int_def sint_sbintrunc' signed_take_bit_int_eq_self)

lemma bm_write_stores:
  assumes rdy: "writer_ready K mtd cells pos sys areas low high bm" and off: "low \<le> off" "(off - low) mod min_io_size mtd = 0"
    and bs: "bs \<noteq> []" and fit: "off + int (length (padded (min_io_size mtd) bs)) \<le> high"
    and er: "\<forall>a. off \<le> a \<and> a < off + int (length (padded (min_io_size mtd) bs)) \<longrightarrow> bm_cell mtd cells bm a = 0xff"
  shows "\<exists>bm'. bm_write K U off bs bm = Some (off + int (length (padded (min_io_size mtd) bs)), bm') \<and>
    writer_ready K mtd cells pos sys areas low high bm' \<and>
    bm_cell mtd cells bm' = (\<lambda>a. if off \<le> a \<and> a < off + int (length (padded (min_io_size mtd) bs))
      then area_overlay sys areas a (padded (min_io_size mtd) bs ! nat (a - off)) else bm_cell mtd cells bm a)"
proof -
  let ?io = "min_io_size mtd" and ?img = "padded (min_io_size mtd) bs" and ?w = "bm_world bm" and ?start = "part_start mtd"
  have wf: "wf_mtd mtd" "mtd_type_is_nand mtd" "?start \<le> low" "(low - ?start) mod ?io = 0" "high \<le> ?start + mtd_size mtd" "high < 2 ^ 31"
    and sys: "bm_sysinfo (bm_conf bm) = sys" "layout ?w = areas"
    and dev: "readable_device K (fds ?w (part_id mtd)) cells pos (mtd_size mtd)"
      "writable_device K (fds ?w (part_id mtd)) cells pos (mtd_size mtd)" "block_map ?w \<noteq> None" "table_covers mtd ?w"
      "\<forall>a. low \<le> a \<and> a < high \<longrightarrow> \<not> skips ?w ((a - ?start) div eb_size mtd)"
    and areas: "areas_ready (bm_conf bm) ?w"
    using rdy by (simp_all add: writer_ready_def device_ready_def)
  obtain n fs p where c: "context_handle (bm_info bm) = Some n" "n \<in> {''normal'', ''cramfs'', ''jffs2''}" "fs_find n (fs_table (bm_reg bm)) = Some fs"
      "params fs = Some p" "p_mtd p = Some mtd" "p_max_size p \<noteq> 0" "\<not> FS_FLAG_IS_SET fs FS_FLAG_NOECC"
      "\<not> FS_FLAG_IS_SET fs FS_FLAG_WRITEOOB" "FS_FLAG_IS_SET fs FS_FLAG_PAD" and prep: "bm_prepared bm"
    using rdy by (auto simp: writer_ready_def context_ready_def)
  define q where "q = p\<lparr>p_offset := off, p_buf := bs, p_length := int (length bs)\<rparr>"
  define fs1 where "fs1 = fs\<lparr>params := Some q\<rparr>"
  define env where "env = env_of (fs_put fs1 bm)"
  have env: "bm_sysinfo env = sys" by (simp add: env_def env_of_def fs_put_def sys)
  have name: "fs_name fs1 = n" using fs_find_name [OF c(3)] by (simp add: fs1_def)
  have "?io dvd off - ?start"
    using off(2) wf(4) by (metis dvd_add add_diff_eq diff_add_cancel mod_eq_0_iff_dvd)
  then have req: "write_request mtd q fs1"
    using c(5-9) bs off(1) wf(3) by (simp add: write_request_def fs1_def q_def FS_FLAG_IS_SET_def mod_eq_0_iff_dvd)
  have ar: "areas_ready env ?w" using areas sys(1) env by (simp add: areas_ready_def)
  have offs: "p_offset q = off" "p_buf q = bs" by (simp_all add: q_def)
  have clear: "\<forall>a. off - ?start \<le> a \<and> a < off - ?start + int (length ?img) \<longrightarrow> \<not> skips ?w (a div eb_size mtd)"
  proof (intro allI impI)
    fix a assume "off - ?start \<le> a \<and> a < off - ?start + int (length ?img)"
    then have "low \<le> a + ?start \<and> a + ?start < high" using off(1) fit by linarith
    then show "\<not> skips ?w (a div eb_size mtd)" using dev(5) by (metis add_diff_cancel_right')
  qed
  obtain r where r: "usable mtd (skips ?w) (off - ?start) = [off - ?start..off - ?start + int (length ?img) - 1] @ r"
    using usable_clear [OF clear] fit wf(5) by auto
  have img: "?img \<noteq> []" using bs by (simp add: padded_def)
  have len: "length [off - ?start..off - ?start + int (length ?img) - 1] = length ?img" by simp
  have take: "take (length ?img) (usable mtd (skips ?w) (off - ?start)) = [off - ?start..off - ?start + int (length ?img) - 1]"
    unfolding r by simp
  have last: "usable mtd (skips ?w) (off - ?start) ! (length ?img - 1) = off - ?start + int (length ?img) - 1"
    unfolding r using img by (simp add: nth_append) (simp add: of_nat_diff Suc_leI)
  have erased: "\<forall>a\<in>set (take (length (padded ?io (p_buf q))) (usable mtd (skips ?w) (p_offset q - ?start))). cells (kern ?w) a = 0xff"
  proof
    fix a assume "a \<in> set (take (length (padded ?io (p_buf q))) (usable mtd (skips ?w) (p_offset q - ?start)))"
    then have "off \<le> a + ?start \<and> a + ?start < off + int (length ?img)" unfolding offs take by auto
    then show "cells (kern ?w) a = 0xff" using er by (metis add_diff_cancel_right' bm_cell_def)
  qed
  have fits: "length (padded ?io (p_buf q)) \<le> length (usable mtd (skips ?w) (p_offset q - ?start))"
    unfolding offs r by simp
  obtain fs2 w' where W: "mtd_basic_write K env fs1 ?w = Some (?start + (off - ?start + int (length ?img) - 1) + 1, fs2, w')"
      "same_program ?w w'" "cells (kern w') = written env ?w mtd (off - ?start) ?img (cells (kern ?w))"
      "fs2 = fs1\<lparr>params := Some (q\<lparr>p_progress_size := p_progress_size q + p_length q\<rparr>)\<rparr>"
    using write_stores [OF wf(1,2) dev(1-4) req ar fits erased] unfolding offs last by blast
  define bm' where "bm' = fs_put fs2 (bm\<lparr>bm_world := w'\<rparr>)"
  have fin: "?start + (off - ?start + int (length ?img) - 1) + 1 = off + int (length ?img)" by simp
  have "0 \<le> off" "off + int (length ?img) < 2 ^ 31" using wf off fit by (auto simp: wf_mtd_def)
  then have small: "narrow (off + int (length ?img)) = off + int (length ?img)" by (intro narrow_small) simp_all
  have "fs_ops_of K U env fs1 = (if n = ''normal'' then fs_normal K env else if n = ''cramfs'' then fs_cramfs K env else fs_jffs2 K env)"
    using c(2) name by (auto simp: fs_ops_of_def)
  then have ops: "op_write (fs_ops_of K U env fs1) = normal_write K env"
    by (simp add: fs_normal_def fs_cramfs_def fs_jffs2_def)
  have run: "bm_write K U off bs bm = Some (off + int (length ?img), bm')"
    using prep c(1,3,4) W(1)
    by (simp add: bm_write_def mtd_block_write_def run_op_def data_transfer_params_set_def fs1_def [symmetric] q_def [symmetric]
        env_def [symmetric] ops normal_write_def bm_mach_def bm_put_def bm'_def fin small)
  have cell: "bm_cell mtd cells bm' = (\<lambda>a. if off \<le> a \<and> a < off + int (length ?img) then area_overlay sys areas a (?img ! nat (a - off)) else bm_cell mtd cells bm a)"
  proof
    fix a
    show "bm_cell mtd cells bm' a = (if off \<le> a \<and> a < off + int (length ?img) then area_overlay sys areas a (?img ! nat (a - off)) else bm_cell mtd cells bm a)"
      using written_clear [OF r, of env "cells (kern ?w)"]
      by (simp add: bm_cell_def bm'_def fs_put_def W(3) overlay_def area_overlay_def env sys(2))
  qed
  have flags: "FS_FLAG_IS_SET fs2 b = FS_FLAG_IS_SET fs b" for b by (simp add: W(4) fs1_def FS_FLAG_IS_SET_def)
  have "fs_find n (fs_table (bm_reg bm')) = Some fs2"
    using c(3) name W(4) by (simp add: bm'_def fs_put_def fs_find_put)
  then have ctx: "context_ready mtd bm'"
    using c prep flags by (auto simp: context_ready_def bm'_def fs_put_def W(4) q_def)
  have same: "skips w' = skips ?w" "table_covers mtd w' = table_covers mtd ?w" "block_map w' = block_map ?w" "fds w' = fds ?w" "layout w' = layout ?w"
    using same_program_skips [OF W(2)] same_program_covers [OF W(2)] W(2) by (simp_all add: same_program_def)
  have "writer_ready K mtd cells pos sys areas low high bm'"
    using wf dev areas sys ctx same by (simp add: writer_ready_def device_ready_def bm'_def fs_put_def areas_ready_def)
  with run cell show ?thesis by blast
qed

interpretation bmw: piece_writer "bm_write K U" "writer_ready K mtd cells pos sys areas low high" "bm_cell mtd cells" "area_overlay sys areas"
    "min_io_size mtd" low high
  for K :: "'k kernel" and U :: "('u, 'k) fs_ops" and mtd cells pos sys areas low high
proof
  fix b :: "('u, 'k) bm" and off bs
  assume "writer_ready K mtd cells pos sys areas low high b" "low \<le> off" "(off - low) mod min_io_size mtd = 0" "bs \<noteq> []"
    "off + int (length (padded (min_io_size mtd) bs)) \<le> high"
    "\<forall>a. off \<le> a \<and> a < off + int (length (padded (min_io_size mtd) bs)) \<longrightarrow> bm_cell mtd cells b a = 0xff"
  then show "\<exists>b'. bm_write K U off bs b = Some (off + int (length (padded (min_io_size mtd) bs)), b') \<and>
      writer_ready K mtd cells pos sys areas low high b' \<and>
      bm_cell mtd cells b' = (\<lambda>a. if off \<le> a \<and> a < off + int (length (padded (min_io_size mtd) bs))
        then area_overlay sys areas a (padded (min_io_size mtd) bs ! nat (a - off)) else bm_cell mtd cells b a)"
    by (rule bm_write_stores)
qed (auto simp: writer_ready_def wf_mtd_def)

lemma size_read:
  assumes "pf_size P p path = Some (int n)" "n < 2 ^ 31"
  shows "unat (word_of_int (get_file_size P path p) :: u32) = n"
proof -
  have "sint (word_of_int (int n) :: 32 word) = int n"
    unfolding sint_sbintrunc' using assms(2) by (simp add: signed_take_bit_int_eq_self)
  then have "get_file_size P path p = int n"
    by (simp only: get_file_size_def assms(1) option.case)
  then show ?thesis using assms(2) by (simp add: unat_of_nat take_bit_nat_eq_self)
qed

lemma write_start_max:
  assumes "0 < next_offset" "max next_offset (uint (img_offset img)) < 2 ^ 31"
  shows "write_start_of 0 next_offset img = max next_offset (uint (img_offset img))"
proof -
  have "next_offset < 2 ^ 31" using assms(2) by simp
  then have u: "uint (word_of_int next_offset :: u64) = next_offset"
    using assms(1) by (simp add: uint_word_of_int mod_pos_pos_trivial)
  have "uint (max (word_of_int next_offset) (img_offset img)) = max next_offset (uint (img_offset img))"
    unfolding max_def word_le_def if_distrib [of uint] u by simp
  moreover have "sint x = uint x" if "uint x < 2 ^ 31" for x :: u64
  proof -
    have "- (2 ^ 63) \<le> uint x" by (rule order_trans [OF _ uint_nonnegative]) simp
    then show ?thesis using that by (simp add: sint_uint signed_take_bit_int_eq_self)
  qed
  ultimately show ?thesis using assms unfolding write_start_of_def by simp
qed

lemma package_stores:
  fixes s :: "('p, 'u, 'k) ota" and img :: image_info and mtd :: mtd_dev
  defines "cur \<equiv> max (next_write_offset s) (uint (img_offset img))" and "io \<equiv> min_io_size mtd"
  assumes "writer_ready K mtd cells pos sys areas low high (o_bm s)"
    and "pf_content P (o_files s) path = Some data" "data \<noteq> []" "pf_size P (o_files s) path = Some (int (length data))" "length data < 2 ^ 31"
    and "part_images part = Some imgs" "imgs \<noteq> []" "upd_devtype ui \<in> {''nand'', ''nor''}"
    and "\<not> (img_name (hd imgs) = img_name img \<and> chunk = 1)" "\<not> (img_name (last imgs) = img_name img \<and> chunk = unat (chunkcount img))"
    and "write_buffer s" "write_media_leap s = write_buffer_size s" "write_buffer_size s \<noteq> 0" "uint (write_buffer_size s) mod io = 0"
    and "0 < next_write_offset s" "word_of_int (next_write_offset s) \<le> part_offset part + part_size part"
    and "low \<le> cur" "(cur - low) mod io = 0" "cur + int (length (padded io data)) \<le> high"
    and "\<forall>a. cur \<le> a \<and> a < cur + int (length (padded io data)) \<longrightarrow> bm_cell mtd cells (o_bm s) a = 0xff"
  shows "\<exists>s'. write_update_pkg P K U ui part img path chunk s = Some (0, s') \<and>
    next_write_offset s' = cur + int (length (padded io data)) \<and> writer_ready K mtd cells pos sys areas low high (o_bm s') \<and>
    bm_cell mtd cells (o_bm s') = (\<lambda>a. if cur \<le> a \<and> a < cur + int (length (padded io data))
      then area_overlay sys areas a (padded io data ! nat (a - cur)) else bm_cell mtd cells (o_bm s) a)"
proof -
  have "high < 2 ^ 31" using assms(3) by (simp add: writer_ready_def)
  then have start: "write_start_of 0 (next_write_offset s) img = cur"
    using assms(17,21) unfolding cur_def by (intro write_start_max) auto
  obtain bm' where L: "chunk_loop (bm_write K U) True (write_buffer_size s) (write_buffer_size s) data (length data) cur (next_write_offset s) (o_bm s) =
      Some (True, cur + int (length (padded io data)), bm')" "writer_ready K mtd cells pos sys areas low high bm'"
      "bm_cell mtd cells bm' = (\<lambda>a. if cur \<le> a \<and> a < cur + int (length (padded io data))
        then area_overlay sys areas a (padded io data ! nat (a - cur)) else bm_cell mtd cells (o_bm s) a)"
    using bmw.loop_stores [OF assms(3,19) assms(20) [unfolded io_def] assms(5) assms(21) [unfolded io_def]
        assms(22) [unfolded io_def] assms(16) [unfolded io_def] assms(15), of U "next_write_offset s", folded io_def] by blast
  obtain first rest where imgs: "imgs = first # rest" using assms(9) by (cases imgs) auto
  have "\<not> word_of_int (next_write_offset s) > part_offset part + part_size part" using assms(18) by simp
  then have "write_pieces K U part img data (length data) 0 False s =
      Some (0, s\<lparr>next_write_offset := cur + int (length (padded io data)), o_bm := bm'\<rparr>)"
    using L(1) assms(13,14) start by (simp add: write_pieces_def)
  moreover have "(img_name (last imgs) = img_name img \<and> chunk = unat (chunkcount img)) = False" using assms(12) by simp
  ultimately have "write_update_pkg P K U ui part img path chunk s =
      Some (0, s\<lparr>next_write_offset := cur + int (length (padded io data)), o_bm := bm'\<rparr>)"
    using assms(4,8,10,11) size_read [OF assms(6,7)] by (auto simp: write_update_pkg_def imgs Let_def)
  then show ?thesis using L(2,3) by auto
qed

text \<open>
  C4. A package of an image is stored. For every package after the first of its partition
  and before the last, on a prepared manager with a window of good, erased flash below 2 GiB,
  the file ends up at the offset the last one ended at (or where the image begins, if that is
  later), filled up to whole pages, with the system areas laid over it; nothing else changes,
  and the next package continues behind it.
\<close>

theorem write_update_pkg_stores:
  fixes s :: "('p, 'u, 'k) ota" and img :: image_info and mtd :: mtd_dev
  defines "cur \<equiv> max (next_write_offset s) (uint (img_offset img))" and "io \<equiv> min_io_size mtd"
  assumes "writer_ready K mtd cells pos sys areas low high (o_bm s)"
    and "pf_content P (o_files s) path = Some data" "data \<noteq> []" "pf_size P (o_files s) path = Some (int (length data))" "length data < 2 ^ 31"
    and "part_images part = Some imgs" "imgs \<noteq> []" "upd_devtype ui \<in> {''nand'', ''nor''}"
    and "\<not> (img_name (hd imgs) = img_name img \<and> chunk = 1)" "\<not> (img_name (last imgs) = img_name img \<and> chunk = unat (chunkcount img))"
    and "write_buffer s" "write_media_leap s = write_buffer_size s" "write_buffer_size s \<noteq> 0" "uint (write_buffer_size s) mod io = 0"
    and "0 < next_write_offset s" "word_of_int (next_write_offset s) \<le> part_offset part + part_size part"
    and "low \<le> cur" "(cur - low) mod io = 0" "cur + int (length (padded io data)) \<le> high"
    and "\<forall>a. cur \<le> a \<and> a < cur + int (length (padded io data)) \<longrightarrow> bm_cell mtd cells (o_bm s) a = 0xff"
  shows "\<exists>s'. write_update_pkg P K U ui part img path chunk s = Some (0, s') \<and>
    next_write_offset s' = cur + int (length (padded io data)) \<and> writer_ready K mtd cells pos sys areas low high (o_bm s') \<and>
    bm_cell mtd cells (o_bm s') = (\<lambda>a. if cur \<le> a \<and> a < cur + int (length (padded io data))
      then area_overlay sys areas a (padded io data ! nat (a - cur)) else bm_cell mtd cells (o_bm s) a)"
  unfolding cur_def io_def
  by (rule package_stores [OF assms(3-22) [unfolded cur_def io_def]])

end
