(* ===== verification/Ota.thy ===== *)
theory Ota
  imports OtaWrite
begin

text \<open>
  The update itself, the rest of \<open>client/recovery/ota/ota_manager.c\<close>: judging the packages on
  the mounted volumes, updating from a volume or from the server, and the main task. The two
  updates differ in where a package comes from; what they share is one group of definitions
  over the step that handles one package. The timer that ends the program after half an hour
  and the user interface are left out.
\<close>

section \<open>Names\<close>

definition prefix_global_xml :: string where "prefix_global_xml = ''global.xml''"
definition prefix_device_xml :: string where "prefix_device_xml = ''device.xml''"
definition prefix_update_xml :: string where "prefix_update_xml = ''update.xml''"
definition prefix_storage_update_path :: string where "prefix_storage_update_path = ''recovery-update''"
definition prefix_update_pkg :: string where "prefix_update_pkg = ''update''"
definition prefix_local_update_path :: string where "prefix_local_update_path = ''/tmp/update''"

text \<open>\<open>sprintf\<close> with \<open>%03d\<close> for a number that is not negative.\<close>

definition fmt03 :: "nat \<Rightarrow> string" where
  "fmt03 n = (let d = show_base 10 n in replicate (3 - length d) CHR ''0'' @ d)"

definition slash :: "string \<Rightarrow> string \<Rightarrow> string" where
  "slash a b = a @ ''/'' @ b"

definition local_file :: "string \<Rightarrow> string" where
  "local_file n = slash prefix_local_update_path n"

text \<open>The configuration file and the global data.\<close>

record ota_config =
  server_ip :: string
  server_url :: string
  public_key_path :: string

section \<open>Packages\<close>

definition verify_update_pkg ::
  "('p, 'z) ota_platform_scheme \<Rightarrow> ota_config \<Rightarrow> string \<Rightarrow> ('p, 'u, 'k) ota \<Rightarrow> (int \<times> ('p, 'u, 'k) ota) option" where
  "verify_update_pkg P cf path s =
     (case fst (load_keys (pf_key P) (map_option text_of (pf_content P (o_files s) (public_key_path cf)))) of
        None \<Rightarrow> Some (-1, s)
      | Some keys \<Rightarrow>
          (case verify_file ((pf_verify P)\<lparr>file_content := pf_content P (o_files s) path\<rparr>) keys of
             VERIFY_FAILURE \<Rightarrow> Some (-1, s)
           | VERIFY_SUCCESS \<Rightarrow> Some (0, s\<lparr>o_log := o_log s @ [Package_verified path]\<rparr>)
           | OUT_OF_BOUNDS \<Rightarrow> None))"

text \<open>The result of deleting the old directory is not looked at.\<close>

definition creat_unzip_dir :: "('p, 'z) ota_platform_scheme \<Rightarrow> ('p, 'u, 'k) ota \<Rightarrow> (int \<times> ('p, 'u, 'k) ota) option" where
  "creat_unzip_dir P s =
     (case dir_delete P prefix_local_update_path (o_files s) of
        None \<Rightarrow> None
      | Some (_, p) \<Rightarrow>
          let (r, p) = dir_create P prefix_local_update_path p
          in Some (if r < 0 then -1 else 0, s\<lparr>o_files := p\<rparr>))"

definition clean_unzip_dir :: "('p, 'z) ota_platform_scheme \<Rightarrow> ('p, 'u, 'k) ota \<Rightarrow> ('p, 'u, 'k) ota option" where
  "clean_unzip_dir P s =
     map_option (\<lambda>(_, p). s\<lparr>o_files := p\<rparr>) (dir_delete P prefix_local_update_path (o_files s))"

text \<open>
  The download runs wget, which is seen here only by its exit status. A process that cannot be
  started is a download that fails.
\<close>

definition download_file :: "('p, 'z) ota_platform_scheme \<Rightarrow> string \<Rightarrow> string \<Rightarrow> 'p \<Rightarrow> int \<times> 'p" where
  "download_file P file path p =
     (if file_executable P ''/usr/bin/wget'' p < 0 then (-1, p)
      else let (status, p) = pf_download P file path p in (if status \<noteq> 0 then -1 else 0, p))"

definition download :: "('p, 'z) ota_platform_scheme \<Rightarrow> string \<Rightarrow> ('p, 'u, 'k) ota \<Rightarrow> int \<times> ('p, 'u, 'k) ota" where
  "download P file s =
     (let (r, p) = download_file P file prefix_local_update_path (o_files s) in (r, s\<lparr>o_files := p\<rparr>))"

section \<open>The descriptions in package 0\<close>

text \<open>
  The device and the update are changed in place, whether the check succeeds or not.
\<close>

definition check_devive_update_info ::
  "('p, 'z) ota_platform_scheme \<Rightarrow> ota_config \<Rightarrow> string \<Rightarrow> device_info \<Rightarrow> update_info \<Rightarrow> ('p, 'u, 'k) ota \<Rightarrow>
     (int \<times> device_info \<times> update_info \<times> ('p, 'u, 'k) ota) option" where
  "check_devive_update_info P cf path di ui s =
     (if file_exist P path (o_files s) < 0 then Some (-1, di, ui, s)
      else case verify_update_pkg P cf path s of None \<Rightarrow> None | Some (r, s) \<Rightarrow>
      if r < 0 then Some (-1, di, ui, s)
      else let (r, p) = pf_unzip P path prefix_local_update_path (o_files s);
               s = s\<lparr>o_files := p\<rparr>
      in if r < 0 then Some (-1, di, ui, s)
      else case parse_device_xml (pf_xml P p) (local_file prefix_device_xml) di of
        (None, di) \<Rightarrow> None
      | (Some r, di) \<Rightarrow>
      if r < 0 then Some (-1, di, ui, s)
      else case check_device_info (env_of (o_bm s)) di of None \<Rightarrow> None | Some r \<Rightarrow>
      if r < 0 then Some (-1, di, ui, s)
      else case parse_update_xml (pf_xml P p) (local_file prefix_update_xml) ui of
        (None, ui) \<Rightarrow> None
      | (Some r, ui) \<Rightarrow>
      if r < 0 then Some (-1, di, ui, s)
      else case merge_imginfo_into_partinfo di ui of
        (None, di) \<Rightarrow> None
      | (Some r, di) \<Rightarrow> Some (if r < 0 then -1 else 0, di, ui, s))"

fun put_first :: "('a \<Rightarrow> bool) \<Rightarrow> 'a \<Rightarrow> 'a list \<Rightarrow> 'a list" where
  "put_first Q x [] = []"
| "put_first Q x (y # ys) = (if Q y then x # ys else y # put_first Q x ys)"

text \<open>The objects the two searches by type return are written back.\<close>

definition check_device ::
  "('p, 'z) ota_platform_scheme \<Rightarrow> ota_config \<Rightarrow> string \<Rightarrow> string \<Rightarrow> device_info \<Rightarrow> update_info \<Rightarrow> ('p, 'u, 'k) ota \<Rightarrow>
     (int \<times> update_info \<times> ('p, 'u, 'k) ota) option" where
  "check_device P cf devtype path di ui s =
     (case check_devive_update_info P cf path di ui s of
        None \<Rightarrow> None
      | Some (r, di, ui, s) \<Rightarrow>
          Some (r, ui, s\<lparr>o_uf := (o_uf s)\<lparr>device_list := put_first (\<lambda>d. devtype = dev_type d) di (device_list (o_uf s)),
                                      update_list := put_first (\<lambda>u. devtype = upd_devtype u) ui (update_list (o_uf s))\<rparr>\<rparr>))"

section \<open>Looking for a volume with an update\<close>

definition package_count :: "string list \<Rightarrow> nat" where
  "package_count names =
     length (filter (\<lambda>n. \<not> (n = ''..'' \<or> n = ''.'') \<and> is_prefixed_with n ''update'' \<noteq> None \<and> is_suffixed_with n ''.zip'' \<noteq> None) names)"

definition chunk_total :: "update_info \<Rightarrow> u32" where
  "chunk_total ui = sum_list (map chunkcount (upd_images ui))"

definition update_dir :: "mounted_volume \<Rightarrow> string" where
  "update_dir volume = slash (vol_mount_point volume) prefix_storage_update_path"

text \<open>One device type of the global file; false is the jump out of the loop over the types.\<close>

definition judge_device ::
  "('p, 'z) ota_platform_scheme \<Rightarrow> ota_config \<Rightarrow> mounted_volume \<Rightarrow> string \<Rightarrow> ('p, 'u, 'k) ota \<Rightarrow> (bool \<times> ('p, 'u, 'k) ota) option" where
  "judge_device P cf volume devtype s =
     (let dir = slash (update_dir volume) devtype
      in case get_device_info_by_devtype (o_uf s) devtype of None \<Rightarrow> Some (False, s) | Some di \<Rightarrow>
         case get_update_info_by_devtype (o_uf s) devtype of None \<Rightarrow> Some (False, s) | Some ui \<Rightarrow>
         if dir_exist P dir (o_files s) < 0 then Some (False, s)
         else case check_device P cf devtype (slash dir (prefix_update_pkg @ ''000.zip'')) di ui s of
           None \<Rightarrow> None
         | Some (r, ui, s) \<Rightarrow>
             if r < 0 then Some (False, s)
             else case pf_entries P (o_files s) dir of
               None \<Rightarrow> Some (False, s)
             | Some names \<Rightarrow> Some (chunk_total ui = word_of_nat (package_count names) - 1, s))"

fun judge_devices ::
  "('p, 'z) ota_platform_scheme \<Rightarrow> ota_config \<Rightarrow> mounted_volume \<Rightarrow> string list \<Rightarrow> ('p, 'u, 'k) ota \<Rightarrow>
     (bool \<times> ('p, 'u, 'k) ota) option" where
  "judge_devices P cf volume [] s = Some (True, s)"
| "judge_devices P cf volume (t # ts) s =
     (case judge_device P cf volume t s of
        None \<Rightarrow> None
      | Some (ok, s) \<Rightarrow> if ok then judge_devices P cf volume ts s else Some (False, s))"

fun judge_volumes ::
  "('p, 'z) ota_platform_scheme \<Rightarrow> ota_config \<Rightarrow> mounted_volume list \<Rightarrow> ('p, 'u, 'k) ota \<Rightarrow>
     (mounted_volume option \<times> ('p, 'u, 'k) ota) option" where
  "judge_volumes P cf [] s = Some (None, s)"
| "judge_volumes P cf (v # vs) s =
     (let path = slash (update_dir v) prefix_global_xml
      in if dir_exist P (update_dir v) (o_files s) < 0 then judge_volumes P cf vs s
         else if file_exist P path (o_files s) < 0 then judge_volumes P cf vs s
         else case parse_global_xml (pf_xml P (o_files s)) path (o_uf s) of
           (None, _) \<Rightarrow> None
         | (Some r, uf) \<Rightarrow>
             let s = s\<lparr>o_uf := uf\<rparr>
             in if r < 0 then judge_volumes P cf vs s
                else case walk_type_list (device_type_list uf) of None \<Rightarrow> None | Some types \<Rightarrow>
                case judge_devices P cf v types s of
                  None \<Rightarrow> None
                | Some (ok, s) \<Rightarrow> if ok then Some (Some v, s) else judge_volumes P cf vs s)"

definition find_valid_update_volume ::
  "('p, 'z) ota_platform_scheme \<Rightarrow> ota_config \<Rightarrow> ('p, 'u, 'k) ota \<Rightarrow> (mounted_volume option \<times> ('p, 'u, 'k) ota) option" where
  "find_valid_update_volume P cf s =
     (case creat_unzip_dir P s of None \<Rightarrow> None | Some (r, s) \<Rightarrow>
      if r < 0 then Some (None, s)
      else case judge_volumes P cf (o_volumes s) s of
        None \<Rightarrow> None
      | Some (v, s) \<Rightarrow> map_option (Pair v) (clean_unzip_dir P s))"

section \<open>One package\<close>

text \<open>
  From the verification of a package to the write of the file in it. \<open>j\<close> is the number of the
  chunk in its image, from 1 on; false is the jump to the failure.
\<close>

definition chunk_file :: "image_info \<Rightarrow> nat \<Rightarrow> string" where
  "chunk_file img j = local_file (if chunkcount img = 1 then img_name img else img_name img @ ''_'' @ fmt03 j)"

definition process_package ::
  "('p, 'z) ota_platform_scheme \<Rightarrow> ota_config \<Rightarrow> 'k kernel \<Rightarrow> ('u, 'k) fs_ops \<Rightarrow> update_info \<Rightarrow> part_info \<Rightarrow> image_info \<Rightarrow>
     string \<Rightarrow> nat \<Rightarrow> ('p, 'u, 'k) ota \<Rightarrow> (bool \<times> ('p, 'u, 'k) ota) option" where
  "process_package P cf K U ui part img package j s =
     (if file_exist P package (o_files s) < 0 then Some (False, s)
      else case verify_update_pkg P cf package s of None \<Rightarrow> None | Some (r, s) \<Rightarrow>
      if r < 0 then Some (False, s)
      else let (r, p) = pf_unzip P package prefix_local_update_path (o_files s);
               s = s\<lparr>o_files := p\<rparr>;
               path = chunk_file img j
      in if r < 0 then Some (False, s)
      else if file_exist P path p < 0 then Some (False, s)
      else if word_of_nat j \<noteq> chunkcount img \<and> word_of_int (get_file_size P path p) \<noteq> chunksize img then Some (False, s)
      else case write_update_pkg P K U ui part img path j s of
        None \<Rightarrow> None
      | Some (r, s) \<Rightarrow> Some (\<not> r < 0, s\<lparr>o_log := o_log s @ [Chunk_write img j r]\<rparr>))"

text \<open>\<open>index\<close> numbers the packages of a device.\<close>

definition storage_package :: "mounted_volume \<Rightarrow> string \<Rightarrow> nat \<Rightarrow> string" where
  "storage_package volume devtype index =
     slash (slash (update_dir volume) devtype) (prefix_update_pkg @ fmt03 index @ ''.zip'')"

definition storage_chunk ::
  "('p, 'z) ota_platform_scheme \<Rightarrow> ota_config \<Rightarrow> 'k kernel \<Rightarrow> ('u, 'k) fs_ops \<Rightarrow> mounted_volume \<Rightarrow> string \<Rightarrow> update_info \<Rightarrow>
     part_info \<Rightarrow> image_info \<Rightarrow> nat \<Rightarrow> nat \<Rightarrow> ('p, 'u, 'k) ota \<Rightarrow> (bool \<times> ('p, 'u, 'k) ota) option" where
  "storage_chunk P cf K U volume devtype ui part img j index s =
     (case creat_unzip_dir P s of None \<Rightarrow> None | Some (r, s) \<Rightarrow>
      if r < 0 then Some (False, s)
      else process_package P cf K U ui part img (storage_package volume devtype index) j s)"

definition network_package :: "nat \<Rightarrow> string" where
  "network_package index = local_file (prefix_update_pkg @ fmt03 index @ ''.zip'')"

definition network_chunk ::
  "('p, 'z) ota_platform_scheme \<Rightarrow> ota_config \<Rightarrow> 'k kernel \<Rightarrow> ('u, 'k) fs_ops \<Rightarrow> string \<Rightarrow> update_info \<Rightarrow>
     part_info \<Rightarrow> image_info \<Rightarrow> nat \<Rightarrow> nat \<Rightarrow> ('p, 'u, 'k) ota \<Rightarrow> (bool \<times> ('p, 'u, 'k) ota) option" where
  "network_chunk P cf K U devtype ui part img j index s =
     (case creat_unzip_dir P s of None \<Rightarrow> None | Some (r, s) \<Rightarrow>
      if r < 0 then Some (False, s)
      else let (r, s) = download P (slash (slash (server_url cf) devtype) (prefix_update_pkg @ fmt03 index @ ''.zip'')) s
           in if r < 0 then Some (False, s)
              else process_package P cf K U ui part img (network_package index) j s)"

section \<open>The loops over a device\<close>

text \<open>
  The loops of both updates, over the step for one package. The counters are signed; running
  past their range is the value \<open>None\<close>, as is a partition whose list was never initialised.
\<close>

function update_chunks ::
  "(nat \<Rightarrow> nat \<Rightarrow> 's \<Rightarrow> (bool \<times> 's) option) \<Rightarrow> nat \<Rightarrow> nat \<Rightarrow> nat \<Rightarrow> 's \<Rightarrow> (bool \<times> nat \<times> 's) option" where
  "update_chunks step count j index s =
     (if count < j then Some (True, index, s)
      else case step j index s of
             None \<Rightarrow> None
           | Some (ok, s) \<Rightarrow>
               if \<not> ok then Some (False, index, s)
               else if 2 ^ 31 \<le> j + 1 \<or> 2 ^ 31 \<le> index + 1 then None
               else update_chunks step count (j + 1) (index + 1) s)"
  by auto
termination
  by (relation "measure (\<lambda>(_, count, j, _). Suc count - j)") auto

declare update_chunks.simps [simp del]

fun update_images ::
  "(image_info \<Rightarrow> nat \<Rightarrow> nat \<Rightarrow> 's \<Rightarrow> (bool \<times> 's) option) \<Rightarrow> image_info list \<Rightarrow> nat \<Rightarrow> 's \<Rightarrow> (bool \<times> nat \<times> 's) option" where
  "update_images step [] index s = Some (True, index, s)"
| "update_images step (img # imgs) index s =
     (case update_chunks (step img) (unat (chunkcount img)) 1 index s of
        None \<Rightarrow> None
      | Some (ok, index, s) \<Rightarrow> if ok then update_images step imgs index s else Some (False, index, s))"

fun update_parts ::
  "(part_info \<Rightarrow> image_info \<Rightarrow> nat \<Rightarrow> nat \<Rightarrow> 's \<Rightarrow> (bool \<times> 's) option) \<Rightarrow> part_info list \<Rightarrow> nat \<Rightarrow> 's \<Rightarrow>
     (bool \<times> nat \<times> 's) option" where
  "update_parts step [] index s = Some (True, index, s)"
| "update_parts step (part # parts) index s =
     (case part_images part of
        None \<Rightarrow> None
      | Some imgs \<Rightarrow>
          (case update_images (step part) imgs index s of
             None \<Rightarrow> None
           | Some (ok, index, s) \<Rightarrow> if ok then update_parts step parts index s else Some (False, index, s)))"

section \<open>The two updates\<close>

definition write_flag :: "'k kernel \<Rightarrow> u32 \<Rightarrow> ('p, 'u, 'k) ota \<Rightarrow> (int \<times> ('p, 'u, 'k) ota) option" where
  "write_flag K v s =
     (let bm = o_bm s
      in case sysinfo_write_flag K (env_of bm) SYSINFO_FLAG_ID_UPDATE_DONE (le32 v) (bm_world bm) of
           None \<Rightarrow> None
         | Some (r, w) \<Rightarrow> Some (r, s\<lparr>o_bm := bm\<lparr>bm_world := w\<rparr>, o_log := o_log s @ [Flag_write v r]\<rparr>))"

definition update_failed :: "('p, 'z) ota_platform_scheme \<Rightarrow> ('p, 'u, 'k) ota \<Rightarrow> (int \<times> ('p, 'u, 'k) ota) option" where
  "update_failed P s = map_option (Pair (-1)) (clean_unzip_dir P s)"

text \<open>Between the two writes of the flag: \<open>device\<close> updates one type of device.\<close>

fun update_devices :: "(string \<Rightarrow> 's \<Rightarrow> (bool \<times> 's) option) \<Rightarrow> string list \<Rightarrow> 's \<Rightarrow> (bool \<times> 's) option" where
  "update_devices device [] s = Some (True, s)"
| "update_devices device (t # ts) s =
     (case device t s of None \<Rightarrow> None | Some (ok, s) \<Rightarrow> if ok then update_devices device ts s else Some (False, s))"

definition flagged_update ::
  "('p, 'z) ota_platform_scheme \<Rightarrow> 'k kernel \<Rightarrow> (string \<Rightarrow> ('p, 'u, 'k) ota \<Rightarrow> (bool \<times> ('p, 'u, 'k) ota) option) \<Rightarrow>
     ('p, 'u, 'k) ota \<Rightarrow> (int \<times> ('p, 'u, 'k) ota) option" where
  "flagged_update P K device s =
     (case write_flag K SYSINFO_FLAG_VALUE_UPDATE_START s of None \<Rightarrow> None | Some (r, s) \<Rightarrow>
      if r < 0 then update_failed P s
      else case walk_type_list (device_type_list (o_uf s)) of None \<Rightarrow> None | Some types \<Rightarrow>
      case update_devices device types s of None \<Rightarrow> None | Some (ok, s) \<Rightarrow>
      if \<not> ok then update_failed P s
      else case write_flag K SYSINFO_FLAG_VALUE_UPDATE_DONE s of None \<Rightarrow> None | Some (r, s) \<Rightarrow>
      if r < 0 then update_failed P s
      else map_option (Pair 0) (clean_unzip_dir P s))"

definition storage_device ::
  "('p, 'z) ota_platform_scheme \<Rightarrow> ota_config \<Rightarrow> 'k kernel \<Rightarrow> ('u, 'k) fs_ops \<Rightarrow> mounted_volume \<Rightarrow> string \<Rightarrow> ('p, 'u, 'k) ota \<Rightarrow>
     (bool \<times> ('p, 'u, 'k) ota) option" where
  "storage_device P cf K U volume devtype s =
     (case get_device_info_by_devtype (o_uf s) devtype of None \<Rightarrow> None | Some di \<Rightarrow>
      case get_update_info_by_devtype (o_uf s) devtype of None \<Rightarrow> None | Some ui \<Rightarrow>
      map_option (\<lambda>(ok, index, s). (ok, s))
        (update_parts (storage_chunk P cf K U volume devtype ui) (dev_parts di) 1 (s\<lparr>next_write_offset := 0\<rparr>)))"

definition update_from_storage ::
  "('p, 'z) ota_platform_scheme \<Rightarrow> ota_config \<Rightarrow> 'k kernel \<Rightarrow> ('u, 'k) fs_ops \<Rightarrow> ('p, 'u, 'k) ota \<Rightarrow> (int \<times> ('p, 'u, 'k) ota) option" where
  "update_from_storage P cf K U s =
     (case find_valid_update_volume P cf s of
        None \<Rightarrow> None
      | Some (None, s) \<Rightarrow> Some (-1, s)
      | Some (Some volume, s) \<Rightarrow> flagged_update P K (storage_device P cf K U volume) s)"

definition network_device ::
  "('p, 'z) ota_platform_scheme \<Rightarrow> ota_config \<Rightarrow> 'k kernel \<Rightarrow> ('u, 'k) fs_ops \<Rightarrow> string \<Rightarrow> ('p, 'u, 'k) ota \<Rightarrow>
     (bool \<times> ('p, 'u, 'k) ota) option" where
  "network_device P cf K U devtype s =
     (case get_device_info_by_devtype (o_uf s) devtype of None \<Rightarrow> Some (False, s) | Some di \<Rightarrow>
      case get_update_info_by_devtype (o_uf s) devtype of None \<Rightarrow> Some (False, s) | Some ui \<Rightarrow>
      let (r, s) = download P (slash (slash (server_url cf) devtype) (prefix_update_pkg @ ''000.zip'')) s
      in if r < 0 then Some (False, s)
         else case check_device P cf devtype (local_file (prefix_update_pkg @ ''000.zip'')) di ui s of
           None \<Rightarrow> None
         | Some (r, ui, s) \<Rightarrow>
             if r < 0 then Some (False, s)
             else case get_device_info_by_devtype (o_uf s) devtype of None \<Rightarrow> None | Some di \<Rightarrow>
             map_option (\<lambda>(ok, index, s). (ok, s))
               (update_parts (network_chunk P cf K U devtype ui) (dev_parts di) 1 (s\<lparr>next_write_offset := 0\<rparr>)))"

definition update_from_network ::
  "('p, 'z) ota_platform_scheme \<Rightarrow> ota_config \<Rightarrow> 'k kernel \<Rightarrow> ('u, 'k) fs_ops \<Rightarrow> ('p, 'u, 'k) ota \<Rightarrow> (int \<times> ('p, 'u, 'k) ota) option" where
  "update_from_network P cf K U s =
     (let (r, p) = pf_echo P (server_ip cf) (o_files s); s = s\<lparr>o_files := p\<rparr>
      in if r < 0 then Some (-1, s)
      else case creat_unzip_dir P s of None \<Rightarrow> None | Some (r, s) \<Rightarrow>
      if r < 0 then Some (-1, s)
      else let (r, s) = download P (slash (server_url cf) prefix_global_xml) s
      in if r < 0 then Some (-1, s)
      else case parse_global_xml (pf_xml P (o_files s)) (local_file prefix_global_xml) (o_uf s) of
        (None, _) \<Rightarrow> None
      | (Some r, uf) \<Rightarrow>
          let s = s\<lparr>o_uf := uf\<rparr>
          in if r < 0 then Some (-1, s)
             else case walk_type_list (device_type_list uf) of
               None \<Rightarrow> None
             | Some types \<Rightarrow> flagged_update P K (network_device P cf K U) s)"

section \<open>The main task\<close>

text \<open>
  The exit status and the state at the end. The network is tried with a fresh object for the
  descriptions when the storage has no update or its update fails.
\<close>

definition main_task ::
  "('p, 'z) ota_platform_scheme \<Rightarrow> ota_config \<Rightarrow> 'k kernel \<Rightarrow> ('u, 'k) fs_ops \<Rightarrow> ('p, 'u, 'k) ota \<Rightarrow> (int \<times> ('p, 'u, 'k) ota) option" where
  "main_task P cf K U s =
     (case scan_mounted_volumes P (o_files s) of None \<Rightarrow> None | Some vols \<Rightarrow>
      case mount_all_storage P (o_devs s) vols (o_files s) of None \<Rightarrow> None | Some (vols, p) \<Rightarrow>
      case update_from_storage P cf K U (s\<lparr>o_files := p, o_volumes := vols, o_uf := construct_update_file\<rparr>) of
        None \<Rightarrow> None
      | Some (error, s) \<Rightarrow>
          case (if error < 0 then update_from_network P cf K U (s\<lparr>o_uf := construct_update_file\<rparr>) else Some (error, s)) of
            None \<Rightarrow> None
          | Some (error, s) \<Rightarrow>
              case umount_all_storage P (o_devs s) (o_volumes s) (o_files s) of
                None \<Rightarrow> None
              | Some (devs, vols, p) \<Rightarrow>
                  Some (if error \<noteq> 0 then -1 else 0,
                        s\<lparr>o_devs := devs, o_volumes := vols, o_files := p, o_uf := free_global_list (o_uf s)\<rparr>))"

end
