(* ===== verification/OtaSafe.thy ===== *)
theory OtaSafe
  imports Ota
begin

text \<open>
  What an update does to the device, judged by the events it logs. The protocol is a state
  machine over the events; both updates, and the main task, follow it whatever the platform
  and the kernel answer. The loops are treated once, over a locale that says what the step
  for one package adds to the log; the steps of the two updates are its instances.
\<close>

section \<open>The protocol\<close>

text \<open>
  \<open>Stopped\<close>: a write failed and nothing follows. A chunk is only written in \<open>Verified\<close>, which
  every write leaves.
\<close>

datatype phase = Checking | Updating | Verified | Done | Stopped

inductive ota_step :: "phase \<Rightarrow> ota_event \<Rightarrow> phase \<Rightarrow> bool" where
  check: "ota_step Checking (Package_verified p) Checking"
| start: "ota_step Checking (Flag_write SYSINFO_FLAG_VALUE_UPDATE_START r) (if r < 0 then Stopped else Updating)"
| verify: "q = Updating \<or> q = Verified \<Longrightarrow> ota_step q (Package_verified p) Verified"
| chunk: "ota_step Verified (Chunk_write img j r) (if r < 0 then Stopped else Updating)"
| finish: "q = Updating \<or> q = Verified \<Longrightarrow> ota_step q (Flag_write SYSINFO_FLAG_VALUE_UPDATE_DONE r) (if r < 0 then Stopped else Done)"

inductive_cases ota_step_chunkE: "ota_step q (Chunk_write img j r) q'"

inductive ota_run :: "phase \<Rightarrow> ota_event list \<Rightarrow> phase \<Rightarrow> bool" where
  stay [intro]: "ota_run q [] q"
| move [intro]: "ota_step q e q' \<Longrightarrow> ota_run q' evs q'' \<Longrightarrow> ota_run q (e # evs) q''"

inductive_simps ota_run_Nil [simp]: "ota_run q [] q'"
inductive_simps ota_run_Cons: "ota_run q (e # evs) q'"

lemma ota_run_append: "ota_run q (evs @ fvs) q'' \<longleftrightarrow> (\<exists>q'. ota_run q evs q' \<and> ota_run q' fvs q'')"
  by (induction evs arbitrary: q) (auto simp: ota_run_Cons)

lemma ota_run_trans: "ota_run q evs q' \<Longrightarrow> ota_step q' e q'' \<Longrightarrow> ota_run q (evs @ [e]) q''"
  unfolding ota_run_append by (intro exI [of _ q'] conjI move [OF _ stay])

definition busy :: "phase \<Rightarrow> bool" where
  "busy q \<longleftrightarrow> q = Updating \<or> q = Verified"

lemma busy_simps [simp]: "busy Updating" "busy Verified" "\<not> busy Checking" "\<not> busy Done" "\<not> busy Stopped"
  by (simp_all add: busy_def)

lemma busy_verified: "busy q \<Longrightarrow> ota_step q (Package_verified p) Verified"
  by (simp add: busy_def ota_step.verify)

text \<open>What part of an update adds when it begins in the middle of it.\<close>

definition goes_on :: "bool \<Rightarrow> ota_event list \<Rightarrow> bool" where
  "goes_on ok evs \<longleftrightarrow> (\<forall>q. busy q \<longrightarrow> (\<exists>q'. ota_run q evs q' \<and> q' \<noteq> Done \<and> (ok \<longrightarrow> busy q')))"

lemma goes_on_Nil [simp, intro]: "goes_on ok []"
  by (auto simp: goes_on_def)

lemma goes_on_verified [intro]: "goes_on ok [Package_verified p]"
  by (auto simp: goes_on_def ota_run_Cons intro!: busy_verified exI [of _ Verified])

lemma goes_on_chunk:
  assumes "ok \<longrightarrow> \<not> r < 0"
  shows "goes_on ok [Package_verified p, Chunk_write img j r]"
  unfolding goes_on_def
proof (intro allI impI)
  fix q assume "busy q"
  let ?q' = "if r < 0 then Stopped else Updating"
  have "ota_run q [Package_verified p, Chunk_write img j r] ?q'"
    by (rule move [OF busy_verified [OF \<open>busy q\<close>] move [OF ota_step.chunk stay]])
  then show "\<exists>q'. ota_run q [Package_verified p, Chunk_write img j r] q' \<and> q' \<noteq> Done \<and> (ok \<longrightarrow> busy q')"
    using assms by (intro exI [of _ ?q']) simp
qed

lemma goes_on_append: "goes_on True evs \<Longrightarrow> goes_on ok fvs \<Longrightarrow> goes_on ok (evs @ fvs)"
  unfolding goes_on_def ota_run_append by meson

lemma goes_on_weaken: "goes_on ok evs \<Longrightarrow> goes_on False evs"
  by (auto simp: goes_on_def)

section \<open>A source of packages\<close>

text \<open>The chunks of a list of partitions in the order of the loops.\<close>

definition image_chunk_list :: "image_info \<Rightarrow> (image_info \<times> nat) list" where
  "image_chunk_list img = map (Pair img) [1..<Suc (unat (chunkcount img))]"

definition part_chunk_list :: "part_info \<Rightarrow> (image_info \<times> nat) list" where
  "part_chunk_list part = concat (map image_chunk_list (case part_images part of None \<Rightarrow> [] | Some imgs \<Rightarrow> imgs))"

definition chunk_events :: "(nat \<Rightarrow> string) \<Rightarrow> nat \<Rightarrow> (image_info \<times> nat) list \<Rightarrow> ota_event list" where
  "chunk_events pkg index cs =
     concat (map (\<lambda>(i, img, j). [Package_verified (pkg i), Chunk_write img j 0]) (enumerate index cs))"

lemma chunk_events_Nil [simp]: "chunk_events pkg i [] = []"
  by (simp add: chunk_events_def)

lemma chunk_events_Cons [simp]:
  "chunk_events pkg i ((img, j) # cs) = [Package_verified (pkg i), Chunk_write img j 0] @ chunk_events pkg (i + 1) cs"
  by (simp add: chunk_events_def)

lemma chunk_events_append: "chunk_events pkg i (cs @ ds) = chunk_events pkg i cs @ chunk_events pkg (i + length cs) ds"
  by (induction cs arbitrary: i) auto

locale package_source =
  fixes step :: "part_info \<Rightarrow> image_info \<Rightarrow> nat \<Rightarrow> nat \<Rightarrow> 's \<Rightarrow> (bool \<times> 's) option"
    and log :: "'s \<Rightarrow> ota_event list"
    and pkg :: "nat \<Rightarrow> string"
    and kept :: "'s \<Rightarrow> 'c"
  assumes step_ok: "step part img j i s = Some (True, s') \<Longrightarrow>
      log s' = log s @ [Package_verified (pkg i), Chunk_write img j 0]"
    and step_failed: "step part img j i s = Some (False, s') \<Longrightarrow>
      \<exists>evs. log s' = log s @ evs \<and> goes_on False evs"
    and step_kept: "step part img j i s = Some (ok, s') \<Longrightarrow> kept s' = kept s"
begin

text \<open>What a loop from package \<open>i\<close> on adds for the chunks \<open>cs\<close>.\<close>

definition adds :: "(image_info \<times> nat) list \<Rightarrow> nat \<Rightarrow> 's \<Rightarrow> bool \<Rightarrow> nat \<Rightarrow> 's \<Rightarrow> bool" where
  "adds cs i s ok i' s' \<longleftrightarrow> kept s' = kept s \<and>
     (ok \<longrightarrow> i' = i + length cs \<and> log s' = log s @ chunk_events pkg i cs) \<and> (\<exists>evs. log s' = log s @ evs \<and> goes_on ok evs)"

lemma adds_Nil: "adds [] i s True i s"
  by (auto simp: adds_def)

lemma adds_append: "adds cs i s True i1 s1 \<Longrightarrow> adds ds i1 s1 ok i' s' \<Longrightarrow> adds (cs @ ds) i s ok i' s'"
  unfolding adds_def by (auto simp: chunk_events_append intro: goes_on_append)

lemma adds_failed: "adds cs i s False i' s' \<Longrightarrow> adds ds i s False i' s'"
  unfolding adds_def by auto

lemma chunks_add:
  assumes "update_chunks (step part img) n j i s = Some (ok, i', s')"
  shows "adds (map (Pair img) [j..<Suc n]) i s ok i' s'"
  using assms
proof (induction "step part img" n j i s arbitrary: ok i' s' rule: update_chunks.induct)
  case (1 n j i s)
  show ?case
  proof (cases "n < j")
    case True
    then show ?thesis using 1(2) adds_Nil by (simp add: update_chunks.simps [of _ n j])
  next
    case False
    obtain ok1 s1 where s1: "step part img j i s = Some (ok1, s1)"
      using 1(2) False by (auto simp: update_chunks.simps [of _ n j] split: option.splits)
    show ?thesis
    proof (cases ok1)
      case False
      then have "ok = False" "s' = s1" using 1(2) s1 \<open>\<not> n < j\<close> by (auto simp: update_chunks.simps [of _ n j])
      then show ?thesis using step_failed [of part img j i s s1] step_kept [OF s1] s1 False by (simp add: adds_def)
    next
      case True
      have small: "\<not> (2 ^ 31 \<le> j + 1 \<or> 2 ^ 31 \<le> i + 1)"
        and rest: "update_chunks (step part img) n (j + 1) (i + 1) s1 = Some (ok, i', s')"
        using 1(2) s1 \<open>\<not> n < j\<close> True by (auto simp: update_chunks.simps [of _ n j] split: if_splits)
      have "adds [(img, j)] i s True (i + 1) s1"
        using step_ok [of part img j i s s1] step_kept [OF s1] s1 True by (auto simp: adds_def intro!: goes_on_chunk)
      moreover have "adds (map (Pair img) [j + 1..<Suc n]) (i + 1) s1 ok i' s'"
        using 1(1) [OF \<open>\<not> n < j\<close> s1 refl _ _ rest] True small by simp
      ultimately have "adds ([(img, j)] @ map (Pair img) [j + 1..<Suc n]) i s ok i' s'" by (rule adds_append)
      then show ?thesis using \<open>\<not> n < j\<close> by (simp add: upt_conv_Cons del: upt_Suc)
    qed
  qed
qed

lemma images_add:
  "update_images (step part) imgs i s = Some (ok, i', s') \<Longrightarrow> adds (concat (map image_chunk_list imgs)) i s ok i' s'"
proof (induction imgs arbitrary: i s)
  case (Cons img imgs)
  obtain ok1 i1 s1 where c: "update_chunks (step part img) (unat (chunkcount img)) 1 i s = Some (ok1, i1, s1)"
    using Cons.prems by (auto split: option.splits)
  note a = chunks_add [OF c, folded image_chunk_list_def]
  show ?case
  proof (cases ok1)
    case True
    then have "adds (concat (map image_chunk_list imgs)) i1 s1 ok i' s'" using Cons c by simp
    then show ?thesis using adds_append a True by auto
  next
    case False
    then show ?thesis using Cons.prems c adds_failed a by auto
  qed
qed (simp add: adds_Nil)

lemma parts_add:
  "update_parts step parts i s = Some (ok, i', s') \<Longrightarrow> adds (concat (map part_chunk_list parts)) i s ok i' s'"
proof (induction parts arbitrary: i s)
  case (Cons part parts)
  obtain imgs ok1 i1 s1 where c: "part_images part = Some imgs" "update_images (step part) imgs i s = Some (ok1, i1, s1)"
    using Cons.prems by (auto split: option.splits)
  have a: "adds (part_chunk_list part) i s ok1 i1 s1" using images_add [OF c(2)] c(1) by (simp add: part_chunk_list_def)
  show ?case
  proof (cases ok1)
    case True
    then have "adds (concat (map part_chunk_list parts)) i1 s1 ok i' s'" using Cons c by simp
    then show ?thesis using adds_append a True by auto
  next
    case False
    then show ?thesis using Cons.prems c adds_failed a by auto
  qed
qed (simp add: adds_Nil)

lemma parts_log:
  assumes "update_parts step parts i s = Some (ok, i', s')"
  shows "kept s' = kept s" "\<exists>evs. log s' = log s @ evs \<and> goes_on ok evs"
    and "ok \<Longrightarrow> log s' = log s @ chunk_events pkg i (concat (map part_chunk_list parts))"
  using parts_add [OF assms] by (simp_all add: adds_def)

text \<open>A list of images that was never initialised is never passed.\<close>

lemma parts_unset: "part \<in> set parts \<Longrightarrow> part_images part = None \<Longrightarrow> update_parts step parts i s \<noteq> Some (True, i', s')"
  by (induction parts arbitrary: i s) (auto split: option.splits if_splits)

end

section \<open>The step for one package\<close>

definition frame :: "('p, 'u, 'k) ota \<Rightarrow> update_file \<times> ota_event list" where
  "frame s = (o_uf s, o_log s)"

lemma frame_update [simp]:
  "frame (s\<lparr>o_bm := b\<rparr>) = frame s" "frame (s\<lparr>write_buffer := x\<rparr>) = frame s" "frame (s\<lparr>o_files := p\<rparr>) = frame s"
  "frame (s\<lparr>write_buffer_size := z\<rparr>) = frame s" "frame (s\<lparr>write_media_leap := z\<rparr>) = frame s"
  "frame (s\<lparr>next_write_offset := i\<rparr>) = frame s"
  by (simp_all add: frame_def)

lemma pkg_failed_frame: "pkg_failed s = Some (r, s') \<Longrightarrow> r = -1 \<and> frame s' = frame s"
  by (auto simp: pkg_failed_def)

lemma begin_partition_frame: "begin_partition K U img s = Some (r, s') \<Longrightarrow> frame s' = frame s"
  by (auto simp: begin_partition_def Let_def split: prod.splits option.splits if_splits)

lemma end_partition_frame: "end_partition K U s = Some (r, s') \<Longrightarrow> (r = 0 \<or> r = -1) \<and> frame s' = frame s"
  by (auto simp: end_partition_def Let_def split: option.splits if_splits dest!: pkg_failed_frame)

lemma write_pieces_frame:
  assumes "write_pieces K U part img data n cur is_last s = Some (r, s')"
  shows "(r = 0 \<or> r = -1) \<and> frame s' = frame s"
proof (cases "word_of_int (next_write_offset s) > part_offset part + part_size part")
  case True
  then show ?thesis using assms by (auto simp: write_pieces_def dest!: pkg_failed_frame)
next
  case False
  then obtain ok off bm where c: "chunk_loop (bm_write K U) (write_buffer s) (write_buffer_size s) (write_media_leap s) data n
      (write_start_of cur (next_write_offset s) img) (next_write_offset s) (o_bm s) = Some (ok, off, bm)"
    using assms by (auto simp: write_pieces_def split: option.splits)
  show ?thesis
    using assms False c by (auto simp: write_pieces_def Let_def split: if_splits dest!: pkg_failed_frame end_partition_frame)
qed

lemma write_update_pkg_frame:
  assumes "write_update_pkg P K U ui part img path j s = Some (r, s')"
  shows "(r = 0 \<or> r = -1) \<and> frame s' = frame s"
proof (cases "pf_content P (o_files s) path")
  case None
  then show ?thesis using assms by (auto simp: write_update_pkg_def dest!: pkg_failed_frame)
next
  case (Some data)
  then obtain first rest where "part_images part = Some (first # rest)" "upd_devtype ui = ''nand'' \<or> upd_devtype ui = ''nor''"
    using assms by (auto simp: write_update_pkg_def Let_def split: option.splits list.splits if_splits)
  then show ?thesis
    using assms Some
    by (auto simp: write_update_pkg_def Let_def split: option.splits prod.splits if_splits
        dest!: pkg_failed_frame write_pieces_frame begin_partition_frame)
qed

lemma verify_update_pkg_log:
  assumes "verify_update_pkg P cf path s = Some (r, s')"
  shows "(r < 0 \<and> s' = s) \<or> (r = 0 \<and> s' = s\<lparr>o_log := o_log s @ [Package_verified path]\<rparr>)"
  using assms by (auto simp: verify_update_pkg_def split: option.splits verdict.splits)

lemma creat_unzip_dir_frame: "creat_unzip_dir P s = Some (r, s') \<Longrightarrow> frame s' = frame s"
  by (auto simp: creat_unzip_dir_def Let_def split: option.splits prod.splits)

lemma clean_unzip_dir_frame: "clean_unzip_dir P s = Some s' \<Longrightarrow> frame s' = frame s"
  by (auto simp: clean_unzip_dir_def)

lemma download_frame: "download P file s = (r, s') \<Longrightarrow> frame s' = frame s"
  by (auto simp: download_def split: prod.splits)

lemma process_package_log:
  assumes "process_package P cf K U ui part img package j s = Some (ok, s')"
  shows "o_uf s' = o_uf s" "ok \<Longrightarrow> o_log s' = o_log s @ [Package_verified package, Chunk_write img j 0]"
    and "\<not> ok \<Longrightarrow> \<exists>evs. o_log s' = o_log s @ evs \<and> goes_on False evs"
proof -
  have "o_uf s' = o_uf s \<and> (if ok then o_log s' = o_log s @ [Package_verified package, Chunk_write img j 0]
      else \<exists>evs. o_log s' = o_log s @ evs \<and> goes_on False evs)"
  proof (cases "file_exist P package (o_files s) < 0")
    case True
    then show ?thesis using assms by (auto simp: process_package_def)
  next
    case False
    then obtain r s1 where v: "verify_update_pkg P cf package s = Some (r, s1)"
      using assms by (auto simp: process_package_def split: option.splits)
    obtain ur p where u: "pf_unzip P package prefix_local_update_path (o_files s1) = (ur, p)" by force
    show ?thesis
    proof (cases "r < 0 \<or> ur < 0 \<or> file_exist P (chunk_file img j) p < 0 \<or>
        (word_of_nat j \<noteq> chunkcount img \<and> word_of_int (get_file_size P (chunk_file img j) p) \<noteq> chunksize img)")
      case True
      then have "\<not> ok" "frame s' = frame s1"
        using assms False v u by (auto simp: process_package_def Let_def split: if_splits)
      then show ?thesis using verify_update_pkg_log [OF v] by (auto simp: frame_def)
    next
      case ready: False
      then obtain wr s2 where w: "write_update_pkg P K U ui part img (chunk_file img j) j (s1\<lparr>o_files := p\<rparr>) = Some (wr, s2)"
        "ok = (\<not> wr < 0)" "s' = s2\<lparr>o_log := o_log s2 @ [Chunk_write img j wr]\<rparr>"
        using assms False v u by (auto simp: process_package_def Let_def split: option.splits if_splits)
      have s1: "s1 = s\<lparr>o_log := o_log s @ [Package_verified package]\<rparr>" using verify_update_pkg_log [OF v] ready by auto
      have fr: "wr = 0 \<or> wr = -1" "o_uf s2 = o_uf s1" "o_log s2 = o_log s1"
        using write_update_pkg_frame [OF w(1)] by (auto simp: frame_def)
      show ?thesis using fr by (auto simp: w s1 intro!: goes_on_chunk)
    qed
  qed
  then show "o_uf s' = o_uf s" "ok \<Longrightarrow> o_log s' = o_log s @ [Package_verified package, Chunk_write img j 0]"
    "\<not> ok \<Longrightarrow> \<exists>evs. o_log s' = o_log s @ evs \<and> goes_on False evs" by (auto split: if_splits)
qed

lemma failed_step: "frame s' = frame s \<Longrightarrow> o_uf s' = o_uf s \<and> (\<exists>evs. o_log s' = o_log s @ evs \<and> goes_on False evs)"
  by (auto simp: frame_def)

lemma storage_chunk_cases:
  assumes "storage_chunk P cf K U volume t ui part img j i s = Some (ok, s')"
  shows "(\<not> ok \<and> frame s' = frame s) \<or>
    (\<exists>s1. frame s1 = frame s \<and> process_package P cf K U ui part img (storage_package volume t i) j s1 = Some (ok, s'))"
  using assms creat_unzip_dir_frame [of P s] by (auto simp: storage_chunk_def split: option.splits if_splits)

lemma network_chunk_cases:
  assumes "network_chunk P cf K U t ui part img j i s = Some (ok, s')"
  shows "(\<not> ok \<and> frame s' = frame s) \<or>
    (\<exists>s1. frame s1 = frame s \<and> process_package P cf K U ui part img (network_package i) j s1 = Some (ok, s'))"
proof -
  obtain r s1 where c: "creat_unzip_dir P s = Some (r, s1)" using assms by (auto simp: network_chunk_def split: option.splits)
  obtain dr s2 where d: "download P (slash (slash (server_url cf) t) (prefix_update_pkg @ fmt03 i @ ''.zip'')) s1 = (dr, s2)" by force
  note fr = creat_unzip_dir_frame [OF c] download_frame [OF d]
  show ?thesis
    using assms c d fr by (cases "r < 0"; cases "dr < 0") (auto simp: network_chunk_def)
qed

lemma package_step:
  assumes "(\<not> ok \<and> frame s' = frame s) \<or> (\<exists>s1. frame s1 = frame s \<and> process_package P cf K U ui part img package j s1 = Some (ok, s'))"
  shows "o_uf s' = o_uf s" "ok \<Longrightarrow> o_log s' = o_log s @ [Package_verified package, Chunk_write img j 0]"
    and "\<not> ok \<Longrightarrow> \<exists>evs. o_log s' = o_log s @ evs \<and> goes_on False evs"
proof -
  consider "\<not> ok" "frame s' = frame s" | s1 where "frame s1 = frame s" "process_package P cf K U ui part img package j s1 = Some (ok, s')"
    using assms by blast
  then have "o_uf s' = o_uf s \<and> (ok \<longrightarrow> o_log s' = o_log s @ [Package_verified package, Chunk_write img j 0]) \<and>
      (\<not> ok \<longrightarrow> (\<exists>evs. o_log s' = o_log s @ evs \<and> goes_on False evs))"
  proof cases
    case 1
    then show ?thesis using failed_step [of s' s] by simp
  next
    case 2
    then have "o_uf s1 = o_uf s" "o_log s1 = o_log s" by (simp_all add: frame_def)
    then show ?thesis using process_package_log [OF 2(2)] by auto
  qed
  then show "o_uf s' = o_uf s" "ok \<Longrightarrow> o_log s' = o_log s @ [Package_verified package, Chunk_write img j 0]"
    "\<not> ok \<Longrightarrow> \<exists>evs. o_log s' = o_log s @ evs \<and> goes_on False evs" by simp_all
qed

lemmas storage_step = package_step [OF storage_chunk_cases]
lemmas network_step = package_step [OF network_chunk_cases]

interpretation storage: package_source "storage_chunk P cf K U volume t ui" o_log "storage_package volume t" o_uf
  for P :: "('p, 'z) ota_platform_scheme" and cf and K :: "'k kernel" and U :: "('u, 'k) fs_ops" and volume t ui
  by unfold_locales (simp_all add: storage_step)

interpretation network: package_source "network_chunk P cf K U t ui" o_log network_package o_uf
  for P :: "('p, 'z) ota_platform_scheme" and cf and K :: "'k kernel" and U :: "('u, 'k) fs_ops" and t ui
  by unfold_locales (simp_all add: network_step)

section \<open>Looking for an update\<close>

definition verified_only :: "('p, 'u, 'k) ota \<Rightarrow> ('p, 'u, 'k) ota \<Rightarrow> bool" where
  "verified_only s s' \<longleftrightarrow> (\<exists>ps. o_log s' = o_log s @ map Package_verified ps)"

lemma verified_only_refl [simp, intro]: "verified_only s s"
  unfolding verified_only_def by (rule exI [of _ "[]"]) simp

lemma verified_only_trans [trans]: "verified_only s s1 \<Longrightarrow> verified_only s1 s2 \<Longrightarrow> verified_only s s2"
  unfolding verified_only_def by (metis append.assoc map_append)

lemma verified_only_frame: "frame s' = frame s \<Longrightarrow> verified_only s s'"
  unfolding verified_only_def frame_def by (intro exI [of _ "[]"]) simp

lemma verified_only_uf [simp]: "verified_only s (s'\<lparr>o_uf := x\<rparr>) = verified_only s s'" "verified_only (s\<lparr>o_uf := x\<rparr>) s' = verified_only s s'"
  by (simp_all add: verified_only_def)

lemma verified_run: "ota_run Checking (map Package_verified ps) Checking"
  by (induction ps) (auto intro: ota_step.check)

lemma verified_goes_on: "goes_on ok (map Package_verified ps)"
proof (induction ps)
  case (Cons p ps)
  have "goes_on ok ([Package_verified p] @ map Package_verified ps)" by (rule goes_on_append [OF goes_on_verified Cons])
  then show ?case by simp
qed simp

lemma verify_update_pkg_only:
  assumes "verify_update_pkg P cf path s = Some (r, s')"
  shows "verified_only s s'"
  using verify_update_pkg_log [OF assms] unfolding verified_only_def
  by (elim disjE conjE) (auto intro: exI [of _ "[]"] exI [of _ "[path]"])

lemma check_only:
  assumes "check_devive_update_info P cf path di ui s = Some (r, di', ui', s')"
  shows "verified_only s s'"
proof (cases "file_exist P path (o_files s) < 0")
  case True
  then show ?thesis using assms by (auto simp: check_devive_update_info_def)
next
  case False
  then obtain vr s1 where v: "verify_update_pkg P cf path s = Some (vr, s1)"
    using assms by (auto simp: check_devive_update_info_def split: option.splits)
  have "s' = s1 \<or> (\<exists>p. s' = s1\<lparr>o_files := p\<rparr>)"
    using assms False v by (auto simp: check_devive_update_info_def Let_def split: option.splits prod.splits if_splits)
  then have "o_log s' = o_log s1" by auto
  then show ?thesis using verify_update_pkg_only [OF v] by (simp add: verified_only_def)
qed

lemma check_device_only: "check_device P cf t path di ui s = Some (r, ui', s') \<Longrightarrow> verified_only s s'"
  by (auto simp: check_device_def split: option.splits dest!: check_only)

lemma judge_device_only: "judge_device P cf v t s = Some (ok, s') \<Longrightarrow> verified_only s s'"
  by (auto simp: judge_device_def Let_def split: option.splits if_splits dest!: check_device_only)

lemma judge_devices_only: "judge_devices P cf v ts s = Some (ok, s') \<Longrightarrow> verified_only s s'"
proof (induction ts arbitrary: s)
  case (Cons t ts)
  then obtain ok1 s1 where "judge_device P cf v t s = Some (ok1, s1)" "ok1 \<Longrightarrow> verified_only s1 s'" "\<not> ok1 \<Longrightarrow> s' = s1"
    by (auto split: option.splits if_splits)
  then show ?case by (cases ok1) (auto intro: judge_device_only verified_only_trans)
qed simp

lemma judge_volumes_only: "judge_volumes P cf vs s = Some (r, s') \<Longrightarrow> verified_only s s' \<and> (\<forall>v. r = Some v \<longrightarrow> v \<in> set vs)"
proof (induction vs arbitrary: s)
  case (Cons v vs)
  let ?path = "slash (update_dir v) prefix_global_xml"
  show ?case
  proof (cases "dir_exist P (update_dir v) (o_files s) < 0 \<or> file_exist P ?path (o_files s) < 0")
    case True
    then have "judge_volumes P cf vs s = Some (r, s')" using Cons.prems by (auto simp: Let_def split: if_splits)
    then show ?thesis using Cons.IH [of s] by auto
  next
    case False
    then obtain g uf where g: "parse_global_xml (pf_xml P (o_files s)) ?path (o_uf s) = (Some g, uf)"
      using Cons.prems by (auto simp: Let_def split: prod.splits option.splits)
    show ?thesis
    proof (cases "g < 0")
      case True
      then have "judge_volumes P cf vs (s\<lparr>o_uf := uf\<rparr>) = Some (r, s')" using Cons.prems False g by (simp add: Let_def)
      then show ?thesis using Cons.IH [of "s\<lparr>o_uf := uf\<rparr>"] by simp
    next
      case gg: False
      then obtain types ok s1 where d: "walk_type_list (device_type_list uf) = Some types"
        "judge_devices P cf v types (s\<lparr>o_uf := uf\<rparr>) = Some (ok, s1)"
        "(if ok then Some (Some v, s1) else judge_volumes P cf vs s1) = Some (r, s')"
        using Cons.prems False g by (auto simp: Let_def split: option.splits)
      have "verified_only s s1" using judge_devices_only [OF d(2)] by simp
      then show ?thesis using d(3) Cons.IH [of s1] by (cases ok) (auto intro: verified_only_trans)
    qed
  qed
qed auto

lemma find_valid_only:
  assumes "find_valid_update_volume P cf s = Some (r, s')"
  shows "verified_only s s' \<and> (\<forall>v. r = Some v \<longrightarrow> v \<in> set (o_volumes s))"
proof -
  obtain c s1 where c: "creat_unzip_dir P s = Some (c, s1)" using assms by (auto simp: find_valid_update_volume_def split: option.splits)
  have k: "verified_only s s1" using creat_unzip_dir_frame [OF c] by (rule verified_only_frame)
  have vols: "o_volumes s1 = o_volumes s" using c by (auto simp: creat_unzip_dir_def Let_def split: option.splits prod.splits)
  show ?thesis
  proof (cases "c < 0")
    case True
    then show ?thesis using assms c k by (auto simp: find_valid_update_volume_def)
  next
    case False
    then obtain v s2 where j: "judge_volumes P cf (o_volumes s1) s1 = Some (v, s2)" and r: "r = v" "clean_unzip_dir P s2 = Some s'"
      using assms c by (auto simp: find_valid_update_volume_def split: option.splits)
    have "verified_only s2 s'" using clean_unzip_dir_frame [OF r(2)] by (rule verified_only_frame)
    then show ?thesis using judge_volumes_only [OF j] k vols r(1) by (auto intro: verified_only_trans)
  qed
qed

section \<open>Between the flags\<close>

lemma write_flag_log: "write_flag K v s = Some (r, s') \<Longrightarrow> o_log s' = o_log s @ [Flag_write v r] \<and> o_uf s' = o_uf s"
  by (auto simp: write_flag_def Let_def split: option.splits)

lemma update_failed_log: "update_failed P s = Some (r, s') \<Longrightarrow> r = -1 \<and> frame s' = frame s"
  by (auto simp: update_failed_def dest: clean_unzip_dir_frame)

lemma devices_go_on:
  assumes "\<And>t s ok s'. device t s = Some (ok, s') \<Longrightarrow> \<exists>evs. o_log s' = o_log s @ evs \<and> goes_on ok evs"
  shows "update_devices device ts s = Some (ok, s') \<Longrightarrow> \<exists>evs. o_log s' = o_log s @ evs \<and> goes_on ok evs"
proof (induction ts arbitrary: s)
  case (Cons t ts)
  then obtain ok1 s1 where d: "device t s = Some (ok1, s1)"
    "(if ok1 then update_devices device ts s1 else Some (False, s1)) = Some (ok, s')"
    by (auto split: option.splits)
  obtain evs where e: "o_log s1 = o_log s @ evs" "goes_on ok1 evs" using assms [OF d(1)] by blast
  show ?case
  proof (cases ok1)
    case True
    then obtain fvs where "o_log s' = o_log s1 @ fvs" "goes_on ok fvs" using Cons.IH [of s1] d(2) by auto
    then show ?thesis using e True by (auto intro!: goes_on_append)
  next
    case False
    then show ?thesis using d(2) e by auto
  qed
qed auto

definition follows_protocol :: "('p, 'u, 'k) ota \<Rightarrow> int \<Rightarrow> ('p, 'u, 'k) ota \<Rightarrow> bool" where
  "follows_protocol s r s' \<longleftrightarrow> (\<exists>evs q. o_log s' = o_log s @ evs \<and> ota_run Checking evs q \<and> (r = 0 \<longleftrightarrow> q = Done) \<and> (r = 0 \<or> r = -1))"

lemma flagged_update_protocol:
  assumes dev: "\<And>t s ok s'. device t s = Some (ok, s') \<Longrightarrow> \<exists>evs. o_log s' = o_log s @ evs \<and> goes_on ok evs"
    and run: "flagged_update P K device s = Some (r, s')"
  shows "follows_protocol s r s'"
proof -
  obtain a s1 where a: "write_flag K SYSINFO_FLAG_VALUE_UPDATE_START s = Some (a, s1)"
    using run by (auto simp: flagged_update_def split: option.splits)
  note l1 = write_flag_log [OF a]
  let ?q1 = "if a < 0 then Stopped else Updating"
  have r1: "ota_run Checking [Flag_write SYSINFO_FLAG_VALUE_UPDATE_START a] ?q1" by (rule move [OF ota_step.start stay])
  show ?thesis
  proof (cases "a < 0")
    case True
    then have "update_failed P s1 = Some (r, s')" using run a by (simp add: flagged_update_def)
    from update_failed_log [OF this] show ?thesis
      using l1 r1 True unfolding follows_protocol_def frame_def by (intro exI [of _ "[Flag_write SYSINFO_FLAG_VALUE_UPDATE_START a]"]) auto
  next
    case False
    then obtain types ok s2 where d: "walk_type_list (device_type_list (o_uf s1)) = Some types" "update_devices device types s1 = Some (ok, s2)"
      using run a by (auto simp: flagged_update_def split: option.splits)
    obtain evs where e: "o_log s2 = o_log s1 @ evs" "goes_on ok evs" using devices_go_on [OF _ d(2)] dev by blast
    obtain q2 where q2: "ota_run Updating evs q2" "q2 \<noteq> Done" "ok \<longrightarrow> busy q2" using e(2) unfolding goes_on_def by (meson busy_simps(1))
    have r2: "ota_run Checking ([Flag_write SYSINFO_FLAG_VALUE_UPDATE_START a] @ evs) q2"
      using r1 q2(1) False unfolding ota_run_append by auto
    show ?thesis
    proof (cases ok)
      case False
      then have "update_failed P s2 = Some (r, s')" using run a d \<open>\<not> a < 0\<close> by (simp add: flagged_update_def)
      from update_failed_log [OF this] show ?thesis
        using l1 e r2 q2(2) unfolding follows_protocol_def frame_def
        by (intro exI [of _ "[Flag_write SYSINFO_FLAG_VALUE_UPDATE_START a] @ evs"] exI [of _ q2]) auto
    next
      case True
      then obtain b s3 where b: "write_flag K SYSINFO_FLAG_VALUE_UPDATE_DONE s2 = Some (b, s3)"
        using run a d \<open>\<not> a < 0\<close> by (auto simp: flagged_update_def split: option.splits)
      let ?q3 = "if b < 0 then Stopped else Done"
      have fstep: "ota_step q2 (Flag_write SYSINFO_FLAG_VALUE_UPDATE_DONE b) ?q3"
        using q2(3) True by (intro ota_step.finish) (simp add: busy_def)
      have r3: "ota_run Checking (([Flag_write SYSINFO_FLAG_VALUE_UPDATE_START a] @ evs) @ [Flag_write SYSINFO_FLAG_VALUE_UPDATE_DONE b]) ?q3"
        by (rule ota_run_trans [OF r2 fstep])
      have fin: "frame s' = frame s3 \<and> r = (if b < 0 then -1 else 0)"
        using run a d b True \<open>\<not> a < 0\<close> update_failed_log [of P s3 r s'] clean_unzip_dir_frame [of P s3 s']
        by (auto simp: flagged_update_def split: if_splits)
      show ?thesis
        using fin write_flag_log [OF b] l1 e r3 unfolding follows_protocol_def frame_def
        by (intro exI [of _ "([Flag_write SYSINFO_FLAG_VALUE_UPDATE_START a] @ evs) @ [Flag_write SYSINFO_FLAG_VALUE_UPDATE_DONE b]"] exI [of _ ?q3]) auto
    qed
  qed
qed

lemma storage_device_goes_on:
  assumes "storage_device P cf K U volume t s = Some (ok, s')"
  shows "\<exists>evs. o_log s' = o_log s @ evs \<and> goes_on ok evs"
proof -
  obtain di ui where g: "get_device_info_by_devtype (o_uf s) t = Some di" "get_update_info_by_devtype (o_uf s) t = Some ui"
    using assms by (auto simp: storage_device_def split: option.splits)
  obtain index where "update_parts (storage_chunk P cf K U volume t ui) (dev_parts di) 1 (s\<lparr>next_write_offset := 0\<rparr>) = Some (ok, index, s')"
    using assms unfolding storage_device_def g option.case by auto
  from storage.parts_log(2) [OF this] show ?thesis by simp
qed

lemma network_device_goes_on:
  assumes "network_device P cf K U t s = Some (ok, s')"
  shows "\<exists>evs. o_log s' = o_log s @ evs \<and> goes_on ok evs"
proof (cases "get_device_info_by_devtype (o_uf s) t = None \<or> get_update_info_by_devtype (o_uf s) t = None")
  case True
  then show ?thesis using assms by (auto simp: network_device_def split: option.splits)
next
  case False
  then obtain di ui where g: "get_device_info_by_devtype (o_uf s) t = Some di" "get_update_info_by_devtype (o_uf s) t = Some ui" by auto
  obtain dr s1 where d: "download P (slash (slash (server_url cf) t) (prefix_update_pkg @ ''000.zip'')) s = (dr, s1)" by force
  have s1: "o_log s1 = o_log s" using download_frame [OF d] by (simp add: frame_def)
  show ?thesis
  proof (cases "dr < 0")
    case True
    then show ?thesis using assms g d s1 by (auto simp: network_device_def)
  next
    case False
    then obtain r ui' s2 where c: "check_device P cf t (local_file (prefix_update_pkg @ ''000.zip'')) di ui s1 = Some (r, ui', s2)"
      using assms g d by (auto simp: network_device_def split: option.splits)
    obtain ps where s2: "o_log s2 = o_log s1 @ map Package_verified ps" using check_device_only [OF c] by (auto simp: verified_only_def)
    show ?thesis
    proof (cases "r < 0")
      case True
      then show ?thesis using assms g d c False s1 s2 by (auto simp: network_device_def intro: verified_goes_on)
    next
      case rr: False
      then obtain di' :: device_info and index where "update_parts (network_chunk P cf K U t ui') (dev_parts di') 1 (s2\<lparr>next_write_offset := 0\<rparr>) = Some (ok, index, s')"
        using assms g d c False by (auto simp: network_device_def split: option.splits)
      from network.parts_log(2) [OF this] obtain evs where "o_log s' = o_log s2 @ evs" "goes_on ok evs" by auto
      then show ?thesis using s1 s2 by (auto intro: goes_on_append verified_goes_on)
    qed
  qed
qed

lemma follows_protocol_after:
  assumes "verified_only s s1" "follows_protocol s1 r s'"
  shows "follows_protocol s r s'"
proof -
  obtain ps evs q where "o_log s1 = o_log s @ map Package_verified ps" "o_log s' = o_log s1 @ evs" "ota_run Checking evs q"
    "r = 0 \<longleftrightarrow> q = Done" "r = 0 \<or> r = -1"
    using assms unfolding verified_only_def follows_protocol_def by blast
  then show ?thesis
    unfolding follows_protocol_def
    by (intro exI [of _ "map Package_verified ps @ evs"] exI [of _ q]) (auto simp: ota_run_append intro: verified_run)
qed

lemma follows_protocol_failed: "verified_only s s' \<Longrightarrow> follows_protocol s (-1) s'"
  unfolding verified_only_def follows_protocol_def by (force intro: verified_run)

lemma storage_protocol:
  assumes "update_from_storage P cf K U s = Some (r, s')"
  shows "follows_protocol s r s'"
proof -
  obtain v s1 where f: "find_valid_update_volume P cf s = Some (v, s1)" using assms by (auto simp: update_from_storage_def split: option.splits)
  note k = conjunct1 [OF find_valid_only [OF f]]
  show ?thesis
  proof (cases v)
    case None
    then show ?thesis using assms f k by (auto simp: update_from_storage_def intro: follows_protocol_failed)
  next
    case (Some volume)
    then have "flagged_update P K (storage_device P cf K U volume) s1 = Some (r, s')" using assms f by (simp add: update_from_storage_def)
    then have "follows_protocol s1 r s'" using flagged_update_protocol storage_device_goes_on by blast
    then show ?thesis using k by (blast intro: follows_protocol_after)
  qed
qed

lemma network_protocol:
  assumes "update_from_network P cf K U s = Some (r, s')"
  shows "follows_protocol s r s'"
proof -
  obtain er p where e: "pf_echo P (server_ip cf) (o_files s) = (er, p)" by force
  have failed: "follows_protocol s (-1) x" if "o_log x = o_log s" for x
    using that by (intro follows_protocol_failed) (simp add: verified_only_def)
  show ?thesis
  proof (cases "er < 0")
    case True
    then show ?thesis using assms e failed by (auto simp: update_from_network_def)
  next
    case e0: False
    then obtain c s1 where c: "creat_unzip_dir P (s\<lparr>o_files := p\<rparr>) = Some (c, s1)"
      using assms e by (auto simp: update_from_network_def split: option.splits)
    have s1: "o_log s1 = o_log s" using creat_unzip_dir_frame [OF c] by (simp add: frame_def)
    obtain dr s2 where d: "download P (slash (server_url cf) prefix_global_xml) s1 = (dr, s2)" by force
    have s2: "o_log s2 = o_log s" using download_frame [OF d] s1 by (simp add: frame_def)
    show ?thesis
    proof (cases "c < 0 \<or> dr < 0")
      case True
      then have "r = -1 \<and> (s' = s1 \<or> s' = s2)" using assms e e0 c d by (cases "c < 0") (auto simp: update_from_network_def)
      then show ?thesis using failed s1 s2 by auto
    next
      case ready: False
      then obtain g uf where g: "parse_global_xml (pf_xml P (o_files s2)) (local_file prefix_global_xml) (o_uf s2) = (Some g, uf)"
        using assms e e0 c d by (auto simp: update_from_network_def split: prod.splits option.splits)
      show ?thesis
      proof (cases "g < 0")
        case True
        then have "r = -1 \<and> s' = s2\<lparr>o_uf := uf\<rparr>" using assms e e0 c d ready g by (auto simp: update_from_network_def)
        then show ?thesis using failed s2 by simp
      next
        case False
        then have "flagged_update P K (network_device P cf K U) (s2\<lparr>o_uf := uf\<rparr>) = Some (r, s')"
          using assms e e0 c d ready g by (auto simp: update_from_network_def Let_def split: option.splits)
        then have "follows_protocol (s2\<lparr>o_uf := uf\<rparr>) r s'" using flagged_update_protocol network_device_goes_on by blast
        then show ?thesis using s2 by (simp add: follows_protocol_def)
      qed
    qed
  qed
qed

lemma umount_all_log: "follows_protocol s r (s'\<lparr>o_devs := a, o_volumes := b, o_files := c, o_uf := d\<rparr>) = follows_protocol s r s'"
  by (simp add: follows_protocol_def)

lemma main_protocol:
  assumes "main_task P cf K U s = Some (code, s')"
  shows "\<exists>evs1 q1 evs2 q2. o_log s' = o_log s @ evs1 @ evs2 \<and> ota_run Checking evs1 q1 \<and> ota_run Checking evs2 q2 \<and>
    (q1 = Done \<longrightarrow> evs2 = []) \<and> (code = 0 \<longleftrightarrow> q1 = Done \<or> q2 = Done)"
proof -
  obtain vols vols' p where m: "scan_mounted_volumes P (o_files s) = Some vols" "mount_all_storage P (o_devs s) vols (o_files s) = Some (vols', p)"
    using assms by (auto simp: main_task_def split: option.splits)
  define s0 where "s0 = s\<lparr>o_files := p, o_volumes := vols', o_uf := construct_update_file\<rparr>"
  obtain e1 s1 where u: "update_from_storage P cf K U s0 = Some (e1, s1)"
    using assms m by (auto simp: main_task_def s0_def split: option.splits)
  obtain e2 s2 where n: "(if e1 < 0 then update_from_network P cf K U (s1\<lparr>o_uf := construct_update_file\<rparr>) else Some (e1, s1)) = Some (e2, s2)"
    using assms m u by (fastforce simp: main_task_def s0_def split: option.splits)
  have fin: "o_log s' = o_log s2 \<and> code = (if e2 \<noteq> 0 then -1 else 0)"
    using assms m u n by (auto simp: main_task_def s0_def split: option.splits)
  obtain evs1 q1 where a: "o_log s1 = o_log s @ evs1" "ota_run Checking evs1 q1" "e1 = 0 \<longleftrightarrow> q1 = Done" "e1 = 0 \<or> e1 = -1"
    using storage_protocol [OF u] by (auto simp: follows_protocol_def s0_def)
  show ?thesis
  proof (cases "e1 < 0")
    case True
    then have "update_from_network P cf K U (s1\<lparr>o_uf := construct_update_file\<rparr>) = Some (e2, s2)" using n by simp
    from network_protocol [OF this] obtain evs2 q2 where b: "o_log s2 = o_log s1 @ evs2" "ota_run Checking evs2 q2" "e2 = 0 \<longleftrightarrow> q2 = Done"
      by (auto simp: follows_protocol_def)
    show ?thesis
      using fin a b True by (intro exI [of _ evs1] exI [of _ q1] exI [of _ evs2] exI [of _ q2]) auto
  next
    case False
    then have "e2 = e1" "s2 = s1" using n by simp_all
    then show ?thesis
      using fin a False by (intro exI [of _ evs1] exI [of _ q1] exI [of _ "[]"] exI [of _ Checking]) auto
  qed
qed

section \<open>The properties\<close>

lemma run_chunk:
  "ota_run q (xs @ Chunk_write img j r # ys) q' \<Longrightarrow>
     (\<exists>zs p. xs = zs @ [Package_verified p]) \<or> (xs = [] \<and> q = Verified)"
proof (induction xs arbitrary: q)
  case (Cons e xs)
  then obtain q1 where q1: "ota_step q e q1" "ota_run q1 (xs @ Chunk_write img j r # ys) q'" by (auto simp: ota_run_Cons)
  show ?case
  proof (cases "xs = []")
    case True
    then have "q1 = Verified" using q1(2) by (auto simp: ota_run_Cons elim: ota_step_chunkE)
    then show ?thesis using q1(1) True by (auto elim: ota_step.cases split: if_splits)
  next
    case False
    then show ?thesis using Cons.IH [OF q1(2)] by auto
  qed
qed (auto simp: ota_run_Cons elim: ota_step_chunkE)

lemma run_started:
  "ota_run q xs q' \<Longrightarrow> busy q' \<or> q' = Done \<Longrightarrow> busy q \<or> q = Done \<or> (\<exists>a. 0 \<le> a \<and> Flag_write SYSINFO_FLAG_VALUE_UPDATE_START a \<in> set xs)"
proof (induction rule: ota_run.induct)
  case (move q e q1 es1 q2)
  then show ?case by (cases rule: ota_step.cases) (fastforce split: if_splits simp: not_less)+
qed auto

definition device_events :: "mounted_volume \<Rightarrow> update_file \<Rightarrow> string \<Rightarrow> ota_event list" where
  "device_events volume uf t =
     chunk_events (storage_package volume t) 1
       (concat (map part_chunk_list (case get_device_info_by_devtype uf t of None \<Rightarrow> [] | Some di \<Rightarrow> dev_parts di)))"

lemma storage_device_log:
  assumes "storage_device P cf K U volume t s = Some (True, s')"
  shows "o_uf s' = o_uf s" "o_log s' = o_log s @ device_events volume (o_uf s) t"
proof -
  obtain di ui where g: "get_device_info_by_devtype (o_uf s) t = Some di" "get_update_info_by_devtype (o_uf s) t = Some ui"
    using assms by (auto simp: storage_device_def split: option.splits)
  obtain index where u: "update_parts (storage_chunk P cf K U volume t ui) (dev_parts di) 1 (s\<lparr>next_write_offset := 0\<rparr>) = Some (True, index, s')"
    using assms unfolding storage_device_def g option.case by auto
  show "o_uf s' = o_uf s" using storage.parts_log(1) [OF u] by simp
  show "o_log s' = o_log s @ device_events volume (o_uf s) t" using storage.parts_log(3) [OF u] by (simp add: device_events_def g)
qed

lemma storage_devices_log:
  "update_devices (storage_device P cf K U volume) ts s = Some (True, s') \<Longrightarrow>
     o_uf s' = o_uf s \<and> o_log s' = o_log s @ concat (map (device_events volume (o_uf s)) ts)"
proof (induction ts arbitrary: s)
  case (Cons t ts)
  then obtain s1 where "storage_device P cf K U volume t s = Some (True, s1)"
    "update_devices (storage_device P cf K U volume) ts s1 = Some (True, s')"
    by (auto split: option.splits if_splits)
  then show ?case using storage_device_log [of P cf K U volume t s s1] Cons.IH [of s1] by simp
qed simp

lemma flagged_update_done:
  assumes "flagged_update P K device s = Some (0, s')"
  shows "\<exists>a b types s1 s2 s3. write_flag K SYSINFO_FLAG_VALUE_UPDATE_START s = Some (a, s1) \<and> 0 \<le> a \<and>
    walk_type_list (device_type_list (o_uf s1)) = Some types \<and> update_devices device types s1 = Some (True, s2) \<and>
    write_flag K SYSINFO_FLAG_VALUE_UPDATE_DONE s2 = Some (b, s3) \<and> 0 \<le> b \<and> frame s' = frame s3"
proof -
  obtain a s1 where a: "write_flag K SYSINFO_FLAG_VALUE_UPDATE_START s = Some (a, s1)"
    using assms by (auto simp: flagged_update_def split: option.splits)
  have "\<not> a < 0" using assms a by (auto simp: flagged_update_def dest!: update_failed_log)
  then obtain types ok s2 where d: "walk_type_list (device_type_list (o_uf s1)) = Some types" "update_devices device types s1 = Some (ok, s2)"
    using assms a by (auto simp: flagged_update_def split: option.splits)
  have ok: ok using assms a d \<open>\<not> a < 0\<close> by (cases ok) (auto simp: flagged_update_def dest!: update_failed_log)
  obtain b s3 where b: "write_flag K SYSINFO_FLAG_VALUE_UPDATE_DONE s2 = Some (b, s3)"
    using assms a d ok \<open>\<not> a < 0\<close> by (auto simp: flagged_update_def split: option.splits)
  have "\<not> b < 0" using assms a d b ok \<open>\<not> a < 0\<close> by (auto simp: flagged_update_def dest!: update_failed_log)
  moreover have "frame s' = frame s3"
    using assms a d b ok \<open>\<not> a < 0\<close> \<open>\<not> b < 0\<close> by (auto simp: flagged_update_def dest!: clean_unzip_dir_frame)
  ultimately show ?thesis using a d b ok \<open>\<not> a < 0\<close>
    by (intro exI [of _ a] exI [of _ b] exI [of _ types] exI [of _ s1] exI [of _ s2] exI [of _ s3]) simp
qed

text \<open>
  C1. The program follows the update protocol. Whatever the platform, the kernel and the
  packages do, what the main task does to the device is one run of the state machine (the
  attempt from storage), followed, when that one does not end in \<open>Done\<close>, by at most one more
  (the attempt from the network). It exits with success exactly when one of them is complete.
\<close>

theorem main_task_protocol:
  assumes "main_task P cf K U s = Some (code, s')"
  shows "\<exists>evs1 q1 evs2 q2. o_log s' = o_log s @ evs1 @ evs2 \<and> ota_run Checking evs1 q1 \<and> ota_run Checking evs2 q2 \<and>
    (q1 = Done \<longrightarrow> evs2 = []) \<and> (code = 0 \<longleftrightarrow> q1 = Done \<or> q2 = Done)"
  using assms by (rule main_protocol)

text \<open>
  C2. Nothing unverified is written. Every file the main task writes to the flash comes
  right after a package whose signature was accepted, with the start of the update recorded
  in the flag before.
\<close>

theorem main_task_writes_verified:
  assumes "main_task P cf K U s = Some (code, s')" "o_log s' = o_log s @ xs @ Chunk_write img j r # ys"
  shows "\<exists>zs p. xs = zs @ [Package_verified p] \<and> (\<exists>a. 0 \<le> a \<and> Flag_write SYSINFO_FLAG_VALUE_UPDATE_START a \<in> set xs)"
proof -
  have run: "(\<exists>zs p. us = zs @ [Package_verified p]) \<and> (\<exists>a. 0 \<le> a \<and> Flag_write SYSINFO_FLAG_VALUE_UPDATE_START a \<in> set us)"
    if "ota_run Checking (us @ Chunk_write img j r # vs) q" for us vs q
  proof -
    obtain q1 q2 where "ota_run Checking us q1" "ota_step q1 (Chunk_write img j r) q2"
      using \<open>ota_run Checking (us @ Chunk_write img j r # vs) q\<close> by (auto simp: ota_run_append ota_run_Cons)
    then have "ota_run Checking us Verified" by (auto elim: ota_step_chunkE)
    from run_started [OF this] run_chunk [OF that] show ?thesis by auto
  qed
  obtain evs1 q1 evs2 q2 where m: "o_log s' = o_log s @ evs1 @ evs2" "ota_run Checking evs1 q1" "ota_run Checking evs2 q2"
    using main_protocol [OF assms(1)] by blast
  have "xs @ Chunk_write img j r # ys = evs1 @ evs2" using assms(2) m(1) by simp
  then consider us where "evs1 = xs @ Chunk_write img j r # us" | us where "xs = evs1 @ us" "evs2 = us @ Chunk_write img j r # ys"
    by (auto simp: append_eq_append_conv2 append_eq_Cons_conv Cons_eq_append_conv)
  then show ?thesis
  proof cases
    case 1
    then show ?thesis using run m(2) by blast
  next
    case (2 us)
    then have "(\<exists>zs p. us = zs @ [Package_verified p]) \<and> (\<exists>a. 0 \<le> a \<and> Flag_write SYSINFO_FLAG_VALUE_UPDATE_START a \<in> set us)"
      using run m(3) by blast
    then show ?thesis using 2 by auto
  qed
qed

text \<open>
  C3. A successful update from storage is complete. It read its packages from one of the
  mounted volumes, and after the start was recorded the files written are exactly the chunks
  of the images of the partitions of every device type of the global file, in that order,
  each from the package with the next number, counted from 1 for every device; after the
  last one the completion was recorded.
\<close>

theorem update_from_storage_complete:
  assumes "update_from_storage P cf K U s = Some (0, s')"
  shows "\<exists>volume types ps a b. volume \<in> set (o_volumes s) \<and> walk_type_list (device_type_list (o_uf s')) = Some types \<and> 0 \<le> a \<and> 0 \<le> b \<and>
    o_log s' = o_log s @ map Package_verified ps @ [Flag_write SYSINFO_FLAG_VALUE_UPDATE_START a] @
      concat (map (device_events volume (o_uf s')) types) @ [Flag_write SYSINFO_FLAG_VALUE_UPDATE_DONE b]"
proof -
  obtain volume s1 where f: "find_valid_update_volume P cf s = Some (Some volume, s1)"
    and u: "flagged_update P K (storage_device P cf K U volume) s1 = Some (0, s')"
    using assms by (auto simp: update_from_storage_def split: option.splits)
  obtain ps where v: "volume \<in> set (o_volumes s)" "o_log s1 = o_log s @ map Package_verified ps"
    using find_valid_only [OF f] by (auto simp: verified_only_def)
  obtain a b types s2 s3 s4 where d: "write_flag K SYSINFO_FLAG_VALUE_UPDATE_START s1 = Some (a, s2)" "0 \<le> a"
    "walk_type_list (device_type_list (o_uf s2)) = Some types" "update_devices (storage_device P cf K U volume) types s2 = Some (True, s3)"
    "write_flag K SYSINFO_FLAG_VALUE_UPDATE_DONE s3 = Some (b, s4)" "0 \<le> b" "frame s' = frame s4"
    using flagged_update_done [OF u] by blast
  have uf: "o_uf s' = o_uf s2" "o_log s' = o_log s4"
    using d(7) write_flag_log [OF d(5)] storage_devices_log [OF d(4)] by (simp_all add: frame_def)
  have "o_log s' = o_log s @ map Package_verified ps @ [Flag_write SYSINFO_FLAG_VALUE_UPDATE_START a] @
      concat (map (device_events volume (o_uf s')) types) @ [Flag_write SYSINFO_FLAG_VALUE_UPDATE_DONE b]"
    using v(2) write_flag_log [OF d(1)] write_flag_log [OF d(5)] storage_devices_log [OF d(4)] uf by simp
  moreover have "walk_type_list (device_type_list (o_uf s')) = Some types" using d(3) uf(1) by simp
  ultimately show ?thesis using v(1) d(2,6) by blast
qed

text \<open>
  C10. The merge that returns early stops the update. When the last image of an update lies
  in a partition with at least two more behind it, the merge leaves list heads that were
  never initialised, and no update of that device from storage gets through its partitions
  (the program ends on the null pointer, with the start recorded and the completion not).
\<close>

theorem early_merge_never_completes:
  assumes "dev_parts di = ps @ q # q' # qs" "adjacent (dev_parts di)" "upd_images ui = concat gs" "gs \<noteq> []" "last gs \<noteq> []"
    and "list_all2 (\<lambda>p g. \<forall>img\<in>set g. fits p img) ps gs" "part_images q' = None"
    and "merge_imginfo_into_partinfo di ui = (Some r, di')" "get_device_info_by_devtype (o_uf s) t = Some di'"
  shows "storage_device P cf K U volume t s \<noteq> Some (True, s')"
proof
  assume dev: "storage_device P cf K U volume t s = Some (True, s')"
  have "merge_parts (upd_images ui) None [] (ps @ q # q' # qs) = (Some 0, map2 fill ps gs @ q\<lparr>part_images := Some []\<rparr> # q' # qs)"
    using merge_parts_distributes [OF _ assms(6,4,5), of "q # q' # qs" "concat gs" "[]" None "[]"] assms(1,2,3) by simp
  then have "dev_parts di' = map2 fill ps gs @ q\<lparr>part_images := Some []\<rparr> # q' # qs"
    using assms(1,8) by (auto simp: merge_imginfo_into_partinfo_def)
  then have unset: "q' \<in> set (dev_parts di')" by simp
  obtain ui' where g: "get_update_info_by_devtype (o_uf s) t = Some ui'"
    using dev by (auto simp: storage_device_def split: option.splits)
  obtain index where "update_parts (storage_chunk P cf K U volume t ui') (dev_parts di') 1 (s\<lparr>next_write_offset := 0\<rparr>) = Some (True, index, s')"
    using dev unfolding storage_device_def g assms(9) option.case by auto
  with storage.parts_unset [OF unset assms(7)] show False by blast
qed

end
