(* ===== verification/Signed.thy ===== *)
theory Signed
  imports Verifier LoadKeys
begin

text \<open>
  A package that is really signed: a small archive, a 2048-bit key and a signature, with the
  digest, the cube and the acceptance computed in the logic. The key is made for the
  signature: it is the cube of the signature less the padded digest, so the cube leaves just
  that rest. The values here check the reference definitions against known answers, and are
  the inputs at which theorems about signatures are witnessed.
\<close>

section \<open>A digest\<close>

definition archive_head :: "u8 list" where
  "archive_head = [0x50, 0x4b, 0x05, 0x06] @ replicate 16 0"

definition head_digest :: "u8 list" where
  "head_digest = [0xe3, 0x4d, 0x61, 0x5b, 0x13, 0xa, 0xeb, 0x8c, 0x5, 0x72, 0x61, 0x5b, 0xe3, 0xad, 0x83, 0xa7, 0x2a, 0x14, 0xa6, 0x3]"

definition head_schedule :: "u32 list" where
  "head_schedule = [0x504b0506, 0x0, 0x0, 0x0, 0x0, 0x80000000, 0x0, 0x0, 0x0, 0x0, 0x0, 0x0, 0x0, 0x0, 0x0, 0xa0, 0xa0960a0c, 0x0,
     0x140, 0x412c1418, 0x0, 0x281, 0x82582830, 0x140, 0x412c111b, 0x4b05061, 0x0, 0xa06, 0x960a0c2, 0x442, 0x459c5074,
     0x12c14244, 0xc3743c2b, 0x281a, 0x25828608, 0x4b04169, 0x167141d1, 0x4b050316, 0x4b0506d, 0xa568, 0x92ba5c4d, 0x4420,
     0x59c50744, 0x2c1426c1, 0xb51bea8e, 0x284a8, 0x5c9835e7, 0x4fb44b71, 0xe89cc58c, 0xb0503168, 0x4b0517d8, 0x167b4265,
     0x2f1594b4, 0x46a1c, 0xb9d2f745, 0xc1427d1a, 0x47cfe932, 0x4b2d4998, 0xcd330e10, 0xfb44127c, 0x1b76048b, 0x50357ab,
     0xed242aa5, 0x4ba00710, 0xc2aad99b, 0x442060, 0xc50714d9, 0x5f23c73c, 0x1bea8e35, 0x284a8e8, 0x9835e7dc, 0xb44b7b4f,
     0x95a52ca2, 0x503138b0, 0x4e12ca1b, 0x69835c92, 0x7b133157, 0x46a6490, 0xbc7090e1, 0x978dad1]"

lemma rol_eval: "n < 32 \<Longrightarrow> rol n x = word_of_int (take_bit 32 (uint x * 2 ^ n) OR uint x div 2 ^ (32 - n))"
  by (rule bit_word_eqI) (auto simp: rol_def bit_simps simp flip: push_bit_eq_mult drop_bit_eq_div)

lemma counts: "[0..<80] = map nat [0..79]" "[16..<80] = map nat [16..79]" "[0..<16] = map nat [0..15]" "[0..<8] = map nat [0..7]"
  by (simp_all add: upto_rec1 upt_rec)

lemma head_block:
  "archive_head @ padding (length archive_head) =
     [0x50, 0x4b, 0x05, 0x06] @ replicate 16 0 @ [0x80] @ replicate 42 0 @ [0xa0]"
  by (simp add: archive_head_def padding_def be64_def counts upto_rec1 replicate_app_Cons_same replicate_add [symmetric])
     (simp add: numeral_eq_Suc)

lemma head_words: "W_load (archive_head @ padding (length archive_head)) = take 16 head_schedule"
proof -
  have z: "replicate 16 (0 :: u8) = [0, 0, 0, 0, 0, 0, 0, 0, 0, 0, 0, 0, 0, 0, 0, 0]" "replicate 42 (0 :: u8) = [0, 0, 0, 0, 0, 0, 0, 0, 0, 0, 0, 0, 0, 0, 0, 0, 0, 0, 0, 0, 0, 0, 0, 0, 0, 0, 0, 0, 0, 0, 0, 0, 0, 0, 0, 0, 0, 0, 0, 0, 0, 0]"
    by (simp_all add: numeral_eq_Suc)
  show ?thesis unfolding head_block z by (simp add: W_load_def from_be32_def counts upto_rec1 head_schedule_def)
qed

lemma schedule_fold:
  assumes "length S = 80" "list_all (\<lambda>t. S ! t = rol 1 (S ! (t - 3) XOR S ! (t - 8) XOR S ! (t - 14) XOR S ! (t - 16))) [16..<80]"
  shows "W_load p = take 16 S \<Longrightarrow> W_schedule p = S"
proof -
  have gen: "n \<le> 64 \<Longrightarrow> fold (\<lambda>t W. W @ [W_word W t]) [16..<16 + n] (take 16 S) = take (16 + n) S" for n
  proof (induction n)
    case (Suc n)
    have "S ! (16 + n) = rol 1 (S ! (16 + n - 3) XOR S ! (16 + n - 8) XOR S ! (16 + n - 14) XOR S ! (16 + n - 16))"
      using assms(2) [unfolded list_all_iff set_upt] Suc.prems by (elim ballE [where x = "16 + n"]) simp_all
    then have "W_word (take (16 + n) S) (16 + n) = S ! (16 + n)"
      using Suc.prems by (simp add: W_word_def)
    moreover have "[16..<16 + Suc n] = [16..<16 + n] @ [16 + n]" by (metis add_Suc_right le_add1 upt_Suc_append)
    moreover have "take (16 + Suc n) S = take (16 + n) S @ [S ! (16 + n)]"
      using Suc.prems assms(1) take_Suc_conv_app_nth [of "16 + n" S] by simp
    ultimately show ?case using Suc by simp
  qed simp
  have e: "(16 :: nat) + 64 = 80" "take 80 S = S" using assms(1) by simp_all
  have "fold (\<lambda>t W. W @ [W_word W t]) [16..<80] (take 16 S) = S" by (rule gen [of 64, unfolded e]) (rule order_refl)
  then have "W_schedule p = S" if "W_load p = take 16 S" unfolding W_schedule_def that .
  then show "W_load p = take 16 S \<Longrightarrow> W_schedule p = S" .
qed

lemma head_rounds: "fold (sha_round head_schedule) [0..<80] (load_regs H0) = (0x7c083e5a, 0x233d4003, 0x6cb7845d, 0xd37b2f31, 0x6641c413)"
  by (simp add: sha_round_def rol_eval counts upto_rec1 head_schedule_def load_regs_def H0_def)

lemma digest_head: "sha1_spec archive_head = head_digest"
proof -
  let ?m = "archive_head @ padding (length archive_head)"
  have "list_all (\<lambda>t. head_schedule ! t =
      rol 1 (head_schedule ! (t - 3) XOR head_schedule ! (t - 8) XOR head_schedule ! (t - 14) XOR head_schedule ! (t - 16))) [16..<80]"
    by (simp add: rol_eval counts upto_rec1 head_schedule_def)
  from schedule_fold [OF _ this head_words] have s: "W_schedule ?m = head_schedule" by (simp add: head_schedule_def)
  have c: "compress H0 ?m = add_regs H0 (fold (sha_round head_schedule) [0..<80] (load_regs H0))"
    unfolding compress_def s ..
  have l: "length ?m = 64" unfolding head_block by simp
  have "absorb H0 ?m = compress H0 ?m" using l by (simp add: absorb.simps [of H0 ?m] absorb.simps [of _ "[]"])
  also have "\<dots> = [0xe34d615b, 0x130aeb8c, 0x572615b, 0xe3ad83a7, 0x2a14a603]" unfolding c head_rounds by (simp add: add_regs_def H0_def)
  finally show ?thesis unfolding sha1_spec_def by (simp add: be32_def head_digest_def drop_bit_eq_div)
qed


section \<open>A key and a signature\<close>

definition signed_key :: RSAPublicKey where
  "signed_key = \<lparr>key_len = 64, n0inv = 0x4329b4ab,
     key_n = [0xd5eb59fd, 0x1c527c58, 0xfa8d9ea4, 0xecf51473, 0x1cb29ea4, 0xfafffbeb, 0xf1fcfde5, 0xf6f9fad4, 0xffcfdecf] @ replicate 54 0 @ [0xd7fe0000],
     key_rr = [0xa15e7f0f, 0xa3ffb12, 0xc0f16c3b, 0x80a7c7, 0xceca3aae, 0xfa707b77, 0x8bbf7863, 0xff64c48f, 0x7271bddc, 0x94e8dac9,
       0x5a80ca49, 0x391b664f, 0x1f288504, 0xcf1edb04, 0x56046475, 0x79c3db30, 0x9612f7d6, 0xa3efcf34, 0xca043dac,
       0xd9046139, 0x2eefd78d, 0xf4aa8fcd, 0x257b9b37, 0x7babcfd0, 0x2ac2c42c, 0x6f3c4a0a, 0xe21c2aed, 0x76ee2363, 0x9eac22c,
       0xdf33d82f, 0x13c9aa29, 0x1a959459, 0x3eab3f37, 0x9a275a70, 0x17efa108, 0xd7529619, 0x5cb2a2d6, 0xeaf8b1b, 0xc8bd1e32,
       0xc92a28af, 0x791d90dd, 0xb0e5318, 0x397bcaa, 0xee3b184, 0x33266648, 0x305a8594, 0xeffb1c66, 0x9606213d, 0x3653774a,
       0x7cdb3aeb, 0xf2f8c4ac, 0x533e6680, 0x95b0cb1e, 0xce044726, 0xbcbaa2e9, 0x3076f79e, 0x12c02c72, 0x2b6653e9,
       0x7729664f, 0x3d054e45, 0x6bbc41be, 0x1adcb173, 0x1597e755, 0xada1d91c],
     exponent = 3\<rparr>"

definition head_signature :: "u8 list" where
  "head_signature = replicate 170 0 @ [6] @ replicate 85 0"

lemma val_zeros [simp]: "val (replicate n 0) = 0"
  by (induction n) simp_all

lemma be_val_zeros [simp]: "be_val (replicate n 0) = 0"
  by (induction n) simp_all

lemma be_val_ones: "be_val (replicate n 0xff) = 256 ^ n - 1"
  by (induction n) simp_all

lemma key_value: "val (key_n signed_key) = 496958002218822705327065412349587804595107109651218483623505110808587662574025253280253 + 0xd7fe0000 * 2 ^ 2016"
  by (simp add: signed_key_def val_append W32_def)

lemma key_square: "val (key_rr signed_key) + 38303022206558363917597753077525119754035966154781241392008071724567869916823635431992111109805144441644732164194623442065443256564664755758087625326405662144060208687080661190525933370158357877364387336585131337117731667829470256082436093438101318551018894320523949927490870141932855080712275364939883201532972433772657150665207988346155019105416398753049984490146979268816112644506486330309822894743493173251192534692608895789553397133816339313325147878266298549312780932347240446785327446355412363274656435898396161534184079229937802535365223890539072521482342355568283905419099561956422165782656254296747123960581 * val (key_n signed_key) = (2 ^ 2048) * (2 ^ 2048)"
  unfolding key_value by (simp add: signed_key_def W32_def)

lemma signed_key_ok: "key_ok signed_key"
proof -
  have R: "R_of signed_key = 2 ^ 2048" by (simp add: R_of_def num_words_def signed_key_def W32_def)
  have "val (key_rr signed_key) mod val (key_n signed_key) = (R_of signed_key * R_of signed_key) mod val (key_n signed_key)"
    unfolding R key_square [symmetric] by (rule mod_mult_self1 [symmetric])
  moreover have "R_of signed_key \<le> 2 * val (key_n signed_key)" unfolding R key_value by simp
  moreover have "n0inv signed_key * (key_n signed_key ! 0) = -1" by (simp add: signed_key_def)
  ultimately show ?thesis by (simp add: key_ok_def) (simp add: signed_key_def RSANUMWORDS_def RSANUMBYTES_def)
qed

lemma signature_cube: "be_val head_signature ^ 3 mod val (key_n signed_key) = be_val (padding_e3 @ head_digest)"
proof -
  have s: "be_val head_signature = 6 * 256 ^ 85" by (simp add: head_signature_def be_val_append)
  have e: "be_val (padding_e3 @ head_digest) = 986236757547332986472011617696226561292849812918563355472727826767720188564083584387121625107510786855734801053524719833194566624465665316622563244215340671405971599343902468620306327831715457360719532421388780770165778156818229863337344187575566725786793391480600129482653072861971002459947277805295727097226389568776499707662505334062639449916265137796823793276300221537201727072401742985542559596685092673521228140822200236743113743661549252453726123450722876929538747702356573783116366629850199080495560991841329893037291900147497007197055572787780928474439122404890763962342746081221959606720844358873294339"
    by (simp add: padding_e3_def head_digest_def be_val_append be_val_ones)
  have "be_val head_signature ^ 3 = be_val (padding_e3 @ head_digest) + val (key_n signed_key)"
    unfolding s e key_value by (simp add: power3_eq_cube)
  moreover have "be_val (padding_e3 @ head_digest) < val (key_n signed_key)" unfolding e key_value by simp
  ultimately show ?thesis by simp
qed

theorem RSA_verify_e3_witness: "RSA_verify zero_ctx signed_key head_signature 256 head_digest = 1"
  using RSA_verify_e3 [OF signed_key_ok, of head_signature head_digest zero_ctx] signature_cube
  by (simp add: signed_key_def head_signature_def head_digest_def)

section \<open>A package\<close>

text \<open>The archive is empty: its record of the end of the directory, with the signature as the comment.\<close>

definition signed_archive :: "u8 list" where
  "signed_archive = archive_head @ [0x06, 0x01] @ head_signature @ [0x06, 0x01, 0xff, 0xff, 0x06, 0x01]"

lemma signed_archive_shape:
  "length signed_archive = 284" "comment_size_of signed_archive = 262" "footer_ok signed_archive" "eocd_ok signed_archive"
  "signed_part signed_archive = archive_head" "take 256 (signature_of signed_archive) = head_signature"
proof -
  show l: "length signed_archive = 284" by (simp add: signed_archive_def archive_head_def head_signature_def)
  have t: "drop 278 signed_archive = [0x06, 0x01, 0xff, 0xff, 0x06, 0x01]"
    by (simp add: signed_archive_def archive_head_def head_signature_def)
  show c: "comment_size_of signed_archive = 262" by (simp add: comment_size_of_def l t le16_at_def)
  have "signed_archive ! 280 = drop 278 signed_archive ! 2" "signed_archive ! 281 = drop 278 signed_archive ! 3"
    using l by (simp_all add: nth_drop)
  then show "footer_ok signed_archive" by (simp add: footer_ok_def l t le16_at_def)
  have tl: "0x50 \<notin> set (tl signed_archive)"
    by (simp add: signed_archive_def archive_head_def head_signature_def)
  have "\<not> marker_at signed_archive i" if "4 \<le> i" "i < 281" for i
  proof -
    have "signed_archive ! i = tl signed_archive ! (i - 1)" using that l by (simp add: nth_tl)
    also have "\<dots> \<in> set (tl signed_archive)" using that l by (intro nth_mem) simp
    finally show ?thesis using tl by (auto simp: marker_at_def)
  qed
  moreover have "marker_at signed_archive 0" by (simp add: signed_archive_def archive_head_def marker_at_def)
  ultimately show "eocd_ok signed_archive" by (simp add: eocd_ok_def c l)
  show "signed_part signed_archive = archive_head"
    by (simp add: signed_part_def c l) (simp add: signed_archive_def archive_head_def)
  have "signature_of signed_archive = head_signature @ [0x06, 0x01, 0xff, 0xff, 0x06, 0x01]"
    by (simp add: signature_of_def l) (simp add: signed_archive_def archive_head_def)
  then show "take 256 (signature_of signed_archive) = head_signature" by (simp add: head_signature_def)
qed

lemma signed_accepted:
  assumes "malloc_eocd_ok env" "malloc_buffer_ok env" "length (sha_buf (stack_ctx env)) = 64"
  shows "verify_file (env\<lparr>file_content := Some signed_archive\<rparr>) [signed_key] = VERIFY_SUCCESS"
proof -
  have "RSA_verify ctx signed_key head_signature 256 head_digest = 1" for ctx
    using RSA_e3_accepts [OF signed_key_ok, of head_signature head_digest ctx] signature_cube
    by (simp add: signed_key_def head_signature_def head_digest_def)
  moreover have "RSA_verify ctx signed_key s 256 d = RSA_verify ctx signed_key (take 256 s) 256 d" for ctx s d
    by (simp add: RSA_verify_def RSA_e_3_verify_def signed_key_def)
  ultimately have "RSA_verify ctx signed_key (signature_of signed_archive) 256 head_digest = 1" for ctx
    using signed_archive_shape(6) by metis
  then show ?thesis
    using verify_file_accepts [of "env\<lparr>file_content := Some signed_archive\<rparr>" signed_archive "[signed_key]"] assms signed_archive_shape
    by (simp add: digest_head)
qed

theorem verify_file_correct_witness: "verify_file (sample_env\<lparr>file_content := Some signed_archive\<rparr>) [signed_key] = VERIFY_SUCCESS"
proof -
  let ?env = "sample_env\<lparr>file_content := Some signed_archive\<rparr>"
  have "RSA_verify (rsa_stack_ctx ?env) signed_key (signature_of signed_archive) 256 (sha1_spec (signed_part signed_archive)) \<noteq> 0"
    using signed_accepted [of sample_env] verify_file_accepts [of ?env signed_archive "[signed_key]"] signed_archive_shape
    by (auto simp: sample_env_def zero_ctx_def split: if_splits)
  then show ?thesis
    using verify_file_correct [of ?env signed_archive "[signed_key]"] signed_archive_shape
    by (simp add: sample_env_def zero_ctx_def)
qed

end
