(* ===== verification/OtaChip.thy ===== *)
theory OtaChip
  imports OtaStore Chip OtaSafe Signed
begin

text \<open>
  A complete update, evaluated in the logic: a stick with the package of \<open>Signed\<close> and the
  three descriptions, and a flash with two partitions (the first holds the areas of \<open>Chip\<close>,
  the second is to be replaced). The run finds the package, checks its signature, records the
  start, erases and writes the second partition and records the completion. It is the input
  at which the theorems about updates are witnessed.
\<close>

section \<open>The flash\<close>

definition boot_mtd :: mtd_dev where
  "boot_mtd = flag_mtd"

definition root_mtd :: mtd_dev where
  "root_mtd = flag_mtd\<lparr>mtd_name := ''root'', part_start := 16, part_id := 1\<rparr>"

definition duo :: "chip_state kernel" where
  "duo fd c k = (case k of (cells, pos) \<Rightarrow>
     let base = (if fd = 4 then 16 else 0);
         (rep, (cells, pos)) = chip (\<lambda>_. False) 8 fd c (\<lambda>a. cells (a + base), pos)
     in (rep, (\<lambda>a. cells (a - base), pos)))"

definition duo_world :: "chip_state world" where
  "duo_world = flag_world\<lparr>fds := (\<lambda>i. if i = 0 then 3 else 4)\<rparr>"

definition duo_bm :: "(unit, chip_state) bm" where
  "duo_bm = \<lparr>bm_conf = flag_env\<lparr>bm_parts := [boot_mtd, root_mtd], bm_end := 32\<rparr>,
     bm_reg = \<lparr>fs_table = [normal_init (static_fs ''normal'')\<lparr>params := Some zero_params\<rparr>], fs_registered = [''normal'']\<rparr>,
     bm_info = \<lparr>write_start = 0, physical_unit_size = 0, logical_unit_size = 0, max_size_mapped_in_partition = 0, context_handle = None\<rparr>,
     bm_prepared = False, bm_locked = False, bm_open = True, bm_ubi = (), bm_world = duo_world\<rparr>"

definition no_ubi :: "(unit, chip_state) fs_ops" where
  "no_ubi = fs_normal duo flag_env"

section \<open>The files\<close>

definition device_tree :: xml where
  "device_tree = Element ''?xml'' []
     [Element ''device'' [(''type'', ''nand''), (''capacity'', ''32'')]
       [Element ''partition'' [(''count'', ''2'')]
         [Element ''item'' []
           [Element ''name'' [] [Text ''boot''], Element ''offset'' [] [Text ''0''],
            Element ''size'' [] [Text ''16''], Element ''blockname'' [] [Text ''mtdblock0'']],
          Element ''item'' []
           [Element ''name'' [] [Text ''root''], Element ''offset'' [] [Text ''16''],
            Element ''size'' [] [Text ''16''], Element ''blockname'' [] [Text ''mtdblock1'']]]]]"

definition update_tree :: xml where
  "update_tree = Element ''?xml'' []
     [Element ''update'' [(''devcontrol'', ''0''), (''devtype'', ''nand'')]
       [Element ''imagelist'' [(''count'', ''1'')]
         [Element ''image'' []
           [Element ''name'' [] [Text ''rootfs''], Element ''type'' [] [Text ''normal''],
            Element ''offset'' [] [Text ''16''], Element ''size'' [] [Text ''12''],
            Element ''updatemode'' [] [Element ''type'' [] [Text ''0x200'']]]]]]"

definition global_tree :: xml where
  "global_tree = Element ''?xml'' [] [Element ''global'' [] [Element ''device'' [] [Opaque ''nand'']]]"

definition bytes_of :: "string \<Rightarrow> u8 list" where
  "bytes_of s = map (\<lambda>c. of_nat (of_char c)) s"

definition stick_config :: ota_config where
  "stick_config = \<lparr>server_ip = ''10.0.0.1'', server_url = ''http://10.0.0.1'', public_key_path = ''/res/key/key.pub''\<rparr>"

definition stick_content :: "string \<Rightarrow> u8 list option" where
  "stick_content path = Some
     (if path = ''/res/key/key.pub'' then bytes_of (show_keys [signed_key])
      else if path = ''/proc/mounts'' then bytes_of (mount_line stick)
      else if path = ''/tmp/update/rootfs'' then [1, 2, 3, 4, 5, 6, 7, 8, 9, 10, 11, 12]
      else signed_archive)"

definition stick_disk :: "unit ota_platform" where
  "stick_disk = \<lparr>pf_access = (\<lambda>_ _. 0), pf_access_x = (\<lambda>_ _. 0), pf_size = (\<lambda>_ path. map_option (\<lambda>c. int (length c)) (stick_content path)),
     pf_is_dir = (\<lambda>_ _. None), pf_entries = (\<lambda>_ _. Some [''.'', ''..'', ''update000.zip'', ''update001.zip'']),
     pf_content = (\<lambda>_. stick_content), pf_mkdir = (\<lambda>_ p. (0, p)), pf_rmdir = (\<lambda>_ p. (0, p)), pf_unlink = (\<lambda>_ p. (0, p)),
     pf_mount = (\<lambda>_ _ _ p. (0, p)), pf_umount = (\<lambda>_ p. (0, p)),
     pf_xml = (\<lambda>_ path. Tree (if path = ''/tmp/update/device.xml'' then device_tree
       else if path = ''/tmp/update/update.xml'' then update_tree else global_tree)),
     pf_unzip = (\<lambda>_ _ p. (0, p)), pf_download = (\<lambda>_ _ p. (0, p)), pf_echo = (\<lambda>_ p. (0, p)),
     pf_verify = sample_env, pf_key = ones_key 3\<rparr>"

lemma stick_disk_select [simp]:
  "pf_access stick_disk p path = 0" "pf_is_dir stick_disk p path = None" "pf_content stick_disk p = stick_content"
  "pf_entries stick_disk p path = Some [''.'', ''..'', ''update000.zip'', ''update001.zip'']"
  "pf_mkdir stick_disk path p = (0, p)" "pf_unzip stick_disk a b p = (0, p)" "pf_verify stick_disk = sample_env"
  "pf_mount stick_disk a b c p = (0, p)" "pf_umount stick_disk a p = (0, p)"
  by (simp_all add: stick_disk_def)

definition stick_ota :: "(unit, unit, chip_state) ota" where
  "stick_ota = \<lparr>o_files = (), o_bm = duo_bm, o_uf = construct_update_file, o_volumes = [stick], o_devs = [], next_write_offset = 0,
     write_buffer = False, write_buffer_size = 0, write_media_leap = 0, o_log = []\<rparr>"

section \<open>The package is accepted\<close>

lemma text_of_bytes: "text_of (bytes_of s) = s"
  by (simp add: text_of_def bytes_of_def comp_def unat_of_nat take_bit_nat_eq_self) 

lemma verify_stick:
  assumes "path \<notin> {''/res/key/key.pub'', ''/proc/mounts'', ''/tmp/update/rootfs''}"
  shows "verify_update_pkg stick_disk stick_config path s = Some (0, s\<lparr>o_log := o_log s @ [Package_verified path]\<rparr>)"
proof -
  have "printable signed_key" by (simp add: printable_def signed_key_def RSANUMWORDS_def RSANUMBYTES_def)
  then have "load_loop g (show_keys [signed_key]) = Some [signed_key]" for g
    using load_loop_show [of "[signed_key]" g] by simp
  then show ?thesis
    using assms signed_accepted [of sample_env] by (simp add: sample_env_def zero_ctx_def verify_update_pkg_def stick_config_def stick_content_def text_of_bytes load_keys_def)
qed


declare write_loop.simps [code] read_blocks.simps [code] skip_bad.simps [code] read_loop.simps [code]


section \<open>The descriptions\<close>

definition root_image :: image_info where
  "root_image = \<lparr>img_name = ''rootfs'', img_fs_type = ''normal'', img_offset = 16, img_size = 12, update_mode = UPDATE_MODE_FULL,
     chunksize = 0, chunkcount = 1\<rparr>"

definition table_entry :: "string \<Rightarrow> u64 \<Rightarrow> string \<Rightarrow> image_info list option \<Rightarrow> part_info" where
  "table_entry name offset block images = \<lparr>part_name = name, part_offset = offset, part_size = 16, part_block_name = block,
     part_image_count = of_nat (case images of None \<Rightarrow> 0 | Some l \<Rightarrow> length l),
     part_total_chunks = of_nat (case images of None \<Rightarrow> 0 | Some l \<Rightarrow> length l), part_images = images\<rparr>"

definition stick_device :: "bool \<Rightarrow> device_info" where
  "stick_device merged = \<lparr>dev_type = ''nand'', dev_capacity = 32, dev_part_count = 2,
     dev_parts = [table_entry ''boot'' 0 ''mtdblock0'' (if merged then Some [] else None),
       table_entry ''root'' 16 ''mtdblock1'' (if merged then Some [root_image] else None)]\<rparr>"

definition stick_update :: update_info where
  "stick_update = \<lparr>upd_devtype = ''nand'', devctl = 0, upd_image_count = 1, upd_images = [root_image]\<rparr>"

definition stick_uf :: update_file where
  "stick_uf = \<lparr>device_list = [stick_device True], update_list = [stick_update], device_type_list = [Some ''nand'', None, None]\<rparr>"

lemma magnitudes:
  "strto_magnitude ''0'' = (False, 0)" "strto_magnitude ''1'' = (False, 1)" "strto_magnitude ''2'' = (False, 2)"
  "strto_magnitude ''12'' = (False, 12)" "strto_magnitude ''16'' = (False, 16)" "strto_magnitude ''32'' = (False, 32)"
  by code_simp+

lemma stick_device_parsed:
  "parse_device_xml (pf_xml stick_disk ()) ''/tmp/update/device.xml'' (new_device_info ''nand'') = (Some 0, stick_device False)"
  by (simp add: stick_disk_def parse_device_xml_def device_tree_def parse_items_def parse_item_def part_u64_def
      new_device_info_def xml_eval strtoull0_def magnitudes stick_device_def table_entry_def)

lemma stick_update_parsed:
  "parse_update_xml (pf_xml stick_disk ()) ''/tmp/update/update.xml'' (new_update_info ''nand'') = (Some 0, stick_update)"
  by (simp add: stick_disk_def parse_update_xml_def update_tree_def parse_images_def parse_image_def image_u64_def mode_number_def
      UPDATE_MODE_CHUNK_def UPDATE_MODE_FULL_def new_update_info_def xml_eval strtoull0_def magnitudes stick_update_def root_image_def)

lemma stick_global_parsed:
  "parse_global_xml (pf_xml stick_disk ()) ''/mnt/sda1/recovery-update/global.xml'' construct_update_file =
     (Some 0, \<lparr>device_list = [new_device_info ''nand''], update_list = [new_update_info ''nand''],
       device_type_list = [Some ''nand'', None, None]\<rparr>)"
  by (simp add: stick_disk_def parse_global_xml_def global_tree_def construct_update_file_def xml_eval parse_devices.simps
      supported_device_type_def numeral_eq_Suc)

lemma stick_merged: "merge_imginfo_into_partinfo (stick_device False) stick_update = (Some 0, stick_device True)"
  by (simp add: merge_imginfo_into_partinfo_def stick_device_def stick_update_def table_entry_def root_image_def add_image_def Let_def)


lemma blknums: "scan_blknum ''mtdblock0'' = 0" "scan_blknum ''mtdblock1'' = 1"
proof -
  have "scan_digits 10 (snd (scan_sign (skip_ws ''0''))) = Some (0, [])" "scan_digits 10 (snd (scan_sign (skip_ws ''1''))) = Some (1, [])"
    "fst (scan_sign (skip_ws ''0'')) = False" "fst (scan_sign (skip_ws ''1'')) = False" by code_simp+
  then show "scan_blknum ''mtdblock0'' = 0" "scan_blknum ''mtdblock1'' = 1"
    by (simp_all add: scan_blknum_def case_prod_beta strtol_val_def)
qed

lemma stick_checked: "check_device_info (env_of duo_bm) (stick_device False) = Some 0"
proof -
  have n: "show_int 0 = ''0''" "show_int 1 = ''1''" by code_simp+
  have c: "mtd_get_partition_count (env_of duo_bm) = 2"
    "mtd_get_partition_start_by_name (env_of duo_bm) ''mtd0'' = 0" "mtd_get_partition_start_by_name (env_of duo_bm) ''mtd1'' = 16"
    "mtd_get_partition_size_by_name (env_of duo_bm) ''mtd0'' = 16" "mtd_get_partition_size_by_name (env_of duo_bm) ''mtd1'' = 16"
    by code_simp+
  show ?thesis by (simp add: check_device_info_def stick_device_def table_entry_def check_part_def blknums n c)
qed

section \<open>Finding it\<close>

lemma stick_unzip_dir [simp]: "creat_unzip_dir stick_disk s = Some (0, s)" "clean_unzip_dir stick_disk s = Some s"
  by (simp_all add: creat_unzip_dir_def clean_unzip_dir_def dir_delete_def delete_tree.simps dir_create_def prefix_local_update_path_def)

definition found :: "(unit, unit, chip_state) ota" where
  "found = stick_ota\<lparr>o_uf := stick_uf, o_log := [Package_verified ''/mnt/sda1/recovery-update/nand/update000.zip'']\<rparr>"

lemmas stick_names = slash_def update_dir_def local_file_def prefix_global_xml_def prefix_device_xml_def prefix_update_xml_def
  prefix_storage_update_path_def prefix_update_pkg_def prefix_local_update_path_def

lemma new_types: "dev_type (new_device_info t) = t" "upd_devtype (new_update_info t) = t"
  by (simp_all add: new_device_info_def new_update_info_def)

lemma stick_package_count: "package_count [''.'', ''..'', ''update000.zip'', ''update001.zip''] = 2"
  by code_simp

lemma find_stick: "find_valid_update_volume stick_disk stick_config stick_ota = Some (Some stick, found)"
proof -
  let ?uf = "\<lparr>device_list = [new_device_info ''nand''], update_list = [new_update_info ''nand''], device_type_list = [Some ''nand'', None, None]\<rparr>"
  have c: "check_device stick_disk stick_config ''nand'' ''/mnt/sda1/recovery-update/nand/update000.zip'' (new_device_info ''nand'')
      (new_update_info ''nand'') (stick_ota\<lparr>o_uf := ?uf\<rparr>) = Some (0, stick_update, found)"
    by (simp add: check_device_def check_devive_update_info_def file_exist_def verify_stick stick_device_parsed stick_update_parsed
        stick_merged stick_checked stick_names stick_ota_def found_def stick_uf_def new_types Let_def)
  have g: "parse_global_xml (pf_xml stick_disk ()) ''/mnt/sda1/recovery-update/global.xml'' (o_uf stick_ota) = (Some 0, ?uf)"
    by (simp add: stick_ota_def stick_global_parsed)
  have j: "judge_device stick_disk stick_config stick ''nand'' (stick_ota\<lparr>o_uf := ?uf\<rparr>) = Some (True, found)"
    using c by (simp add: judge_device_def stick_names stick_def get_device_info_by_devtype_def get_update_info_by_devtype_def
        new_types dir_exist_def stick_package_count chunk_total_def stick_update_def root_image_def)
  have v: "o_volumes stick_ota = [stick]" by (simp add: stick_ota_def)
  show ?thesis
    using j g by (simp add: find_valid_update_volume_def v stick_names stick_def dir_exist_def file_exist_def Let_def)
qed


section \<open>The update\<close>

text \<open>The kernel loops can be evaluated by their equations.\<close>

declare write_loop.simps [code] read_blocks.simps [code] skip_bad.simps [code] read_loop.simps [code]

definition started :: "(unit, unit, chip_state) ota" where
  "started = snd (the (write_flag duo SYSINFO_FLAG_VALUE_UPDATE_START found))"

definition root_part :: part_info where
  "root_part = table_entry ''root'' 16 ''mtdblock1'' (Some [root_image])"

definition unzipped :: "(unit, unit, chip_state) ota" where
  "unzipped = started\<lparr>next_write_offset := 0,
     o_log := o_log started @ [Package_verified ''/mnt/sda1/recovery-update/nand/update001.zip'']\<rparr>"

definition stored_image :: "(unit, unit, chip_state) ota" where
  "stored_image = snd (the (write_update_pkg stick_disk duo no_ubi stick_update root_part root_image ''/tmp/update/rootfs'' 1 unzipped))"

definition chunk_done :: "(unit, unit, chip_state) ota" where
  "chunk_done = stored_image\<lparr>o_log := o_log stored_image @ [Chunk_write root_image 1 0]\<rparr>"

definition finished :: "(unit, unit, chip_state) ota" where
  "finished = snd (the (write_flag duo SYSINFO_FLAG_VALUE_UPDATE_DONE chunk_done))"

lemma snd_the: "map_option fst x = Some r \<Longrightarrow> x = Some (r, snd (the x))"
  by (cases x) auto

lemma stick_started: "write_flag duo SYSINFO_FLAG_VALUE_UPDATE_START found = Some (0, started)"
  unfolding started_def by (rule snd_the) code_simp

lemma stick_stored:
  "write_update_pkg stick_disk duo no_ubi stick_update root_part root_image ''/tmp/update/rootfs'' 1 unzipped = Some (0, stored_image)"
  unfolding stored_image_def by (rule snd_the) code_simp

lemma stick_finished: "write_flag duo SYSINFO_FLAG_VALUE_UPDATE_DONE chunk_done = Some (0, finished)"
  unfolding finished_def by (rule snd_the) code_simp

lemma finished_flash:
  "map (fst (kern (bm_world (o_bm finished)))) [0..31] =
     [10, 11, 0xa5, 0xa5, 0xa5, 0xa5, 16, 17, 18, 19, 20, 21, 22, 23, 24, 25,
      1, 2, 3, 4, 5, 6, 7, 8, 9, 10, 11, 12, 0xff, 0xff, 0xff, 0xff]"
  by code_simp

lemma finished_log:
  "o_log finished = [Package_verified ''/mnt/sda1/recovery-update/nand/update000.zip'', Flag_write SYSINFO_FLAG_VALUE_UPDATE_START 0,
     Package_verified ''/mnt/sda1/recovery-update/nand/update001.zip'', Chunk_write root_image 1 0, Flag_write SYSINFO_FLAG_VALUE_UPDATE_DONE 0]"
  and finished_uf: "o_uf finished = stick_uf"
  using write_flag_log [OF stick_started] write_flag_log [OF stick_finished] write_update_pkg_frame [OF stick_stored]
  by (simp_all add: chunk_done_def unzipped_def found_def frame_def)

lemma same_files: "(s :: (unit, 'u, 'k) ota)\<lparr>o_files := p\<rparr> = s"
  by (cases s) simp

lemma stick_chunk:
  "storage_chunk stick_disk stick_config duo no_ubi stick ''nand'' stick_update root_part root_image 1 1 (started\<lparr>next_write_offset := 0\<rparr>) =
     Some (True, chunk_done)"
proof -
  have "storage_package stick ''nand'' 1 = ''/mnt/sda1/recovery-update/nand/update001.zip''" "chunk_file root_image 1 = ''/tmp/update/rootfs''"
    by code_simp+
  moreover have "chunkcount root_image = 1" by (simp add: root_image_def)
  ultimately show ?thesis
    using stick_stored
    by (simp add: storage_chunk_def process_package_def file_exist_def verify_stick unzipped_def chunk_done_def same_files)
qed

lemma stick_device_updated: "storage_device stick_disk stick_config duo no_ubi stick ''nand'' started = Some (True, chunk_done)"
proof -
  have uf: "o_uf started = stick_uf" using write_flag_log [OF stick_started] by (simp add: found_def)
  have c: "chunkcount root_image = 1" by (simp add: root_image_def)
  have p: "dev_parts (stick_device True) = [table_entry ''boot'' 0 ''mtdblock0'' (Some []), root_part]" "part_images root_part = Some [root_image]"
    "part_images (table_entry ''boot'' 0 ''mtdblock0'' (Some [])) = Some []"
    by (simp_all add: stick_device_def root_part_def table_entry_def)
  have "get_device_info_by_devtype stick_uf ''nand'' = Some (stick_device True)" "get_update_info_by_devtype stick_uf ''nand'' = Some stick_update"
    by (simp_all add: get_device_info_by_devtype_def get_update_info_by_devtype_def stick_uf_def stick_device_def stick_update_def)
  then show ?thesis
    using stick_chunk by (simp add: storage_device_def uf p c update_chunks.simps)
qed

lemma storage_run: "update_from_storage stick_disk stick_config duo no_ubi stick_ota = Some (0, finished)"
proof -
  have "walk_type_list (device_type_list (o_uf started)) = Some [''nand'']"
    using write_flag_log [OF stick_started] by (simp add: found_def stick_uf_def)
  then show ?thesis
    by (simp add: update_from_storage_def find_stick flagged_update_def stick_started stick_device_updated stick_finished)
qed

lemma main_run: "\<exists>s. main_task stick_disk stick_config duo no_ubi stick_ota = Some (0, s) \<and> o_log s = o_log finished"
proof -
  have "scan_mounted_volumes stick_disk () = Some [stick]" by code_simp
  moreover have "mount_all_storage stick_disk [] [stick] () = Some ([stick], ())"
    by (simp add: mount_all_storage_def dir_delete_def delete_tree.simps)
  moreover have "o_devs finished = []" by code_simp
  moreover have "stick_ota\<lparr>o_files := (), o_volumes := [stick], o_uf := construct_update_file\<rparr> = stick_ota" by (simp add: stick_ota_def)
  moreover have "o_devs stick_ota = []" by (simp add: stick_ota_def)
  ultimately show ?thesis
    using storage_run by (simp add: main_task_def)
qed

section \<open>Witnesses\<close>

theorem update_from_storage_complete_witness:
  "\<exists>volume types ps a b. walk_type_list (device_type_list stick_uf) = Some types \<and>
     [Package_verified ''/mnt/sda1/recovery-update/nand/update000.zip'', Flag_write SYSINFO_FLAG_VALUE_UPDATE_START 0,
      Package_verified ''/mnt/sda1/recovery-update/nand/update001.zip'', Chunk_write root_image 1 0, Flag_write SYSINFO_FLAG_VALUE_UPDATE_DONE 0] =
     map Package_verified ps @ [Flag_write SYSINFO_FLAG_VALUE_UPDATE_START a] @
       concat (map (device_events volume stick_uf) types) @ [Flag_write SYSINFO_FLAG_VALUE_UPDATE_DONE b]"
  using update_from_storage_complete [OF storage_run] by (simp add: finished_log finished_uf stick_ota_def) blast


theorem main_task_protocol_witness:
  "\<exists>code s evs1 q1 evs2 q2. main_task stick_disk stick_config duo no_ubi stick_ota = Some (code, s) \<and>
     o_log s = evs1 @ evs2 \<and> ota_run Checking evs1 q1 \<and> ota_run Checking evs2 q2 \<and>
     (q1 = Done \<longrightarrow> evs2 = []) \<and> (q1 = Done \<or> q2 = Done)"
proof -
  obtain s where s: "main_task stick_disk stick_config duo no_ubi stick_ota = Some (0, s)" using main_run by blast
  have "o_log stick_ota = []" by (simp add: stick_ota_def)
  with main_task_protocol [OF s] show ?thesis using s by auto
qed

theorem main_task_writes_verified_witness:
  "\<exists>s zs p a. main_task stick_disk stick_config duo no_ubi stick_ota = Some (0, s) \<and>
     o_log s = zs @ [Package_verified p, Chunk_write root_image 1 0, Flag_write SYSINFO_FLAG_VALUE_UPDATE_DONE 0] \<and>
     0 \<le> a \<and> Flag_write SYSINFO_FLAG_VALUE_UPDATE_START a \<in> set zs"
proof -
  let ?xs = "[Package_verified ''/mnt/sda1/recovery-update/nand/update000.zip'', Flag_write SYSINFO_FLAG_VALUE_UPDATE_START 0,
     Package_verified ''/mnt/sda1/recovery-update/nand/update001.zip'']"
  obtain s where s: "main_task stick_disk stick_config duo no_ubi stick_ota = Some (0, s)" "o_log s = o_log finished" using main_run by blast
  have l: "o_log s = o_log stick_ota @ ?xs @ Chunk_write root_image 1 0 # [Flag_write SYSINFO_FLAG_VALUE_UPDATE_DONE 0]"
    by (simp add: s(2) finished_log stick_ota_def)
  obtain zs p a where "?xs = zs @ [Package_verified p]" "0 \<le> a" "Flag_write SYSINFO_FLAG_VALUE_UPDATE_START a \<in> set ?xs"
    using main_task_writes_verified [OF s(1) l] by blast
  then show ?thesis using s(1) l
    by (intro exI [of _ s] exI [of _ zs] exI [of _ p] exI [of _ a]) (auto simp: stick_ota_def)
qed

text \<open>Four partitions, an image in the first: the list of the third is never initialised.\<close>

theorem early_merge_never_completes_witness:
  "\<not> (\<exists>s'. storage_device stick_disk stick_config duo no_ubi stick ''nand''
     (stick_ota\<lparr>o_uf := stick_uf\<lparr>device_list := [snd (merge_imginfo_into_partinfo
        ((new_device_info ''nand'')\<lparr>dev_parts := [quarter 0, quarter 16, quarter 32, quarter 48]\<rparr>)
        ((new_update_info ''nand'')\<lparr>upd_images := [small_image]\<rparr>))]\<rparr>\<rparr>) = Some (True, s'))"
proof -
  let ?di = "(new_device_info ''nand'')\<lparr>dev_parts := [quarter 0, quarter 16, quarter 32, quarter 48]\<rparr>"
  let ?ui = "(new_update_info ''nand'')\<lparr>upd_images := [small_image]\<rparr>"
  obtain r di' where m: "merge_imginfo_into_partinfo ?di ?ui = (r, di')" by force
  have r: "r = Some 0" "dev_type di' = ''nand''" using m by (auto simp: merge_imginfo_into_partinfo_def new_device_info_def quarter_def small_image_def Let_def)
  show ?thesis
    using early_merge_never_completes [of ?di "[quarter 0]" "quarter 16" "quarter 32" "[quarter 48]" ?ui "[[small_image]]" 0 di'
        "stick_ota\<lparr>o_uf := stick_uf\<lparr>device_list := [di']\<rparr>\<rparr>" "''nand''" stick_disk stick_config duo no_ubi stick] m r
    by (simp add: get_device_info_by_devtype_def quarter_def small_image_def fits_def)
qed


section \<open>A package in the middle of a partition\<close>

text \<open>The partition of \<open>Chip\<close>, erased; the window of two good blocks behind the bad one.\<close>

definition window_bm :: "(unit, chip_state) bm" where
  "window_bm = \<lparr>bm_conf = chip_env, bm_reg = \<lparr>fs_table = [chip_fs 0 [] 16], fs_registered = [''normal'']\<rparr>,
     bm_info = \<lparr>write_start = 0, physical_unit_size = 4, logical_unit_size = 4, max_size_mapped_in_partition = 16, context_handle = Some ''normal''\<rparr>,
     bm_prepared = True, bm_locked = False, bm_open = True, bm_ubi = (), bm_world = blank_world\<lparr>layout := []\<rparr>\<rparr>"

definition window_ota :: "(unit, unit, chip_state) ota" where
  "window_ota = stick_ota\<lparr>o_bm := window_bm, next_write_offset := 8, write_buffer := True, write_buffer_size := 4, write_media_leap := 4\<rparr>"

definition three_images :: "image_info list" where
  "three_images = [root_image\<lparr>img_name := ''a''\<rparr>, root_image\<lparr>img_offset := 8\<rparr>, root_image\<lparr>img_name := ''c''\<rparr>]"

lemma window_ready: "writer_ready (chip chip_bad 4) chip_mtd fst snd False [] 8 16 window_bm"
proof -
  have flags: "\<not> FS_FLAG_IS_SET (chip_fs 0 [] 16) FS_FLAG_NOECC" "\<not> FS_FLAG_IS_SET (chip_fs 0 [] 16) FS_FLAG_WRITEOOB"
    "FS_FLAG_IS_SET (chip_fs 0 [] 16) FS_FLAG_PAD" "fs_name (chip_fs 0 [] 16) = ''normal''"
    by (simp_all add: chip_fs_def normal_init_def static_fs_def FS_FLAG_IS_SET_def FS_FLAG_SET_def FS_FLAG_BITS_def)
  have c: "context_ready chip_mtd window_bm"
    using flags by (auto simp: context_ready_def window_bm_def fs_find_def) (simp add: chip_params_def)
  have "skips (blank_world\<lparr>layout := []\<rparr>) eb \<longleftrightarrow> eb = 1" for eb
    using chip_skips [of eb] by (simp add: skips_def block_state_def blank_world_def)
  moreover have "table_covers chip_mtd (blank_world\<lparr>layout := []\<rparr>)"
    using chip_covers by (simp add: table_covers_def block_state_def blank_world_def)
  moreover have "a div 4 \<noteq> 1" if "8 \<le> a" for a :: int using that by simp
  ultimately have d: "device_ready (chip chip_bad 4) chip_mtd fst snd 8 16 (bm_world window_bm)"
    by (simp add: device_ready_def window_bm_def chip_readable chip_writable blank_world_def)
  show ?thesis
    using c d chip_mtd_wf chip_mtd_nand
    by (simp add: writer_ready_def) (simp add: window_bm_def chip_env_def areas_ready_def)
qed

definition piece :: "u8 list" where
  "piece = [21, 22, 23, 24, 25]"

definition file_disk :: "u8 list \<Rightarrow> unit ota_platform" where
  "file_disk data = stick_disk\<lparr>pf_content := (\<lambda>_ _. Some data), pf_size := (\<lambda>_ _. Some (int (length data)))\<rparr>"

definition window_part :: part_info where
  "window_part = table_entry ''root'' 0 ''mtdblock0'' (Some three_images)"

definition window_image :: image_info where
  "window_image = root_image\<lparr>img_offset := 8\<rparr>"

lemma window_select:
  "o_bm window_ota = window_bm" "next_write_offset window_ota = 8" "write_buffer window_ota" "write_buffer_size window_ota = 4"
  "write_media_leap window_ota = 4" "img_offset window_image = 8" "part_images window_part = Some three_images"
  "part_offset window_part = 0" "part_size window_part = 16" "img_name window_image = ''rootfs''" "three_images \<noteq> []"
  "img_name (hd three_images) = ''a''" "img_name (last three_images) = ''c''" "upd_devtype stick_update = ''nand''"
  by (simp_all add: window_ota_def window_image_def window_part_def table_entry_def root_image_def three_images_def stick_update_def)

lemma window_blank: "bm_cell chip_mtd fst window_bm = (\<lambda>_. 0xff)"
  by (simp add: fun_eq_iff bm_cell_def window_bm_def)

lemma piece_padded: "padded 2 piece = [21, 22, 23, 24, 25, 0xff]" "piece \<noteq> []" "length piece = 5"
  by (simp_all add: padded_def piece_def)

lemma file_disk_select: "pf_content (file_disk data) p path = Some data" "pf_size (file_disk data) p path = Some (int (length data))"
  by (simp_all add: file_disk_def)

theorem write_update_pkg_stores_witness:
  "\<exists>s'. write_update_pkg (file_disk piece) (chip chip_bad 4) no_ubi stick_update window_part window_image ''/tmp/update/rootfs'' 1 window_ota =
       Some (0, s') \<and> next_write_offset s' = 14 \<and> map (bm_cell chip_mtd fst (o_bm s')) [7..14] = [0xff, 21, 22, 23, 24, 25, 0xff, 0xff]"
proof -
  have io: "min_io_size chip_mtd = 2" by simp
  have "\<exists>s'. write_update_pkg (file_disk piece) (chip chip_bad 4) no_ubi stick_update window_part window_image ''/tmp/update/rootfs'' 1 window_ota =
       Some (0, s') \<and> next_write_offset s' = max (next_write_offset window_ota) (uint (img_offset window_image)) + int (length (padded (min_io_size chip_mtd) piece)) \<and>
     writer_ready (chip chip_bad 4) chip_mtd fst snd False [] 8 16 (o_bm s') \<and>
     bm_cell chip_mtd fst (o_bm s') = (\<lambda>a. if max (next_write_offset window_ota) (uint (img_offset window_image)) \<le> a \<and>
         a < max (next_write_offset window_ota) (uint (img_offset window_image)) + int (length (padded (min_io_size chip_mtd) piece))
       then area_overlay False [] a (padded (min_io_size chip_mtd) piece ! nat (a - max (next_write_offset window_ota) (uint (img_offset window_image))))
       else bm_cell chip_mtd fst (o_bm window_ota) a)"
    by (rule write_update_pkg_stores [where imgs = three_images])
      (simp_all only: window_select file_disk_select io piece_padded window_blank window_ready, simp_all)
  then obtain s' where "write_update_pkg (file_disk piece) (chip chip_bad 4) no_ubi stick_update window_part window_image ''/tmp/update/rootfs'' 1 window_ota =
       Some (0, s')" "next_write_offset s' = 14"
     "bm_cell chip_mtd fst (o_bm s') = (\<lambda>a. if 8 \<le> a \<and> a < 14 then area_overlay False [] a ([21, 22, 23, 24, 25, 0xff] ! nat (a - 8)) else 0xff)"
    unfolding window_select io piece_padded window_blank by (elim exE conjE) (simp add: fun_eq_iff)
  then show ?thesis by (intro exI [of _ s']) (simp add: area_overlay_def)
qed

section \<open>A bad block in the middle\<close>

text \<open>
  An update of twelve bytes in pieces of a block, on the chip whose second block is bad. The
  piece for the bad block goes to the block behind it, the next piece is written there too, and
  the update reports success.
\<close>

definition bad_ota :: "(unit, unit, chip_state) ota" where
  "bad_ota = stick_ota\<lparr>o_bm := duo_bm\<lparr>bm_conf := chip_env, bm_world := chip_world None\<rparr>\<rparr>"

lemma bad_block_loses_bytes:
  "map_option (\<lambda>(r, s). (r, map (bm_cell chip_mtd fst (o_bm s)) [0..15]))
     (write_update_pkg (file_disk [1, 2, 3, 4, 5, 6, 7, 8, 9, 10, 11, 12]) (chip chip_bad 4) no_ubi stick_update
       (table_entry ''root'' 0 ''mtdblock0'' (Some [root_image\<lparr>img_offset := 0\<rparr>])) (root_image\<lparr>img_offset := 0\<rparr>) ''/tmp/update/rootfs'' 1 bad_ota) =
   Some (0, [1, 2, 3, 4, 14, 15, 16, 17, 9, 10, 11, 12, 0xff, 0xff, 0xff, 0xff])"
  by code_simp

end
