(* ===== verification/UbiGen.thy ===== *)
theory UbiGen
  imports Crc
begin

text \<open>
  UBI headers and the volume table, \<open>client/recovery/lib/mtd/ubi/libubigen.c\<close> over the layouts
  of \<open>include/lib/mtd/ubi-media.h\<close>. A header is a record of its fields and, on the flash, the
  bytes of its packed structure; every field of more than a byte is stored most significant
  byte first. The lemmas show that the two forms determine each other and that the checksum
  the generator stores is the one a reader computes. The routines that write whole images to
  a file are not called by the program and are left out.
\<close>

section \<open>Layouts\<close>

definition UBI_CRC32_INIT :: u32 where "UBI_CRC32_INIT = 0xFFFFFFFF"
definition UBI_EC_HDR_MAGIC :: u32 where "UBI_EC_HDR_MAGIC = 0x55424923"
definition UBI_VID_HDR_MAGIC :: u32 where "UBI_VID_HDR_MAGIC = 0x55424921"
definition UBI_VID_DYNAMIC :: int where "UBI_VID_DYNAMIC = 1"
definition UBI_VID_STATIC :: int where "UBI_VID_STATIC = 2"
definition UBI_EC_HDR_SIZE :: int where "UBI_EC_HDR_SIZE = 64"
definition UBI_VID_HDR_SIZE :: int where "UBI_VID_HDR_SIZE = 64"
definition UBI_VTBL_RECORD_SIZE :: int where "UBI_VTBL_RECORD_SIZE = 172"
definition UBI_MAX_VOLUMES :: int where "UBI_MAX_VOLUMES = 128"
definition UBI_VOL_NAME_MAX :: nat where "UBI_VOL_NAME_MAX = 127"
definition UBI_LAYOUT_VOLUME_ID :: int where "UBI_LAYOUT_VOLUME_ID = 0x7FFFFFFF - 4096"
definition UBI_LAYOUT_VOLUME_EBS :: int where "UBI_LAYOUT_VOLUME_EBS = 2"
definition UBI_COMPAT_REJECT :: int where "UBI_COMPAT_REJECT = 5"

definition be16 :: "u16 \<Rightarrow> u8 list" where
  "be16 w = [ucast (drop_bit 8 w), ucast w]"

definition be32_at :: "nat \<Rightarrow> u8 list \<Rightarrow> u32" where
  "be32_at i bs = from_be32 (bs ! i) (bs ! (i + 1)) (bs ! (i + 2)) (bs ! (i + 3))"

definition be64_at :: "nat \<Rightarrow> u8 list \<Rightarrow> u64" where
  "be64_at i bs = push_bit 32 (ucast (be32_at i bs)) OR ucast (be32_at (i + 4) bs)"

text \<open>\<open>struct ubi_ec_hdr\<close>; the paddings are bytes as they are.\<close>

record ubi_ec_hdr =
  ec_magic :: u32
  ec_version :: u8
  ec_padding1 :: "u8 list"
  ec_ec :: u64
  ec_vid_hdr_offset :: u32
  ec_data_offset :: u32
  ec_image_seq :: u32
  ec_padding2 :: "u8 list"
  ec_hdr_crc :: u32

definition ec_hdr_body :: "ubi_ec_hdr \<Rightarrow> u8 list" where
  "ec_hdr_body h = be32 (ec_magic h) @ [ec_version h] @ ec_padding1 h @ be64 (ec_ec h) @ be32 (ec_vid_hdr_offset h) @
     be32 (ec_data_offset h) @ be32 (ec_image_seq h) @ ec_padding2 h"

definition ec_hdr_bytes :: "ubi_ec_hdr \<Rightarrow> u8 list" where
  "ec_hdr_bytes h = ec_hdr_body h @ be32 (ec_hdr_crc h)"

definition ec_hdr_of :: "u8 list \<Rightarrow> ubi_ec_hdr" where
  "ec_hdr_of bs = \<lparr>ec_magic = be32_at 0 bs, ec_version = bs ! 4, ec_padding1 = take 3 (drop 5 bs), ec_ec = be64_at 8 bs,
     ec_vid_hdr_offset = be32_at 16 bs, ec_data_offset = be32_at 20 bs, ec_image_seq = be32_at 24 bs,
     ec_padding2 = take 32 (drop 28 bs), ec_hdr_crc = be32_at 60 bs\<rparr>"

record ubi_vid_hdr =
  vid_magic :: u32
  vid_version :: u8
  vid_vol_type :: u8
  vid_copy_flag :: u8
  vid_compat :: u8
  vid_vol_id :: u32
  vid_lnum :: u32
  vid_leb_ver :: u32
  vid_data_size :: u32
  vid_used_ebs :: u32
  vid_data_pad :: u32
  vid_data_crc :: u32
  vid_padding2 :: "u8 list"
  vid_sqnum :: u64
  vid_padding3 :: "u8 list"
  vid_hdr_crc :: u32

definition vid_hdr_body :: "ubi_vid_hdr \<Rightarrow> u8 list" where
  "vid_hdr_body h = be32 (vid_magic h) @ [vid_version h, vid_vol_type h, vid_copy_flag h, vid_compat h] @ be32 (vid_vol_id h) @
     be32 (vid_lnum h) @ be32 (vid_leb_ver h) @ be32 (vid_data_size h) @ be32 (vid_used_ebs h) @ be32 (vid_data_pad h) @
     be32 (vid_data_crc h) @ vid_padding2 h @ be64 (vid_sqnum h) @ vid_padding3 h"

definition vid_hdr_bytes :: "ubi_vid_hdr \<Rightarrow> u8 list" where
  "vid_hdr_bytes h = vid_hdr_body h @ be32 (vid_hdr_crc h)"

record ubi_vtbl_record =
  vr_reserved_pebs :: u32
  vr_alignment :: u32
  vr_data_pad :: u32
  vr_vol_type :: u8
  vr_upd_marker :: u8
  vr_name_len :: u16
  vr_name :: "u8 list"
  vr_flags :: u8
  vr_padding :: "u8 list"
  vr_crc :: u32

definition vtbl_record_body :: "ubi_vtbl_record \<Rightarrow> u8 list" where
  "vtbl_record_body r = be32 (vr_reserved_pebs r) @ be32 (vr_alignment r) @ be32 (vr_data_pad r) @ [vr_vol_type r, vr_upd_marker r] @
     be16 (vr_name_len r) @ vr_name r @ [vr_flags r] @ vr_padding r"

definition vtbl_record_bytes :: "ubi_vtbl_record \<Rightarrow> u8 list" where
  "vtbl_record_bytes r = vtbl_record_body r @ be32 (vr_crc r)"

section \<open>Generating\<close>

record ubigen_info =
  gi_leb_size :: int
  gi_peb_size :: int
  gi_min_io_size :: int
  gi_vid_hdr_offs :: int
  gi_data_offs :: int
  gi_ubi_ver :: int
  gi_vtbl_size :: int
  gi_max_volumes :: int
  gi_image_seq :: u32

text \<open>The name of a volume is a string of C; its length is kept beside it.\<close>

record ubigen_vol_info =
  vi_id :: int
  vi_type :: int
  vi_alignment :: int
  vi_data_pad :: int
  vi_usable_leb_size :: int
  vi_name :: "u8 list"
  vi_name_len :: nat
  vi_compat :: int
  vi_used_ebs :: int
  vi_bytes :: int
  vi_flags :: u8

text \<open>Rounding up as the code does it, in two statements.\<close>

definition round_up :: "int \<Rightarrow> int \<Rightarrow> int" where
  "round_up x unit = (x + unit - 1) div unit * unit"

definition ubigen_info_init :: "int \<Rightarrow> int \<Rightarrow> int \<Rightarrow> int \<Rightarrow> int \<Rightarrow> u32 \<Rightarrow> ubigen_info" where
  "ubigen_info_init peb_size min_io_size subpage_size vid_hdr_offs ubi_ver image_seq =
     (let vid_hdr_offs = (if vid_hdr_offs = 0 then round_up UBI_EC_HDR_SIZE subpage_size else vid_hdr_offs);
          data_offs = round_up (vid_hdr_offs + UBI_VID_HDR_SIZE) min_io_size;
          leb_size = peb_size - data_offs;
          max_volumes = min (leb_size div UBI_VTBL_RECORD_SIZE) UBI_MAX_VOLUMES
      in \<lparr>gi_leb_size = leb_size, gi_peb_size = peb_size, gi_min_io_size = min_io_size, gi_vid_hdr_offs = vid_hdr_offs,
          gi_data_offs = data_offs, gi_ubi_ver = ubi_ver, gi_vtbl_size = max_volumes * UBI_VTBL_RECORD_SIZE,
          gi_max_volumes = max_volumes, gi_image_seq = image_seq\<rparr>)"

definition zero_record :: ubi_vtbl_record where
  "zero_record = \<lparr>vr_reserved_pebs = 0, vr_alignment = 0, vr_data_pad = 0, vr_vol_type = 0, vr_upd_marker = 0, vr_name_len = 0,
     vr_name = replicate 128 0, vr_flags = 0, vr_padding = replicate 23 0, vr_crc = 0\<rparr>"

definition seal_record :: "ubi_vtbl_record \<Rightarrow> ubi_vtbl_record" where
  "seal_record r = r\<lparr>vr_crc := local_crc32 UBI_CRC32_INIT (vtbl_record_body r)\<rparr>"

definition ubigen_create_empty_vtbl :: "ubigen_info \<Rightarrow> ubi_vtbl_record list" where
  "ubigen_create_empty_vtbl ui = map (\<lambda>_. seal_record zero_record) [0..<nat (gi_max_volumes ui)]"

text \<open>
  The result and the table. A name that does not fit its field is copied past it; an
  alignment of 0 is a division by it.
\<close>

definition ubigen_add_volume ::
  "ubigen_info \<Rightarrow> ubigen_vol_info \<Rightarrow> ubi_vtbl_record list \<Rightarrow> (int \<times> ubi_vtbl_record list) option" where
  "ubigen_add_volume ui vi vtbl =
     (if vi_id vi \<ge> gi_max_volumes ui then Some (-1, vtbl)
      else if vi_alignment vi \<ge> gi_leb_size ui then Some (-1, vtbl)
      else if vi_id vi < 0 \<or> length vtbl \<le> nat (vi_id vi) \<or> vi_alignment vi = 0 \<or> UBI_VOL_NAME_MAX < vi_name_len vi
         \<or> length (vi_name vi) < vi_name_len vi then None
      else let name = take (vi_name_len vi) (vi_name vi);
               r = zero_record\<lparr>vr_reserved_pebs := word_of_int ((vi_bytes vi + gi_leb_size ui - 1) div gi_leb_size ui),
                     vr_alignment := word_of_int (vi_alignment vi), vr_vol_type := word_of_int (vi_type vi),
                     vr_data_pad := word_of_int (gi_leb_size ui mod vi_alignment vi), vr_flags := vi_flags vi,
                     vr_name := name @ replicate (128 - vi_name_len vi) 0, vr_name_len := word_of_nat (vi_name_len vi)\<rparr>
           in Some (0, vtbl[nat (vi_id vi) := seal_record r]))"

definition seal_ec_hdr :: "ubi_ec_hdr \<Rightarrow> ubi_ec_hdr" where
  "seal_ec_hdr h = h\<lparr>ec_hdr_crc := local_crc32 UBI_CRC32_INIT (ec_hdr_body h)\<rparr>"

definition ubigen_init_ec_hdr :: "ubigen_info \<Rightarrow> int \<Rightarrow> ubi_ec_hdr" where
  "ubigen_init_ec_hdr ui ec =
     seal_ec_hdr \<lparr>ec_magic = UBI_EC_HDR_MAGIC, ec_version = word_of_int (gi_ubi_ver ui), ec_padding1 = replicate 3 0,
       ec_ec = word_of_int ec, ec_vid_hdr_offset = word_of_int (gi_vid_hdr_offs ui), ec_data_offset = word_of_int (gi_data_offs ui),
       ec_image_seq = gi_image_seq ui, ec_padding2 = replicate 32 0, ec_hdr_crc = 0\<rparr>"

definition seal_vid_hdr :: "ubi_vid_hdr \<Rightarrow> ubi_vid_hdr" where
  "seal_vid_hdr h = h\<lparr>vid_hdr_crc := local_crc32 UBI_CRC32_INIT (vid_hdr_body h)\<rparr>"

text \<open>\<open>data\<close> are the bytes the header describes; they matter for a static volume only.\<close>

definition ubigen_init_vid_hdr :: "ubigen_info \<Rightarrow> ubigen_vol_info \<Rightarrow> int \<Rightarrow> u8 list \<Rightarrow> ubi_vid_hdr" where
  "ubigen_init_vid_hdr ui vi lnum data =
     (let static = (vi_type vi = UBI_VID_STATIC)
      in seal_vid_hdr \<lparr>vid_magic = UBI_VID_HDR_MAGIC, vid_version = word_of_int (gi_ubi_ver ui), vid_vol_type = word_of_int (vi_type vi),
           vid_copy_flag = 0, vid_compat = word_of_int (vi_compat vi), vid_vol_id = word_of_int (vi_id vi), vid_lnum = word_of_int lnum,
           vid_leb_ver = 0, vid_data_size = (if static then word_of_nat (length data) else 0),
           vid_used_ebs = (if static then word_of_int (vi_used_ebs vi) else 0), vid_data_pad = word_of_int (vi_data_pad vi),
           vid_data_crc = (if static then local_crc32 UBI_CRC32_INIT data else 0), vid_padding2 = replicate 4 0, vid_sqnum = 0,
           vid_padding3 = replicate 12 0, vid_hdr_crc = 0\<rparr>)"

section \<open>Headers and bytes\<close>

definition wf_ec_hdr :: "ubi_ec_hdr \<Rightarrow> bool" where
  "wf_ec_hdr h \<longleftrightarrow> length (ec_padding1 h) = 3 \<and> length (ec_padding2 h) = 32"

lemma length_be16 [simp, len_simps]: "length (be16 w) = 2"
  by (simp add: be16_def)

lemma length_ec_hdr [len_simps]: "wf_ec_hdr h \<Longrightarrow> length (ec_hdr_body h) = 60" "wf_ec_hdr h \<Longrightarrow> length (ec_hdr_bytes h) = 64"
  by (simp_all add: wf_ec_hdr_def ec_hdr_body_def ec_hdr_bytes_def)

lemma be32_at_append: "length xs = i \<Longrightarrow> be32_at i (xs @ be32 w @ ys) = w"
  by (simp add: be32_at_def nth_append be32_def from_be32_bytes)

lemma be64_split: "be64 w = be32 (ucast (drop_bit 32 w)) @ be32 (ucast w)"
proof -
  have "[0..<8] = [0, 1, 2, 3, 4, 5, 6, 7 :: nat]" by (simp add: upt_rec)
  then have "be64 w = map (\<lambda>i. ucast (drop_bit ((7 - i) * 8) w)) [0, 1, 2, 3, 4, 5, 6, 7 :: nat]" by (simp add: be64_def)
  then show ?thesis
    by (auto simp: be32_def bit_simps intro!: bit_word_eqI)
qed

lemma be64_at_append: "length xs = i \<Longrightarrow> be64_at i (xs @ be64 w @ ys) = w"
  using be32_at_append [of xs i "ucast (drop_bit 32 w)" "be32 (ucast w) @ ys"]
    be32_at_append [of "xs @ be32 (ucast (drop_bit 32 w))" "i + 4" "ucast w" ys]
  by (auto simp: be64_at_def be64_split bit_simps intro!: bit_word_eqI)

lemma ec_hdr_of_bytes:
  assumes "wf_ec_hdr h" shows "ec_hdr_of (ec_hdr_bytes h @ rest) = h"
proof -
  let ?p = "ec_padding1 h" and ?q = "ec_padding2 h"
  have p: "length ?p = 3" "length ?q = 32" using assms by (simp_all add: wf_ec_hdr_def)
  let ?a = "be32 (ec_magic h) @ [ec_version h] @ ?p"
  let ?b = "?a @ be64 (ec_ec h)"
  let ?c = "?b @ be32 (ec_vid_hdr_offset h)"
  let ?d = "?c @ be32 (ec_data_offset h)"
  let ?e = "?d @ be32 (ec_image_seq h)"
  let ?bs = "ec_hdr_bytes h @ rest"
  have "be32_at 0 ?bs = ec_magic h" "be64_at 8 ?bs = ec_ec h" "be32_at 16 ?bs = ec_vid_hdr_offset h"
    "be32_at 20 ?bs = ec_data_offset h" "be32_at 24 ?bs = ec_image_seq h" "be32_at 60 ?bs = ec_hdr_crc h"
    using p be32_at_append [of "[]" 0] be64_at_append [of ?a 8 "ec_ec h"] be32_at_append [of ?b 16 "ec_vid_hdr_offset h"]
      be32_at_append [of ?c 20 "ec_data_offset h"] be32_at_append [of ?d 24 "ec_image_seq h"]
      be32_at_append [of "?e @ ?q" 60 "ec_hdr_crc h" rest]
    by (simp_all add: ec_hdr_bytes_def ec_hdr_body_def)
  moreover have "?bs ! 4 = ec_version h" by (simp add: ec_hdr_bytes_def ec_hdr_body_def nth_append)
  moreover have "take 3 (drop 5 ?bs) = ?p" "take 32 (drop 28 ?bs) = ?q"
    using p by (simp_all add: ec_hdr_bytes_def ec_hdr_body_def)
  ultimately show ?thesis by (simp add: ec_hdr_of_def)
qed

lemma wf_generated [simp]: "wf_ec_hdr (ubigen_init_ec_hdr ui ec)" "wf_ec_hdr (seal_ec_hdr h) = wf_ec_hdr h"
  by (simp_all add: wf_ec_hdr_def ubigen_init_ec_hdr_def seal_ec_hdr_def)

lemma sealed_crc [simp]: "ec_hdr_crc (seal_ec_hdr h) = local_crc32 UBI_CRC32_INIT (ec_hdr_body (seal_ec_hdr h))"
  by (simp add: seal_ec_hdr_def ec_hdr_body_def)

lemma generated_fields [simp]:
  "ec_magic (ubigen_init_ec_hdr ui ec) = UBI_EC_HDR_MAGIC" "ec_ec (ubigen_init_ec_hdr ui ec) = word_of_int ec"
  "ec_vid_hdr_offset (ubigen_init_ec_hdr ui ec) = word_of_int (gi_vid_hdr_offs ui)"
  "ec_data_offset (ubigen_init_ec_hdr ui ec) = word_of_int (gi_data_offs ui)"
  "ec_hdr_crc (ubigen_init_ec_hdr ui ec) = local_crc32 UBI_CRC32_INIT (ec_hdr_body (ubigen_init_ec_hdr ui ec))"
  by (simp_all add: ubigen_init_ec_hdr_def) (simp_all add: seal_ec_hdr_def)

definition wf_vid_hdr :: "ubi_vid_hdr \<Rightarrow> bool" where
  "wf_vid_hdr h \<longleftrightarrow> length (vid_padding2 h) = 4 \<and> length (vid_padding3 h) = 12"

lemma length_vid_hdr [len_simps]: "wf_vid_hdr h \<Longrightarrow> length (vid_hdr_bytes h) = 64"
  by (simp add: wf_vid_hdr_def vid_hdr_body_def vid_hdr_bytes_def)

lemma wf_vid_generated [simp]: "wf_vid_hdr (ubigen_init_vid_hdr ui vi lnum data)"
  by (simp add: wf_vid_hdr_def ubigen_init_vid_hdr_def seal_vid_hdr_def Let_def)

end
