(* ===== verification/UbiScan.thy ===== *)
theory UbiScan
  imports UbiGen FlashRead
begin

text \<open>
  The scan of a partition for UBI, \<open>client/recovery/lib/mtd/ubi/libscan.c\<close>: every block is bad,
  empty, foreign, damaged or has an erase counter. The output of the scan to the terminal is
  left out. The theorem at the end says that headers of the generator are recognised.
\<close>

section \<open>The scan\<close>

definition EB_EMPTY :: u32 where "EB_EMPTY = 0xFFFFFFFF"
definition EB_CORRUPTED :: u32 where "EB_CORRUPTED = 0xFFFFFFFE"
definition EB_ALIEN :: u32 where "EB_ALIEN = 0xFFFFFFFD"
definition EB_BAD :: u32 where "EB_BAD = 0xFFFFFFFC"
definition EC_MAX :: int where "EC_MAX = 0x7FFFFFFF"

record ubi_scan_info =
  sc_ec :: "u32 list"
  sc_mean_ec :: int
  sc_ok_cnt :: int
  sc_empty_cnt :: int
  sc_corrupted_cnt :: int
  sc_alien_cnt :: int
  sc_bad_cnt :: int
  sc_good_cnt :: int
  sc_vid_hdr_offs :: int
  sc_data_offs :: int

definition note_eb :: "int \<Rightarrow> u32 \<Rightarrow> ubi_scan_info \<Rightarrow> ubi_scan_info" where
  "note_eb eb v si = si\<lparr>sc_ec := (sc_ec si)[nat eb := v]\<rparr>"

definition corrupted :: "int \<Rightarrow> ubi_scan_info \<Rightarrow> ubi_scan_info" where
  "corrupted eb si = note_eb eb EB_CORRUPTED (si\<lparr>sc_corrupted_cnt := sc_corrupted_cnt si + 1\<rparr>)"

definition all_ff :: "u8 list \<Rightarrow> bool" where
  "all_ff buf \<longleftrightarrow> list_all (\<lambda>b. b = 0xff) buf"

text \<open>
  The header of a block. The offsets are kept in an \<open>int\<close>; those of the first sound header
  are the ones the others are measured by, even if that block is then found corrupted.
  \<open>None\<close> is the jump to the failure of the scan.
\<close>

definition judge_header :: "mtd_dev \<Rightarrow> int \<Rightarrow> ubi_ec_hdr \<Rightarrow> ubi_scan_info \<Rightarrow> ubi_scan_info option" where
  "judge_header mtd eb ech si =
     (let ec = uint (ec_ec ech); offs = sint (ec_vid_hdr_offset ech); data = sint (ec_data_offset ech);
          ok = (\<lambda>si. note_eb eb (word_of_int ec) (si\<lparr>sc_ok_cnt := sc_ok_cnt si + 1\<rparr>))
      in if ec > EC_MAX then None
         else if sc_vid_hdr_offs si = -1 then
           let si = si\<lparr>sc_vid_hdr_offs := offs, sc_data_offs := data\<rparr>
           in Some (if cmod data (min_io_size mtd) \<noteq> 0 then corrupted eb si else ok si)
         else Some (if offs \<noteq> sc_vid_hdr_offs si then corrupted eb si
                    else if data \<noteq> sc_data_offs si then corrupted eb si else ok si))"

definition judge_block :: "mtd_dev \<Rightarrow> int \<Rightarrow> u8 list \<Rightarrow> ubi_scan_info \<Rightarrow> ubi_scan_info option" where
  "judge_block mtd eb bytes si =
     (let ech = ec_hdr_of bytes
      in if ec_magic ech \<noteq> UBI_EC_HDR_MAGIC then
           Some (if all_ff bytes then note_eb eb EB_EMPTY (si\<lparr>sc_empty_cnt := sc_empty_cnt si + 1\<rparr>)
                 else note_eb eb EB_ALIEN (si\<lparr>sc_alien_cnt := sc_alien_cnt si + 1\<rparr>))
         else if ec_hdr_crc ech \<noteq> local_crc32 UBI_CRC32_INIT (ec_hdr_body ech) then Some (corrupted eb si)
         else judge_header mtd eb ech si)"

definition scan_peb ::
  "'k kernel \<Rightarrow> mtd_dev \<Rightarrow> int \<Rightarrow> int \<Rightarrow> ubi_scan_info \<Rightarrow> 'k world \<Rightarrow> (ubi_scan_info option \<times> 'k world) option" where
  "scan_peb K mtd fd eb si w =
     (let (ret, w) = mtd_is_bad K mtd fd eb w
      in if ret = -1 then Some (None, w)
         else if ret \<noteq> 0 then Some (Some (note_eb eb EB_BAD (si\<lparr>sc_bad_cnt := sc_bad_cnt si + 1\<rparr>)), w)
         else case mtd_read K mtd fd eb 0 UBI_EC_HDR_SIZE w of
                None \<Rightarrow> None
              | Some (ret, bytes, w) \<Rightarrow> Some (if ret < 0 then None else judge_block mtd eb bytes si, w))"

function scan_pebs ::
  "'k kernel \<Rightarrow> mtd_dev \<Rightarrow> int \<Rightarrow> int \<Rightarrow> ubi_scan_info \<Rightarrow> 'k world \<Rightarrow> (ubi_scan_info option \<times> 'k world) option" where
  "scan_pebs K mtd fd eb si w =
     (if eb < eb_cnt mtd then
        (case scan_peb K mtd fd eb si w of
           None \<Rightarrow> None
         | Some (None, w) \<Rightarrow> Some (None, w)
         | Some (Some si, w) \<Rightarrow> scan_pebs K mtd fd (eb + 1) si w)
      else Some (Some si, w))"
  by pat_completeness auto
termination by (relation "measure (\<lambda>(K, mtd, fd, eb, si, w). nat (eb_cnt mtd - eb))") auto

declare scan_pebs.simps [simp del]

text \<open>The erase counters that are counters; the others are the marks above.\<close>

definition mean_ec :: "ubi_scan_info \<Rightarrow> int" where
  "mean_ec si =
     (if sc_ok_cnt si \<noteq> 0
      then sum_list (map uint (filter (\<lambda>e. \<not> uint e > EC_MAX) (sc_ec si))) div sc_ok_cnt si else 0)"

definition ubi_scan :: "'k kernel \<Rightarrow> mtd_dev \<Rightarrow> int \<Rightarrow> 'k world \<Rightarrow> (ubi_scan_info option \<times> 'k world) option" where
  "ubi_scan K mtd fd w =
     (let si = \<lparr>sc_ec = replicate (nat (eb_cnt mtd)) 0, sc_mean_ec = 0, sc_ok_cnt = 0, sc_empty_cnt = 0, sc_corrupted_cnt = 0,
                sc_alien_cnt = 0, sc_bad_cnt = 0, sc_good_cnt = 0, sc_vid_hdr_offs = -1, sc_data_offs = -1\<rparr>
      in case scan_pebs K mtd fd 0 si w of
           None \<Rightarrow> None
         | Some (None, w) \<Rightarrow> Some (None, w)
         | Some (Some si, w) \<Rightarrow> Some (Some (si\<lparr>sc_mean_ec := mean_ec si, sc_good_cnt := eb_cnt mtd - sc_bad_cnt si\<rparr>), w))"

section \<open>Headers of the generator are recognised\<close>

text \<open>
  A device that answers bad-block queries, and what a block of a UBI partition holds: it is bad,
  erased, or begins with the header of the generator for some erase counter.
\<close>

definition queryable_device :: "'k kernel \<Rightarrow> mtd_dev \<Rightarrow> int \<Rightarrow> ('k \<Rightarrow> int \<Rightarrow> u8) \<Rightarrow> (int \<Rightarrow> bool) \<Rightarrow> bool" where
  "queryable_device K mtd fd cells bad \<longleftrightarrow>
     (\<forall>eb k. 0 \<le> eb \<and> eb < eb_cnt mtd \<longrightarrow>
        rep_ret (fst (K fd (MEMGETBADBLOCK (eb * eb_size mtd)) k)) = (if bad eb then 1 else 0) \<and>
        cells (snd (K fd (MEMGETBADBLOCK (eb * eb_size mtd)) k)) = cells k)"

datatype block_kind = Bad_block | Blank_block | Counted_block int

fun block_mark :: "block_kind \<Rightarrow> u32" where
  "block_mark Bad_block = EB_BAD"
| "block_mark Blank_block = EB_EMPTY"
| "block_mark (Counted_block ec) = word_of_int ec"

fun block_counter :: "block_kind \<Rightarrow> int list" where
  "block_counter (Counted_block ec) = [ec]"
| "block_counter _ = []"

fun block_holds :: "ubigen_info \<Rightarrow> u8 list \<Rightarrow> block_kind \<Rightarrow> bool" where
  "block_holds ui bytes Bad_block = True"
| "block_holds ui bytes Blank_block = (bytes = replicate 64 0xff)"
| "block_holds ui bytes (Counted_block ec) = (0 \<le> ec \<and> ec \<le> EC_MAX \<and> bytes = ec_hdr_bytes (ubigen_init_ec_hdr ui ec))"

definition header_of :: "mtd_dev \<Rightarrow> (int \<Rightarrow> u8) \<Rightarrow> int \<Rightarrow> u8 list" where
  "header_of mtd cells eb = map cells [eb * eb_size mtd..eb * eb_size mtd + 63]"

text \<open>The offsets of the generator, as a scan keeps them.\<close>

definition sound_offsets :: "mtd_dev \<Rightarrow> ubigen_info \<Rightarrow> bool" where
  "sound_offsets mtd ui \<longleftrightarrow> 0 \<le> gi_vid_hdr_offs ui \<and> gi_vid_hdr_offs ui < 2 ^ 31 \<and> 0 \<le> gi_data_offs ui \<and> gi_data_offs ui < 2 ^ 31 \<and>
     gi_data_offs ui mod min_io_size mtd = 0"

text \<open>What the scan knows after the blocks of the given kinds.\<close>

definition count_kind :: "(block_kind \<Rightarrow> bool) \<Rightarrow> block_kind list \<Rightarrow> int" where
  "count_kind P ks = int (length (filter P ks))"

definition counters :: "block_kind list \<Rightarrow> int list" where
  "counters ks = concat (map block_counter ks)"

definition scan_state :: "ubigen_info \<Rightarrow> int \<Rightarrow> block_kind list \<Rightarrow> ubi_scan_info" where
  "scan_state ui cnt ks = \<lparr>sc_ec = map block_mark ks @ replicate (nat cnt - length ks) 0, sc_mean_ec = 0,
     sc_ok_cnt = int (length (counters ks)), sc_empty_cnt = count_kind (\<lambda>k. k = Blank_block) ks, sc_corrupted_cnt = 0, sc_alien_cnt = 0,
     sc_bad_cnt = count_kind (\<lambda>k. k = Bad_block) ks, sc_good_cnt = 0,
     sc_vid_hdr_offs = (if counters ks = [] then -1 else gi_vid_hdr_offs ui), sc_data_offs = (if counters ks = [] then -1 else gi_data_offs ui)\<rparr>"

lemma counters_simps [simp]: "counters [] = []" "counters (ks @ ls) = counters ks @ counters ls" "counters [k] = block_counter k"
  by (simp_all add: counters_def)

lemma count_kind_simps [simp]: "count_kind P [] = 0" "count_kind P (ks @ ls) = count_kind P ks + count_kind P ls"
    "count_kind P [k] = (if P k then 1 else 0)"
  by (simp_all add: count_kind_def)

lemma note_next:
  assumes "length ks < nat cnt"
  shows "(map block_mark ks @ replicate (nat cnt - length ks) 0)[length ks := block_mark k] =
     map block_mark (ks @ [k]) @ replicate (nat cnt - length (ks @ [k])) 0"
proof -
  have "replicate (nat cnt - length ks) (0 :: u32) = 0 # replicate (nat cnt - length (ks @ [k])) 0"
    using assms by (simp flip: replicate_Suc add: Suc_diff_Suc)
  then show ?thesis by (simp add: list_update_append)
qed

lemma sint_offset: "0 \<le> x \<Longrightarrow> x < 2 ^ 31 \<Longrightarrow> sint (word_of_int x :: u32) = x"
  by (simp add: sint_sbintrunc' signed_take_bit_int_eq_self)

lemma uint_counter: "0 \<le> x \<Longrightarrow> x \<le> EC_MAX \<Longrightarrow> uint (word_of_int x :: u64) = x" "0 \<le> x \<Longrightarrow> x \<le> EC_MAX \<Longrightarrow> uint (word_of_int x :: u32) = x"
  by (simp_all add: EC_MAX_def uint_word_of_int_eq take_bit_int_eq_self)

lemma blank_header: "ec_magic (ec_hdr_of (replicate 64 0xff)) \<noteq> UBI_EC_HDR_MAGIC"
  by (simp add: ec_hdr_of_def be32_at_def UBI_EC_HDR_MAGIC_def from_be32_def)

lemma judge_generated:
  assumes "block_holds ui bytes k" "k \<noteq> Bad_block" "sound_offsets mtd ui" "int (length ks) < cnt"
  shows "judge_block mtd (int (length ks)) bytes (scan_state ui cnt ks) = Some (scan_state ui cnt (ks @ [k]))"
proof -
  have l: "length ks < nat cnt" using assms(4) by simp
  show ?thesis
  proof (cases k)
    case Bad_block
    with assms(2) show ?thesis by simp
  next
    case Blank_block
    then have b: "bytes = replicate 64 0xff" using assms(1) by simp
    show ?thesis
      using note_next [OF l, of Blank_block] blank_header
      by (simp add: judge_block_def b all_ff_def list_all_iff note_eb_def scan_state_def Blank_block)
  next
    case (Counted_block ec)
    then have b: "0 \<le> ec" "ec \<le> EC_MAX" "bytes = ec_hdr_bytes (ubigen_init_ec_hdr ui ec)" using assms(1) by simp_all
    have h: "ec_hdr_of bytes = ubigen_init_ec_hdr ui ec"
      using ec_hdr_of_bytes [of "ubigen_init_ec_hdr ui ec" "[]"] b(3) by simp
    show ?thesis
      using note_next [OF l, of "Counted_block ec"] assms(3) b(1,2)
      by (simp add: judge_block_def h judge_header_def Let_def uint_counter sint_offset sound_offsets_def note_eb_def
          scan_state_def Counted_block)
  qed
qed

lemma block_mark_bad [simp]: "block_mark Bad_block = EB_BAD" by simp

text \<open>The whole partition: \<open>kinds\<close> are its blocks in order.\<close>

definition ubi_partition ::
  "'k kernel \<Rightarrow> mtd_dev \<Rightarrow> int \<Rightarrow> ('k \<Rightarrow> int \<Rightarrow> u8) \<Rightarrow> ('k \<Rightarrow> int) \<Rightarrow> ubigen_info \<Rightarrow> block_kind list \<Rightarrow> bool" where
  "ubi_partition K mtd fd cells pos ui kinds \<longleftrightarrow>
     wf_mtd mtd \<and> bb_allowed mtd \<and> 64 \<le> eb_size mtd \<and> int (length kinds) = eb_cnt mtd \<and> sound_offsets mtd ui \<and>
     readable_device K fd cells pos (mtd_size mtd) \<and> queryable_device K mtd fd cells (\<lambda>eb. kinds ! nat eb = Bad_block)"

definition partition_holds :: "mtd_dev \<Rightarrow> ubigen_info \<Rightarrow> (int \<Rightarrow> u8) \<Rightarrow> block_kind list \<Rightarrow> bool" where
  "partition_holds mtd ui content kinds \<longleftrightarrow> (\<forall>i < length kinds. block_holds ui (header_of mtd content (int i)) (kinds ! i))"

lemma scan_peb_recognises:
  assumes p: "ubi_partition K mtd fd cells pos ui kinds" and h: "partition_holds mtd ui (cells (kern w)) kinds" and n: "n < length kinds"
  shows "\<exists>w'. scan_peb K mtd fd (int n) (scan_state ui (eb_cnt mtd) (take n kinds)) w =
      Some (Some (scan_state ui (eb_cnt mtd) (take (Suc n) kinds)), w') \<and> cells (kern w') = cells (kern w)"
proof -
  let ?eb = "int n" and ?k = "kinds ! n"
  from p have wf: "wf_mtd mtd" and bb: "bb_allowed mtd" and e64: "64 \<le> eb_size mtd" and len: "int (length kinds) = eb_cnt mtd"
    and so: "sound_offsets mtd ui" and rd: "readable_device K fd cells pos (mtd_size mtd)"
    and qd: "queryable_device K mtd fd cells (\<lambda>eb. kinds ! nat eb = Bad_block)"
    by (simp_all add: ubi_partition_def)
  have e: "0 < eb_size mtd" using e64 by simp
  have v: "mtd_valid_erase_block mtd ?eb" using n len by (simp add: mtd_valid_erase_block_def)
  obtain r w1 where k: "syscall K fd (MEMGETBADBLOCK (?eb * eb_size mtd)) w = (r, w1)" by (metis surj_pair)
  have r: "rep_ret r = (if ?k = Bad_block then 1 else 0)" "cells (kern w1) = cells (kern w)"
    using qd v syscall_fields(1,2) [OF k] unfolding queryable_device_def mtd_valid_erase_block_def by (metis nat_int)+
  have bad: "mtd_is_bad K mtd fd ?eb w = (if ?k = Bad_block then 1 else 0, w1)"
    using v bb r(1) by (simp add: mtd_is_bad_def k)
  have t: "take (Suc n) kinds = take n kinds @ [?k]" using n by (simp add: take_Suc_conv_app_nth)
  have ln: "length (take n kinds) = n" using n by simp
  have lt: "int (length (take n kinds)) < eb_cnt mtd" using n len ln by simp
  show ?thesis
  proof (cases "?k = Bad_block")
    case True
    have "n < nat (eb_cnt mtd)" using n len by simp
    then have "note_eb ?eb EB_BAD (scan_state ui (eb_cnt mtd) (take n kinds)\<lparr>sc_bad_cnt := sc_bad_cnt (scan_state ui (eb_cnt mtd) (take n kinds)) + 1\<rparr>) =
        scan_state ui (eb_cnt mtd) (take n kinds @ [Bad_block])"
      using note_next [of "take n kinds" "eb_cnt mtd" Bad_block] ln by (simp add: note_eb_def scan_state_def)
    then show ?thesis using True bad r(2) by (simp add: scan_peb_def t)
  next
    case False
    have lim: "?eb * eb_size mtd < mtd_size mtd"
      using n len e wf by (simp add: wf_mtd_def mult_strict_right_mono)
    have m: "?eb * eb_size mtd mod eb_size mtd + 64 \<le> eb_size mtd" and d: "?eb * eb_size mtd div eb_size mtd = ?eb" using e64 e by simp_all
    have nn: "0 \<le> ?eb * eb_size mtd" using e by simp
    obtain w2 where w2: "mtd_read K mtd fd ?eb 0 64 w1 = Some (0, map (cells (kern w1)) [?eb * eb_size mtd..?eb * eb_size mtd + 64 - 1], w2)"
      "cells (kern w2) = cells (kern w1)"
      using mtd_read_delivers [OF rd wf nn lim _ m, of w1] d by auto
    have b: "map (cells (kern w1)) [?eb * eb_size mtd..?eb * eb_size mtd + 64 - 1] = header_of mtd (cells (kern w)) ?eb"
      by (simp add: header_of_def r(2) add.commute)
    have "block_holds ui (header_of mtd (cells (kern w)) ?eb) ?k" using h n by (simp add: partition_holds_def)
    from judge_generated [OF this False so lt]
    have "judge_block mtd ?eb (header_of mtd (cells (kern w)) ?eb) (scan_state ui (eb_cnt mtd) (take n kinds)) =
        Some (scan_state ui (eb_cnt mtd) (take (Suc n) kinds))"
      by (simp only: ln t)
    then show ?thesis using False bad w2(1) [unfolded b] w2(2) r(2) by (simp add: scan_peb_def UBI_EC_HDR_SIZE_def)
  qed
qed

lemma scan_pebs_recognise:
  assumes p: "ubi_partition K mtd fd cells pos ui kinds"
  shows "n \<le> length kinds \<Longrightarrow> partition_holds mtd ui (cells (kern w)) kinds \<Longrightarrow>
    \<exists>w'. scan_pebs K mtd fd (int n) (scan_state ui (eb_cnt mtd) (take n kinds)) w =
      Some (Some (scan_state ui (eb_cnt mtd) kinds), w') \<and> cells (kern w') = cells (kern w)"
proof (induction "length kinds - n" arbitrary: n w)
  case 0
  then have "\<not> int n < eb_cnt mtd" "take n kinds = kinds" using p by (simp_all add: ubi_partition_def)
  then show ?case by (subst scan_pebs.simps) simp
next
  case (Suc m)
  then have n: "n < length kinds" by simp
  then have lt: "int n < eb_cnt mtd" using p by (simp add: ubi_partition_def)
  obtain w1 where w1: "scan_peb K mtd fd (int n) (scan_state ui (eb_cnt mtd) (take n kinds)) w =
      Some (Some (scan_state ui (eb_cnt mtd) (take (Suc n) kinds)), w1)" "cells (kern w1) = cells (kern w)"
    using scan_peb_recognises [OF p Suc.prems(2) n] by blast
  have m: "m = length kinds - Suc n" using Suc.hyps(2) by simp
  have "int n + 1 = int (Suc n)" by simp
  moreover obtain w' where "scan_pebs K mtd fd (int (Suc n)) (scan_state ui (eb_cnt mtd) (take (Suc n) kinds)) w1 =
      Some (Some (scan_state ui (eb_cnt mtd) kinds), w')" "cells (kern w') = cells (kern w1)"
    using Suc.hyps(1) [OF m, of w1] Suc.prems(2) n w1(2) by (simp only: Suc_le_eq) blast
  ultimately show ?case using lt w1 by (subst scan_pebs.simps) (simp add: add.commute)
qed

lemma counter_marks:
  assumes "\<forall>k \<in> set ks. \<exists>bytes. block_holds ui bytes k"
  shows "map uint (filter (\<lambda>e. \<not> uint e > EC_MAX) (map block_mark ks)) = counters ks"
  using assms
proof (induction ks)
  case (Cons k ks)
  have "map uint (filter (\<lambda>e. \<not> uint e > EC_MAX) [block_mark k]) = block_counter k"
    using Cons.prems by (cases k) (auto simp: EB_BAD_def EB_EMPTY_def EC_MAX_def uint_counter [unfolded EC_MAX_def])
  then show ?case using Cons by (simp add: counters_def split: if_splits)
qed simp

lemma ubi_scan_kinds:
  assumes p: "ubi_partition K mtd fd cells pos ui kinds" and h: "partition_holds mtd ui (cells (kern w)) kinds"
  defines "si \<equiv> scan_state ui (eb_cnt mtd) kinds"
  shows "\<exists>w'. ubi_scan K mtd fd w = Some (Some (si\<lparr>sc_mean_ec := mean_ec si, sc_good_cnt := eb_cnt mtd - sc_bad_cnt si\<rparr>), w') \<and>
    cells (kern w') = cells (kern w)"
proof -
  obtain w' where s: "scan_pebs K mtd fd 0 (scan_state ui (eb_cnt mtd) []) w = Some (Some si, w')" "cells (kern w') = cells (kern w)"
    using scan_pebs_recognise [OF p, of 0 w] h unfolding si_def by auto
  have "\<lparr>sc_ec = replicate (nat (eb_cnt mtd)) 0, sc_mean_ec = 0, sc_ok_cnt = 0, sc_empty_cnt = 0, sc_corrupted_cnt = 0,
      sc_alien_cnt = 0, sc_bad_cnt = 0, sc_good_cnt = 0, sc_vid_hdr_offs = -1, sc_data_offs = -1\<rparr> = scan_state ui (eb_cnt mtd) []"
    by (simp add: scan_state_def)
  then show ?thesis using s by (simp add: ubi_scan_def)
qed

lemma scan_state_ec: "int (length kinds) = cnt \<Longrightarrow> sc_ec (scan_state ui cnt kinds) = map block_mark kinds"
  by (simp add: scan_state_def)

text \<open>
  C7. A UBI partition is scanned as it was written. When every block is bad, erased, or begins
  with a header the generator made for this layout, the scan finds exactly that: the counter
  or the mark of every block, the number of blocks of each kind, the mean counter and the
  offsets, and it leaves the flash as it is.
\<close>

theorem ubi_scan_recognises:
  assumes p: "ubi_partition K mtd fd cells pos ui kinds" and h: "partition_holds mtd ui (cells (kern w)) kinds"
  shows "\<exists>si w'. ubi_scan K mtd fd w = Some (Some si, w') \<and> cells (kern w') = cells (kern w) \<and> sc_ec si = map block_mark kinds \<and>
    sc_ok_cnt si = int (length (counters kinds)) \<and> sc_empty_cnt si = count_kind (\<lambda>k. k = Blank_block) kinds \<and>
    sc_bad_cnt si = count_kind (\<lambda>k. k = Bad_block) kinds \<and> sc_good_cnt si = eb_cnt mtd - sc_bad_cnt si \<and>
    sc_corrupted_cnt si = 0 \<and> sc_alien_cnt si = 0 \<and>
    (counters kinds \<noteq> [] \<longrightarrow> sc_mean_ec si = sum_list (counters kinds) div int (length (counters kinds)) \<and>
       sc_vid_hdr_offs si = gi_vid_hdr_offs ui \<and> sc_data_offs si = gi_data_offs ui)"
proof -
  let ?s = "scan_state ui (eb_cnt mtd) kinds"
  have len: "int (length kinds) = eb_cnt mtd" using p by (simp add: ubi_partition_def)
  then have ec: "sc_ec ?s = map block_mark kinds" by (simp add: scan_state_def)
  have ok: "sc_ok_cnt ?s = int (length (counters kinds))" by (simp add: scan_state_def)
  have "\<exists>bytes. block_holds ui bytes k" if k: "k \<in> set kinds" for k
  proof -
    obtain i where "i < length kinds" "kinds ! i = k" using k by (auto simp: in_set_conv_nth)
    then show ?thesis using h unfolding partition_holds_def by blast
  qed
  then have mean: "mean_ec ?s = (if counters kinds = [] then 0 else sum_list (counters kinds) div int (length (counters kinds)))"
    using counter_marks [of kinds ui] by (simp add: mean_ec_def ec ok)
  have "\<exists>w'. ubi_scan K mtd fd w = Some (Some (?s\<lparr>sc_mean_ec := mean_ec ?s, sc_good_cnt := eb_cnt mtd - sc_bad_cnt ?s\<rparr>), w') \<and> cells (kern w') = cells (kern w)"
    by (rule ubi_scan_kinds [OF p h])
  then obtain w' where s: "ubi_scan K mtd fd w = Some (Some (?s\<lparr>sc_mean_ec := mean_ec ?s, sc_good_cnt := eb_cnt mtd - sc_bad_cnt ?s\<rparr>), w')"
    "cells (kern w') = cells (kern w)" by blast
  show ?thesis
    using s ec mean
    by (intro exI [of _ "?s\<lparr>sc_mean_ec := mean_ec ?s, sc_good_cnt := eb_cnt mtd - sc_bad_cnt ?s\<rparr>"] exI [of _ w'])
      (auto simp: scan_state_def)
qed

end
