(* ===== verification/Ubifs.thy ===== *)
theory Ubifs
  imports UbiScan Mtd
begin

text \<open>
  The UBIFS filesystem object, \<open>client/recovery/block/fs/ubifs.c\<close>: it makes a UBI volume on a
  partition while the image is written. The static pointer \<open>ubi\<close> and the two static counters
  of \<open>consecutive_bad_check\<close> are its state. Whether a partition is writable, the detaching of a
  partition from the kernel's UBI (\<open>libubi.c\<close>) and the random number of an image are parameters.
  \<open>None\<close> is an operation that does not come back.
\<close>

section \<open>State\<close>

record 'k ubi_host =
  uh_writable :: "mtd_dev \<Rightarrow> bool"
  uh_detach :: "mtd_dev \<Rightarrow> 'k \<Rightarrow> int \<times> 'k"
  uh_rand :: "'k \<Rightarrow> u32"

record ubi_mtd_device_info =
  di_peb_size :: u32
  di_page_size :: u32
  di_subpage_size :: u32
  di_partition_size :: int
  di_device_size :: int

text \<open>The pointers \<open>ui\<close>, \<open>si\<close> and \<open>outbuf\<close> are set in every \<open>ubi\<close> that is not null.\<close>

record ubi_params =
  up_vol_name :: string
  up_max_beb_per1024 :: u32
  up_ubi_reserved_blks :: u32
  up_lebsize :: u32
  up_vol_size :: int
  up_override_ec :: bool
  up_ec :: int
  up_vid_hdr_lnum :: int
  up_start_eb :: int
  up_layout_volume_start_eb :: int
  up_format_eb :: int
  up_outbuf :: "u8 list"
  up_devinfo :: ubi_mtd_device_info
  up_ui :: ubigen_info
  up_si :: ubi_scan_info
  up_vtbl :: "ubi_vtbl_record list option"
  up_vi :: "ubigen_vol_info option"

record bad_run =
  consecutive_bad_blocks :: int
  prev_bb :: int

record ubi_state =
  us_ubi :: "ubi_params option"
  us_run :: bad_run

text \<open>The state of an operation while \<open>ubi\<close> is not null.\<close>

type_synonym 'k ubi_work = "ubi_params \<times> bad_run \<times> 'k world"

definition MAX_CONSECUTIVE_BAD_BLOCKS :: int where "MAX_CONSECUTIVE_BAD_BLOCKS = 4"
definition WL_RESERVED_PEBS :: u32 where "WL_RESERVED_PEBS = 1"
definition EBA_RESERVED_PEBS :: u32 where "EBA_RESERVED_PEBS = 1"
definition CONFIG_MTD_UBI_BEB_LIMIT :: u32 where "CONFIG_MTD_UBI_BEB_LIMIT = 20"
definition UBI_VERSION_DEFAULT :: int where "UBI_VERSION_DEFAULT = 1"

section \<open>Helpers\<close>

definition is_power_of_2 :: "int \<Rightarrow> bool" where
  "is_power_of_2 n \<longleftrightarrow> n \<noteq> 0 \<and> n AND (n - 1) = 0"

definition mult_frac :: "u32 \<Rightarrow> u32 \<Rightarrow> u32 \<Rightarrow> u32" where
  "mult_frac x numer denom = x div denom * numer + x mod denom * numer div denom"

definition get_bad_peb_limit :: "ubi_params \<Rightarrow> u32" where
  "get_bad_peb_limit p =
     (let max_beb_per1024 = up_max_beb_per1024 p
      in if max_beb_per1024 = 0 then 0
         else let device_pebs = word_of_int (cdiv (di_device_size (up_devinfo p)) (uint (di_peb_size (up_devinfo p))));
                  limit = mult_frac device_pebs max_beb_per1024 1024
              in if mult_frac limit 1024 max_beb_per1024 < device_pebs then limit + 1 else limit)"

definition consecutive_bad_check :: "int \<Rightarrow> bad_run \<Rightarrow> int \<times> bad_run" where
  "consecutive_bad_check eb c =
     (let prev = (if prev_bb c = -1 then eb else prev_bb c);
          n = (if eb = prev + 1 then consecutive_bad_blocks c + 1 else 1)
      in (if n \<ge> MAX_CONSECUTIVE_BAD_BLOCKS then -1 else 0, \<lparr>consecutive_bad_blocks = n, prev_bb = eb\<rparr>))"

definition mark_bad :: "'k kernel \<Rightarrow> mtd_dev \<Rightarrow> int \<Rightarrow> 'k ubi_work \<Rightarrow> int \<times> 'k ubi_work" where
  "mark_bad K mtd eb = (\<lambda>(p, c, w).
     if \<not> bb_allowed mtd then (-1, p, c, w)
     else let (err, w) = mtd_mark_bad K mtd (fds w (part_id mtd)) eb w
          in if err \<noteq> 0 then (err, p, c, w)
             else let si = up_si p;
                      p = p\<lparr>up_si := note_eb eb EB_BAD (si\<lparr>sc_bad_cnt := sc_bad_cnt si + 1\<rparr>)\<rparr>;
                      (r, c) = consecutive_bad_check eb c
                  in (r, p, c, w))"

text \<open>\<open>si->ec[eb]\<close>, \<open>None\<close> outside the array.\<close>

definition eb_mark :: "ubi_params \<Rightarrow> int \<Rightarrow> u32 option" where
  "eb_mark p eb = (if 0 \<le> eb \<and> eb < int (length (sc_ec (up_si p))) then Some (sc_ec (up_si p) ! nat eb) else None)"

definition next_ec :: "ubi_params \<Rightarrow> u32 \<Rightarrow> int" where
  "next_ec p e = (if up_override_ec p then up_ec p else if uint e \<le> EC_MAX then uint e + 1 else sc_mean_ec (up_si p))"

section \<open>Preparing a volume\<close>

definition name_bytes :: "string \<Rightarrow> u8 list" where
  "name_bytes s = map (\<lambda>c. of_nat (of_char c)) s"

text \<open>The one volume: dynamic, with the number 0 and the alignment 1, not resized by the kernel.\<close>

definition ubi_generate_vi_info :: "int \<Rightarrow> ubi_params \<Rightarrow> (int \<times> ubi_params) option" where
  "ubi_generate_vi_info image_length p =
     (let ui = up_ui p; name = name_bytes (up_vol_name p); usable = gi_leb_size ui - gi_leb_size ui mod 1;
          vi = \<lparr>vi_id = 0, vi_type = UBI_VID_DYNAMIC, vi_alignment = 1, vi_data_pad = gi_leb_size ui mod 1, vi_usable_leb_size = usable,
                vi_name = name, vi_name_len = length name, vi_compat = 0, vi_used_ebs = (up_vol_size p + usable - 1) div usable,
                vi_bytes = up_vol_size p, vi_flags = 0\<rparr>;
          failed = Some (-1, p\<lparr>up_vi := None\<rparr>)
      in if vi_id vi \<ge> gi_max_volumes ui then failed
         else if vi_name_len vi > UBI_VOL_NAME_MAX then failed
         else if vi_alignment vi \<ge> gi_leb_size ui then failed
         else if cmod image_length usable \<noteq> 0 then failed
         else case up_vtbl p of None \<Rightarrow> None | Some vtbl \<Rightarrow>
              case ubigen_add_volume ui vi vtbl of
                None \<Rightarrow> None
              | Some (r, vtbl) \<Rightarrow> if r \<noteq> 0 then failed else Some (0, p\<lparr>up_vtbl := Some vtbl, up_vi := Some vi\<rparr>))"

definition ubi_volume_params_set :: "int \<Rightarrow> ubi_params \<Rightarrow> (int \<times> ubi_params) option" where
  "ubi_volume_params_set image_length p =
     (let p = p\<lparr>up_vtbl := Some (ubigen_create_empty_vtbl (up_ui p)), up_max_beb_per1024 := CONFIG_MTD_UBI_BEB_LIMIT\<rparr>;
          logic_blksize = di_peb_size (up_devinfo p) - 2 * di_page_size (up_devinfo p);
          reserved = word_of_int UBI_LAYOUT_VOLUME_EBS + WL_RESERVED_PEBS + EBA_RESERVED_PEBS + get_bad_peb_limit p;
          logic_blkcnt = word_of_int (sc_good_cnt (up_si p)) - reserved;
          p = p\<lparr>up_ubi_reserved_blks := reserved, up_lebsize := logic_blksize, up_vol_size := uint (logic_blkcnt * logic_blksize)\<rparr>
      in case ubi_generate_vi_info image_length p of
           None \<Rightarrow> None
         | Some (r, p) \<Rightarrow> if r < 0 then Some (-1, p\<lparr>up_vtbl := None\<rparr>) else Some (0, p))"

text \<open>
  The share of blocks with a counter decides which counter the new headers get. The code
  computes it in floating point and truncates; for the two bounds it is compared with, the
  exact quotient gives the same answers.
\<close>

definition choose_ec :: "ubi_scan_info \<Rightarrow> ubi_params \<Rightarrow> ubi_params" where
  "choose_ec si p =
     (if \<not> up_override_ec p \<and> sc_empty_cnt si < sc_good_cnt si then
        let percent = sc_ok_cnt si * 100 div sc_good_cnt si
        in if percent < 50 then p\<lparr>up_ec := 0, up_override_ec := True\<rparr>
           else if percent < 95 then p\<lparr>up_ec := sc_mean_ec si, up_override_ec := True\<rparr> else p
      else p)"

definition ubi_mtd_part_check :: "'k kernel \<Rightarrow> 'k ubi_host \<Rightarrow> mtd_dev \<Rightarrow> ubi_params \<Rightarrow> 'k world \<Rightarrow> (int \<times> ubi_params \<times> 'k world) option" where
  "ubi_mtd_part_check K H mtd p w =
     (if \<not> is_power_of_2 (min_io_size mtd) then Some (-1, p, w)
      else if \<not> uh_writable H mtd then Some (-1, p, w)
      else let (r, k) = uh_detach H mtd (kern w); w = w\<lparr>kern := k\<rparr>
      in if r < 0 then Some (-1, p, w)
      else case ubi_scan K mtd (fds w (part_id mtd)) w of
        None \<Rightarrow> None
      | Some (None, w) \<Rightarrow> Some (-1, p, w)
      | Some (Some si, w) \<Rightarrow>
          if sc_good_cnt si < 2 then Some (-1, p, w)
          else Some (0, (choose_ec si p)\<lparr>up_si := si\<rparr>, w))"

text \<open>The bytes of \<open>outbuf\<close> behind the headers are written before they are read; here they are 0.\<close>

definition ubi_params_init ::
  "'k kernel \<Rightarrow> 'k ubi_host \<Rightarrow> bm_env \<Rightarrow> mtd_dev \<Rightarrow> 'k world \<Rightarrow> (ubi_params option \<times> 'k world) option" where
  "ubi_params_init K H env mtd w =
     (let ui = ubigen_info_init (eb_size mtd) (min_io_size mtd) (subpage_size mtd) 0 UBI_VERSION_DEFAULT (uh_rand H (kern w));
          di = \<lparr>di_peb_size = word_of_int (eb_size mtd), di_page_size = word_of_int (min_io_size mtd),
                di_subpage_size = word_of_int (subpage_size mtd), di_partition_size = mtd_size mtd, di_device_size = mtd_get_capacity env\<rparr>;
          si = \<lparr>sc_ec = [], sc_mean_ec = 0, sc_ok_cnt = 0, sc_empty_cnt = 0, sc_corrupted_cnt = 0, sc_alien_cnt = 0, sc_bad_cnt = 0,
                sc_good_cnt = 0, sc_vid_hdr_offs = 0, sc_data_offs = 0\<rparr>;
          p = \<lparr>up_vol_name = mtd_name mtd, up_max_beb_per1024 = 0, up_ubi_reserved_blks = 0, up_lebsize = 0, up_vol_size = 0,
               up_override_ec = False, up_ec = 0, up_vid_hdr_lnum = 0, up_start_eb = 0, up_layout_volume_start_eb = 0, up_format_eb = 0,
               up_outbuf = [], up_devinfo = di, up_ui = ui, up_si = si, up_vtbl = None, up_vi = None\<rparr>
      in case ubi_mtd_part_check K H mtd p w of
           None \<Rightarrow> None
         | Some (r, p, w) \<Rightarrow>
             if r < 0 then Some (None, w)
             else Some (Some (p\<lparr>up_outbuf := put_bytes (replicate (nat (gi_data_offs ui)) 0xff @ replicate (nat (gi_peb_size ui - gi_data_offs ui)) 0)
                                 0 (ec_hdr_bytes (ubigen_init_ec_hdr ui (up_ec p)))\<rparr>), w))"

section \<open>Leaving room for the volume table\<close>

text \<open>
  A round of \<open>ubi_bypass_layout_vol\<close>, the test of one block: \<open>TrialGood\<close> counts it,
  \<open>TrialBad\<close> goes on with the next, \<open>TrialFatal\<close> is the jump to the failure.
\<close>

datatype trial = TrialGood | TrialBad | TrialFatal

definition give_up_block :: "'k kernel \<Rightarrow> mtd_dev \<Rightarrow> int \<Rightarrow> 'k ubi_work \<Rightarrow> trial \<times> 'k ubi_work" where
  "give_up_block K mtd eb s = (let (r, s) = mark_bad K mtd eb s in (if r \<noteq> 0 then TrialFatal else TrialBad, s))"

definition trial_erase :: "'k kernel \<Rightarrow> mtd_dev \<Rightarrow> int \<Rightarrow> 'k ubi_work \<Rightarrow> trial \<times> 'k ubi_work" where
  "trial_erase K mtd eb = (\<lambda>(p, c, w).
     let (err, w) = mtd_erase K mtd (fds w (part_id mtd)) eb w
     in if err = 0 then (TrialGood, p, c, w)
        else if errno w \<noteq> EIO then (TrialFatal, p, c, w)
        else give_up_block K mtd eb (p, c, w))"

definition trial_write :: "'k kernel \<Rightarrow> mtd_dev \<Rightarrow> int \<Rightarrow> 'k ubi_work \<Rightarrow> (trial \<times> 'k ubi_work) option" where
  "trial_write K mtd eb = (\<lambda>(p, c, w).
     let fd = fds w (part_id mtd);
         (err, w) = mtd_write K mtd fd eb 0 (replicate (nat (gi_peb_size (up_ui p))) 0) None MTD_OPS_PLACE_OOB w
     in if err = 0 then Some (TrialGood, p, c, w)
        else if errno w \<noteq> EIO then Some (TrialFatal, p, c, w)
        else case mtd_torture K mtd fd eb w of None \<Rightarrow> None | Some (err, w) \<Rightarrow>
             if err \<noteq> 0 then Some (give_up_block K mtd eb (p, c, w)) else Some (TrialGood, p, c, w))"

definition try_block :: "'k kernel \<Rightarrow> mtd_dev \<Rightarrow> int \<Rightarrow> 'k ubi_work \<Rightarrow> (trial \<times> 'k ubi_work) option" where
  "try_block K mtd eb s =
     (case trial_erase K mtd eb s of
        (TrialGood, s) \<Rightarrow>
          (case trial_write K mtd eb s of
             None \<Rightarrow> None
           | Some (TrialGood, s) \<Rightarrow> Some (trial_erase K mtd eb s)
           | r \<Rightarrow> r)
      | r \<Rightarrow> Some r)"

text \<open>
  The test after the loop, whether the block number is above the number of blocks, never holds:
  the loop ends at that number at the latest.
\<close>

function bypass_loop :: "'k kernel \<Rightarrow> mtd_dev \<Rightarrow> int \<Rightarrow> int \<Rightarrow> 'k ubi_work \<Rightarrow> (int \<times> 'k ubi_work) option" where
  "bypass_loop K mtd eb valid_eb s =
     (if eb < eb_cnt mtd then
        (case eb_mark (fst s) eb of
           None \<Rightarrow> None
         | Some e \<Rightarrow>
             if e = EB_BAD then bypass_loop K mtd (eb + 1) valid_eb s
             else (case try_block K mtd eb s of
                     None \<Rightarrow> None
                   | Some (TrialFatal, s) \<Rightarrow> Some (-1, s)
                   | Some (TrialBad, s) \<Rightarrow> bypass_loop K mtd (eb + 1) valid_eb s
                   | Some (TrialGood, s) \<Rightarrow>
                       if valid_eb + 1 \<ge> UBI_LAYOUT_VOLUME_EBS then Some (eb + 1, s)
                       else bypass_loop K mtd (eb + 1) (valid_eb + 1) s))
      else Some (if eb > eb_cnt mtd then -1 else eb, s))"
  by pat_completeness auto
termination by (relation "measure (\<lambda>(K, mtd, eb, n, s). nat (eb_cnt mtd - eb))") auto

declare bypass_loop.simps [simp del]

definition ubi_bypass_layout_vol :: "'k kernel \<Rightarrow> mtd_dev \<Rightarrow> int \<Rightarrow> 'k ubi_work \<Rightarrow> (int \<times> 'k ubi_work) option" where
  "ubi_bypass_layout_vol K mtd eb_off s =
     (if up_layout_volume_start_eb (fst s) > 0 then Some (to_int (up_layout_volume_start_eb (fst s)), s)
      else map_option (\<lambda>(eb, p, c, w). if eb < 0 then (-1, p, c, w) else (to_int eb, p\<lparr>up_layout_volume_start_eb := eb\<rparr>, c, w))
             (bypass_loop K mtd eb_off 0 s))"

section \<open>Writing a block\<close>

definition change_ech :: "u8 list \<Rightarrow> u32 \<Rightarrow> int \<Rightarrow> int \<times> u8 list" where
  "change_ech buf image_seq ec =
     (let h = ec_hdr_of buf
      in if ec_magic h \<noteq> UBI_EC_HDR_MAGIC then (-1, buf)
         else if ec_hdr_crc h \<noteq> local_crc32 UBI_CRC32_INIT (ec_hdr_body h) then (-1, buf)
         else (0, put_bytes buf 0 (ec_hdr_bytes (seal_ec_hdr (h\<lparr>ec_image_seq := image_seq, ec_ec := word_of_int ec\<rparr>)))))"

definition drop_ffs :: "mtd_dev \<Rightarrow> u8 list \<Rightarrow> int" where
  "drop_ffs mtd buf = round_up (int (length (dropWhile (\<lambda>b. b = 0xff) (rev buf)))) (min_io_size mtd)"

text \<open>
  A round for block \<open>eb\<close>: the outcome, the buffer and the state. When an erasure fails the
  table of block states records the next block as bad, not this one.
\<close>

definition write_peb ::
  "'k kernel \<Rightarrow> mtd_dev \<Rightarrow> int \<Rightarrow> u32 \<Rightarrow> u8 list \<Rightarrow> 'k ubi_work \<Rightarrow> (trial \<times> u8 list \<times> 'k ubi_work) option" where
  "write_peb K mtd eb e buf = (\<lambda>(p, c, w).
     let fd = fds w (part_id mtd); (err, w) = mtd_erase K mtd fd eb w
     in if err \<noteq> 0 then
          (if errno w \<noteq> EIO then Some (TrialFatal, buf, p, c, w)
           else case mark_bad K mtd eb (p, c, w) of (r, p, c, w) \<Rightarrow>
                if r \<noteq> 0 then Some (TrialFatal, buf, p, c, w)
                else map_option (\<lambda>w. (TrialBad, buf, p, c, w))
                       (mtd_bm_block_map_set (MTD_EB_RELATIVE_TO_ABSOLUTE mtd (eb + 1)) MTD_BLK_BAD w))
        else case mtd_bm_block_map_set (MTD_EB_RELATIVE_TO_ABSOLUTE mtd eb) MTD_BLK_ERASED w of None \<Rightarrow> None | Some w \<Rightarrow>
        case change_ech buf (gi_image_seq (up_ui p)) (next_ec p e) of (r, buf) \<Rightarrow>
        if r \<noteq> 0 then Some (TrialFatal, buf, p, c, w)
        else let (err, w) = mtd_write K mtd fd eb 0 (take (nat (drop_ffs mtd (take (nat (eb_size mtd)) buf))) buf) None MTD_OPS_PLACE_OOB w
             in if err = 0 then Some (TrialGood, buf, p, c, w)
                else if errno w \<noteq> EIO then Some (TrialFatal, buf, p, c, w)
                else case mtd_torture K mtd fd eb w of None \<Rightarrow> None | Some (err, w) \<Rightarrow>
                     if err \<noteq> 0 then Some (case give_up_block K mtd eb (p, c, w) of (t, s) \<Rightarrow> (t, buf, s))
                     else Some (TrialBad, buf, p, c, w))"

text \<open>The block behind the one written, or -1.\<close>

function ubi_write_one_peb ::
  "'k kernel \<Rightarrow> mtd_dev \<Rightarrow> int \<Rightarrow> u8 list \<Rightarrow> 'k ubi_work \<Rightarrow> (int \<times> u8 list \<times> 'k ubi_work) option" where
  "ubi_write_one_peb K mtd eb buf s =
     (if eb < eb_cnt mtd then
        (case eb_mark (fst s) eb of
           None \<Rightarrow> None
         | Some e \<Rightarrow>
             if e = EB_BAD then ubi_write_one_peb K mtd (eb + 1) buf s
             else (case write_peb K mtd eb e buf s of
                     None \<Rightarrow> None
                   | Some (TrialGood, buf, s) \<Rightarrow> Some (eb + 1, buf, s)
                   | Some (TrialBad, buf, s) \<Rightarrow> ubi_write_one_peb K mtd (eb + 1) buf s
                   | Some (TrialFatal, buf, s) \<Rightarrow> Some (-1, buf, s)))
      else Some (-1, buf, s))"
  by pat_completeness auto
termination by (relation "measure (\<lambda>(K, mtd, eb, buf, s). nat (eb_cnt mtd - eb))") auto

declare ubi_write_one_peb.simps [simp del]

section \<open>Writing a volume\<close>

definition p_progress_add :: "int \<Rightarrow> filesystem \<Rightarrow> filesystem" where
  "p_progress_add n fs = fs\<lparr>params := map_option (\<lambda>q. q\<lparr>p_progress_size := p_progress_size q + n\<rparr>) (params fs)\<rparr>"

definition fs_progress :: "bm_env \<Rightarrow> mtd_dev \<Rightarrow> filesystem \<Rightarrow> 'k world \<Rightarrow> 'k world option" where
  "fs_progress env mtd fs w =
     (case params fs of
        None \<Rightarrow> None
      | Some q \<Rightarrow> set_process_info env mtd BM_OPERATION_ERASE_WRITE (p_progress_size q) (p_max_size q) w)"

text \<open>One logical block in the buffer: the header of the volume, the data, and 0xff behind it.\<close>

definition leb_image :: "ubigen_info \<Rightarrow> ubigen_vol_info \<Rightarrow> int \<Rightarrow> u8 list \<Rightarrow> u8 list \<Rightarrow> u8 list" where
  "leb_image ui vi lnum leb outbuf =
     (let out = put_bytes outbuf (nat (gi_vid_hdr_offs ui)) (vid_hdr_bytes (ubigen_init_vid_hdr ui vi lnum leb));
          out = put_bytes out (nat (gi_data_offs ui)) leb
      in put_bytes out (nat (gi_data_offs ui + vi_usable_leb_size vi))
           (replicate (nat (gi_peb_size ui - gi_data_offs ui - vi_usable_leb_size vi)) 0xff))"

function volume_loop ::
  "'k kernel \<Rightarrow> bm_env \<Rightarrow> mtd_dev \<Rightarrow> ubigen_vol_info \<Rightarrow> int \<Rightarrow> u8 list \<Rightarrow> int \<Rightarrow> int \<Rightarrow> filesystem \<Rightarrow> 'k ubi_work \<Rightarrow>
     (int \<times> int \<times> filesystem \<times> 'k ubi_work) option" where
  "volume_loop K env mtd vi bytes inbuf eb lnum fs s =
     (if bytes > 0 then
        (case s of (p, c, w) \<Rightarrow>
         case fs_progress env mtd fs w of None \<Rightarrow> None | Some w \<Rightarrow>
         let n = vi_usable_leb_size vi
         in if n \<le> 0 \<or> int (length inbuf) < n then None
            else let out = leb_image (up_ui p) vi lnum (take (nat n) inbuf) (up_outbuf p)
                 in case ubi_write_one_peb K mtd eb out (p, c, w) of
                      None \<Rightarrow> None
                    | Some (err, out, p, c, w) \<Rightarrow>
                        let p = p\<lparr>up_outbuf := out\<rparr>
                        in if err < 0 then Some (-1, lnum, fs, p, c, w)
                           else volume_loop K env mtd vi (bytes - n) (drop (nat n) inbuf) err (lnum + 1)
                                  (p_progress_add n fs) (p, c, w))
      else Some (eb, lnum, fs, s))"
  by pat_completeness auto
termination by (relation "measure (\<lambda>(K, env, mtd, vi, bytes, inbuf, eb, lnum, fs, s). nat bytes)") auto

declare volume_loop.simps [simp del]

definition ubi_write_volume ::
  "'k kernel \<Rightarrow> bm_env \<Rightarrow> mtd_dev \<Rightarrow> u8 list \<Rightarrow> int \<Rightarrow> int \<Rightarrow> filesystem \<Rightarrow> 'k ubi_work \<Rightarrow>
     (int \<times> filesystem \<times> 'k ubi_work) option" where
  "ubi_write_volume K env mtd buf eb_off len fs = (\<lambda>(p, c, w).
     case up_vi p of None \<Rightarrow> None | Some vi \<Rightarrow>
     if vi_usable_leb_size vi = 0 then None
     else if cmod len (vi_usable_leb_size vi) \<noteq> 0 then Some (-1, fs, p, c, set_errno EINVAL w)
     else case volume_loop K env mtd vi len buf eb_off (up_vid_hdr_lnum p) fs (p, c, w) of
       None \<Rightarrow> None
     | Some (eb, lnum, fs, p, c, w) \<Rightarrow>
         if eb < 0 then Some (-1, fs, p, c, w)
         else map_option (\<lambda>w. (eb, fs, p\<lparr>up_vid_hdr_lnum := lnum, up_format_eb := eb\<rparr>, c, w)) (fs_progress env mtd fs w))"

definition ubi_write_layout_vol ::
  "'k kernel \<Rightarrow> mtd_dev \<Rightarrow> int \<Rightarrow> int \<Rightarrow> int \<Rightarrow> ubi_vtbl_record list \<Rightarrow> 'k ubi_work \<Rightarrow> (int \<times> 'k ubi_work) option" where
  "ubi_write_layout_vol K mtd eb ec1 ec2 vtbl s =
     (let ui = up_ui (fst s);
          vi = \<lparr>vi_id = UBI_LAYOUT_VOLUME_ID, vi_type = UBI_VID_DYNAMIC, vi_alignment = 1, vi_data_pad = 0, vi_usable_leb_size = gi_leb_size ui,
                vi_name = name_bytes ''layout volume'', vi_name_len = 13, vi_compat = UBI_COMPAT_REJECT, vi_used_ebs = 0,
                vi_bytes = gi_leb_size ui * UBI_LAYOUT_VOLUME_EBS, vi_flags = 0\<rparr>;
          table = take (nat (gi_vtbl_size ui)) (concat (map vtbl_record_bytes vtbl));
          out = replicate (nat (gi_data_offs ui)) 0xff @ table @ replicate (nat (gi_peb_size ui - gi_data_offs ui - gi_vtbl_size ui)) 0xff;
          headers = (\<lambda>ec lnum out. put_bytes (put_bytes out 0 (ec_hdr_bytes (ubigen_init_ec_hdr ui ec))) (nat (gi_vid_hdr_offs ui))
                                     (vid_hdr_bytes (ubigen_init_vid_hdr ui vi lnum [])))
      in case ubi_write_one_peb K mtd eb (headers ec1 0 out) s of None \<Rightarrow> None | Some (r, out, s) \<Rightarrow>
         if r < 0 then Some (-1, s)
         else case ubi_write_one_peb K mtd r (headers ec2 1 out) s of None \<Rightarrow> None | Some (r, out, s) \<Rightarrow>
              Some (if r < 0 then -1 else 0, s))"

section \<open>Formatting the rest\<close>

text \<open>
  \<open>novtbl\<close> tells not to write an empty volume table. \<open>t1\<close> and \<open>t2\<close> are the blocks set aside
  for one, each with its counter.
\<close>

definition format_header :: "'k kernel \<Rightarrow> mtd_dev \<Rightarrow> int \<Rightarrow> int \<Rightarrow> 'k ubi_work \<Rightarrow> (bool \<times> 'k ubi_work) option" where
  "format_header K mtd eb ec = (\<lambda>(p, c, w).
     let size = nat (round_up UBI_EC_HDR_SIZE (subpage_size mtd)); fd = fds w (part_id mtd);
         hdr = put_bytes (replicate size 0xff) 0 (ec_hdr_bytes (ubigen_init_ec_hdr (up_ui p) ec));
         (err, w) = mtd_write K mtd fd eb 0 hdr None MTD_OPS_PLACE_OOB w
     in if err = 0 then Some (True, p, c, w)
        else if errno w \<noteq> EIO then Some (False, p, c, w)
        else case mtd_torture K mtd fd eb w of None \<Rightarrow> None | Some (err, w) \<Rightarrow>
             if err \<noteq> 0 then Some (case mark_bad K mtd eb (p, c, w) of (r, s) \<Rightarrow> (r = 0, s)) else Some (True, p, c, w))"

definition format_erase :: "'k kernel \<Rightarrow> mtd_dev \<Rightarrow> int \<Rightarrow> 'k ubi_work \<Rightarrow> (trial \<times> 'k ubi_work) option" where
  "format_erase K mtd eb = (\<lambda>(p, c, w).
     let (err, w) = mtd_erase K mtd (fds w (part_id mtd)) eb w; abs = MTD_EB_RELATIVE_TO_ABSOLUTE mtd eb
     in if err = 0 then map_option (\<lambda>w. (TrialGood, p, c, w)) (mtd_bm_block_map_set abs MTD_BLK_ERASED w)
        else if errno w \<noteq> EIO then Some (TrialFatal, p, c, w)
        else case give_up_block K mtd eb (p, c, w) of
               (TrialBad, p, c, w) \<Rightarrow> map_option (\<lambda>w. (TrialBad, p, c, w)) (mtd_bm_block_map_set abs MTD_BLK_BAD w)
             | r \<Rightarrow> Some r)"

function format_loop ::
  "'k kernel \<Rightarrow> bm_env \<Rightarrow> mtd_dev \<Rightarrow> int \<Rightarrow> bool \<Rightarrow> int \<Rightarrow> (int \<times> int) option \<Rightarrow> (int \<times> int) option \<Rightarrow> 'k ubi_work \<Rightarrow>
     (bool \<times> int \<times> (int \<times> int) option \<times> (int \<times> int) option \<times> 'k ubi_work) option" where
  "format_loop K env mtd start_eb novtbl eb t1 t2 s =
     (if eb < eb_cnt mtd then
        (case s of (p, c, w) \<Rightarrow>
         case set_process_info env mtd BM_OPERATION_FORMAT (eb - start_eb) (eb_cnt mtd - start_eb) w of None \<Rightarrow> None | Some w \<Rightarrow>
         case eb_mark p eb of None \<Rightarrow> None | Some e \<Rightarrow>
         if e = EB_BAD then format_loop K env mtd start_eb novtbl (eb + 1) t1 t2 (p, c, w)
         else let ec = next_ec p e
              in case format_erase K mtd eb (p, c, w) of
                   None \<Rightarrow> None
                 | Some (TrialFatal, s) \<Rightarrow> Some (False, eb, t1, t2, s)
                 | Some (TrialBad, s) \<Rightarrow> format_loop K env mtd start_eb novtbl (eb + 1) t1 t2 s
                 | Some (TrialGood, s) \<Rightarrow>
                     if t1 = None \<and> \<not> novtbl then format_loop K env mtd start_eb novtbl (eb + 1) (Some (eb, ec)) t2 s
                     else if t2 = None \<and> \<not> novtbl then format_loop K env mtd start_eb novtbl (eb + 1) t1 (Some (eb, ec)) s
                     else (case format_header K mtd eb ec s of
                             None \<Rightarrow> None
                           | Some (ok, s) \<Rightarrow>
                               if ok then format_loop K env mtd start_eb novtbl (eb + 1) t1 t2 s
                               else Some (False, eb, t1, t2, s)))
      else Some (True, eb, t1, t2, s))"
  by pat_completeness auto
termination by (relation "measure (\<lambda>(K, env, mtd, st, nv, eb, t1, t2, s). nat (eb_cnt mtd - eb))") auto

declare format_loop.simps [simp del]

text \<open>
  The progress reported at the end is a division by the number of blocks formatted. When there
  are none, the program ends there.
\<close>

definition ubi_format_tail ::
  "'k kernel \<Rightarrow> bm_env \<Rightarrow> mtd_dev \<Rightarrow> int \<Rightarrow> bool \<Rightarrow> 'k ubi_work \<Rightarrow> (int \<times> 'k ubi_work) option" where
  "ubi_format_tail K env mtd start_eb novtbl s =
     (case format_loop K env mtd start_eb novtbl start_eb None None s of
        None \<Rightarrow> None
      | Some (ok, eb, t1, t2, s) \<Rightarrow>
          if \<not> ok then Some (-1, s)
          else case (if novtbl then Some (0, s)
                     else case (t1, t2) of
                            (Some (eb1, ec1), Some (eb2, ec2)) \<Rightarrow>
                              ubi_write_layout_vol K mtd eb1 ec1 ec2 (ubigen_create_empty_vtbl (up_ui (fst s))) s
                          | _ \<Rightarrow> Some (-1, s)) of
                 None \<Rightarrow> None
               | Some (r, p, c, w) \<Rightarrow>
                   if r \<noteq> 0 then Some (-1, p, c, w)
                   else map_option (\<lambda>w. (eb, p, c, w))
                          (set_process_info env mtd BM_OPERATION_FORMAT (eb - start_eb) (eb_cnt mtd - start_eb) w))"

section \<open>The filesystem object\<close>

text \<open>An operation on \<open>ubi\<close>, which it may release (\<open>ubi_params_free\<close>) at the end.\<close>

definition put_ubi :: "bool \<Rightarrow> 'k ubi_work \<Rightarrow> (ubi_state, 'k) mach" where
  "put_ubi keep = (\<lambda>(p, c, w). (\<lparr>us_ubi = (if keep then Some p else None), us_run = c\<rparr>, w))"

definition release :: "ubi_state \<Rightarrow> ubi_state" where
  "release u = u\<lparr>us_ubi := None\<rparr>"

definition ubi_format :: "filesystem \<Rightarrow> (ubi_state, 'k) mach \<Rightarrow> (int \<times> filesystem \<times> (ubi_state, 'k) mach) option" where
  "ubi_format fs = (\<lambda>(u, w).
     case us_ubi u of
       None \<Rightarrow> Some (-1, fs, u, w)
     | Some p \<Rightarrow> Some (0, fs, u\<lparr>us_ubi := Some (p\<lparr>up_format_eb := up_layout_volume_start_eb p\<rparr>)\<rparr>, w))"

definition ubifs_erase :: "filesystem \<Rightarrow> (ubi_state, 'k) mach \<Rightarrow> (int \<times> filesystem \<times> (ubi_state, 'k) mach) option" where
  "ubifs_erase fs = (\<lambda>(u, w).
     case params fs of None \<Rightarrow> None | Some q \<Rightarrow>
     case us_ubi u of
       None \<Rightarrow> Some (-1, fs, u, w)
     | Some p \<Rightarrow> let peb = gi_peb_size (up_ui p)
                 in Some ((p_offset q + p_length q + peb) AND (NOT peb + 1), fs, u, w))"

definition ubifs_write ::
  "'k kernel \<Rightarrow> bm_env \<Rightarrow> filesystem \<Rightarrow> (ubi_state, 'k) mach \<Rightarrow> (int \<times> filesystem \<times> (ubi_state, 'k) mach) option" where
  "ubifs_write K env fs = (\<lambda>(u, w).
     case params fs of None \<Rightarrow> None | Some q \<Rightarrow>
     case p_mtd q of None \<Rightarrow> None | Some mtd \<Rightarrow>
     case us_ubi u of
       None \<Rightarrow> Some (-1, fs, u, w)
     | Some p \<Rightarrow>
         let eb = MTD_EB_ABSOLUTE_TO_RELATIVE mtd (MTD_OFFSET_TO_EB_INDEX mtd (p_offset q))
         in case ubi_write_volume K env mtd (p_buf q) eb (p_length q) fs (p, us_run u, w) of
              None \<Rightarrow> None
            | Some (eb, fs, s) \<Rightarrow>
                if eb < 0 then Some (-1, fs, put_ubi False s)
                else Some (MTD_EB_RELATIVE_TO_ABSOLUTE mtd eb * gi_peb_size (up_ui (fst s)), fs, put_ubi True s))"

text \<open>Here \<open>ubi\<close> is read before it is compared with null.\<close>

definition ubifs_done :: "'k kernel \<Rightarrow> bm_env \<Rightarrow> filesystem \<Rightarrow> (ubi_state, 'k) mach \<Rightarrow> (int \<times> (ubi_state, 'k) mach) option" where
  "ubifs_done K env fs = (\<lambda>(u, w).
     case fs_mtd fs of None \<Rightarrow> None | Some mtd \<Rightarrow>
     case us_ubi u of None \<Rightarrow> None | Some p \<Rightarrow>
     case up_vtbl p of None \<Rightarrow> None | Some vtbl \<Rightarrow>
     case ubi_write_layout_vol K mtd (up_start_eb p) (up_ec p) (up_ec p) vtbl (p, us_run u, w) of None \<Rightarrow> None | Some (r, s) \<Rightarrow>
     if r < 0 then Some (-1, put_ubi False s)
     else case ubi_format_tail K env mtd (up_format_eb p) True s of None \<Rightarrow> None | Some (r, s) \<Rightarrow>
     if r < 0 then Some (-1, put_ubi False s)
     else Some ((if r > 0 then MTD_EB_RELATIVE_TO_ABSOLUTE mtd r else r) * gi_peb_size (up_ui p), put_ubi False s))"

definition ubifs_get_operate_start_address ::
  "'k kernel \<Rightarrow> 'k ubi_host \<Rightarrow> bm_env \<Rightarrow> filesystem \<Rightarrow> (ubi_state, 'k) mach \<Rightarrow> (int \<times> (ubi_state, 'k) mach) option" where
  "ubifs_get_operate_start_address K H env fs = (\<lambda>(u, w).
     case params fs of None \<Rightarrow> None | Some q \<Rightarrow>
     case p_mtd q of None \<Rightarrow> None | Some mtd \<Rightarrow>
     case ubi_params_init K H env mtd w of
       None \<Rightarrow> None
     | Some (None, w) \<Rightarrow> Some (-1, release u, w)
     | Some (Some p, w) \<Rightarrow>
         let eb = MTD_EB_ABSOLUTE_TO_RELATIVE mtd (cdiv (p_offset q) (gi_peb_size (up_ui p)))
         in case ubi_bypass_layout_vol K mtd eb (p, us_run u, w) of
              None \<Rightarrow> None
            | Some (err, p, c, w) \<Rightarrow>
                if err < 0 then Some (-1, put_ubi False (p, c, w))
                else Some (MTD_EB_RELATIVE_TO_ABSOLUTE mtd err * gi_peb_size (up_ui p),
                           put_ubi True (p\<lparr>up_vid_hdr_lnum := 0, up_start_eb := eb, up_layout_volume_start_eb := err\<rparr>, c, w)))"

definition ubifs_get_leb_size :: "filesystem \<Rightarrow> (ubi_state, 'k) mach \<Rightarrow> (u32 \<times> (ubi_state, 'k) mach) option" where
  "ubifs_get_leb_size fs = (\<lambda>(u, w).
     case us_ubi u of None \<Rightarrow> Some (0, u, w) | Some p \<Rightarrow> Some (word_of_int (gi_leb_size (up_ui p)), u, w))"

definition ubifs_get_max_mapped_size_in_partition ::
  "'k kernel \<Rightarrow> bm_env \<Rightarrow> filesystem \<Rightarrow> (ubi_state, 'k) mach \<Rightarrow> (int \<times> (ubi_state, 'k) mach) option" where
  "ubifs_get_max_mapped_size_in_partition K env fs = (\<lambda>(u, w).
     case params fs of None \<Rightarrow> None | Some q \<Rightarrow>
     case us_ubi u of None \<Rightarrow> Some (-1, u, w) | Some p \<Rightarrow>
     case ubi_volume_params_set (p_length q) p of None \<Rightarrow> None | Some (r, p) \<Rightarrow>
     if r < 0 then Some (-1, release u, w)
     else if up_layout_volume_start_eb p = 0 then Some (-1, release u, w)
     else let bypassed = gi_peb_size (up_ui p) * (up_layout_volume_start_eb p - up_start_eb p)
          in case mtd_block_scan K env (fs\<lparr>params := Some (q\<lparr>p_length := p_length q + bypassed\<rparr>)\<rparr>) w of
               None \<Rightarrow> None
             | Some (r, w) \<Rightarrow> if r = 0 then Some (-1, release u, w) else Some (r, u\<lparr>us_ubi := Some p\<rparr>, w))"

definition fs_ubifs :: "'k kernel \<Rightarrow> 'k ubi_host \<Rightarrow> bm_env \<Rightarrow> (ubi_state, 'k) fs_ops" where
  "fs_ubifs K H env = \<lparr>op_erase = ubifs_erase, op_write = ubifs_write K env, op_read = not_served,
     op_start = ubifs_get_operate_start_address K H env, op_leb_size = ubifs_get_leb_size,
     op_max_mapped = ubifs_get_max_mapped_size_in_partition K env, op_format = Some ubi_format, op_done = Some (ubifs_done K env)\<rparr>"

end
