(* ===== verification/UbiWrite.thy ===== *)
theory UbiWrite
  imports Ubifs FirstBlock
begin

text \<open>
  What \<open>Ubifs\<close> leaves on a device that behaves: a volume is written block by block to the
  blocks that are not marked bad, each with a header of its own, and a scan finds it there.
\<close>

section \<open>Buffers\<close>

lemma put_bytes_append: "length a = n \<Longrightarrow> length b = length src \<Longrightarrow> put_bytes (a @ b @ c) n src = a @ src @ c"
  by (simp add: put_bytes_def)

lemma round_up_ge: "0 < unit \<Longrightarrow> x \<le> round_up x unit"
  using int_block_bounds(2) [of unit "x - 1"] div_add_self2 [of unit "x - 1"] by (simp add: round_up_def algebra_simps)

lemma round_up_mod [simp]: "round_up x unit mod unit = 0"
  by (simp add: round_up_def)

lemma round_up_le: "0 < unit \<Longrightarrow> x \<le> y \<Longrightarrow> y mod unit = 0 \<Longrightarrow> round_up x unit \<le> y"
proof -
  assume u: "0 < unit" "x \<le> y" "y mod unit = 0"
  then have y: "y = y div unit * unit" by (simp add: dvd_imp_mod_0 mod_0_imp_dvd)
  have "x + unit - 1 < (y div unit + 1) * unit" using u y by (simp add: distrib_right)
  then have "(x + unit - 1) div unit < y div unit + 1" by (simp only: int_div_less_iff [OF u(1)])
  then have "(x + unit - 1) div unit * unit \<le> y div unit * unit" using u(1) by (intro mult_right_mono) simp_all
  then show ?thesis using y by (simp add: round_up_def)
qed

text \<open>The geometry the generator computes for a partition.\<close>

definition ubi_geometry :: "mtd_dev \<Rightarrow> ubigen_info \<Rightarrow> bool" where
  "ubi_geometry mtd ui \<longleftrightarrow> gi_peb_size ui = eb_size mtd \<and> 64 \<le> gi_vid_hdr_offs ui \<and> gi_vid_hdr_offs ui + 64 \<le> gi_data_offs ui \<and>
     gi_data_offs ui < gi_peb_size ui \<and> gi_leb_size ui = gi_peb_size ui - gi_data_offs ui"

lemma ubigen_geometry:
  assumes "wf_mtd mtd" "gi_data_offs (ubigen_info_init (eb_size mtd) (min_io_size mtd) (subpage_size mtd) 0 v s) < eb_size mtd"
  shows "ubi_geometry mtd (ubigen_info_init (eb_size mtd) (min_io_size mtd) (subpage_size mtd) 0 v s)"
proof -
  have p: "0 < subpage_size mtd" "0 < min_io_size mtd" using assms(1) by (simp_all add: wf_mtd_def)
  show ?thesis
    using assms(2) round_up_ge [OF p(1), of 64] round_up_ge [OF p(2)]
    by (simp add: ubi_geometry_def ubigen_info_init_def Let_def UBI_EC_HDR_SIZE_def UBI_VID_HDR_SIZE_def)
qed

text \<open>A block in the buffer: its counter, the header of the volume, and the data.\<close>

definition ubi_buffer :: "ubigen_info \<Rightarrow> int \<Rightarrow> u8 list \<Rightarrow> u8 list \<Rightarrow> u8 list" where
  "ubi_buffer ui ec v d = ec_hdr_bytes (ubigen_init_ec_hdr ui ec) @ replicate (nat (gi_vid_hdr_offs ui - 64)) 0xff @ v @
     replicate (nat (gi_data_offs ui - gi_vid_hdr_offs ui - 64)) 0xff @ d"

lemma length_generated [simp]: "length (ec_hdr_bytes (ubigen_init_ec_hdr ui ec)) = 64"
  by (rule length_ec_hdr) simp

lemma length_vid_generated [simp]: "length (vid_hdr_bytes (ubigen_init_vid_hdr ui vi lnum leb)) = 64"
  by (rule length_vid_hdr) simp

lemma length_ubi_buffer:
  "ubi_geometry mtd ui \<Longrightarrow> length v = 64 \<Longrightarrow> int (length d) = gi_peb_size ui - gi_data_offs ui \<Longrightarrow>
     length (ubi_buffer ui ec v d) = nat (eb_size mtd)"
  by (auto simp: ubi_buffer_def ubi_geometry_def)

lemma seal_idem: "seal_ec_hdr (h\<lparr>ec_hdr_crc := x\<rparr>) = seal_ec_hdr h"
  by (simp add: seal_ec_hdr_def ec_hdr_body_def)

lemma resealed: "seal_ec_hdr ((ubigen_init_ec_hdr ui ec0)\<lparr>ec_image_seq := gi_image_seq ui, ec_ec := word_of_int ec\<rparr>) = ubigen_init_ec_hdr ui ec"
  by (simp add: ubigen_init_ec_hdr_def seal_ec_hdr_def ec_hdr_body_def)

lemma change_ech_buffer: "change_ech (ubi_buffer ui ec0 v d) (gi_image_seq ui) ec = (0, ubi_buffer ui ec v d)"
proof -
  have h: "ec_hdr_of (ubi_buffer ui ec0 v d) = ubigen_init_ec_hdr ui ec0"
    unfolding ubi_buffer_def by (rule ec_hdr_of_bytes) simp
  have "put_bytes (ubi_buffer ui ec0 v d) 0 (ec_hdr_bytes (ubigen_init_ec_hdr ui ec)) = ubi_buffer ui ec v d"
    using put_bytes_append [of "[]" 0 "ec_hdr_bytes (ubigen_init_ec_hdr ui ec0)" "ec_hdr_bytes (ubigen_init_ec_hdr ui ec)"]
    by (simp add: ubi_buffer_def)
  then show ?thesis by (simp add: change_ech_def h resealed)
qed

lemma leb_image_buffer:
  assumes g: "ubi_geometry mtd ui" and v: "length v = 64" and d: "int (length d) = gi_peb_size ui - gi_data_offs ui"
    and n: "vi_usable_leb_size vi = gi_leb_size ui" "int (length leb) = gi_leb_size ui"
  shows "leb_image ui vi lnum leb (ubi_buffer ui ec v d) = ubi_buffer ui ec (vid_hdr_bytes (ubigen_init_vid_hdr ui vi lnum leb)) leb"
proof -
  let ?E = "ec_hdr_bytes (ubigen_init_ec_hdr ui ec)" and ?V = "vid_hdr_bytes (ubigen_init_vid_hdr ui vi lnum leb)"
  let ?f = "replicate (nat (gi_vid_hdr_offs ui - 64)) (0xff :: u8)" and ?g = "replicate (nat (gi_data_offs ui - gi_vid_hdr_offs ui - 64)) (0xff :: u8)"
  have geo: "64 \<le> gi_vid_hdr_offs ui" "gi_vid_hdr_offs ui + 64 \<le> gi_data_offs ui" "gi_leb_size ui = gi_peb_size ui - gi_data_offs ui"
    using g by (simp_all add: ubi_geometry_def)
  have 1: "put_bytes (ubi_buffer ui ec v d) (nat (gi_vid_hdr_offs ui)) ?V = (?E @ ?f) @ ?V @ (?g @ d)"
    using put_bytes_append [of "?E @ ?f" "nat (gi_vid_hdr_offs ui)" v ?V "?g @ d"] geo(1) v by (simp add: ubi_buffer_def)
  have 2: "put_bytes ((?E @ ?f) @ ?V @ (?g @ d)) (nat (gi_data_offs ui)) leb = ubi_buffer ui ec ?V leb"
    using put_bytes_append [of "?E @ ?f @ ?V @ ?g" "nat (gi_data_offs ui)" d leb "[]"] geo d n(2) by (simp add: ubi_buffer_def)
  have l: "length (ubi_buffer ui ec ?V leb) = nat (gi_data_offs ui + gi_leb_size ui)"
    using length_ubi_buffer [OF g, of ?V leb ec] n(2) geo g by (simp add: ubi_geometry_def)
  have "put_bytes (ubi_buffer ui ec ?V leb) (nat (gi_data_offs ui + gi_leb_size ui)) [] = ubi_buffer ui ec ?V leb"
    by (simp add: put_bytes_def l)
  then show ?thesis using geo(3) by (simp add: leb_image_def n(1) 1 2 Let_def del: append_assoc)
qed

section \<open>Writing one block\<close>

definition ubi_device :: "'k kernel \<Rightarrow> mtd_dev \<Rightarrow> int \<Rightarrow> ('k \<Rightarrow> int \<Rightarrow> u8) \<Rightarrow> ('k \<Rightarrow> int) \<Rightarrow> bool" where
  "ubi_device K mtd fd cells pos \<longleftrightarrow> wf_mtd mtd \<and> mtd_size mtd \<le> 0xFFFFFFFF \<and> readable_device K fd cells pos (mtd_size mtd) \<and>
     writable_device K fd cells pos (mtd_size mtd) \<and> erasable_device K fd cells (mtd_size mtd)"

text \<open>The table of block states has an entry for every block of the partition.\<close>

definition table_spans :: "mtd_dev \<Rightarrow> 'k world \<Rightarrow> bool" where
  "table_spans mtd w \<longleftrightarrow> (\<forall>eb. 0 \<le> eb \<and> eb < eb_cnt mtd \<longrightarrow> block_state w (eb + first_eb mtd) \<noteq> None)"

lemma table_spans_frame: "frame w w' \<Longrightarrow> table_spans mtd w \<Longrightarrow> table_spans mtd w'"
  by (simp add: table_spans_def block_state_def frame_def)

lemma block_in_device:
  assumes "wf_mtd mtd" "0 \<le> eb" "eb < eb_cnt mtd"
  shows "0 \<le> eb * eb_size mtd" "eb * eb_size mtd + eb_size mtd \<le> mtd_size mtd" "mtd_valid_erase_block mtd eb"
proof -
  have e: "0 < eb_size mtd" by (rule wf_mtd_pos [OF assms(1)])
  show "0 \<le> eb * eb_size mtd" using assms(2) e by simp
  have "(eb + 1) * eb_size mtd \<le> eb_cnt mtd * eb_size mtd" using assms(3) e by (intro mult_right_mono) simp_all
  then show "eb * eb_size mtd + eb_size mtd \<le> mtd_size mtd" using assms(1) by (simp add: wf_mtd_def distrib_right)
  show "mtd_valid_erase_block mtd eb" using assms(2,3) by (simp add: mtd_valid_erase_block_def)
qed

lemma mtd_erase_block:
  assumes dev: "ubi_device K mtd fd cells pos" and eb: "0 \<le> eb" "eb < eb_cnt mtd"
  shows "\<exists>w'. mtd_erase K mtd fd eb w = (0, w') \<and> frame w w' \<and> cells (kern w') = blanked (cells (kern w)) (eb * eb_size mtd) (eb_size mtd)"
proof -
  let ?s = "eb * eb_size mtd" and ?e = "eb_size mtd"
  have wf: "wf_mtd mtd" and d: "erasable_device K fd cells (mtd_size mtd)" and sz: "mtd_size mtd \<le> 0xFFFFFFFF"
    using dev by (simp_all add: ubi_device_def)
  note B = block_in_device [OF wf eb]
  obtain r w1 where k: "syscall K fd (MEMERASE64 ?s ?e) w = (r, w1)" by (metis surj_pair)
  obtain r' w2 where k': "syscall K fd (MEMERASE ?s ?e) w = (r', w2)" by (metis surj_pair)
  have r: "rep_ret r = 0" "cells (kern w1) = blanked (cells (kern w)) ?s ?e" "rep_ret r' = 0" "cells (kern w2) = blanked (cells (kern w)) ?s ?e"
    using d B syscall_fields(1,2) [OF k] syscall_fields(1,2) [OF k'] by (simp_all add: erasable_device_def)
  have "\<not> ?s + ?e > 0xFFFFFFFF" using B sz by simp
  then have "mtd_erase K mtd fd eb w = (0, if offs64 w \<noteq> OFFS64_IOCTLS_NOT_SUPPORTED then w1 else w2)"
    using B k k' r by (simp add: mtd_erase_def Let_def)
  then show ?thesis using r frame_syscall [OF k] frame_syscall [OF k'] by auto
qed

text \<open>Leaving out 0xff at the end of a block does not change what an erased block holds after the write.\<close>

lemma dropWhile_rev_suffix:
  assumes "n = length (dropWhile (\<lambda>b. b = 0xff) (rev buf))" "n \<le> i" "i < length buf"
  shows "buf ! i = (0xff :: u8)"
proof -
  let ?t = "takeWhile (\<lambda>b. b = 0xff) (rev buf)" and ?d = "dropWhile (\<lambda>b. b = (0xff :: u8)) (rev buf)"
  have "rev buf = ?t @ ?d" by simp
  then have b: "buf = rev ?d @ rev ?t" by (metis rev_append rev_rev_ident)
  have l: "length buf = length ?d + length ?t" by (subst b) simp
  have "buf ! i = rev ?t ! (i - n)" using assms by (subst b) (simp add: nth_append)
  also have "\<dots> \<in> set (rev ?t)" using assms l by (intro nth_mem) simp
  finally show ?thesis using set_takeWhileD by fastforce
qed

lemma stored_dropped:
  assumes "int (length buf) = e" "length (dropWhile (\<lambda>b. b = 0xff) (rev buf)) \<le> n" "n \<le> length buf"
  shows "stored (blanked c s e) s (take n buf) = stored c s buf"
proof (rule ext)
  fix a
  have "buf ! nat (a - s) = 0xff" if "s \<le> a" "a < s + int (length buf)" "\<not> a < s + int n"
    using dropWhile_rev_suffix [OF refl, of buf "nat (a - s)"] that assms(2) by simp
  then show "stored (blanked c s e) s (take n buf) a = stored c s buf a"
    using assms by (auto simp: stored_def blanked_def)
qed

lemma write_erased_block:
  assumes dev: "ubi_device K mtd fd cells pos" and eb: "0 \<le> eb" "eb < eb_cnt mtd"
    and c: "cells (kern w) = blanked c0 (eb * eb_size mtd) (eb_size mtd)" and l: "length buf = nat (eb_size mtd)"
  shows "\<exists>w'. mtd_write K mtd fd eb 0 (take (nat (drop_ffs mtd buf)) buf) None m w = (0, w') \<and> frame w w' \<and>
    cells (kern w') = stored c0 (eb * eb_size mtd) buf"
proof -
  let ?s = "eb * eb_size mtd" and ?e = "eb_size mtd" and ?n = "drop_ffs mtd buf" and ?k = "length (dropWhile (\<lambda>b. b = 0xff) (rev buf))"
  have wf: "wf_mtd mtd" and rd: "readable_device K fd cells pos (mtd_size mtd)" and wd: "writable_device K fd cells pos (mtd_size mtd)"
    using dev by (simp_all add: ubi_device_def)
  have e: "0 < ?e" and io: "0 < min_io_size mtd" "?e mod min_io_size mtd = 0" "0 < subpage_size mtd" "min_io_size mtd mod subpage_size mtd = 0"
    using wf wf_mtd_pos [OF wf] by (simp_all add: wf_mtd_def)
  note B = block_in_device [OF wf eb]
  have le: "int (length buf) = ?e" using l e by simp
  have "int ?k \<le> ?e" using length_dropWhile_le [of "\<lambda>b. b = 0xff" "rev buf"] le by simp
  then have n: "int ?k \<le> ?n" "?n \<le> ?e" "?n mod min_io_size mtd = 0"
    using io by (simp_all add: drop_ffs_def round_up_ge round_up_le)
  let ?d = "take (nat ?n) buf"
  have ld: "int (length ?d) = ?n" using n(1,2) le by simp
  have "?n mod subpage_size mtd = 0" using n(3) io(4) by (meson dvd_trans mod_0_imp_dvd dvd_imp_mod_0)
  then have w: "mtd_write K mtd fd eb 0 ?d None m w = write_data K fd ?s ?d w"
    using B(3) n(2) unfolding mtd_write_def Let_def ld by simp
  have "\<exists>w'. write_data K fd ?s ?d w = (0, w') \<and> frame w w' \<and> cells (kern w') = stored (cells (kern w)) ?s ?d"
    by (rule write_data_stores [OF rd wd B(1)]) (use B(2) n(2) in \<open>simp_all only: ld c, simp_all add: blanked_def\<close>)
  moreover have "stored (cells (kern w)) ?s ?d = stored c0 ?s buf"
    unfolding c by (rule stored_dropped [OF le]) (use n(1,2) le in simp_all)
  ultimately show ?thesis by (simp add: w)
qed

lemma set_erased:
  assumes "wf_mtd mtd" "table_spans mtd w" "0 \<le> eb" "eb < eb_cnt mtd"
  shows "\<exists>w'. mtd_bm_block_map_set (MTD_EB_RELATIVE_TO_ABSOLUTE mtd eb) st w = Some w' \<and> table_spans mtd w' \<and> kern w' = kern w \<and> fds w' = fds w"
proof -
  obtain x where x: "block_state w (eb + first_eb mtd) = Some x" using assms by (auto simp: table_spans_def)
  obtain w' where w': "mtd_bm_block_map_set (eb + first_eb mtd) st w = Some w'" "only_table w w'"
    "\<And>e. block_state w' e = (if e = eb + first_eb mtd \<and> x \<noteq> MTD_BLK_BAD then Some st else block_state w e)"
    using block_map_set [OF x] by blast
  have "table_spans mtd w'" using assms(2) by (simp add: table_spans_def w'(3))
  then show ?thesis using w'(1,2) by (simp add: rel_to_abs [OF assms(1)])
qed

lemma write_peb_good:
  assumes dev: "ubi_device K mtd (fds w (part_id mtd)) cells pos" and t: "table_spans mtd w" and eb: "0 \<le> eb" "eb < eb_cnt mtd"
    and g: "ubi_geometry mtd (up_ui p)" and v: "length v = 64" "int (length d) = gi_peb_size (up_ui p) - gi_data_offs (up_ui p)"
  shows "\<exists>w'. write_peb K mtd eb e (ubi_buffer (up_ui p) ec0 v d) (p, c, w) =
      Some (TrialGood, ubi_buffer (up_ui p) (next_ec p e) v d, p, c, w') \<and> fds w' = fds w \<and> table_spans mtd w' \<and>
    cells (kern w') = stored (cells (kern w)) (eb * eb_size mtd) (ubi_buffer (up_ui p) (next_ec p e) v d)"
proof -
  let ?b = "ubi_buffer (up_ui p) (next_ec p e) v d"
  have wf: "wf_mtd mtd" using dev by (simp add: ubi_device_def)
  have l: "length ?b = nat (eb_size mtd)" by (rule length_ubi_buffer [OF g v])
  obtain w1 where w1: "mtd_erase K mtd (fds w (part_id mtd)) eb w = (0, w1)" "frame w w1"
    "cells (kern w1) = blanked (cells (kern w)) (eb * eb_size mtd) (eb_size mtd)"
    using mtd_erase_block [OF dev eb, of w] by (elim exE conjE) (rule that)
  have t1: "table_spans mtd w1" by (rule table_spans_frame [OF w1(2) t])
  obtain w2 where w2: "mtd_bm_block_map_set (MTD_EB_RELATIVE_TO_ABSOLUTE mtd eb) MTD_BLK_ERASED w1 = Some w2" "table_spans mtd w2"
    "kern w2 = kern w1" "fds w2 = fds w1"
    using set_erased [OF wf t1 eb, of MTD_BLK_ERASED] by (elim exE conjE) (rule that)
  have c2: "cells (kern w2) = blanked (cells (kern w)) (eb * eb_size mtd) (eb_size mtd)" by (simp add: w2(3) w1(3))
  obtain w3 where w3: "mtd_write K mtd (fds w (part_id mtd)) eb 0 (take (nat (drop_ffs mtd ?b)) ?b) None MTD_OPS_PLACE_OOB w2 = (0, w3)"
    "frame w2 w3" "cells (kern w3) = stored (cells (kern w)) (eb * eb_size mtd) ?b"
    using write_erased_block [OF dev eb c2 l, of MTD_OPS_PLACE_OOB] by (elim exE conjE) (rule that)
  have tk: "take (nat (eb_size mtd)) ?b = ?b" using l by simp
  have "write_peb K mtd eb e (ubi_buffer (up_ui p) ec0 v d) (p, c, w) = Some (TrialGood, ?b, p, c, w3)"
    using w1(1) w2(1) w3(1) by (simp add: write_peb_def change_ech_buffer tk)
  moreover have "fds w3 = fds w" using w1(2) w2(4) w3(2) by (simp add: frame_def)
  moreover have "table_spans mtd w3" by (rule table_spans_frame [OF w3(2) w2(2)])
  ultimately show ?thesis using w3(3) by blast
qed

lemma ubi_write_one_peb_good:
  assumes dev: "ubi_device K mtd (fds w (part_id mtd)) cells pos" and t: "table_spans mtd w" and eb: "0 \<le> eb" "eb \<le> x" "x < eb_cnt mtd"
    and bad: "\<forall>y. eb \<le> y \<and> y < x \<longrightarrow> eb_mark p y = Some EB_BAD" and e: "eb_mark p x = Some e" "e \<noteq> EB_BAD"
    and g: "ubi_geometry mtd (up_ui p)" and v: "length v = 64" "int (length d) = gi_peb_size (up_ui p) - gi_data_offs (up_ui p)"
  shows "\<exists>w'. ubi_write_one_peb K mtd eb (ubi_buffer (up_ui p) ec0 v d) (p, c, w) =
      Some (x + 1, ubi_buffer (up_ui p) (next_ec p e) v d, p, c, w') \<and> fds w' = fds w \<and> table_spans mtd w' \<and>
    cells (kern w') = stored (cells (kern w)) (x * eb_size mtd) (ubi_buffer (up_ui p) (next_ec p e) v d)"
  using eb bad
proof (induction "nat (x - eb)" arbitrary: eb)
  case 0
  then have "eb = x" by simp
  then show ?case
    using write_peb_good [OF dev t _ 0(4) g v, of e ec0 c] 0(2,3,4) e by (subst ubi_write_one_peb.simps) auto
next
  case (Suc n)
  then have lt: "eb < x" by simp
  have "ubi_write_one_peb K mtd eb b s = ubi_write_one_peb K mtd (eb + 1) b s" if "fst s = p" for b s
    using Suc.prems lt that by (subst ubi_write_one_peb.simps) simp
  then show ?case using Suc.hyps(1) [of "eb + 1"] Suc.hyps(2) Suc.prems lt by simp
qed

section \<open>Writing a volume\<close>

definition good_ebs :: "mtd_dev \<Rightarrow> ubi_params \<Rightarrow> int \<Rightarrow> int list" where
  "good_ebs mtd p eb = filter (\<lambda>x. eb_mark p x \<noteq> Some EB_BAD) [eb..eb_cnt mtd - 1]"

lemma filter_upto_Cons:
  "filter P [a..b] = x # xs \<Longrightarrow> a \<le> x \<and> x \<le> b \<and> P x \<and> (\<forall>y. a \<le> y \<and> y < x \<longrightarrow> \<not> P y) \<and> filter P [x + 1..b] = (xs :: int list)"
proof (induction "nat (b - a + 1)" arbitrary: a)
  case (Suc n)
  then have ab: "a \<le> b" by simp
  show ?case
  proof (cases "P a")
    case True
    then have "a # filter P [a + 1..b] = x # xs" using Suc.prems by (simp only: upto_rec1 [OF ab] filter.simps if_True)
    then have x: "x = a" "filter P [a + 1..b] = xs" unfolding list.inject by blast+
    show ?thesis unfolding x(1) using ab True x(2) by auto
  next
    case False
    then have "filter P [a + 1..b] = x # xs" using Suc.prems ab by (simp add: upto_rec1)
    moreover have "n = nat (b - (a + 1) + 1)" using Suc.hyps(2) by simp
    ultimately have I: "a + 1 \<le> x \<and> x \<le> b \<and> P x \<and> (\<forall>y. a + 1 \<le> y \<and> y < x \<longrightarrow> \<not> P y) \<and> filter P [x + 1..b] = xs"
      using Suc.hyps(1) by blast
    have "\<not> P y" if "a \<le> y" "y < x" for y
      using I that False by (cases "y = a") auto
    with I show ?thesis by simp
  qed
qed simp

text \<open>The image of one logical block, of all of them, and the flash with them stored.\<close>

definition peb_of :: "ubi_params \<Rightarrow> ubigen_vol_info \<Rightarrow> int \<Rightarrow> int \<Rightarrow> u8 list \<Rightarrow> u8 list" where
  "peb_of p vi lnum x leb = ubi_buffer (up_ui p) (next_ec p (the (eb_mark p x))) (vid_hdr_bytes (ubigen_init_vid_hdr (up_ui p) vi lnum leb)) leb"

fun volume_pebs :: "ubi_params \<Rightarrow> ubigen_vol_info \<Rightarrow> int \<Rightarrow> int list \<Rightarrow> u8 list \<Rightarrow> (int \<times> u8 list) list" where
  "volume_pebs p vi lnum [] buf = []"
| "volume_pebs p vi lnum (x # xs) buf =
     (x, peb_of p vi lnum x (take (nat (gi_leb_size (up_ui p))) buf)) # volume_pebs p vi (lnum + 1) xs (drop (nat (gi_leb_size (up_ui p))) buf)"

definition stored_pebs :: "int \<Rightarrow> (int \<times> u8 list) list \<Rightarrow> (int \<Rightarrow> u8) \<Rightarrow> int \<Rightarrow> u8" where
  "stored_pebs e pebs c = fold (\<lambda>(x, img) c. stored c (x * e) img) pebs c"

text \<open>The buffer between two blocks, and the parameters while a volume is written.\<close>

definition outbuf_ready :: "mtd_dev \<Rightarrow> ubi_params \<Rightarrow> bool" where
  "outbuf_ready mtd p \<longleftrightarrow> ubi_geometry mtd (up_ui p) \<and> int (length (sc_ec (up_si p))) = eb_cnt mtd \<and>
     (\<exists>ec v d. up_outbuf p = ubi_buffer (up_ui p) ec v d \<and> length v = 64 \<and> int (length d) = gi_peb_size (up_ui p) - gi_data_offs (up_ui p))"

lemma outbuf_other [simp]:
  "eb_mark (p\<lparr>up_outbuf := b\<rparr>) x = eb_mark p x" "next_ec (p\<lparr>up_outbuf := b\<rparr>) e = next_ec p e"
  "good_ebs mtd (p\<lparr>up_outbuf := b\<rparr>) eb = good_ebs mtd p eb" "peb_of (p\<lparr>up_outbuf := b\<rparr>) = peb_of p"
  by (simp_all add: eb_mark_def next_ec_def good_ebs_def peb_of_def fun_eq_iff)

lemma volume_pebs_outbuf [simp]: "volume_pebs (p\<lparr>up_outbuf := b\<rparr>) vi lnum xs buf = volume_pebs p vi lnum xs buf"
  by (induction xs arbitrary: lnum buf) simp_all

lemma fs_progress_reports:
  assumes "params fs = Some q" "p_max_size q \<noteq> 0"
  shows "\<exists>w'. fs_progress env mtd fs w = Some w' \<and> kern w' = kern w \<and> fds w' = fds w \<and> block_map w' = block_map w"
  using assms by (cases "bm_listening env") (auto simp: fs_progress_def set_process_info_def)

lemma progress_params: "params fs = Some q \<Longrightarrow> params (p_progress_add n fs) = Some (q\<lparr>p_progress_size := p_progress_size q + n\<rparr>)"
  by (simp add: p_progress_add_def)

lemma table_spans_map: "block_map w' = block_map w \<Longrightarrow> table_spans mtd w \<Longrightarrow> table_spans mtd w'"
  by (simp add: table_spans_def block_state_def)

lemma volume_step:
  assumes dev: "ubi_device K mtd (fds w (part_id mtd)) cells pos" and t: "table_spans mtd w" and r: "outbuf_ready mtd p"
    and u: "vi_usable_leb_size vi = gi_leb_size (up_ui p)" and q: "params fs = Some q" "p_max_size q \<noteq> 0"
    and g: "good_ebs mtd p eb = x # xs" "0 \<le> eb" and len: "gi_leb_size (up_ui p) \<le> int (length buf)" "0 < bytes"
  shows "\<exists>out w'. volume_loop K env mtd vi bytes buf eb lnum fs (p, c, w) =
      volume_loop K env mtd vi (bytes - gi_leb_size (up_ui p)) (drop (nat (gi_leb_size (up_ui p))) buf) (x + 1) (lnum + 1)
        (p_progress_add (gi_leb_size (up_ui p)) fs) (p\<lparr>up_outbuf := out\<rparr>, c, w') \<and>
    fds w' = fds w \<and> table_spans mtd w' \<and> outbuf_ready mtd (p\<lparr>up_outbuf := out\<rparr>) \<and> good_ebs mtd p (x + 1) = xs \<and> 0 \<le> x \<and>
    cells (kern w') = stored (cells (kern w)) (x * eb_size mtd) (peb_of p vi lnum x (take (nat (gi_leb_size (up_ui p))) buf))"
proof -
  let ?ui = "up_ui p" and ?n = "gi_leb_size (up_ui p)"
  let ?leb = "take (nat ?n) buf"
  let ?V = "vid_hdr_bytes (ubigen_init_vid_hdr ?ui vi lnum ?leb)"
  have geo: "ubi_geometry mtd ?ui" and L: "int (length (sc_ec (up_si p))) = eb_cnt mtd" using r by (simp_all add: outbuf_ready_def)
  obtain ec v d where o: "up_outbuf p = ubi_buffer ?ui ec v d" "length v = 64" "int (length d) = gi_peb_size ?ui - gi_data_offs ?ui"
    using r unfolding outbuf_ready_def by blast
  have n: "0 < ?n" "?n = gi_peb_size ?ui - gi_data_offs ?ui" using geo by (simp_all add: ubi_geometry_def)
  have lleb: "int (length ?leb) = ?n" using n(1) len(1) by simp
  have X: "eb \<le> x" "x < eb_cnt mtd" "eb_mark p x \<noteq> Some EB_BAD" "\<forall>y. eb \<le> y \<and> y < x \<longrightarrow> eb_mark p y = Some EB_BAD"
    "good_ebs mtd p (x + 1) = xs"
    using filter_upto_Cons [OF g(1) [unfolded good_ebs_def]] by (simp_all add: good_ebs_def)
  obtain e where e: "eb_mark p x = Some e" "e \<noteq> EB_BAD"
    using X(1-3) g(2) L by (auto simp: eb_mark_def split: if_splits)
  obtain w1 where w1: "fs_progress env mtd fs w = Some w1" "kern w1 = kern w" "fds w1 = fds w" "block_map w1 = block_map w"
    using fs_progress_reports [OF q] by blast
  have t1: "table_spans mtd w1" by (rule table_spans_map [OF w1(4) t])
  have img: "leb_image ?ui vi lnum ?leb (up_outbuf p) = ubi_buffer ?ui ec ?V ?leb"
    unfolding o(1) by (rule leb_image_buffer [OF geo o(2,3) u lleb])
  have lV: "length ?V = 64" by simp
  have lleb': "int (length ?leb) = gi_peb_size ?ui - gi_data_offs ?ui" using lleb n(2) by simp
  obtain w2 where w2: "ubi_write_one_peb K mtd eb (ubi_buffer ?ui ec ?V ?leb) (p, c, w1) = Some (x + 1, ubi_buffer ?ui (next_ec p e) ?V ?leb, p, c, w2)"
    "fds w2 = fds w1" "table_spans mtd w2"
    "cells (kern w2) = stored (cells (kern w1)) (x * eb_size mtd) (ubi_buffer ?ui (next_ec p e) ?V ?leb)"
    using ubi_write_one_peb_good [OF dev [folded w1(3)] t1 g(2) X(1,2,4) e geo lV lleb', of ec c] by (elim exE conjE) (rule that)
  have b: "ubi_buffer ?ui (next_ec p e) ?V ?leb = peb_of p vi lnum x ?leb" by (simp add: peb_of_def e(1))
  let ?out = "peb_of p vi lnum x ?leb"
  have "volume_loop K env mtd vi bytes buf eb lnum fs (p, c, w) =
      volume_loop K env mtd vi (bytes - ?n) (drop (nat ?n) buf) (x + 1) (lnum + 1) (p_progress_add ?n fs) (p\<lparr>up_outbuf := ?out\<rparr>, c, w2)"
    using w1(1) w2(1) n(1) len g(2) X(1) by (subst volume_loop.simps) (simp add: u img b Let_def)
  moreover have "outbuf_ready mtd (p\<lparr>up_outbuf := ?out\<rparr>)"
    unfolding outbuf_ready_def peb_of_def using geo L lV lleb'
    by (intro conjI exI [of _ "next_ec p (the (eb_mark p x))"] exI [of _ ?V] exI [of _ ?leb]) (simp_all del: length_take)
  ultimately show ?thesis
    using w1(2,3) w2(2,3) w2(4) [unfolded b] X(1,5) g(2)
    by (intro exI [of _ ?out] exI [of _ w2]) simp
qed


lemma good_ebs_range: "x \<in> set (good_ebs mtd p eb) \<Longrightarrow> eb \<le> x \<and> x < eb_cnt mtd"
  by (auto simp: good_ebs_def)

lemma stored_pebs_Cons [simp]: "stored_pebs e ((x, img) # ps) c = stored_pebs e ps (stored c (x * e) img)"
  by (simp add: stored_pebs_def)

lemma stored_pebs_Nil [simp]: "stored_pebs e [] c = c"
  by (simp add: stored_pebs_def)

definition next_eb :: "mtd_dev \<Rightarrow> ubi_params \<Rightarrow> int \<Rightarrow> nat \<Rightarrow> int" where
  "next_eb mtd p eb n = (if n = 0 then eb else good_ebs mtd p eb ! (n - 1) + 1)"

lemma next_eb_outbuf [simp]: "next_eb mtd (p\<lparr>up_outbuf := b\<rparr>) eb n = next_eb mtd p eb n"
  by (simp add: next_eb_def)

lemma next_eb_Suc: "good_ebs mtd p eb = x # xs \<Longrightarrow> good_ebs mtd p (x + 1) = xs \<Longrightarrow> next_eb mtd p eb (Suc n) = next_eb mtd p (x + 1) n"
  by (simp add: next_eb_def nth_Cons')

text \<open>\<open>n\<close> logical blocks need \<open>n\<close> good blocks from \<open>eb\<close> on; the next free one is behind the last of them.\<close>

lemma volume_loop_stores:
  assumes "ubi_device K mtd (fds w (part_id mtd)) cells pos" "table_spans mtd w" "outbuf_ready mtd p"
    "vi_usable_leb_size vi = gi_leb_size (up_ui p)" "params fs = Some q" "p_max_size q \<noteq> 0"
    "n \<le> length (good_ebs mtd p eb)" "0 \<le> eb" "int (length buf) = int n * gi_leb_size (up_ui p)"
  shows "\<exists>fs' q' out w'. volume_loop K env mtd vi (int n * gi_leb_size (up_ui p)) buf eb lnum fs (p, c, w) =
      Some (next_eb mtd p eb n, lnum + int n, fs', p\<lparr>up_outbuf := out\<rparr>, c, w') \<and>
    params fs' = Some q' \<and> p_max_size q' = p_max_size q \<and> fds w' = fds w \<and> table_spans mtd w' \<and> outbuf_ready mtd (p\<lparr>up_outbuf := out\<rparr>) \<and>
    cells (kern w') = stored_pebs (eb_size mtd) (volume_pebs p vi lnum (take n (good_ebs mtd p eb)) buf) (cells (kern w))"
  using assms
proof (induction n arbitrary: eb buf lnum fs q p w)
  case 0
  then show ?case
    by (intro exI [of _ fs] exI [of _ q] exI [of _ "up_outbuf p"] exI [of _ w]) (subst volume_loop.simps, simp add: next_eb_def)
next
  case (Suc n)
  let ?l = "gi_leb_size (up_ui p)"
  obtain x xs where g: "good_ebs mtd p eb = x # xs" using Suc.prems(7) by (cases "good_ebs mtd p eb") auto
  have l: "0 < ?l" using Suc.prems(3) by (auto simp: outbuf_ready_def ubi_geometry_def)
  have len: "?l \<le> int (length buf)" using Suc.prems(9) l by (simp add: distrib_right)
  have bytes: "0 < int (Suc n) * ?l" using l by simp
  obtain out w1 where s: "volume_loop K env mtd vi (int (Suc n) * ?l) buf eb lnum fs (p, c, w) =
      volume_loop K env mtd vi (int (Suc n) * ?l - ?l) (drop (nat ?l) buf) (x + 1) (lnum + 1) (p_progress_add ?l fs) (p\<lparr>up_outbuf := out\<rparr>, c, w1)"
    and f: "fds w1 = fds w" "table_spans mtd w1" "outbuf_ready mtd (p\<lparr>up_outbuf := out\<rparr>)" "good_ebs mtd p (x + 1) = xs" "0 \<le> x"
      "cells (kern w1) = stored (cells (kern w)) (x * eb_size mtd) (peb_of p vi lnum x (take (nat ?l) buf))"
    using volume_step [OF Suc.prems(1-6) g Suc.prems(8) len bytes, of env lnum c] by (elim exE conjE) (rule that)
  have d: "ubi_device K mtd (fds w1 (part_id mtd)) cells pos" using Suc.prems(1) by (simp add: f(1))
  have q: "params (p_progress_add ?l fs) = Some (q\<lparr>p_progress_size := p_progress_size q + ?l\<rparr>)" by (rule progress_params [OF Suc.prems(5)])
  have k: "int (Suc n) * ?l - ?l = int n * ?l" by (simp add: distrib_right)
  have I: "\<exists>fs' q' out' w'. volume_loop K env mtd vi (int n * ?l) (drop (nat ?l) buf) (x + 1) (lnum + 1) (p_progress_add ?l fs)
        (p\<lparr>up_outbuf := out\<rparr>, c, w1) =
      Some (next_eb mtd p (x + 1) n, lnum + 1 + int n, fs', p\<lparr>up_outbuf := out'\<rparr>, c, w') \<and>
    params fs' = Some q' \<and> p_max_size q' = p_max_size q \<and> fds w' = fds w1 \<and> table_spans mtd w' \<and> outbuf_ready mtd (p\<lparr>up_outbuf := out'\<rparr>) \<and>
    cells (kern w') = stored_pebs (eb_size mtd) (volume_pebs p vi (lnum + 1) (take n xs) (drop (nat ?l) buf)) (cells (kern w1))"
    using Suc.IH [OF d f(2,3) _ q, of "x + 1" "drop (nat ?l) buf" "lnum + 1"] Suc.prems(4,6,7,9) g f(4,5) l len by (simp add: distrib_right)
  obtain fs' q' out' w' where r: "volume_loop K env mtd vi (int n * ?l) (drop (nat ?l) buf) (x + 1) (lnum + 1) (p_progress_add ?l fs)
        (p\<lparr>up_outbuf := out\<rparr>, c, w1) =
      Some (next_eb mtd p (x + 1) n, lnum + 1 + int n, fs', p\<lparr>up_outbuf := out'\<rparr>, c, w')"
    "params fs' = Some q'" "p_max_size q' = p_max_size q" "fds w' = fds w1" "table_spans mtd w'" "outbuf_ready mtd (p\<lparr>up_outbuf := out'\<rparr>)"
    "cells (kern w') = stored_pebs (eb_size mtd) (volume_pebs p vi (lnum + 1) (take n xs) (drop (nat ?l) buf)) (cells (kern w1))"
    using I by (elim exE conjE) (rule that)
  show ?case
    unfolding s k r(1) next_eb_Suc [OF g f(4)] using r(2-7) f(1,6)
    by (intro exI [of _ fs'] exI [of _ q'] exI [of _ out'] exI [of _ w']) (simp add: g)
qed


section \<open>The volume on the flash\<close>

definition block_bytes :: "mtd_dev \<Rightarrow> (int \<Rightarrow> u8) \<Rightarrow> int \<Rightarrow> u8 list" where
  "block_bytes mtd content eb = map content [eb * eb_size mtd..eb * eb_size mtd + eb_size mtd - 1]"

definition leb_data :: "ubi_params \<Rightarrow> u8 list \<Rightarrow> nat \<Rightarrow> u8 list" where
  "leb_data p buf i = take (nat (gi_leb_size (up_ui p))) (drop (i * nat (gi_leb_size (up_ui p))) buf)"

lemma block_of: "x * e \<le> a \<Longrightarrow> a < x * e + e \<Longrightarrow> a div e = (x :: int)"
  by (rule int_div_pos_eq [of a e x "a - x * e"]) simp_all

lemma buffer_split:
  assumes "int (length buf) = int (Suc n) * l" "0 < l"
  shows "int (length (take (nat l) buf)) = l" "int (length (drop (nat l) buf)) = int n * l" "l \<le> int (length buf)"
proof -
  define k where "k = int n * l"
  have "int (length buf) = k + l" "0 \<le> k" using assms by (simp_all add: k_def distrib_right)
  then show "int (length (take (nat l) buf)) = l" "int (length (drop (nat l) buf)) = int n * l" "l \<le> int (length buf)"
    using assms(2) by (simp_all flip: k_def)
qed

lemma block_bytes_cong: "0 < eb_size mtd \<Longrightarrow> (\<And>a. a div eb_size mtd = x \<Longrightarrow> c a = c' a) \<Longrightarrow> block_bytes mtd c x = block_bytes mtd c' x"
  by (auto simp: block_bytes_def block_of intro!: list.map_cong0)

lemma block_bytes_stored: "0 < eb_size mtd \<Longrightarrow> int (length img) = eb_size mtd \<Longrightarrow> block_bytes mtd (stored c (x * eb_size mtd) img) x = img"
  by (rule nth_equalityI) (auto simp: block_bytes_def stored_def)

lemma stored_outside: "0 < e \<Longrightarrow> int (length img) = e \<Longrightarrow> a div e \<noteq> x \<Longrightarrow> stored c (x * e) img a = c a"
  using block_of [of x e a] by (auto simp: stored_def)

lemma length_peb_of:
  "ubi_geometry mtd (up_ui p) \<Longrightarrow> int (length leb) = gi_leb_size (up_ui p) \<Longrightarrow> int (length (peb_of p vi lnum x leb)) = eb_size mtd"
  by (simp add: peb_of_def length_ubi_buffer [of mtd] ubi_geometry_def)

lemma distinct_good_ebs: "distinct (good_ebs mtd p eb)"
  by (simp add: good_ebs_def)

lemma write_volume_good:
  assumes dev: "ubi_device K mtd (fds w (part_id mtd)) cells pos" and t: "table_spans mtd w" and r: "outbuf_ready mtd p"
    and vi: "up_vi p = Some vi" "vi_usable_leb_size vi = gi_leb_size (up_ui p)" and q: "params fs = Some q" "p_max_size q \<noteq> 0"
    and n: "n \<le> length (good_ebs mtd p eb)" "0 \<le> eb" "int (length buf) = int n * gi_leb_size (up_ui p)"
  shows "\<exists>fs' out w'. ubi_write_volume K env mtd buf eb (int (length buf)) fs (p, c, w) = Some (next_eb mtd p eb n, fs',
      p\<lparr>up_outbuf := out, up_vid_hdr_lnum := up_vid_hdr_lnum p + int n, up_format_eb := next_eb mtd p eb n\<rparr>, c, w') \<and>
    fds w' = fds w \<and> table_spans mtd w' \<and> outbuf_ready mtd (p\<lparr>up_outbuf := out\<rparr>) \<and> 0 \<le> next_eb mtd p eb n \<and>
    cells (kern w') = stored_pebs (eb_size mtd) (volume_pebs p vi (up_vid_hdr_lnum p) (take n (good_ebs mtd p eb)) buf) (cells (kern w))"
proof -
  let ?xs = "take n (good_ebs mtd p eb)"
  have l: "0 < gi_leb_size (up_ui p)" using r by (simp add: outbuf_ready_def ubi_geometry_def)
  obtain fs' q' out w' where v: "volume_loop K env mtd vi (int (length buf)) buf eb (up_vid_hdr_lnum p) fs (p, c, w) =
      Some (next_eb mtd p eb n, up_vid_hdr_lnum p + int n, fs', p\<lparr>up_outbuf := out\<rparr>, c, w')"
    "params fs' = Some q'" "p_max_size q' = p_max_size q" "fds w' = fds w" "table_spans mtd w'" "outbuf_ready mtd (p\<lparr>up_outbuf := out\<rparr>)"
    "cells (kern w') = stored_pebs (eb_size mtd) (volume_pebs p vi (up_vid_hdr_lnum p) ?xs buf) (cells (kern w))"
    using volume_loop_stores [OF dev t r vi(2) q n, of env "up_vid_hdr_lnum p" c, folded n(3)] by (elim exE conjE) (rule that)
  obtain w'' where w'': "fs_progress env mtd fs' w' = Some w''" "kern w'' = kern w'" "fds w'' = fds w'" "block_map w'' = block_map w'"
    using fs_progress_reports [OF v(2), of env mtd w'] v(3) q(2) by auto
  have e: "0 \<le> next_eb mtd p eb n"
  proof (cases n)
    case (Suc k)
    then have "k < length (good_ebs mtd p eb)" using n(1) by simp
    from good_ebs_range [OF nth_mem [OF this]] show ?thesis using n(2) Suc by (simp add: next_eb_def)
  qed (use n(2) in \<open>simp add: next_eb_def\<close>)
  have m: "cmod (int (length buf)) (gi_leb_size (up_ui p)) = 0" using l by (simp add: n(3) cmod_def)
  have "ubi_write_volume K env mtd buf eb (int (length buf)) fs (p, c, w) = Some (next_eb mtd p eb n, fs',
      p\<lparr>up_outbuf := out, up_vid_hdr_lnum := up_vid_hdr_lnum p + int n, up_format_eb := next_eb mtd p eb n\<rparr>, c, w'')"
    using vi l m v(1) e w''(1) by (simp add: ubi_write_volume_def)
  then show ?thesis using v(4-7) w''(2,3) e table_spans_map [OF w''(4) v(5)] by auto
qed

end
