(* ===== verification/UbiSafe.thy ===== *)
theory UbiSafe
  imports UbiWrite
begin

text \<open>
  The UBIFS object over its whole life, whatever the kernel answers. After the operation that
  scans the partition, the other operations are the steps of a relation. A state they reach is
  well formed, and the calls they make stay in the blocks of the partition and, but for the
  query whether a block is bad, away from those the scan found bad.
\<close>

section \<open>Calls\<close>

fun is_query :: "kcall \<Rightarrow> bool" where
  "is_query (MEMGETBADBLOCK s) = True"
| "is_query _ = False"

definition allowed_call :: "mtd_dev \<Rightarrow> ubi_params \<Rightarrow> kcall \<Rightarrow> bool" where
  "allowed_call mtd p c \<longleftrightarrow> (\<exists>eb. mtd_valid_erase_block mtd eb \<and> in_block mtd eb c \<and> (eb_mark p eb = Some EB_BAD \<longrightarrow> is_query c))"

text \<open>From \<open>p\<close> to \<open>p'\<close> no mark of a bad block is lost and the layout is the same.\<close>

definition marks_kept :: "ubi_params \<Rightarrow> ubi_params \<Rightarrow> bool" where
  "marks_kept p p' \<longleftrightarrow> length (sc_ec (up_si p')) = length (sc_ec (up_si p)) \<and> up_ui p' = up_ui p \<and>
     (\<forall>eb. eb_mark p eb = Some EB_BAD \<longrightarrow> eb_mark p' eb = Some EB_BAD)"

text \<open>What every \<open>ubi\<close> is made of: a layout, a mark for every block, a block in the buffer, and the volume of that layout.\<close>

definition wf_ubi :: "mtd_dev \<Rightarrow> ubi_params \<Rightarrow> bool" where
  "wf_ubi mtd p \<longleftrightarrow> outbuf_ready mtd p \<and> (\<forall>vi. up_vi p = Some vi \<longrightarrow> vi_usable_leb_size vi = gi_leb_size (up_ui p))"

text \<open>A step of the work on a partition that was in the state \<open>p0\<close> when the operation began.\<close>

fun work_step :: "mtd_dev \<Rightarrow> ubi_params \<Rightarrow> 'k ubi_work \<Rightarrow> 'k ubi_work \<Rightarrow> bool" where
  "work_step mtd p0 (p, c, w) (p', c', w') \<longleftrightarrow> marks_kept p p' \<and> (wf_ubi mtd p \<longrightarrow> wf_ubi mtd p') \<and> extends (allowed_call mtd p0) w w'"

lemma marks_kept_refl [simp]: "marks_kept p p"
  by (simp add: marks_kept_def)

lemma marks_kept_trans: "marks_kept p p' \<Longrightarrow> marks_kept p' p'' \<Longrightarrow> marks_kept p p''"
  by (simp add: marks_kept_def)

lemma marks_kept_updates [simp]:
  "marks_kept p (p'\<lparr>up_outbuf := b\<rparr>) = marks_kept p p'" "marks_kept p (p'\<lparr>up_vid_hdr_lnum := n\<rparr>) = marks_kept p p'"
  "marks_kept p (p'\<lparr>up_format_eb := e\<rparr>) = marks_kept p p'" "marks_kept p (p'\<lparr>up_vi := v\<rparr>) = marks_kept p p'"
  "marks_kept p (p'\<lparr>up_vtbl := t\<rparr>) = marks_kept p p'" "marks_kept p (p'\<lparr>up_layout_volume_start_eb := e\<rparr>) = marks_kept p p'"
  "marks_kept p (p'\<lparr>up_max_beb_per1024 := m\<rparr>) = marks_kept p p'" "marks_kept p (p'\<lparr>up_ubi_reserved_blks := m\<rparr>) = marks_kept p p'"
  "marks_kept p (p'\<lparr>up_lebsize := m\<rparr>) = marks_kept p p'" "marks_kept p (p'\<lparr>up_vol_size := e\<rparr>) = marks_kept p p'"
  by (simp_all add: marks_kept_def eb_mark_def)

lemma marks_kept_good: "marks_kept p p' \<Longrightarrow> eb_mark p' eb \<noteq> Some EB_BAD \<Longrightarrow> eb_mark p eb \<noteq> Some EB_BAD"
  by (auto simp: marks_kept_def)

lemma marks_kept_bad:
  assumes "marks_kept p p'" shows "marks_kept p (p'\<lparr>up_si := note_eb eb EB_BAD (up_si p'\<lparr>sc_bad_cnt := n\<rparr>)\<rparr>)"
proof -
  have "(sc_ec (up_si p'))[nat eb := EB_BAD] ! nat e = EB_BAD" if "eb_mark p e = Some EB_BAD" for e
  proof -
    have "eb_mark p' e = Some EB_BAD" using assms that by (simp add: marks_kept_def)
    then show ?thesis by (cases "nat eb = nat e") (auto simp: eb_mark_def split: if_splits)
  qed
  then show ?thesis using assms unfolding marks_kept_def by (auto simp: eb_mark_def note_eb_def split: if_splits)
qed

lemma outbuf_ready_cong:
  "up_ui p' = up_ui p \<Longrightarrow> length (sc_ec (up_si p')) = length (sc_ec (up_si p)) \<Longrightarrow> up_outbuf p' = up_outbuf p \<Longrightarrow>
     outbuf_ready mtd p' = outbuf_ready mtd p"
  by (simp add: outbuf_ready_def)

lemma outbuf_ready_updates [simp]:
  "outbuf_ready mtd (p\<lparr>up_vid_hdr_lnum := n\<rparr>) = outbuf_ready mtd p" "outbuf_ready mtd (p\<lparr>up_format_eb := e\<rparr>) = outbuf_ready mtd p"
  "outbuf_ready mtd (p\<lparr>up_layout_volume_start_eb := e\<rparr>) = outbuf_ready mtd p" "outbuf_ready mtd (p\<lparr>up_vi := v\<rparr>) = outbuf_ready mtd p"
  "outbuf_ready mtd (p\<lparr>up_vtbl := t\<rparr>) = outbuf_ready mtd p" "outbuf_ready mtd (p\<lparr>up_start_eb := e\<rparr>) = outbuf_ready mtd p"
  "outbuf_ready mtd (p\<lparr>up_max_beb_per1024 := m\<rparr>) = outbuf_ready mtd p" "outbuf_ready mtd (p\<lparr>up_ubi_reserved_blks := m\<rparr>) = outbuf_ready mtd p"
  "outbuf_ready mtd (p\<lparr>up_lebsize := m\<rparr>) = outbuf_ready mtd p" "outbuf_ready mtd (p\<lparr>up_vol_size := e\<rparr>) = outbuf_ready mtd p"
  by (simp_all add: outbuf_ready_def)

lemma wf_ubi_updates [simp]:
  "wf_ubi mtd (p\<lparr>up_vid_hdr_lnum := n\<rparr>) = wf_ubi mtd p" "wf_ubi mtd (p\<lparr>up_format_eb := e\<rparr>) = wf_ubi mtd p"
  "wf_ubi mtd (p\<lparr>up_layout_volume_start_eb := e\<rparr>) = wf_ubi mtd p" "wf_ubi mtd (p\<lparr>up_vtbl := t\<rparr>) = wf_ubi mtd p"
  "wf_ubi mtd (p\<lparr>up_start_eb := e\<rparr>) = wf_ubi mtd p"
  by (simp_all add: wf_ubi_def)

lemma wf_ubi_bad: "wf_ubi mtd (p\<lparr>up_si := note_eb eb EB_BAD (up_si p\<lparr>sc_bad_cnt := n\<rparr>)\<rparr>) = wf_ubi mtd p"
proof -
  have "outbuf_ready mtd (p\<lparr>up_si := note_eb eb EB_BAD (up_si p\<lparr>sc_bad_cnt := n\<rparr>)\<rparr>) = outbuf_ready mtd p"
    by (rule outbuf_ready_cong) (simp_all add: note_eb_def)
  then show ?thesis by (simp add: wf_ubi_def)
qed

lemma work_refl [simp]: "work_step mtd p0 s s"
  by (cases s) simp

lemma work_trans [trans]: "work_step mtd p0 s s' \<Longrightarrow> work_step mtd p0 s' s'' \<Longrightarrow> work_step mtd p0 s s''"
  by (cases s; cases s'; cases s'') (auto intro: marks_kept_trans extends_trans)

lemma allowed_lib:
  "lib_step mtd eb w w' \<Longrightarrow> eb_mark p0 eb \<noteq> Some EB_BAD \<Longrightarrow> extends (allowed_call mtd p0) w w'"
  unfolding lib_step_def by (auto simp: allowed_call_def elim!: extends_mono)

lemma work_lib: "lib_step mtd eb w w' \<Longrightarrow> eb_mark p0 eb \<noteq> Some EB_BAD \<Longrightarrow> work_step mtd p0 (p, c, w) (p, c, w')"
  by (simp add: allowed_lib)

named_theorems work_steps

lemma work_mark_bad [work_steps]:
  assumes "mark_bad K mtd eb s = (r, s')" "eb_mark p0 eb \<noteq> Some EB_BAD"
  shows "work_step mtd p0 s s'"
proof -
  obtain p c w where s: "s = (p, c, w)" by (metis prod_cases3)
  obtain e w1 where e: "mtd_mark_bad K mtd (fds w (part_id mtd)) eb w = (e, w1)" by (metis surj_pair)
  have "extends (allowed_call mtd p0) w w1" by (rule allowed_lib [OF mtd_mark_bad_step [OF e] assms(2)])
  then show ?thesis using assms(1) e by (auto simp: mark_bad_def s Let_def marks_kept_bad wf_ubi_bad split: if_splits prod.splits)
qed

lemma work_give_up [work_steps]: "give_up_block K mtd eb s = (t, s') \<Longrightarrow> eb_mark p0 eb \<noteq> Some EB_BAD \<Longrightarrow> work_step mtd p0 s s'"
  by (auto simp: give_up_block_def dest: work_mark_bad split: prod.splits)

lemma work_map_set:
  assumes "mtd_bm_block_map_set eb st w = Some w'" shows "work_step mtd p0 (p, c, w) (p, c, w')"
  using assms by (auto simp: mtd_bm_block_map_set_def Let_def split: option.splits if_splits intro!: extends_same_trace)


lemma work_seq:
  assumes "\<And>w'. Q w' \<Longrightarrow> work_step mtd p0 s (p, c, w')" "Q w'" "work_step mtd p0 (p, c, w') s'" shows "work_step mtd p0 s s'"
  using assms work_trans by blast

section \<open>Blocks\<close>

lemma work_erase:
  assumes "mtd_erase K mtd fd eb w = (r, w')" "eb_mark p0 eb \<noteq> Some EB_BAD"
  shows "work_step mtd p0 (p, c, w) (p, c, w')"
  by (rule work_lib [OF mtd_erase_step [OF assms(1)] assms(2)])

lemma work_write:
  assumes "mtd_write K mtd fd eb offs d ob m w = (r, w')" "eb_mark p0 eb \<noteq> Some EB_BAD"
  shows "work_step mtd p0 (p, c, w) (p, c, w')"
  by (rule work_lib [OF mtd_write_step [OF assms(1)] assms(2)])

lemma work_torture:
  assumes "mtd_torture K mtd fd eb w = Some (r, w')" "eb_mark p0 eb \<noteq> Some EB_BAD" "0 \<le> eb_size mtd"
  shows "work_step mtd p0 (p, c, w) (p, c, w')"
  by (rule work_lib [OF mtd_torture_step [OF assms(1,3)] assms(2)])

lemma work_write_peb:
  assumes "write_peb K mtd eb e buf s = Some (t, buf', s')" "eb_mark p0 eb \<noteq> Some EB_BAD" "0 \<le> eb_size mtd"
  shows "work_step mtd p0 s s'"
proof -
  obtain p c w where s: "s = (p, c, w)" by (metis prod_cases3)
  let ?fd = "fds w (part_id mtd)"
  obtain err w1 where e: "mtd_erase K mtd ?fd eb w = (err, w1)" by (metis surj_pair)
  have a1: "work_step mtd p0 s (p, c, w1)" unfolding s by (rule work_erase [OF e assms(2)])
  show ?thesis
  proof (cases "err = 0")
    case False
    obtain r p2 c2 w2 where m: "mark_bad K mtd eb (p, c, w1) = (r, p2, c2, w2)" by (metis prod_cases4)
    have a2: "work_step mtd p0 s (p2, c2, w2)" by (rule work_trans [OF a1 work_mark_bad [OF m assms(2)]])
    show ?thesis
      using assms(1) e m False a1 a2 work_trans [OF a2 work_map_set] by (auto simp: write_peb_def s split: if_splits)
  next
    case True
    obtain w2 where w2: "mtd_bm_block_map_set (MTD_EB_RELATIVE_TO_ABSOLUTE mtd eb) MTD_BLK_ERASED w1 = Some w2"
      using assms(1) e True by (auto simp: write_peb_def s Let_def split: option.splits)
    have a2: "work_step mtd p0 s (p, c, w2)" by (rule work_trans [OF a1 work_map_set [OF w2]])
    obtain r b where b: "change_ech buf (gi_image_seq (up_ui p)) (next_ec p e) = (r, b)" by (metis surj_pair)
    let ?d = "take (nat (drop_ffs mtd (take (nat (eb_size mtd)) b))) b"
    obtain err' w3 where w3: "mtd_write K mtd ?fd eb 0 ?d None MTD_OPS_PLACE_OOB w2 = (err', w3)" by (metis surj_pair)
    have a3: "work_step mtd p0 s (p, c, w3)" by (rule work_trans [OF a2 work_write [OF w3 assms(2)]])
    have a4: "work_step mtd p0 s (p, c, w4)" if "mtd_torture K mtd ?fd eb w3 = Some (x, w4)" for x w4
      by (rule work_trans [OF a3 work_torture [OF that assms(2,3)]])
    have a5: "work_step mtd p0 s s5" if "mtd_torture K mtd ?fd eb w3 = Some (x, w4)" "give_up_block K mtd eb (p, c, w4) = (t, s5)" for x w4 t s5
      by (rule work_trans [OF a4 [OF that(1)] work_give_up [OF that(2) assms(2)]])
    show ?thesis
      using assms(1) e w2 b w3 True a2 a3 a4 a5
      by (auto simp: write_peb_def s Let_def split: if_splits option.splits prod.splits)
  qed
qed

lemma work_write_one_peb:
  "ubi_write_one_peb K mtd eb buf s = Some (r, buf', s') \<Longrightarrow> marks_kept p0 (fst s) \<Longrightarrow> 0 \<le> eb_size mtd \<Longrightarrow> work_step mtd p0 s s'"
proof (induction K mtd eb buf s rule: ubi_write_one_peb.induct)
  case (1 K mtd eb buf s)
  show ?case
  proof (cases "eb < eb_cnt mtd")
    case False
    then show ?thesis using 1(3) by (simp add: ubi_write_one_peb.simps)
  next
    case True
    then obtain e where e: "eb_mark (fst s) eb = Some e" using 1(3) by (auto simp: ubi_write_one_peb.simps split: option.splits)
    show ?thesis
    proof (cases "e = EB_BAD")
      case bad: True
      then show ?thesis using 1 True e by (simp add: ubi_write_one_peb.simps)
    next
      case False
      have g: "eb_mark p0 eb \<noteq> Some EB_BAD" using marks_kept_good [OF 1(4)] e False by simp
      obtain t b s1 where w: "write_peb K mtd eb e buf s = Some (t, b, s1)"
        using 1(3) True e False by (auto simp: ubi_write_one_peb.simps split: option.splits)
      have a: "work_step mtd p0 s s1" by (rule work_write_peb [OF w g 1(5)])
      have "marks_kept p0 (fst s1)" using a 1(4) by (cases s; cases s1) (auto intro: marks_kept_trans)
      then show ?thesis
        using 1(2) [OF True e False w refl] 1(3,5) True e False w a
        by (cases t) (auto simp: ubi_write_one_peb.simps intro: work_trans)
    qed
  qed
qed

lemma work_kept: "work_step mtd p0 s s' \<Longrightarrow> marks_kept p (fst s) \<Longrightarrow> marks_kept p (fst s')"
  by (cases s; cases s') (auto intro: marks_kept_trans)

section \<open>The volume, its table and the rest\<close>

lemma work_process_info: "set_process_info env mtd' t a b w = Some w' \<Longrightarrow> work_step mtd p0 (p, c, w) (p, c, w')"
  by (auto simp: set_process_info_def split: if_splits intro!: extends_same_trace)

lemma work_progress: "fs_progress env mtd' fs w = Some w' \<Longrightarrow> work_step mtd p0 (p, c, w) (p, c, w')"
  by (auto simp: fs_progress_def split: option.splits dest: work_process_info)

lemma write_peb_buffer:
  "write_peb K mtd eb e (ubi_buffer (up_ui p) ec v d) (p, c, w) = Some (t, b, s') \<Longrightarrow>
     up_ui (fst s') = up_ui p \<and> (\<exists>ec'. b = ubi_buffer (up_ui p) ec' v d)"
  by (auto simp: write_peb_def change_ech_buffer give_up_block_def mark_bad_def Let_def split: if_splits option.splits prod.splits)

lemma write_one_peb_buffer:
  "ubi_write_one_peb K mtd eb (ubi_buffer ui ec v d) s = Some (r, b, s') \<Longrightarrow> up_ui (fst s) = ui \<Longrightarrow> \<exists>ec'. b = ubi_buffer ui ec' v d"
proof (induction "nat (eb_cnt mtd - eb)" arbitrary: eb ec s rule: less_induct)
  case less
  obtain p c w where s: "s = (p, c, w)" by (metis prod_cases3)
  have ui: "up_ui p = ui" using less.prems(2) s by simp
  show ?case
  proof (cases "eb < eb_cnt mtd")
    case False
    then show ?thesis using less.prems(1) by (auto simp: ubi_write_one_peb.simps)
  next
    case True
    have IH: "\<exists>ec'. b = ubi_buffer ui ec' v d" if "ubi_write_one_peb K mtd (eb + 1) (ubi_buffer ui ec1 v d) s1 = Some (r, b, s')" "up_ui (fst s1) = ui" for ec1 s1
      using less.hyps [of "eb + 1"] True that by simp
    obtain e where e: "eb_mark p eb = Some e" using less.prems(1) True s by (auto simp: ubi_write_one_peb.simps split: option.splits)
    show ?thesis
    proof (cases "e = EB_BAD")
      case bad: True
      then show ?thesis using IH less.prems True e s by (simp add: ubi_write_one_peb.simps)
    next
      case False
      obtain t b1 s1 where w: "write_peb K mtd eb e (ubi_buffer ui ec v d) s = Some (t, b1, s1)"
        using less.prems(1) True e False s by (auto simp: ubi_write_one_peb.simps split: option.splits)
      then obtain ec1 where "up_ui (fst s1) = ui" "b1 = ubi_buffer ui ec1 v d"
        using write_peb_buffer [of K mtd eb e p ec v d c w t b1 s1] ui s by auto
      then show ?thesis
        using IH less.prems(1) True e False w s by (cases t) (auto simp: ubi_write_one_peb.simps)
    qed
  qed
qed

text \<open>The buffer after a logical block was written is a block again.\<close>

lemma written_ready:
  assumes o: "ubi_write_one_peb K mtd eb (leb_image (up_ui p) vi lnum leb (up_outbuf p)) (p, c, w) = Some (r, b, p2, s2)"
    and r: "outbuf_ready mtd p" and u: "vi_usable_leb_size vi = gi_leb_size (up_ui p)" "int (length leb) = gi_leb_size (up_ui p)"
    and p2: "up_ui p2 = up_ui p" "length (sc_ec (up_si p2)) = length (sc_ec (up_si p))"
  shows "outbuf_ready mtd (p2\<lparr>up_outbuf := b\<rparr>)"
proof -
  let ?ui = "up_ui p" and ?V = "vid_hdr_bytes (ubigen_init_vid_hdr (up_ui p) vi lnum leb)"
  obtain ec v d where i: "up_outbuf p = ubi_buffer ?ui ec v d" "length v = 64" "int (length d) = gi_peb_size ?ui - gi_data_offs ?ui"
    and g: "ubi_geometry mtd ?ui" and n: "int (length (sc_ec (up_si p))) = eb_cnt mtd"
    using r unfolding outbuf_ready_def by blast
  have img: "leb_image ?ui vi lnum leb (up_outbuf p) = ubi_buffer ?ui ec ?V leb"
    unfolding i(1) by (rule leb_image_buffer [OF g i(2,3) u])
  obtain ec' where b: "b = ubi_buffer ?ui ec' ?V leb" using write_one_peb_buffer [OF o [unfolded img]] by auto
  have "int (length leb) = gi_peb_size ?ui - gi_data_offs ?ui" using g u(2) by (simp add: ubi_geometry_def)
  then have "ubi_buffer ?ui ec' ?V leb = ubi_buffer ?ui ec' ?V leb \<and> length ?V = 64 \<and> int (length leb) = gi_peb_size ?ui - gi_data_offs ?ui" by simp
  then show ?thesis using g n p2 unfolding outbuf_ready_def b by fastforce
qed

lemma work_volume_loop:
  "volume_loop K env mtd vi bytes buf eb lnum fs s = Some (r, l, fs', s') \<Longrightarrow> marks_kept p0 (fst s) \<Longrightarrow> 0 \<le> eb_size mtd \<Longrightarrow>
     vi_usable_leb_size vi = gi_leb_size (up_ui p0) \<Longrightarrow> work_step mtd p0 s s'"
proof (induction K env mtd vi bytes buf eb lnum fs s rule: volume_loop.induct)
  case (1 K env mtd vi bytes buf eb lnum fs s)
  obtain p c w where s: "s = (p, c, w)" by (metis prod_cases3)
  show ?case
  proof (cases "bytes > 0")
    case False
    then show ?thesis using 1(2) by (simp add: volume_loop.simps)
  next
    case True
    obtain w1 where w1: "fs_progress env mtd fs w = Some w1"
      using 1(2) True by (auto simp: volume_loop.simps s split: option.splits)
    let ?n = "vi_usable_leb_size vi"
    let ?out = "leb_image (up_ui p) vi lnum (take (nat ?n) buf) (up_outbuf p)"
    have n: "\<not> (?n \<le> 0 \<or> int (length buf) < ?n)"
      using 1(2) True w1 by (auto simp: volume_loop.simps s Let_def split: if_splits)
    obtain err b p2 c2 w2 where o: "ubi_write_one_peb K mtd eb ?out (p, c, w1) = Some (err, b, p2, c2, w2)"
      using 1(2) True w1 n by (auto simp: volume_loop.simps s Let_def split: option.splits)
    have a1: "work_step mtd p0 s (p, c, w1)" unfolding s by (rule work_progress [OF w1])
    have k: "marks_kept p0 p" using 1(3) s by simp
    have a2: "work_step mtd p0 (p, c, w1) (p2, c2, w2)" using work_write_one_peb [OF o _ 1(4)] k by simp
    have k2: "marks_kept p p2" and k3: "marks_kept p0 p2" using a2 k by (auto intro: marks_kept_trans)
    have u: "?n = gi_leb_size (up_ui p)" using 1(5) k by (simp add: marks_kept_def)
    have "0 < ?n" "?n \<le> int (length buf)" using n by simp_all
    then have leb: "int (length (take (nat ?n) buf)) = gi_leb_size (up_ui p)" unfolding u [symmetric] by simp
    have wf: "wf_ubi mtd (p2\<lparr>up_outbuf := b\<rparr>)" if "wf_ubi mtd p"
    proof -
      have "outbuf_ready mtd p" "up_ui p2 = up_ui p" "length (sc_ec (up_si p2)) = length (sc_ec (up_si p))"
        using that k2 by (simp_all add: wf_ubi_def marks_kept_def)
      then have "outbuf_ready mtd (p2\<lparr>up_outbuf := b\<rparr>)" using written_ready [OF o _ u leb] by blast
      moreover have "wf_ubi mtd p2" using a2 that by simp
      ultimately show ?thesis by (simp add: wf_ubi_def)
    qed
    then have "work_step mtd p0 (p, c, w1) (p2\<lparr>up_outbuf := b\<rparr>, c2, w2)" using a2 by simp
    then have a3: "work_step mtd p0 s (p2\<lparr>up_outbuf := b\<rparr>, c2, w2)" by (rule work_trans [OF a1])
    show ?thesis
    proof (cases "err < 0")
      case err: True
      then show ?thesis using 1(2) True w1 n o a3 by (auto simp: volume_loop.simps s Let_def)
    next
      case False
      have "volume_loop K env mtd vi (bytes - ?n) (drop (nat ?n) buf) err (lnum + 1) (p_progress_add ?n fs) (p2\<lparr>up_outbuf := b\<rparr>, c2, w2)
          = Some (r, l, fs', s')"
        using 1(2) True w1 n o False by (auto simp: volume_loop.simps s Let_def)
      with 1(1) [OF True _ _ w1 refl n refl o] False s k3 1(4,5) have "work_step mtd p0 (p2\<lparr>up_outbuf := b\<rparr>, c2, w2) s'" by simp
      then show ?thesis by (rule work_trans [OF a3])
    qed
  qed
qed

lemma work_write_volume:
  assumes "ubi_write_volume K env mtd buf eb len fs s = Some (r, fs', s')" "marks_kept p0 (fst s)" "0 \<le> eb_size mtd" "wf_ubi mtd (fst s)"
  shows "work_step mtd p0 s s'"
proof -
  obtain p c w where s: "s = (p, c, w)" by (metis prod_cases3)
  have e: "work_step mtd p0 s (p, c, set_errno EINVAL w)" by (simp add: s extends_same_trace set_errno_def)
  have a: "work_step mtd p0 s (p2, c2, w3)"
    if "volume_loop K env mtd vi len buf eb l0 fs s = Some (r2, l, fs2, p2, c2, w2)" "fs_progress env mtd fs2 w2 = Some w3 \<or> w3 = w2"
      "up_vi p = Some vi" for vi l0 r2 l fs2 p2 c2 w2 w3
  proof -
    have "vi_usable_leb_size vi = gi_leb_size (up_ui p0)"
      using that(3) assms(2,4) s by (auto simp: wf_ubi_def marks_kept_def)
    with work_volume_loop [OF that(1) assms(2,3)] have "work_step mtd p0 s (p2, c2, w2)" by blast
    then show ?thesis using that(2) work_progress work_trans by blast
  qed
  show ?thesis
    using assms(1) e a by (fastforce simp: ubi_write_volume_def s split: option.splits if_splits)
qed

lemma work_layout_vol:
  assumes "ubi_write_layout_vol K mtd eb ec1 ec2 vtbl s = Some (r, s')" "marks_kept p0 (fst s)" "0 \<le> eb_size mtd"
  shows "work_step mtd p0 s s'"
proof -
  have two: "work_step mtd p0 s s2"
    if "ubi_write_one_peb K mtd eb b s = Some (r1, o1, s1)" "ubi_write_one_peb K mtd r1 b' s1 = Some (r2, o2, s2)" for b b' r1 o1 s1 r2 o2 s2
  proof -
    have a: "work_step mtd p0 s s1" by (rule work_write_one_peb [OF that(1) assms(2,3)])
    show ?thesis by (rule work_trans [OF a work_write_one_peb [OF that(2) work_kept [OF a assms(2)] assms(3)]])
  qed
  show ?thesis
    using assms(1) by (auto simp: ubi_write_layout_vol_def Let_def split: option.splits if_splits
        intro: two work_write_one_peb [OF _ assms(2,3)])
qed

lemma work_format_header:
  assumes "format_header K mtd eb ec s = Some (ok, s')" "eb_mark p0 eb \<noteq> Some EB_BAD" "0 \<le> eb_size mtd"
  shows "work_step mtd p0 s s'"
proof -
  obtain p c w where s: "s = (p, c, w)" by (metis prod_cases3)
  let ?fd = "fds w (part_id mtd)"
  let ?hdr = "put_bytes (replicate (nat (round_up UBI_EC_HDR_SIZE (subpage_size mtd))) 0xff) 0 (ec_hdr_bytes (ubigen_init_ec_hdr (up_ui p) ec))"
  obtain err w1 where w1: "mtd_write K mtd ?fd eb 0 ?hdr None MTD_OPS_PLACE_OOB w = (err, w1)" by (metis surj_pair)
  have a1: "work_step mtd p0 s (p, c, w1)" unfolding s by (rule work_write [OF w1 assms(2)])
  have a2: "work_step mtd p0 s (p, c, w2)" if "mtd_torture K mtd ?fd eb w1 = Some (x, w2)" for x w2
    by (rule work_trans [OF a1 work_torture [OF that assms(2,3)]])
  have a3: "work_step mtd p0 s s3" if "mtd_torture K mtd ?fd eb w1 = Some (x, w2)" "mark_bad K mtd eb (p, c, w2) = (y, s3)" for x w2 y s3
    by (rule work_trans [OF a2 [OF that(1)] work_mark_bad [OF that(2) assms(2)]])
  show ?thesis
    using assms(1) w1 a1 a2 a3 by (auto simp: format_header_def s Let_def split: if_splits option.splits prod.splits)
qed

lemma work_format_erase:
  assumes "format_erase K mtd eb s = Some (t, s')" "eb_mark p0 eb \<noteq> Some EB_BAD"
  shows "work_step mtd p0 s s'"
proof -
  obtain p c w where s: "s = (p, c, w)" by (metis prod_cases3)
  obtain err w1 where e: "mtd_erase K mtd (fds w (part_id mtd)) eb w = (err, w1)" by (metis surj_pair)
  have a1: "work_step mtd p0 s (p, c, w1)" unfolding s by (rule work_erase [OF e assms(2)])
  obtain t2 p2 c2 w2 where g: "give_up_block K mtd eb (p, c, w1) = (t2, p2, c2, w2)" by (metis prod_cases4)
  have a2: "work_step mtd p0 s (p2, c2, w2)" by (rule work_trans [OF a1 work_give_up [OF g assms(2)]])
  show ?thesis
    using assms(1) e g a1 a2 work_trans [OF a1 work_map_set] work_trans [OF a2 work_map_set]
    by (cases t2) (auto simp: format_erase_def s Let_def split: if_splits)
qed

lemma work_format_loop:
  "format_loop K env mtd start novtbl eb t1 t2 s = Some (ok, eb', t1', t2', s') \<Longrightarrow> marks_kept p0 (fst s) \<Longrightarrow> 0 \<le> eb_size mtd \<Longrightarrow>
     work_step mtd p0 s s'"
proof (induction "nat (eb_cnt mtd - eb)" arbitrary: eb t1 t2 s rule: less_induct)
  case less
  note run = less.prems(1) and k = less.prems(2) and size = less.prems(3)
  obtain p c w where s: "s = (p, c, w)" by (metis prod_cases3)
  show ?case
  proof (cases "eb < eb_cnt mtd")
    case False
    then show ?thesis using run by (simp add: format_loop.simps)
  next
    case True
    have IH: "work_step mtd p0 s1 s'" if "format_loop K env mtd start novtbl (eb + 1) t1 t2 s1 = Some (ok, eb', t1', t2', s')"
        "marks_kept p0 (fst s1)" for t1 t2 s1
      using less.hyps [of "eb + 1"] True that size by simp
    obtain w1 where w1: "set_process_info env mtd BM_OPERATION_FORMAT (eb - start) (eb_cnt mtd - start) w = Some w1"
      using run True by (auto simp: format_loop.simps s split: option.splits)
    obtain e where e: "eb_mark p eb = Some e" using run True w1 by (auto simp: format_loop.simps s split: option.splits)
    have a1: "work_step mtd p0 s (p, c, w1)" unfolding s by (rule work_process_info [OF w1])
    have kp: "marks_kept p0 p" using k s by simp
    show ?thesis
    proof (cases "e = EB_BAD")
      case bad: True
      have "work_step mtd p0 (p, c, w1) s'" using IH [of t1 t2] run True w1 e bad kp by (simp add: format_loop.simps s)
      then show ?thesis by (rule work_trans [OF a1])
    next
      case False
      have g: "eb_mark p0 eb \<noteq> Some EB_BAD" using marks_kept_good [OF kp] e False by simp
      obtain t s1 where f: "format_erase K mtd eb (p, c, w1) = Some (t, s1)"
        using run True w1 e False by (auto simp: format_loop.simps s Let_def split: option.splits)
      have a2: "work_step mtd p0 s s1" by (rule work_trans [OF a1 work_format_erase [OF f g]])
      have k1: "marks_kept p0 (fst s1)" by (rule work_kept [OF a2 k])
      have hd: "work_step mtd p0 s s2" "marks_kept p0 (fst s2)" if "format_header K mtd eb (next_ec p e) s1 = Some (x, s2)" for x s2
        using work_trans [OF a2 work_format_header [OF that g size]] work_kept k by blast+
      show ?thesis
      proof (cases t)
        case TrialGood
        let ?goes_on = "\<lambda>s1. \<exists>u1 u2. format_loop K env mtd start novtbl (eb + 1) u1 u2 s1 = Some (ok, eb', t1', t2', s')"
        have "?goes_on s1 \<or> (\<exists>x s2. format_header K mtd eb (next_ec p e) s1 = Some (x, s2) \<and> (s' = s2 \<or> ?goes_on s2))"
          using run True w1 e False f TrialGood
          by (simp add: format_loop.simps [of K env mtd start novtbl eb] s Let_def del: split_paired_Ex split: if_splits option.splits prod.splits) blast+
        then show ?thesis using work_trans [OF a2 IH [OF _ k1]] hd work_trans [OF hd(1) IH [OF _ hd(2)]] by blast
      next
        case TrialBad
        have "format_loop K env mtd start novtbl (eb + 1) t1 t2 s1 = Some (ok, eb', t1', t2', s')"
          using run True w1 e False f TrialBad by (simp add: format_loop.simps [of K env mtd start novtbl eb] s)
        then show ?thesis by (rule work_trans [OF a2 IH [OF _ k1]])
      next
        case TrialFatal
        then show ?thesis using run True w1 e False f a2 by (simp add: format_loop.simps [of K env mtd start novtbl eb] s)
      qed
    qed
  qed
qed

lemma work_format_tail:
  assumes "ubi_format_tail K env mtd start novtbl s = Some (r, s')" "marks_kept p0 (fst s)" "0 \<le> eb_size mtd"
  shows "work_step mtd p0 s s'"
proof -
  obtain ok eb t1 t2 s1 where f: "format_loop K env mtd start novtbl start None None s = Some (ok, eb, t1, t2, s1)"
    using assms(1) by (auto simp: ubi_format_tail_def split: option.splits)
  have a1: "work_step mtd p0 s s1" by (rule work_format_loop [OF f assms(2,3)])
  have a2: "work_step mtd p0 s s2" if "ubi_write_layout_vol K mtd b1 e1 e2 v s1 = Some (x, s2)" for b1 e1 e2 v x s2
    by (rule work_trans [OF a1 work_layout_vol [OF that work_kept [OF a1 assms(2)] assms(3)]])
  have a3: "work_step mtd p0 s (p, c, w')" if "work_step mtd p0 s (p, c, w)" "set_process_info env mtd BM_OPERATION_FORMAT x y w = Some w'" for p c w w' x y
    by (rule work_trans [OF that(1) work_process_info [OF that(2)]])
  show ?thesis
    using assms(1) f a1 a2 a3
    by (cases s1) (fastforce simp: ubi_format_tail_def split: if_splits option.splits prod.splits)
qed

section \<open>Scanning for room\<close>

lemma allowed_is_bad:
  assumes "mtd_is_bad K mtd fd eb w = (r, w')" shows "extends (allowed_call mtd p0) w w'"
proof (cases "mtd_valid_erase_block mtd eb \<and> bb_allowed mtd")
  case True
  then have "allowed_call mtd p0 (MEMGETBADBLOCK (eb * eb_size mtd))" by (auto simp: allowed_call_def)
  then show ?thesis using assms True by (auto simp: mtd_is_bad_def Let_def split: if_splits prod.splits intro: extends_syscall)
next
  case False
  then show ?thesis using assms by (auto simp: mtd_is_bad_def Let_def extends_same_trace set_errno_def split: if_splits)
qed

lemma map_set_trace: "mtd_bm_block_map_set x st w = Some w' \<Longrightarrow> trace w' = trace w"
  by (auto simp: mtd_bm_block_map_set_def Let_def split: option.splits if_splits)

lemma allowed_scan_block:
  assumes "scan_block K mtd n eb w = Some (v, w')" shows "extends (allowed_call mtd p0) w w'"
proof -
  let ?abs = "MTD_EB_RELATIVE_TO_ABSOLUTE mtd eb"
  obtain t b where tb: "mtd_bm_block_map_is_taged w ?abs = Some t" "mtd_bm_block_map_is_bad w ?abs = Some b"
    using assms by (auto simp: scan_block_def Let_def split: option.splits)
  show ?thesis
  proof (cases "t \<and> \<not> b")
    case True
    then show ?thesis using assms tb by (simp add: scan_block_def)
  next
    case False
    then obtain w1 where w1: "mtd_bm_block_map_set ?abs MTD_BLK_SCAN w = Some w1"
      using assms tb by (auto simp: scan_block_def Let_def split: option.splits if_splits)
    obtain r w2 where w2: "mtd_is_bad K mtd (fds w1 (part_id mtd)) eb w1 = (r, w2)" by (metis surj_pair)
    have c1: "extends (allowed_call mtd p0) w w1" by (rule extends_same_trace [OF map_set_trace [OF w1]])
    have c2: "extends (allowed_call mtd p0) w w2" by (rule extends_trans [OF c1 allowed_is_bad [OF w2]])
    have "trace w' = trace w1 \<or> trace w' = trace w2"
      using assms tb False w1 w2 by (auto simp: scan_block_def Let_def split: if_splits dest: map_set_trace)
    then show ?thesis using c1 c2 by (auto simp: extends_def)
  qed
qed

lemma allowed_scan_loop: "scan_loop K mtd n t eb pass w = Some (ok, e, w') \<Longrightarrow> extends (allowed_call mtd p0) w w'"
proof (induction K mtd n t eb pass w rule: scan_loop.induct)
  case (1 K mtd n t eb pass w)
  show ?case
  proof (cases "eb < eb_cnt mtd")
    case False
    then show ?thesis using 1(3) by (simp add: scan_loop.simps)
  next
    case True
    then obtain v w1 where v: "scan_block K mtd n eb w = Some (v, w1)"
      using 1(3) by (auto simp: scan_loop.simps split: option.splits)
    note c = allowed_scan_block [OF v, of p0]
    show ?thesis using 1 True v c by (cases v) (auto simp: scan_loop.simps split: if_splits intro: extends_trans)
  qed
qed

lemma allowed_block_scan:
  assumes "mtd_block_scan K env fs w = Some (r, w')" "fs_mtd fs = Some mtd" shows "extends (allowed_call mtd p0) w w'"
proof -
  have i: "extends (allowed_call mtd p0) w (mtd_bm_block_map_init env mtd w)"
    by (auto simp: mtd_bm_block_map_init_def Let_def extends_same_trace split: option.splits)
  show ?thesis
    using assms i by (auto simp: mtd_block_scan_def fs_mtd_def Let_def split: option.splits if_splits
        dest!: extends_trans [OF i allowed_scan_loop])
qed

section \<open>The operations as steps\<close>

text \<open>The operations of \<open>fs_ubifs\<close> after the one that scans; \<open>fs\<close> and the results are arbitrary.\<close>

inductive ubifs_step :: "'k kernel \<Rightarrow> bm_env \<Rightarrow> mtd_dev \<Rightarrow> (ubi_state, 'k) mach \<Rightarrow> (ubi_state, 'k) mach \<Rightarrow> bool"
  for K :: "'k kernel" and env mtd where
  step_erase: "ubifs_erase fs m = Some (r, fs', m') \<Longrightarrow> ubifs_step K env mtd m m'"
| step_write: "fs_mtd fs = Some mtd \<Longrightarrow> ubifs_write K env fs m = Some (r, fs', m') \<Longrightarrow> ubifs_step K env mtd m m'"
| step_format: "ubi_format fs m = Some (r, fs', m') \<Longrightarrow> ubifs_step K env mtd m m'"
| step_done: "fs_mtd fs = Some mtd \<Longrightarrow> ubifs_done K env fs m = Some (r, m') \<Longrightarrow> ubifs_step K env mtd m m'"
| step_leb_size: "ubifs_get_leb_size fs m = Some (v, m') \<Longrightarrow> ubifs_step K env mtd m m'"
| step_max_mapped: "fs_mtd fs = Some mtd \<Longrightarrow> ubifs_get_max_mapped_size_in_partition K env fs m = Some (r, m') \<Longrightarrow> ubifs_step K env mtd m m'"

text \<open>What holds along a run that began with \<open>p0\<close> in the world \<open>w0\<close>.\<close>

fun run_inv :: "mtd_dev \<Rightarrow> ubi_params \<Rightarrow> 'k world \<Rightarrow> (ubi_state, 'k) mach \<Rightarrow> bool" where
  "run_inv mtd p0 w0 (u, w) \<longleftrightarrow> extends (allowed_call mtd p0) w0 w \<and>
     (case us_ubi u of None \<Rightarrow> True | Some p \<Rightarrow> marks_kept p0 p \<and> wf_ubi mtd p)"

lemma wf_ubi_size: "wf_ubi mtd p \<Longrightarrow> 0 < eb_size mtd"
  by (auto simp: wf_ubi_def outbuf_ready_def ubi_geometry_def)

lemma run_work:
  assumes "run_inv mtd p0 w0 (u, w)" "us_ubi u = Some p" "work_step mtd p0 (p, us_run u, w) s"
  shows "run_inv mtd p0 w0 (put_ubi b s)" "marks_kept p0 (fst s)" "wf_ubi mtd (fst s)"
  using assms by (cases s; auto simp: put_ubi_def intro: extends_trans marks_kept_trans)+

lemma run_write:
  assumes "ubifs_write K env fs m = Some (r, fs', m')" "fs_mtd fs = Some mtd" "run_inv mtd p0 w0 m"
  shows "run_inv mtd p0 w0 m'"
proof -
  obtain u w where m: "m = (u, w)" by (cases m)
  show ?thesis
  proof (cases "us_ubi u")
    case None
    then show ?thesis using assms by (auto simp: ubifs_write_def m fs_mtd_def split: option.splits)
  next
    case (Some p)
    then have p: "marks_kept p0 p" "wf_ubi mtd p" using assms(3) m by simp_all
    have "run_inv mtd p0 w0 (put_ubi b s)" if "ubi_write_volume K env mtd buf eb len fs (p, us_run u, w) = Some (x, fs2, s)" for b buf eb len x fs2 s
      using run_work(1) [OF assms(3) [unfolded m] Some work_write_volume [OF that]] p wf_ubi_size [OF p(2)] by simp
    then show ?thesis
      using assms(1,2) Some by (auto simp: ubifs_write_def m fs_mtd_def Let_def split: option.splits if_splits)
  qed
qed

lemma run_done:
  assumes "ubifs_done K env fs m = Some (r, m')" "fs_mtd fs = Some mtd" "run_inv mtd p0 w0 m"
  shows "run_inv mtd p0 w0 m'"
proof -
  obtain u w where m: "m = (u, w)" by (cases m)
  obtain p where p: "us_ubi u = Some p" using assms(1,2) by (auto simp: ubifs_done_def m split: option.splits)
  then have k: "marks_kept p0 p" "wf_ubi mtd p" using assms(3) m by simp_all
  have size: "0 \<le> eb_size mtd" using wf_ubi_size [OF k(2)] by simp
  note R = run_work [OF assms(3) [unfolded m] p]
  have a: "work_step mtd p0 (p, us_run u, w) s" if "ubi_write_layout_vol K mtd e1 e2 e3 t (p, us_run u, w) = Some (x, s)" for e1 e2 e3 t x s
    using work_layout_vol [OF that] k(1) size by simp
  have b: "work_step mtd p0 (p, us_run u, w) s2"
    if "ubi_write_layout_vol K mtd e1 e2 e3 t (p, us_run u, w) = Some (x, s)" "ubi_format_tail K env mtd f True s = Some (y, s2)"
    for e1 e2 e3 t x s f y s2
    by (rule work_trans [OF a [OF that(1)] work_format_tail [OF that(2) R(2) [OF a [OF that(1)]] size]])
  show ?thesis
    using assms(1,2) p R(1) [OF a] R(1) [OF b]
    by (auto simp: ubifs_done_def m fs_mtd_def Let_def split: option.splits if_splits)
qed

lemma generate_vi_info_wf:
  assumes "ubi_generate_vi_info len p = Some (r, p')" "marks_kept p0 p" "wf_ubi mtd p"
  shows "marks_kept p0 p' \<and> wf_ubi mtd p'"
  using assms by (auto simp: ubi_generate_vi_info_def Let_def wf_ubi_def split: if_splits option.splits prod.splits)

lemma volume_params_wf:
  assumes "ubi_volume_params_set len p = Some (r, p')" "marks_kept p0 p" "wf_ubi mtd p"
  shows "marks_kept p0 p' \<and> wf_ubi mtd p'"
proof -
  have "wf_ubi mtd (p\<lparr>up_vtbl := t, up_max_beb_per1024 := a, up_ubi_reserved_blks := b, up_lebsize := c, up_vol_size := d\<rparr>)" for t a b c d
    using assms(3) by (simp add: wf_ubi_def)
  moreover have "marks_kept p0 (p\<lparr>up_vtbl := t, up_max_beb_per1024 := a, up_ubi_reserved_blks := b, up_lebsize := c, up_vol_size := d\<rparr>)" for t a b c d
    using assms(2) by simp
  ultimately show ?thesis
    using assms(1) by (auto simp: ubi_volume_params_set_def Let_def split: option.splits if_splits dest!: generate_vi_info_wf)
qed

lemma run_max_mapped:
  assumes "ubifs_get_max_mapped_size_in_partition K env fs m = Some (r, m')" "fs_mtd fs = Some mtd" "run_inv mtd p0 w0 m"
  shows "run_inv mtd p0 w0 m'"
proof -
  obtain u w where m: "m = (u, w)" by (cases m)
  have fs: "fs_mtd (fs\<lparr>params := Some (q\<lparr>p_length := l\<rparr>)\<rparr>) = Some mtd" if "params fs = Some q" for q l
    using assms(2) that by (simp add: fs_mtd_def)
  show ?thesis
  proof (cases "us_ubi u")
    case None
    then show ?thesis using assms by (auto simp: ubifs_get_max_mapped_size_in_partition_def m split: option.splits)
  next
    case (Some p)
    then have k: "extends (allowed_call mtd p0) w0 w" "marks_kept p0 p" "wf_ubi mtd p" using assms(3) m by simp_all
    have v: "marks_kept p0 p' \<and> wf_ubi mtd p'" if "ubi_volume_params_set len p = Some (x, p')" for len x p'
      by (rule volume_params_wf [OF that k(2,3)])
    have sc: "extends (allowed_call mtd p0) w0 w'" if "params fs = Some q" "mtd_block_scan K env (fs\<lparr>params := Some (q\<lparr>p_length := l\<rparr>)\<rparr>) w = Some (x, w')" for q l x w'
      by (rule extends_trans [OF k(1) allowed_block_scan [OF that(2) fs [OF that(1)]]])
    show ?thesis
      using assms(1) Some k(1) v sc
      by (auto simp: ubifs_get_max_mapped_size_in_partition_def m Let_def release_def split: option.splits if_splits)
  qed
qed

lemma run_step: "ubifs_step K env mtd m m' \<Longrightarrow> run_inv mtd p0 w0 m \<Longrightarrow> run_inv mtd p0 w0 m'"
proof (induction rule: ubifs_step.induct)
  case (step_erase fs m r fs' m')
  then show ?case by (cases m) (auto simp: ubifs_erase_def Let_def split: option.splits)
next
  case (step_format fs m r fs' m')
  then show ?case by (cases m) (auto simp: ubi_format_def split: option.splits)
next
  case (step_leb_size fs m v m')
  then show ?case by (cases m) (auto simp: ubifs_get_leb_size_def split: option.splits)
qed (blast intro: run_write run_done run_max_mapped)+

lemma run_steps: "(ubifs_step K env mtd)\<^sup>*\<^sup>* m m' \<Longrightarrow> run_inv mtd p0 w0 m \<Longrightarrow> run_inv mtd p0 w0 m'"
  by (induction rule: rtranclp_induct) (blast intro: run_step)+

section \<open>The scan\<close>

definition room_for_data :: "mtd_dev \<Rightarrow> bool" where
  "room_for_data mtd \<longleftrightarrow> gi_data_offs (ubigen_info_init (eb_size mtd) (min_io_size mtd) (subpage_size mtd) 0 UBI_VERSION_DEFAULT 0) < eb_size mtd"

lemma judge_length: "judge_block mtd eb bs si = Some si' \<Longrightarrow> length (sc_ec si') = length (sc_ec si)"
  by (auto simp: judge_block_def judge_header_def corrupted_def note_eb_def Let_def split: if_splits)

lemma scan_pebs_length: "scan_pebs K mtd fd eb si w = Some (Some si', w') \<Longrightarrow> length (sc_ec si') = length (sc_ec si)"
proof (induction K mtd fd eb si w rule: scan_pebs.induct)
  case (1 K mtd fd eb si w)
  show ?case
  proof (cases "eb < eb_cnt mtd")
    case False
    then show ?thesis using 1(2) by (simp add: scan_pebs.simps)
  next
    case True
    then obtain si1 w1 where s: "scan_peb K mtd fd eb si w = Some (Some si1, w1)"
      using 1(2) by (auto simp: scan_pebs.simps split: option.splits)
    have "length (sc_ec si1) = length (sc_ec si)"
      using s by (auto simp: scan_peb_def note_eb_def Let_def split: prod.splits if_splits option.splits dest: judge_length)
    then show ?thesis using 1 True s by (simp add: scan_pebs.simps)
  qed
qed

lemma ubi_scan_length: "ubi_scan K mtd fd w = Some (Some si, w') \<Longrightarrow> length (sc_ec si) = nat (eb_cnt mtd)"
  by (auto simp: ubi_scan_def Let_def split: option.splits dest!: scan_pebs_length)

lemma initial_buffer:
  assumes "ubi_geometry mtd ui"
  shows "put_bytes (replicate (nat (gi_data_offs ui)) 0xff @ d) 0 (ec_hdr_bytes (ubigen_init_ec_hdr ui ec)) = ubi_buffer ui ec (replicate 64 0xff) d"
proof -
  have g: "64 \<le> gi_vid_hdr_offs ui" "gi_vid_hdr_offs ui + 64 \<le> gi_data_offs ui" using assms by (simp_all add: ubi_geometry_def)
  have n: "nat (gi_data_offs ui) = 64 + (nat (gi_vid_hdr_offs ui - 64) + (64 + nat (gi_data_offs ui - gi_vid_hdr_offs ui - 64)))" using g by simp
  show ?thesis
    using put_bytes_append [of "[]" 0 "replicate 64 0xff" "ec_hdr_bytes (ubigen_init_ec_hdr ui ec)"]
    unfolding n replicate_add ubi_buffer_def by simp
qed

lemma part_check_parts:
  assumes "ubi_mtd_part_check K H mtd p w = Some (r, p', w')" "\<not> r < 0" "wf_mtd mtd"
  shows "up_ui p' = up_ui p \<and> up_vi p' = up_vi p \<and> int (length (sc_ec (up_si p'))) = eb_cnt mtd"
  using assms ubi_scan_length [of K mtd "fds w (part_id mtd)" "w\<lparr>kern := k\<rparr>" for k]
  by (auto simp: ubi_mtd_part_check_def Let_def choose_ec_def wf_mtd_def split: if_splits option.splits prod.splits dest!: ubi_scan_length)

lemma params_init_wf:
  assumes "ubi_params_init K H env mtd w = Some (Some p, w')" "wf_mtd mtd" "room_for_data mtd"
  shows "wf_ubi mtd p"
proof -
  let ?ui = "ubigen_info_init (eb_size mtd) (min_io_size mtd) (subpage_size mtd) 0 UBI_VERSION_DEFAULT (uh_rand H (kern w))"
  let ?d = "replicate (nat (gi_peb_size ?ui - gi_data_offs ?ui)) 0"
  have "gi_data_offs ?ui < eb_size mtd" using assms(3) by (simp add: room_for_data_def ubigen_info_init_def Let_def)
  then have g: "ubi_geometry mtd ?ui" by (rule ubigen_geometry [OF assms(2)])
  obtain p0 r p1 w1 where c: "ubi_mtd_part_check K H mtd p0 w = Some (r, p1, w1)" "\<not> r < 0" "up_ui p0 = ?ui" "up_vi p0 = None"
    and p: "p = p1\<lparr>up_outbuf := put_bytes (replicate (nat (gi_data_offs ?ui)) 0xff @ ?d) 0 (ec_hdr_bytes (ubigen_init_ec_hdr ?ui (up_ec p1)))\<rparr>"
    using assms(1) unfolding ubi_params_init_def Let_def by (fastforce split: option.splits if_splits)
  have parts: "up_ui p1 = ?ui" "up_vi p1 = None" "int (length (sc_ec (up_si p1))) = eb_cnt mtd"
    using part_check_parts [OF c(1,2) assms(2)] c(3,4) by simp_all
  have "int (length ?d) = gi_peb_size ?ui - gi_data_offs ?ui" using g by (simp add: ubi_geometry_def)
  moreover have "up_outbuf p = ubi_buffer ?ui (up_ec p1) (replicate 64 0xff) ?d" by (simp add: p initial_buffer [OF g])
  moreover have "up_ui p = ?ui" "up_vi p = None" "sc_ec (up_si p) = sc_ec (up_si p1)" using parts by (simp_all add: p)
  ultimately show ?thesis using g parts(3) unfolding wf_ubi_def outbuf_ready_def by (metis length_replicate option.distinct(1))
qed

section \<open>The room for the volume table\<close>

lemma work_trial_erase:
  assumes "trial_erase K mtd eb s = (t, s')" "eb_mark p0 eb \<noteq> Some EB_BAD" shows "work_step mtd p0 s s'"
proof -
  obtain p c w where s: "s = (p, c, w)" by (metis prod_cases3)
  obtain err w1 where e: "mtd_erase K mtd (fds w (part_id mtd)) eb w = (err, w1)" by (metis surj_pair)
  have a1: "work_step mtd p0 s (p, c, w1)" unfolding s by (rule work_erase [OF e assms(2)])
  have "s' = (p, c, w1) \<or> give_up_block K mtd eb (p, c, w1) = (t, s')"
    using assms(1) e by (auto simp: trial_erase_def s split: if_splits)
  then show ?thesis using a1 work_trans [OF a1 work_give_up [OF _ assms(2)]] by blast
qed

lemma work_trial_write:
  assumes "trial_write K mtd eb s = Some (t, s')" "eb_mark p0 eb \<noteq> Some EB_BAD" "0 \<le> eb_size mtd" shows "work_step mtd p0 s s'"
proof -
  obtain p c w where s: "s = (p, c, w)" by (metis prod_cases3)
  let ?fd = "fds w (part_id mtd)"
  obtain err w1 where w1: "mtd_write K mtd ?fd eb 0 (replicate (nat (gi_peb_size (up_ui p))) 0) None MTD_OPS_PLACE_OOB w = (err, w1)"
    by (metis surj_pair)
  have a1: "work_step mtd p0 s (p, c, w1)" unfolding s by (rule work_write [OF w1 assms(2)])
  have a2: "work_step mtd p0 s (p, c, w2)" if "mtd_torture K mtd ?fd eb w1 = Some (x, w2)" for x w2
    by (rule work_trans [OF a1 work_torture [OF that assms(2,3)]])
  have "s' = (p, c, w1) \<or> (\<exists>x w2. mtd_torture K mtd ?fd eb w1 = Some (x, w2) \<and> (s' = (p, c, w2) \<or> give_up_block K mtd eb (p, c, w2) = (t, s')))"
    using assms(1) w1 by (auto simp: trial_write_def s Let_def split: if_splits option.splits)
  then show ?thesis using a1 a2 work_trans [OF a2 work_give_up [OF _ assms(2)]] by blast
qed

lemma work_try_block:
  assumes "try_block K mtd eb s = Some (t, s')" "eb_mark p0 eb \<noteq> Some EB_BAD" "0 \<le> eb_size mtd" shows "work_step mtd p0 s s'"
proof -
  obtain t1 s1 where e: "trial_erase K mtd eb s = (t1, s1)" by (metis surj_pair)
  have a1: "work_step mtd p0 s s1" by (rule work_trial_erase [OF e assms(2)])
  have "s' = s1 \<or> (\<exists>t2 s2. trial_write K mtd eb s1 = Some (t2, s2) \<and> (s' = s2 \<or> trial_erase K mtd eb s2 = (t, s')))"
    using assms(1) e by (auto simp: try_block_def split: trial.splits option.splits)
  then show ?thesis
    using a1 work_trans [OF a1 work_trial_write [OF _ assms(2,3)]] work_trans [OF _ work_trial_erase [OF _ assms(2)]] by blast
qed

lemma work_bypass_loop:
  "bypass_loop K mtd eb n s = Some (r, s') \<Longrightarrow> marks_kept p0 (fst s) \<Longrightarrow> 0 \<le> eb_size mtd \<Longrightarrow> work_step mtd p0 s s'"
proof (induction "nat (eb_cnt mtd - eb)" arbitrary: eb n s rule: less_induct)
  case less
  note run = less.prems(1) and k = less.prems(2) and size = less.prems(3)
  show ?case
  proof (cases "eb < eb_cnt mtd")
    case False
    then show ?thesis using run by (simp add: bypass_loop.simps)
  next
    case True
    have IH: "work_step mtd p0 s1 s'" if "bypass_loop K mtd (eb + 1) n1 s1 = Some (r, s')" "marks_kept p0 (fst s1)" for n1 s1
      using less.hyps [of "eb + 1"] True that size by simp
    obtain e where e: "eb_mark (fst s) eb = Some e" using run True by (auto simp: bypass_loop.simps split: option.splits)
    show ?thesis
    proof (cases "e = EB_BAD")
      case bad: True
      then show ?thesis using IH [OF _ k] run True e by (simp add: bypass_loop.simps)
    next
      case False
      have g: "eb_mark p0 eb \<noteq> Some EB_BAD" using marks_kept_good [OF k] e False by simp
      obtain t s1 where f: "try_block K mtd eb s = Some (t, s1)"
        using run True e False by (auto simp: bypass_loop.simps split: option.splits)
      have a: "work_step mtd p0 s s1" by (rule work_try_block [OF f g size])
      have "s' = s1 \<or> (\<exists>n1. bypass_loop K mtd (eb + 1) n1 s1 = Some (r, s'))"
        using run True e False f by (cases t) (auto simp: bypass_loop.simps [of K mtd eb] split: if_splits)
      then show ?thesis using a work_trans [OF a IH [OF _ work_kept [OF a k]]] by blast
    qed
  qed
qed

lemma work_bypass:
  assumes "ubi_bypass_layout_vol K mtd eb s = Some (r, s')" "marks_kept p0 (fst s)" "0 \<le> eb_size mtd" shows "work_step mtd p0 s s'"
proof -
  obtain p c w where s: "s = (p, c, w)" by (metis prod_cases3)
  have "work_step mtd p0 s (p2\<lparr>up_layout_volume_start_eb := x\<rparr>, c2, w2)" if "work_step mtd p0 s (p2, c2, w2)" for p2 c2 w2 x
    using that by (simp add: s)
  then show ?thesis
    using assms(1) work_bypass_loop [OF _ assms(2,3)]
    by (fastforce simp: ubi_bypass_layout_vol_def split: if_splits)
qed

lemma start_inv:
  assumes "ubifs_get_operate_start_address K H env fs m = Some (r, u, w)" "fs_mtd fs = Some mtd" "wf_mtd mtd" "room_for_data mtd"
    and "us_ubi u = Some p"
  shows "wf_ubi mtd p"
proof -
  obtain u0 w0 where m: "m = (u0, w0)" by (cases m)
  obtain q p1 w1 where q: "params fs = Some q" "ubi_params_init K H env mtd w0 = Some (Some p1, w1)"
    using assms(1,2,5) by (fastforce simp: ubifs_get_operate_start_address_def m fs_mtd_def release_def split: option.splits)
  have wf: "wf_ubi mtd p1" by (rule params_init_wf [OF q(2) assms(3,4)])
  let ?eb = "MTD_EB_ABSOLUTE_TO_RELATIVE mtd (cdiv (p_offset q) (gi_peb_size (up_ui p1)))"
  obtain e p2 c w2 where b: "ubi_bypass_layout_vol K mtd ?eb (p1, us_run u0, w1) = Some (e, p2, c, w2)"
    "p = p2\<lparr>up_vid_hdr_lnum := 0, up_start_eb := ?eb, up_layout_volume_start_eb := e\<rparr>"
    using assms(1,2,5) q by (auto simp: ubifs_get_operate_start_address_def m fs_mtd_def put_ubi_def Let_def split: option.splits if_splits)
  have "work_step mtd p1 (p1, us_run u0, w1) (p2, c, w2)" using work_bypass [OF b(1), of p1] wf_ubi_size [OF wf] by simp
  then have "wf_ubi mtd p2" using wf by simp
  then show ?thesis by (simp add: b(2))
qed

section \<open>Results\<close>

lemma step_released: "ubifs_step K env mtd m m' \<Longrightarrow> us_ubi (fst m) = None \<Longrightarrow> us_ubi (fst m') = None"
  by (induction rule: ubifs_step.induct)
    (auto simp: ubifs_erase_def ubifs_write_def ubi_format_def ubifs_done_def ubifs_get_leb_size_def
       ubifs_get_max_mapped_size_in_partition_def split: option.splits)

lemma steps_released: "(ubifs_step K env mtd)\<^sup>*\<^sup>* m m' \<Longrightarrow> us_ubi (fst m) = None \<Longrightarrow> us_ubi (fst m') = None"
  by (induction rule: rtranclp_induct) (blast intro: step_released)+

lemma run_inv_start: "us_ubi u = Some p \<Longrightarrow> wf_ubi mtd p \<Longrightarrow> run_inv mtd p w (u, w)"
  by simp

text \<open>
  C8. The UBIFS object is well formed as long as it exists. Whatever the kernel answers, after
  the operation that scans a partition and any sequence of the other operations, the object is
  released or has the layout the generator computes, a mark for every block of the partition,
  a whole block in its buffer (the two headers, the data, 0xff between them), and a volume that
  fills its logical blocks.
\<close>

theorem ubifs_states_wf:
  assumes "ubifs_get_operate_start_address K H env fs m = Some (r, m1)" "fs_mtd fs = Some mtd" "wf_mtd mtd" "room_for_data mtd"
    and "(ubifs_step K env mtd)\<^sup>*\<^sup>* m1 (u, w)" "us_ubi u = Some p"
  shows "wf_ubi mtd p"
proof -
  obtain u1 w1 where m1: "m1 = (u1, w1)" by (cases m1)
  have "us_ubi u1 \<noteq> None" using steps_released [OF assms(5)] assms(6) m1 by auto
  then obtain p1 where p1: "us_ubi u1 = Some p1" by blast
  have "run_inv mtd p1 w1 (u1, w1)" using start_inv [OF assms(1) [unfolded m1] assms(2-4) p1] p1 by simp
  then have "run_inv mtd p1 w1 (u, w)" using run_steps [OF assms(5)] m1 by blast
  then show ?thesis using assms(6) by simp
qed

text \<open>
  C6. The UBIFS object stays in its partition and away from bad blocks. After the operation that
  scans the partition, whatever the kernel answers and however the other operations follow each
  other, every call they make is for one block of the partition, and for a block the object
  knows to be bad it is the query whether the block is bad and nothing else.
\<close>

theorem ubifs_steps_confined:
  assumes "ubifs_get_operate_start_address K H env fs m = Some (r, u1, w1)" "fs_mtd fs = Some mtd" "wf_mtd mtd" "room_for_data mtd"
    and "us_ubi u1 = Some p1" "(ubifs_step K env mtd)\<^sup>*\<^sup>* (u1, w1) (u2, w2)"
  shows "\<exists>cs. trace w2 = trace w1 @ cs \<and> (\<forall>(fd, c) \<in> set cs. \<exists>eb. mtd_valid_erase_block mtd eb \<and> in_block mtd eb c \<and>
     (eb_mark p1 eb = Some EB_BAD \<longrightarrow> is_query c))"
  using run_steps [OF assms(6) run_inv_start [OF assms(5) start_inv [OF assms(1-5)]]]
  by (auto simp: extends_def allowed_call_def)

end
