(* ===== verification/UbiStart.thy ===== *)
theory UbiStart
  imports UbiSafe
begin

text \<open>
  What the operation that begins the making of a UBI volume does on a device that behaves: the
  first two good blocks are tried and set aside for the volume table.
\<close>

lemma blanked_idem [simp]: "blanked (stored (blanked c s e) s d) s e = blanked c s e" if "int (length d) \<le> e"
  using that by (auto simp: blanked_def stored_def fun_eq_iff)

lemma try_block_good:
  assumes dev: "ubi_device K mtd (fds w (part_id mtd)) cells pos" and eb: "0 \<le> eb" "eb < eb_cnt mtd" and g: "gi_peb_size (up_ui p) = eb_size mtd"
  shows "\<exists>w'. try_block K mtd eb (p, c, w) = Some (TrialGood, p, c, w') \<and> frame w w' \<and>
    cells (kern w') = blanked (cells (kern w)) (eb * eb_size mtd) (eb_size mtd)"
proof -
  let ?fd = "fds w (part_id mtd)" and ?s = "eb * eb_size mtd" and ?e = "eb_size mtd"
  let ?z = "replicate (nat ?e) (0 :: u8)"
  have wf: "wf_mtd mtd" and rd: "readable_device K ?fd cells pos (mtd_size mtd)" and wd: "writable_device K ?fd cells pos (mtd_size mtd)"
    using dev by (simp_all add: ubi_device_def)
  have e: "0 < ?e" "?e mod min_io_size mtd = 0" "min_io_size mtd mod subpage_size mtd = 0" using wf wf_mtd_pos [OF wf] by (simp_all add: wf_mtd_def)
  then have sub: "?e mod subpage_size mtd = 0" by (meson dvd_trans mod_0_imp_dvd dvd_imp_mod_0)
  note B = block_in_device [OF wf eb]
  have lz: "int (length ?z) = ?e" using e by simp
  obtain w1 where w1: "mtd_erase K mtd ?fd eb w = (0, w1)" "frame w w1" "cells (kern w1) = blanked (cells (kern w)) ?s ?e"
    using mtd_erase_block [OF dev eb, of w] by (elim exE conjE) (rule that)
  have wr: "mtd_write K mtd ?fd eb 0 ?z None MTD_OPS_PLACE_OOB w1 = write_data K ?fd ?s ?z w1"
    using B(3) sub unfolding mtd_write_def Let_def lz by simp
  have "\<exists>w'. write_data K ?fd ?s ?z w1 = (0, w') \<and> frame w1 w' \<and> cells (kern w') = stored (cells (kern w1)) ?s ?z"
    by (rule write_data_stores [OF rd wd B(1)]) (use B(2) in \<open>simp_all only: lz w1(3), simp_all add: blanked_def\<close>)
  then obtain w2 where w2: "write_data K ?fd ?s ?z w1 = (0, w2)" "frame w1 w2" "cells (kern w2) = stored (cells (kern w1)) ?s ?z" by blast
  have f1: "fds w1 = fds w" "fds w2 = fds w" using w1(2) w2(2) by (simp_all add: frame_def)
  have dev2: "ubi_device K mtd (fds w2 (part_id mtd)) cells pos" using dev by (simp add: f1)
  obtain w3 where w3: "mtd_erase K mtd (fds w2 (part_id mtd)) eb w2 = (0, w3)" "frame w2 w3" "cells (kern w3) = blanked (cells (kern w2)) ?s ?e"
    using mtd_erase_block [OF dev2 eb, of w2] by (elim exE conjE) (rule that)
  have "try_block K mtd eb (p, c, w) = Some (TrialGood, p, c, w3)"
    using w1(1) w2(1) w3(1) f1 wr by (simp add: try_block_def trial_erase_def trial_write_def g)
  moreover have "cells (kern w3) = blanked (cells (kern w)) ?s ?e" using lz by (simp add: w3(3) w2(3) w1(3))
  ultimately show ?thesis using frame_trans [OF frame_trans [OF w1(2) w2(2)] w3(2)] by blast
qed

lemma bypass_skips: "0 \<le> eb \<Longrightarrow> eb \<le> x \<Longrightarrow> x < eb_cnt mtd \<Longrightarrow> \<forall>y. eb \<le> y \<and> y < x \<longrightarrow> eb_mark p y = Some EB_BAD \<Longrightarrow>
    bypass_loop K mtd eb n (p, c, w) = bypass_loop K mtd x n (p, c, w)"
proof (induction "nat (x - eb)" arbitrary: eb)
  case (Suc k)
  then have "bypass_loop K mtd eb n (p, c, w) = bypass_loop K mtd (eb + 1) n (p, c, w)"
    by (subst bypass_loop.simps) simp
  then show ?case using Suc by simp
qed simp

lemma bypass_step:
  assumes dev: "ubi_device K mtd (fds w (part_id mtd)) cells pos" and g: "outbuf_ready mtd p" and xs: "good_ebs mtd p eb = x # xs" "0 \<le> eb"
  shows "\<exists>w'. bypass_loop K mtd eb n (p, c, w) = (if n + 1 \<ge> UBI_LAYOUT_VOLUME_EBS then Some (x + 1, p, c, w') else bypass_loop K mtd (x + 1) (n + 1) (p, c, w')) \<and>
    frame w w' \<and> cells (kern w') = blanked (cells (kern w)) (x * eb_size mtd) (eb_size mtd) \<and> good_ebs mtd p (x + 1) = xs \<and> 0 \<le> x"
proof -
  have L: "int (length (sc_ec (up_si p))) = eb_cnt mtd" "gi_peb_size (up_ui p) = eb_size mtd" using g by (simp_all add: outbuf_ready_def ubi_geometry_def)
  have X: "eb \<le> x" "x < eb_cnt mtd" "eb_mark p x \<noteq> Some EB_BAD" "\<forall>y. eb \<le> y \<and> y < x \<longrightarrow> eb_mark p y = Some EB_BAD"
    "good_ebs mtd p (x + 1) = xs"
    using filter_upto_Cons [OF xs(1) [unfolded good_ebs_def]] by (simp_all add: good_ebs_def)
  obtain e where e: "eb_mark p x = Some e" "e \<noteq> EB_BAD" using X(1-3) xs(2) L by (auto simp: eb_mark_def split: if_splits)
  have x0: "0 \<le> x" using X(1) xs(2) by simp
  obtain w' where w': "try_block K mtd x (p, c, w) = Some (TrialGood, p, c, w')" "frame w w'"
    "cells (kern w') = blanked (cells (kern w)) (x * eb_size mtd) (eb_size mtd)"
    using try_block_good [OF dev x0 X(2) L(2), of c] by (elim exE conjE) (rule that)
  have "bypass_loop K mtd x n (p, c, w) = (if n + 1 \<ge> UBI_LAYOUT_VOLUME_EBS then Some (x + 1, p, c, w') else bypass_loop K mtd (x + 1) (n + 1) (p, c, w'))"
    using X(2) e w'(1) by (subst bypass_loop.simps) simp
  then show ?thesis unfolding bypass_skips [OF xs(2) X(1,2,4)] using w'(2,3) X(5) x0 by blast
qed

lemma bypass_good:
  assumes dev: "ubi_device K mtd (fds w (part_id mtd)) cells pos" and g: "outbuf_ready mtd p" and xs: "good_ebs mtd p eb = x # y # ys" "0 \<le> eb"
  shows "\<exists>w'. bypass_loop K mtd eb 0 (p, c, w) = Some (y + 1, p, c, w') \<and> frame w w' \<and>
    cells (kern w') = blanked (blanked (cells (kern w)) (x * eb_size mtd) (eb_size mtd)) (y * eb_size mtd) (eb_size mtd) \<and>
    good_ebs mtd p (y + 1) = ys \<and> 0 \<le> y"
proof -
  obtain w1 where w1: "bypass_loop K mtd eb 0 (p, c, w) = bypass_loop K mtd (x + 1) 1 (p, c, w1)" "frame w w1"
    "cells (kern w1) = blanked (cells (kern w)) (x * eb_size mtd) (eb_size mtd)" "good_ebs mtd p (x + 1) = y # ys" "0 \<le> x"
    using bypass_step [OF dev g xs, of 0 c] by (auto simp: UBI_LAYOUT_VOLUME_EBS_def)
  have dev1: "ubi_device K mtd (fds w1 (part_id mtd)) cells pos" using dev w1(2) by (simp add: frame_def)
  obtain w2 where w2: "bypass_loop K mtd (x + 1) 1 (p, c, w1) = Some (y + 1, p, c, w2)" "frame w1 w2"
    "cells (kern w2) = blanked (cells (kern w1)) (y * eb_size mtd) (eb_size mtd)" "good_ebs mtd p (y + 1) = ys" "0 \<le> y"
    using bypass_step [OF dev1 g w1(4), of 1 c] w1(5) by (auto simp: UBI_LAYOUT_VOLUME_EBS_def)
  show ?thesis using w1 w2 frame_trans [OF w1(2) w2(2)] by auto
qed

section \<open>The whole operation\<close>

text \<open>The good blocks of a partition whose blocks are of the given kinds, from \<open>eb\<close> on.\<close>

definition good_kinds :: "mtd_dev \<Rightarrow> block_kind list \<Rightarrow> int \<Rightarrow> int list" where
  "good_kinds mtd kinds eb = filter (\<lambda>x. kinds ! nat x \<noteq> Bad_block) [eb..eb_cnt mtd - 1]"

lemma good_count:
  assumes "int (length kinds) = n"
  shows "n - count_kind (\<lambda>k. k = Bad_block) kinds = int (length (filter (\<lambda>x. kinds ! nat x \<noteq> Bad_block) [0..n - 1]))"
proof -
  have k: "kinds = map (\<lambda>x. kinds ! nat x) [0..n - 1]" using assms by (intro nth_equalityI) auto
  have "count_kind (\<lambda>k. k = Bad_block) kinds + int (length (filter (\<lambda>k. k \<noteq> Bad_block) kinds)) = int (length kinds)"
    using sum_length_filter_compl [of "\<lambda>k. k = Bad_block" kinds] by (simp add: count_kind_def)
  moreover have "length (filter (\<lambda>k. k \<noteq> Bad_block) kinds) = length (filter (\<lambda>x. kinds ! nat x \<noteq> Bad_block) [0..n - 1])"
    by (subst k) (simp add: filter_map o_def)
  ultimately show ?thesis using assms by simp
qed

lemma good_kinds_count:
  assumes "int (length kinds) = eb_cnt mtd" "0 \<le> eb"
  shows "int (length (good_kinds mtd kinds eb)) \<le> eb_cnt mtd - count_kind (\<lambda>k. k = Bad_block) kinds"
proof (cases "eb < eb_cnt mtd")
  case True
  then have "[0..eb_cnt mtd - 1] = [0..eb - 1] @ [eb..eb_cnt mtd - 1]" using assms(2) by (intro upto_split1) simp_all
  then show ?thesis using good_count [OF assms(1)] by (simp add: good_kinds_def)
next
  case False
  then show ?thesis using good_count [OF assms(1)] by (simp add: good_kinds_def)
qed


text \<open>
  A host on which the partition is writable and not attached to UBI, or can be detached, and
  the partition with blocks of the given kinds, some of them written by an earlier image.
\<close>

definition ready_host :: "'k ubi_host \<Rightarrow> mtd_dev \<Rightarrow> ('k \<Rightarrow> int \<Rightarrow> u8) \<Rightarrow> 'k \<Rightarrow> bool" where
  "ready_host H mtd cells k \<longleftrightarrow> uh_writable H mtd \<and> \<not> fst (uh_detach H mtd k) < 0 \<and> cells (snd (uh_detach H mtd k)) = cells k"

definition image_info :: "'k ubi_host \<Rightarrow> mtd_dev \<Rightarrow> 'k \<Rightarrow> ubigen_info" where
  "image_info H mtd k = ubigen_info_init (eb_size mtd) (min_io_size mtd) (subpage_size mtd) 0 UBI_VERSION_DEFAULT (uh_rand H k)"

lemma scan_peb_frame:
  assumes "scan_peb K mtd fd eb si w = Some (r, w')" shows "frame w w'"
proof -
  obtain b w1 where b: "mtd_is_bad K mtd fd eb w = (b, w1)" by (metis surj_pair)
  have f: "frame w w1" using mtd_is_bad_step [OF b] by (simp add: lib_step_def)
  have "frame w w2" if "mtd_read K mtd fd eb 0 UBI_EC_HDR_SIZE w1 = Some (x, bs, w2)" for x bs w2
    using mtd_read_step [OF that] frame_trans [OF f] by (simp add: lib_step_def UBI_EC_HDR_SIZE_def)
  then show ?thesis using assms b f by (auto simp: scan_peb_def split: if_splits option.splits)
qed

lemma scan_pebs_frame: "scan_pebs K mtd fd eb si w = Some (r, w') \<Longrightarrow> frame w w'"
proof (induction K mtd fd eb si w rule: scan_pebs.induct)
  case (1 K mtd fd eb si w)
  show ?case
  proof (cases "eb < eb_cnt mtd")
    case False
    then show ?thesis using 1(2) by (simp add: scan_pebs.simps)
  next
    case True
    then obtain s1 w1 where s: "scan_peb K mtd fd eb si w = Some (s1, w1)"
      using 1(2) by (auto simp: scan_pebs.simps split: option.splits)
    have "w' = w1 \<or> (\<exists>si1. s1 = Some si1 \<and> scan_pebs K mtd fd (eb + 1) si1 w1 = Some (r, w'))"
      using 1(2) True s by (cases s1) (auto simp: scan_pebs.simps [of K mtd fd eb])
    then show ?thesis using 1(1) [OF True s refl] frame_trans [OF scan_peb_frame [OF s]] scan_peb_frame [OF s] by blast
  qed
qed

lemma ubi_scan_frame: "ubi_scan K mtd fd w = Some (r, w') \<Longrightarrow> frame w w'"
  by (auto simp: ubi_scan_def Let_def split: option.splits dest: scan_pebs_frame)

lemma part_check_good:
  assumes p: "ubi_partition K mtd (fds w (part_id mtd)) cells pos ui kinds" and h: "partition_holds mtd ui (cells (kern w)) kinds"
    and H: "ready_host H mtd cells (kern w)" and io: "is_power_of_2 (min_io_size mtd)"
    and two: "2 \<le> eb_cnt mtd - count_kind (\<lambda>k. k = Bad_block) kinds"
  shows "\<exists>q si w'. ubi_mtd_part_check K H mtd p0 w = Some (0, q\<lparr>up_si := si\<rparr>, w') \<and> up_ui q = up_ui p0 \<and> up_layout_volume_start_eb q = up_layout_volume_start_eb p0 \<and> sc_ec si = map block_mark kinds \<and>
    fds w' = fds w \<and> block_map w' = block_map w \<and> cells (kern w') = cells (kern w)"
proof -
  let ?w = "w\<lparr>kern := snd (uh_detach H mtd (kern w))\<rparr>" and ?s = "scan_state ui (eb_cnt mtd) kinds"
  let ?si = "?s\<lparr>sc_mean_ec := mean_ec ?s, sc_good_cnt := eb_cnt mtd - sc_bad_cnt ?s\<rparr>"
  have len: "int (length kinds) = eb_cnt mtd" using p by (simp add: ubi_partition_def)
  have "partition_holds mtd ui (cells (kern ?w)) kinds" using h H by (simp add: ready_host_def)
  then obtain w' where s: "ubi_scan K mtd (fds w (part_id mtd)) ?w = Some (Some ?si, w')" "cells (kern w') = cells (kern ?w)"
    using ubi_scan_kinds [OF p] by blast
  obtain r k where d: "uh_detach H mtd (kern w) = (r, k)" "\<not> r < 0" using H by (metis prod.collapse ready_host_def)
  have g: "\<not> sc_good_cnt ?si < 2" using two by (simp add: scan_state_def)
  have "ubi_mtd_part_check K H mtd p0 w = Some (0, (choose_ec ?si p0)\<lparr>up_si := ?si\<rparr>, w')"
    using io H d s(1) g by (simp add: ubi_mtd_part_check_def ready_host_def)
  moreover have "up_ui (choose_ec ?si p0) = up_ui p0" "up_layout_volume_start_eb (choose_ec ?si p0) = up_layout_volume_start_eb p0" by (simp_all add: choose_ec_def Let_def)
  moreover have "fds w' = fds w" "block_map w' = block_map w" using ubi_scan_frame [OF s(1)] by (simp_all add: frame_def)
  moreover have "cells (kern w') = cells (kern w)" using s(2) H by (simp add: ready_host_def)
  ultimately show ?thesis using scan_state_ec [OF len]
    by (intro exI [of _ "choose_ec ?si p0"] exI [of _ ?si] exI [of _ w']) simp
qed

lemma params_init_good:
  assumes p: "ubi_partition K mtd (fds w (part_id mtd)) cells pos ui kinds" and h: "partition_holds mtd ui (cells (kern w)) kinds"
    and H: "ready_host H mtd cells (kern w)" and io: "is_power_of_2 (min_io_size mtd)" and r: "room_for_data mtd"
    and two: "2 \<le> eb_cnt mtd - count_kind (\<lambda>k. k = Bad_block) kinds"
  shows "\<exists>p w'. ubi_params_init K H env mtd w = Some (Some p, w') \<and> fds w' = fds w \<and> block_map w' = block_map w \<and>
    cells (kern w') = cells (kern w) \<and> wf_ubi mtd p \<and> sc_ec (up_si p) = map block_mark kinds \<and> up_ui p = image_info H mtd (kern w) \<and>
    up_layout_volume_start_eb p = 0"
proof -
  have wf: "wf_mtd mtd" using p by (simp add: ubi_partition_def)
  obtain p0 where p0: "ubi_params_init K H env mtd w = (case ubi_mtd_part_check K H mtd p0 w of
        None \<Rightarrow> None
      | Some (r, p, w') \<Rightarrow> if r < 0 then Some (None, w')
          else Some (Some (p\<lparr>up_outbuf := put_bytes (replicate (nat (gi_data_offs (image_info H mtd (kern w)))) 0xff @
                 replicate (nat (gi_peb_size (image_info H mtd (kern w)) - gi_data_offs (image_info H mtd (kern w)))) 0)
               0 (ec_hdr_bytes (ubigen_init_ec_hdr (image_info H mtd (kern w)) (up_ec p)))\<rparr>), w'))" "up_ui p0 = image_info H mtd (kern w)"
    "up_layout_volume_start_eb p0 = 0"
    by (rule that [OF ubi_params_init_def [unfolded Let_def, folded image_info_def]]) simp_all
  obtain q si w' where q: "ubi_mtd_part_check K H mtd p0 w = Some (0, q\<lparr>up_si := si\<rparr>, w')" "up_ui q = up_ui p0" "up_layout_volume_start_eb q = up_layout_volume_start_eb p0" "sc_ec si = map block_mark kinds"
    "fds w' = fds w" "block_map w' = block_map w" "cells (kern w') = cells (kern w)"
    using part_check_good [OF p h H io two, of p0] by (elim exE conjE) (rule that)
  have "\<exists>p1. ubi_params_init K H env mtd w = Some (Some p1, w') \<and> sc_ec (up_si p1) = map block_mark kinds \<and> up_ui p1 = image_info H mtd (kern w) \<and>
      up_layout_volume_start_eb p1 = 0"
    by (simp add: p0 q)
  then obtain p1 where p1: "ubi_params_init K H env mtd w = Some (Some p1, w')" "sc_ec (up_si p1) = map block_mark kinds"
    "up_ui p1 = image_info H mtd (kern w)" "up_layout_volume_start_eb p1 = 0" by blast
  show ?thesis using p1 params_init_wf [OF p1(1) wf r] q(5-7) by blast
qed

lemma marks_of_kinds:
  assumes "sc_ec (up_si p) = map block_mark kinds" "int (length kinds) = eb_cnt mtd" "0 \<le> eb"
    and "\<And>k. k \<in> set kinds \<Longrightarrow> \<exists>ui bytes. block_holds ui bytes k"
  shows "good_ebs mtd p eb = good_kinds mtd kinds eb"
proof -
  have m: "block_mark k = EB_BAD \<longleftrightarrow> k = Bad_block" if "k \<in> set kinds" for k
  proof (cases k)
    case (Counted_block ec)
    then have e: "0 \<le> ec" "ec \<le> EC_MAX" using assms(4) [OF that] by auto
    then have "uint (word_of_int ec :: u32) \<noteq> uint EB_BAD" using uint_counter(2) [OF e] by (simp add: EB_BAD_def EC_MAX_def)
    then show ?thesis using Counted_block by auto
  qed (simp_all add: EB_BAD_def EB_EMPTY_def)
  have "eb_mark p x \<noteq> Some EB_BAD \<longleftrightarrow> kinds ! nat x \<noteq> Bad_block" if "eb \<le> x" "x \<le> eb_cnt mtd - 1" for x
  proof -
    have "nat x < length kinds" using that assms(2,3) by simp
    moreover have "int (length kinds) = eb_cnt mtd" "0 \<le> x" using assms(2,3) that(1) by simp_all
    ultimately show ?thesis using m [OF nth_mem] that(2) by (simp add: eb_mark_def assms(1))
  qed
  then show ?thesis unfolding good_ebs_def good_kinds_def by (intro filter_cong) auto
qed

lemma holds_kinds: "partition_holds mtd ui content kinds \<Longrightarrow> k \<in> set kinds \<Longrightarrow> \<exists>ui bytes. block_holds ui bytes k"
  unfolding partition_holds_def in_set_conv_nth by blast

lemma small_block:
  assumes "ubi_device K mtd fd cells pos" "wf_ubi mtd p" "0 \<le> eb" "eb \<le> eb_cnt mtd" shows "to_int eb = eb"
proof -
  have e: "128 \<le> eb_size mtd" "mtd_size mtd \<le> 0xFFFFFFFF" "mtd_size mtd = eb_cnt mtd * eb_size mtd"
    using assms(1,2) by (auto simp: ubi_device_def wf_mtd_def wf_ubi_def outbuf_ready_def ubi_geometry_def)
  have "eb_cnt mtd * 128 \<le> eb_cnt mtd * eb_size mtd" using assms(3,4) e(1) by (intro mult_left_mono) simp_all
  then have "eb < 2 ^ 31" using e assms(4) by simp
  then show ?thesis using assms(3) by (simp add: to_int_def sint_sbintrunc' signed_take_bit_int_eq_self)
qed

lemma start_good:
  assumes p: "ubi_partition K mtd (fds w (part_id mtd)) cells pos ui kinds" and h: "partition_holds mtd ui (cells (kern w)) kinds"
    and dev: "ubi_device K mtd (fds w (part_id mtd)) cells pos"
    and H: "ready_host H mtd cells (kern w)" and io: "is_power_of_2 (min_io_size mtd)" and r: "room_for_data mtd"
    and fs: "params fs = Some q" "p_mtd q = Some mtd"
    and eb: "eb = MTD_EB_ABSOLUTE_TO_RELATIVE mtd (cdiv (p_offset q) (eb_size mtd))" "0 \<le> eb" "good_kinds mtd kinds eb = x # y # ys"
  shows "\<exists>p w'. ubifs_get_operate_start_address K H env fs (u, w) =
      Some (MTD_EB_RELATIVE_TO_ABSOLUTE mtd (y + 1) * eb_size mtd, \<lparr>us_ubi = Some p, us_run = us_run u\<rparr>, w') \<and>
    fds w' = fds w \<and> block_map w' = block_map w \<and> wf_ubi mtd p \<and> sc_ec (up_si p) = map block_mark kinds \<and>
    up_start_eb p = eb \<and> up_vid_hdr_lnum p = 0 \<and> up_ui p = image_info H mtd (kern w) \<and>
    up_layout_volume_start_eb p = y + 1 \<and>
    cells (kern w') = blanked (blanked (cells (kern w)) (x * eb_size mtd) (eb_size mtd)) (y * eb_size mtd) (eb_size mtd)"
proof -
  have len: "int (length kinds) = eb_cnt mtd" using p by (simp add: ubi_partition_def)
  have two: "2 \<le> eb_cnt mtd - count_kind (\<lambda>k. k = Bad_block) kinds"
    using good_kinds_count [OF len eb(2)] eb(3) by simp
  obtain p1 w1 where p1: "ubi_params_init K H env mtd w = Some (Some p1, w1)" "fds w1 = fds w" "block_map w1 = block_map w"
    "cells (kern w1) = cells (kern w)" "wf_ubi mtd p1" "sc_ec (up_si p1) = map block_mark kinds" "up_ui p1 = image_info H mtd (kern w)" "up_layout_volume_start_eb p1 = 0"
    using params_init_good [OF p h H io r two, of env] by (elim exE conjE) (rule that)
  have rdy: "outbuf_ready mtd p1" "gi_peb_size (up_ui p1) = eb_size mtd" using p1(5) unfolding wf_ubi_def outbuf_ready_def ubi_geometry_def by blast+
  have g: "good_ebs mtd p1 eb = x # y # ys"
    using marks_of_kinds [OF p1(6) len eb(2) holds_kinds [OF h]] eb(3) by simp
  have dev1: "ubi_device K mtd (fds w1 (part_id mtd)) cells pos" using dev by (simp add: p1(2))
  obtain w2 where w2: "bypass_loop K mtd eb 0 (p1, us_run u, w1) = Some (y + 1, p1, us_run u, w2)" "frame w1 w2"
    "cells (kern w2) = blanked (blanked (cells (kern w1)) (x * eb_size mtd) (eb_size mtd)) (y * eb_size mtd) (eb_size mtd)" "0 \<le> y"
    using bypass_good [OF dev1 rdy(1) g eb(2), of "us_run u"] by (elim exE conjE) (rule that)
  have "y \<in> set (good_ebs mtd p1 eb)" by (simp add: g)
  then have y: "y + 1 \<le> eb_cnt mtd" using good_ebs_range [of y mtd p1 eb] by simp
  have yi: "to_int (y + 1) = y + 1" using small_block [OF dev1 p1(5) _ y] w2(4) by simp
  let ?p = "p1\<lparr>up_layout_volume_start_eb := y + 1, up_vid_hdr_lnum := 0, up_start_eb := eb, up_layout_volume_start_eb := y + 1\<rparr>"
  have "ubifs_get_operate_start_address K H env fs (u, w) =
      Some (MTD_EB_RELATIVE_TO_ABSOLUTE mtd (y + 1) * eb_size mtd, \<lparr>us_ubi = Some ?p, us_run = us_run u\<rparr>, w2)"
    using fs p1(1) rdy(2) w2(1,4) yi p1(8) eb(1)
    by (simp add: ubifs_get_operate_start_address_def ubi_bypass_layout_vol_def put_ubi_def)
  moreover have "fds w2 = fds w" "block_map w2 = block_map w" using w2(2) p1(2,3) by (simp_all add: frame_def)
  moreover have "wf_ubi mtd ?p" using p1(5) by simp
  ultimately show ?thesis
    using p1(6,7) w2(3) p1(4) by (intro exI [of _ ?p] exI [of _ w2]) simp
qed

end
