(* ===== verification/UbiDone.thy ===== *)
theory UbiDone
  imports UbiStart
begin

text \<open>
  The end of the making of a UBI volume on a device that behaves: the volume table is written
  to the two blocks set aside, every block behind the volume gets an erase counter header.
\<close>

section \<open>The volume table\<close>

definition wf_vtbl :: "ubigen_info \<Rightarrow> ubi_vtbl_record list \<Rightarrow> bool" where
  "wf_vtbl ui vtbl \<longleftrightarrow> int (length vtbl) = gi_max_volumes ui \<and> (\<forall>r \<in> set vtbl. length (vtbl_record_bytes r) = 172) \<and>
     gi_vtbl_size ui = gi_max_volumes ui * 172 \<and> gi_vtbl_size ui \<le> gi_leb_size ui"

definition layout_volume :: "ubigen_info \<Rightarrow> ubigen_vol_info" where
  "layout_volume ui = \<lparr>vi_id = UBI_LAYOUT_VOLUME_ID, vi_type = UBI_VID_DYNAMIC, vi_alignment = 1, vi_data_pad = 0, vi_usable_leb_size = gi_leb_size ui,
     vi_name = name_bytes ''layout volume'', vi_name_len = 13, vi_compat = UBI_COMPAT_REJECT, vi_used_ebs = 0,
     vi_bytes = gi_leb_size ui * UBI_LAYOUT_VOLUME_EBS, vi_flags = 0\<rparr>"

text \<open>What a block of the layout volume holds behind its headers: the records and 0xff.\<close>

definition table_leb :: "ubigen_info \<Rightarrow> ubi_vtbl_record list \<Rightarrow> u8 list" where
  "table_leb ui vtbl = concat (map vtbl_record_bytes vtbl) @ replicate (nat (gi_leb_size ui - gi_vtbl_size ui)) 0xff"

definition layout_peb :: "ubi_params \<Rightarrow> ubi_vtbl_record list \<Rightarrow> int \<Rightarrow> int \<Rightarrow> u8 list" where
  "layout_peb p vtbl lnum x = ubi_buffer (up_ui p) (next_ec p (the (eb_mark p x)))
     (vid_hdr_bytes (ubigen_init_vid_hdr (up_ui p) (layout_volume (up_ui p)) lnum [])) (table_leb (up_ui p) vtbl)"

lemma table_bytes:
  assumes "wf_vtbl ui vtbl"
  shows "int (length (concat (map vtbl_record_bytes vtbl))) = gi_vtbl_size ui" "take (nat (gi_vtbl_size ui)) (concat (map vtbl_record_bytes vtbl)) = concat (map vtbl_record_bytes vtbl)"
proof -
  have "length (concat (map vtbl_record_bytes vtbl)) = length vtbl * 172" if "\<forall>r \<in> set vtbl. length (vtbl_record_bytes r) = 172" for vtbl
    using that by (induction vtbl) simp_all
  then show l: "int (length (concat (map vtbl_record_bytes vtbl))) = gi_vtbl_size ui" using assms by (simp add: wf_vtbl_def)
  then show "take (nat (gi_vtbl_size ui)) (concat (map vtbl_record_bytes vtbl)) = concat (map vtbl_record_bytes vtbl)"
    by (intro take_all) (metis nat_int order_refl)
qed

lemma put_ec_hdr: "put_bytes (ubi_buffer ui ec v d) 0 (ec_hdr_bytes (ubigen_init_ec_hdr ui ec')) = ubi_buffer ui ec' v d"
  using put_bytes_append [of "[]" 0 "ec_hdr_bytes (ubigen_init_ec_hdr ui ec)" "ec_hdr_bytes (ubigen_init_ec_hdr ui ec')"]
  by (simp add: ubi_buffer_def)

lemma put_vid_hdr:
  assumes "ubi_geometry mtd ui" "length v = 64" "length v' = 64"
  shows "put_bytes (ubi_buffer ui ec v d) (nat (gi_vid_hdr_offs ui)) v' = ubi_buffer ui ec v' d"
proof -
  let ?a = "ec_hdr_bytes (ubigen_init_ec_hdr ui ec) @ replicate (nat (gi_vid_hdr_offs ui - 64)) (0xff :: u8)"
  have "64 \<le> gi_vid_hdr_offs ui" using assms(1) by (simp add: ubi_geometry_def)
  then have "length ?a = nat (gi_vid_hdr_offs ui)" by simp
  from put_bytes_append [OF this, of v v'] show ?thesis using assms(2,3) by (simp add: ubi_buffer_def)
qed

lemma first_headers:
  assumes "ubi_geometry mtd ui" "length v = 64"
  shows "put_bytes (put_bytes (replicate (nat (gi_data_offs ui)) 0xff @ d) 0 (ec_hdr_bytes (ubigen_init_ec_hdr ui ec))) (nat (gi_vid_hdr_offs ui)) v = ubi_buffer ui ec v d"
  using put_vid_hdr [OF assms(1) length_replicate assms(2)] by (simp add: initial_buffer [OF assms(1)])

lemma write_first_good:
  assumes dev: "ubi_device K mtd (fds w (part_id mtd)) cells pos" and t: "table_spans mtd w" and r: "outbuf_ready mtd p"
    and xs: "good_ebs mtd p eb = x # xs" "0 \<le> eb" and v: "length v = 64" "int (length d) = gi_leb_size (up_ui p)"
  shows "\<exists>w'. ubi_write_one_peb K mtd eb (ubi_buffer (up_ui p) ec v d) (p, c, w) =
      Some (x + 1, ubi_buffer (up_ui p) (next_ec p (the (eb_mark p x))) v d, p, c, w') \<and> fds w' = fds w \<and> table_spans mtd w' \<and>
    cells (kern w') = stored (cells (kern w)) (x * eb_size mtd) (ubi_buffer (up_ui p) (next_ec p (the (eb_mark p x))) v d) \<and>
    0 \<le> x \<and> x < eb_cnt mtd \<and> good_ebs mtd p (x + 1) = xs"
proof -
  have g: "ubi_geometry mtd (up_ui p)" and L: "int (length (sc_ec (up_si p))) = eb_cnt mtd" using r by (simp_all add: outbuf_ready_def)
  have X: "eb \<le> x" "x < eb_cnt mtd" "eb_mark p x \<noteq> Some EB_BAD" "\<forall>y. eb \<le> y \<and> y < x \<longrightarrow> eb_mark p y = Some EB_BAD"
    "good_ebs mtd p (x + 1) = xs"
    using filter_upto_Cons [OF xs(1) [unfolded good_ebs_def]] by (simp_all add: good_ebs_def)
  obtain e where e: "eb_mark p x = Some e" "e \<noteq> EB_BAD" using X(1-3) xs(2) L by (auto simp: eb_mark_def split: if_splits)
  have d: "int (length d) = gi_peb_size (up_ui p) - gi_data_offs (up_ui p)" using g v(2) by (simp add: ubi_geometry_def)
  show ?thesis
    using ubi_write_one_peb_good [OF dev t xs(2) X(1,2,4) e g v(1) d, of ec c] e(1) X(1,2,5) xs(2) by auto
qed

lemma layout_vol_good:
  assumes dev: "ubi_device K mtd (fds w (part_id mtd)) cells pos" and t: "table_spans mtd w" and r: "outbuf_ready mtd p"
    and xs: "good_ebs mtd p eb = x # y # ys" "0 \<le> eb" and vt: "wf_vtbl (up_ui p) vtbl"
  shows "\<exists>w'. ubi_write_layout_vol K mtd eb ec1 ec2 vtbl (p, c, w) = Some (0, p, c, w') \<and> fds w' = fds w \<and> table_spans mtd w' \<and>
    cells (kern w') = stored (stored (cells (kern w)) (x * eb_size mtd) (layout_peb p vtbl 0 x)) (y * eb_size mtd) (layout_peb p vtbl 1 y) \<and>
    0 \<le> x \<and> y < eb_cnt mtd"
proof -
  let ?ui = "up_ui p" and ?e = "eb_size mtd"
  let ?d = "table_leb ?ui vtbl" and ?V = "\<lambda>lnum. vid_hdr_bytes (ubigen_init_vid_hdr ?ui (layout_volume ?ui) lnum [])"
  have g: "ubi_geometry mtd ?ui" using r by (simp add: outbuf_ready_def)
  have tb: "take (nat (gi_vtbl_size ?ui)) (concat (map vtbl_record_bytes vtbl)) @ replicate (nat (gi_peb_size ?ui - gi_data_offs ?ui - gi_vtbl_size ?ui)) 0xff = ?d"
    using table_bytes(2) [OF vt] g by (simp add: table_leb_def ubi_geometry_def)
  have ld: "int (length ?d) = gi_leb_size ?ui" using table_bytes(1) [OF vt] vt by (simp add: table_leb_def wf_vtbl_def)
  have l: "length (?V n) = 64" for n by simp
  obtain w1 where w1: "ubi_write_one_peb K mtd eb (ubi_buffer ?ui ec1 (?V 0) ?d) (p, c, w) = Some (x + 1, layout_peb p vtbl 0 x, p, c, w1)"
    "fds w1 = fds w" "table_spans mtd w1" "cells (kern w1) = stored (cells (kern w)) (x * ?e) (layout_peb p vtbl 0 x)" "0 \<le> x" "x < eb_cnt mtd"
    "good_ebs mtd p (x + 1) = y # ys"
    using write_first_good [OF dev t r xs l ld, of ec1 0 c, folded layout_peb_def] by (elim exE conjE) (rule that)
  have dev1: "ubi_device K mtd (fds w1 (part_id mtd)) cells pos" using dev by (simp add: w1(2))
  have x1: "0 \<le> x + 1" using w1(5) by simp
  obtain w2 where w2: "ubi_write_one_peb K mtd (x + 1) (ubi_buffer ?ui ec2 (?V 1) ?d) (p, c, w1) = Some (y + 1, layout_peb p vtbl 1 y, p, c, w2)"
    "fds w2 = fds w1" "table_spans mtd w2" "cells (kern w2) = stored (cells (kern w1)) (y * ?e) (layout_peb p vtbl 1 y)" "0 \<le> y" "y < eb_cnt mtd"
    "good_ebs mtd p (y + 1) = ys"
    using write_first_good [OF dev1 w1(3) r w1(7) x1 l ld, of ec2 1 c, folded layout_peb_def] by (elim exE conjE) (rule that)
  have h1: "put_bytes (put_bytes (replicate (nat (gi_data_offs ?ui)) 0xff @ ?d) 0 (ec_hdr_bytes (ubigen_init_ec_hdr ?ui ec1))) (nat (gi_vid_hdr_offs ?ui)) (?V 0)
      = ubi_buffer ?ui ec1 (?V 0) ?d" by (rule first_headers [OF g l])
  have h2: "put_bytes (put_bytes (layout_peb p vtbl 0 x) 0 (ec_hdr_bytes (ubigen_init_ec_hdr ?ui ec2))) (nat (gi_vid_hdr_offs ?ui)) (?V 1)
      = ubi_buffer ?ui ec2 (?V 1) ?d" unfolding layout_peb_def by (simp add: put_ec_hdr put_vid_hdr [OF g l l])
  have "ubi_write_layout_vol K mtd eb ec1 ec2 vtbl (p, c, w) = Some (0, p, c, w2)"
    using w1(1,5) w2(1,5) by (simp add: ubi_write_layout_vol_def tb layout_volume_def [symmetric] h1 h2)
  then show ?thesis using w1 w2 by auto
qed

section \<open>Formatting\<close>

text \<open>A block that holds no data: its erase counter header and 0xff.\<close>

definition empty_peb :: "mtd_dev \<Rightarrow> ubi_params \<Rightarrow> int \<Rightarrow> u8 list" where
  "empty_peb mtd p x = ec_hdr_bytes (ubigen_init_ec_hdr (up_ui p) (next_ec p (the (eb_mark p x)))) @ replicate (nat (eb_size mtd - 64)) 0xff"

definition header_size :: "mtd_dev \<Rightarrow> nat" where
  "header_size mtd = nat (round_up UBI_EC_HDR_SIZE (subpage_size mtd))"

lemma header_sizes:
  assumes "wf_mtd mtd" "64 \<le> eb_size mtd"
  shows "64 \<le> header_size mtd" "int (header_size mtd) \<le> eb_size mtd" "int (header_size mtd) mod subpage_size mtd = 0"
proof -
  have s: "0 < subpage_size mtd" "eb_size mtd mod min_io_size mtd = 0" "min_io_size mtd mod subpage_size mtd = 0" using assms(1) by (simp_all add: wf_mtd_def)
  then have d: "eb_size mtd mod subpage_size mtd = 0" by (meson dvd_trans mod_0_imp_dvd dvd_imp_mod_0)
  have r: "64 \<le> round_up 64 (subpage_size mtd)" "round_up 64 (subpage_size mtd) \<le> eb_size mtd"
    using round_up_ge [OF s(1), of 64] round_up_le [OF s(1) assms(2) d] by simp_all
  then show "64 \<le> header_size mtd" "int (header_size mtd) \<le> eb_size mtd" "int (header_size mtd) mod subpage_size mtd = 0"
    by (simp_all add: header_size_def UBI_EC_HDR_SIZE_def)
qed

lemma length_empty_peb: "64 \<le> eb_size mtd \<Longrightarrow> int (length (empty_peb mtd p x)) = eb_size mtd"
  by (simp add: empty_peb_def)

lemma format_block_good:
  assumes dev: "ubi_device K mtd (fds w (part_id mtd)) cells pos" and t: "table_spans mtd w" and r: "outbuf_ready mtd p"
    and x: "0 \<le> x" "x < eb_cnt mtd" "eb_mark p x = Some e"
  shows "\<exists>w1 w2. format_erase K mtd x (p, c, w) = Some (TrialGood, p, c, w1) \<and>
    format_header K mtd x (next_ec p e) (p, c, w1) = Some (True, p, c, w2) \<and> fds w2 = fds w \<and> table_spans mtd w2 \<and>
    cells (kern w2) = stored (cells (kern w)) (x * eb_size mtd) (empty_peb mtd p x)"
proof -
  let ?fd = "fds w (part_id mtd)" and ?s = "x * eb_size mtd" and ?e = "eb_size mtd"
  let ?H = "ec_hdr_bytes (ubigen_init_ec_hdr (up_ui p) (next_ec p e))"
  have wf: "wf_mtd mtd" and rd: "readable_device K ?fd cells pos (mtd_size mtd)" and wd: "writable_device K ?fd cells pos (mtd_size mtd)"
    using dev by (simp_all add: ubi_device_def)
  have e64: "64 \<le> ?e" using r by (auto simp: outbuf_ready_def ubi_geometry_def)
  note S = header_sizes [OF wf e64] and B = block_in_device [OF wf x(1,2)]
  obtain w0 where w0: "mtd_erase K mtd ?fd x w = (0, w0)" "frame w w0" "cells (kern w0) = blanked (cells (kern w)) ?s ?e"
    using mtd_erase_block [OF dev x(1,2), of w] by (elim exE conjE) (rule that)
  have t0: "table_spans mtd w0" by (rule table_spans_frame [OF w0(2) t])
  obtain w1 where w1: "mtd_bm_block_map_set (MTD_EB_RELATIVE_TO_ABSOLUTE mtd x) MTD_BLK_ERASED w0 = Some w1" "table_spans mtd w1"
    "kern w1 = kern w0" "fds w1 = fds w0"
    using set_erased [OF wf t0 x(1,2), of MTD_BLK_ERASED] by (elim exE conjE) (rule that)
  have f: "fds w1 = fds w" using w0(2) w1(4) by (simp add: frame_def)
  let ?hdr = "take (header_size mtd) (empty_peb mtd p x)"
  have hdr: "put_bytes (replicate (nat (round_up UBI_EC_HDR_SIZE (subpage_size mtd))) 0xff) 0 ?H = ?hdr"
    using S(1,2) by (simp add: put_bytes_def empty_peb_def x(3) header_size_def [symmetric])
  have lh: "length ?hdr = header_size mtd" using S(2) length_empty_peb [OF e64, of p x] by simp
  have "mtd_write K mtd ?fd x 0 ?hdr None MTD_OPS_PLACE_OOB w1 = write_data K ?fd ?s ?hdr w1"
    using B(3) S(2,3) unfolding mtd_write_def Let_def lh by simp
  moreover have "\<exists>w'. write_data K ?fd ?s ?hdr w1 = (0, w') \<and> frame w1 w' \<and> cells (kern w') = stored (cells (kern w1)) ?s ?hdr"
    by (rule write_data_stores [OF rd wd B(1)]) (use B(2) S(2) in \<open>simp_all only: lh w1(3) w0(3), simp_all add: blanked_def\<close>)
  ultimately obtain w2 where w2: "mtd_write K mtd ?fd x 0 ?hdr None MTD_OPS_PLACE_OOB w1 = (0, w2)" "frame w1 w2"
    "cells (kern w2) = stored (cells (kern w1)) ?s ?hdr" by auto
  have "length (dropWhile (\<lambda>b. b = 0xff) (rev (empty_peb mtd p x))) \<le> header_size mtd"
    using S(1) length_dropWhile_le [of "\<lambda>b. b = 0xff" "rev ?H"] by (simp add: empty_peb_def x(3) dropWhile_append)
  then have "cells (kern w2) = stored (cells (kern w)) ?s (empty_peb mtd p x)"
    using S(2) length_empty_peb [OF e64, of p x] by (simp add: w2(3) w1(3) w0(3) stored_dropped)
  moreover have "format_erase K mtd x (p, c, w) = Some (TrialGood, p, c, w1)" using w0(1) w1(1) by (simp add: format_erase_def)
  moreover have "format_header K mtd x (next_ec p e) (p, c, w1) = Some (True, p, c, w2)"
    using w2(1) f by (simp add: format_header_def hdr)
  moreover have "fds w2 = fds w" "table_spans mtd w2" using f w2(2) table_spans_frame [OF w2(2) w1(2)] by (simp_all add: frame_def)
  ultimately show ?thesis by blast
qed

lemma process_info_reports:
  "b \<noteq> 0 \<Longrightarrow> \<exists>w'. set_process_info env mtd ty a b w = Some w' \<and> kern w' = kern w \<and> fds w' = fds w \<and> block_map w' = block_map w"
  by (cases "bm_listening env") (auto simp: set_process_info_def)

lemma good_ebs_next:
  "eb < eb_cnt mtd \<Longrightarrow> good_ebs mtd p eb = (if eb_mark p eb = Some EB_BAD then good_ebs mtd p (eb + 1) else eb # good_ebs mtd p (eb + 1))"
  by (simp add: good_ebs_def upto_rec1)

lemma format_loop_good:
  assumes "ubi_device K mtd (fds w (part_id mtd)) cells pos" "table_spans mtd w" "outbuf_ready mtd p" "0 \<le> start" "start \<le> eb" "eb \<le> eb_cnt mtd"
  shows "\<exists>w'. format_loop K env mtd start True eb t1 t2 (p, c, w) = Some (True, eb_cnt mtd, t1, t2, p, c, w') \<and> fds w' = fds w \<and>
    table_spans mtd w' \<and> cells (kern w') = stored_pebs (eb_size mtd) (map (\<lambda>x. (x, empty_peb mtd p x)) (good_ebs mtd p eb)) (cells (kern w))"
  using assms
proof (induction "nat (eb_cnt mtd - eb)" arbitrary: eb w)
  case 0
  then show ?case by (subst format_loop.simps) (simp add: good_ebs_def)
next
  case (Suc n)
  then have lt: "eb < eb_cnt mtd" by simp
  have L: "int (length (sc_ec (up_si p))) = eb_cnt mtd" using Suc.prems(3) by (simp add: outbuf_ready_def)
  obtain w0 where w0: "set_process_info env mtd BM_OPERATION_FORMAT (eb - start) (eb_cnt mtd - start) w = Some w0" "kern w0 = kern w"
    "fds w0 = fds w" "block_map w0 = block_map w"
    using process_info_reports [of "eb_cnt mtd - start" env mtd BM_OPERATION_FORMAT "eb - start" w] lt Suc.prems(5) by auto
  obtain e where e: "eb_mark p eb = Some e" using lt Suc.prems(4,5) L by (simp add: eb_mark_def)
  have dev0: "ubi_device K mtd (fds w0 (part_id mtd)) cells pos" and t0: "table_spans mtd w0"
    using Suc.prems(1) w0(3) table_spans_map [OF w0(4) Suc.prems(2)] by simp_all
  have IH: "\<exists>w'. format_loop K env mtd start True (eb + 1) t1 t2 (p, c, v) = Some (True, eb_cnt mtd, t1, t2, p, c, w') \<and> fds w' = fds v \<and>
      table_spans mtd w' \<and> cells (kern w') = stored_pebs (eb_size mtd) (map (\<lambda>x. (x, empty_peb mtd p x)) (good_ebs mtd p (eb + 1))) (cells (kern v))"
    if "fds v = fds w" "table_spans mtd v" for v
    using Suc.hyps(1) [of "eb + 1" v] Suc.hyps(2) Suc.prems(1,3-5) that lt by simp
  show ?case
  proof (cases "e = EB_BAD")
    case True
    then have "format_loop K env mtd start True eb t1 t2 (p, c, w) = format_loop K env mtd start True (eb + 1) t1 t2 (p, c, w0)"
      using lt w0(1) e by (subst format_loop.simps) simp
    then show ?thesis using IH [OF w0(3) t0] e True w0(2,3) by (simp add: good_ebs_next [OF lt])
  next
    case False
    have "0 \<le> eb" using Suc.prems(4,5) by simp
    then obtain w1 w2 where f: "format_erase K mtd eb (p, c, w0) = Some (TrialGood, p, c, w1)"
      "format_header K mtd eb (next_ec p e) (p, c, w1) = Some (True, p, c, w2)" "fds w2 = fds w0" "table_spans mtd w2"
      "cells (kern w2) = stored (cells (kern w0)) (eb * eb_size mtd) (empty_peb mtd p eb)"
      using format_block_good [OF dev0 t0 Suc.prems(3) _ lt e, of c] by auto
    have "format_loop K env mtd start True eb t1 t2 (p, c, w) = format_loop K env mtd start True (eb + 1) t1 t2 (p, c, w2)"
      using lt w0(1) e False f(1,2) by (subst format_loop.simps) simp
    moreover have "fds w2 = fds w" using f(3) w0(3) by simp
    ultimately show ?thesis using IH [OF _ f(4)] e False w0(2) f(5) by (simp add: good_ebs_next [OF lt])
  qed
qed

lemma format_tail_good:
  assumes "ubi_device K mtd (fds w (part_id mtd)) cells pos" "table_spans mtd w" "outbuf_ready mtd p" "0 \<le> start" "start < eb_cnt mtd"
  shows "\<exists>w'. ubi_format_tail K env mtd start True (p, c, w) = Some (eb_cnt mtd, p, c, w') \<and> fds w' = fds w \<and>
    cells (kern w') = stored_pebs (eb_size mtd) (map (\<lambda>x. (x, empty_peb mtd p x)) (good_ebs mtd p start)) (cells (kern w))"
proof -
  obtain w1 where w1: "format_loop K env mtd start True start None None (p, c, w) = Some (True, eb_cnt mtd, None, None, p, c, w1)" "fds w1 = fds w"
    "cells (kern w1) = stored_pebs (eb_size mtd) (map (\<lambda>x. (x, empty_peb mtd p x)) (good_ebs mtd p start)) (cells (kern w))"
    using format_loop_good [OF assms(1-4) order_refl, of env None None c] assms(5) by auto
  obtain w2 where w2: "set_process_info env mtd BM_OPERATION_FORMAT (eb_cnt mtd - start) (eb_cnt mtd - start) w1 = Some w2" "kern w2 = kern w1" "fds w2 = fds w1"
    using process_info_reports [of "eb_cnt mtd - start" env mtd BM_OPERATION_FORMAT "eb_cnt mtd - start" w1] assms(5) by auto
  show ?thesis using w1 w2 by (simp add: ubi_format_tail_def)
qed

text \<open>
  A volume that fills the partition leaves no block to format. The progress reported then is a
  division by zero.
\<close>

lemma format_tail_full: "ubi_format_tail K env mtd (eb_cnt mtd) True s = None"
  by (cases s) (simp add: ubi_format_tail_def format_loop.simps set_process_info_def)

text \<open>
  A block whose erasure fails is marked bad on the flash, but the table of block states records
  the block behind it: that one stays recorded bad although it is good, this one does not.
\<close>

lemma failed_erase_records_next:
  assumes "wf_mtd mtd" "mtd_erase K mtd (fds w (part_id mtd)) eb w = (err, w1)" "err \<noteq> 0" "errno w1 = EIO"
    and "mark_bad K mtd eb (p, c, w1) = (0, p2, c2, w2)" "block_state w2 (eb + 1 + first_eb mtd) = Some st"
  shows "\<exists>w3. write_peb K mtd eb e buf (p, c, w) = Some (TrialBad, buf, p2, c2, w3) \<and>
    block_state w3 (eb + 1 + first_eb mtd) = Some MTD_BLK_BAD \<and> block_state w3 (eb + first_eb mtd) = block_state w2 (eb + first_eb mtd)"
proof -
  obtain w3 where w3: "mtd_bm_block_map_set (eb + 1 + first_eb mtd) MTD_BLK_BAD w2 = Some w3"
    "\<And>x. block_state w3 x = (if x = eb + 1 + first_eb mtd \<and> st \<noteq> MTD_BLK_BAD then Some MTD_BLK_BAD else block_state w2 x)"
    using block_map_set [OF assms(6), of MTD_BLK_BAD] by blast
  have "write_peb K mtd eb e buf (p, c, w) = Some (TrialBad, buf, p2, c2, w3)"
    using assms(2-5) w3(1) by (simp add: write_peb_def rel_to_abs [OF assms(1)])
  then show ?thesis using assms(6) by (intro exI [of _ w3]) (simp add: w3(2))
qed

section \<open>The volume made\<close>

lemma good_ebs_after: "n \<le> length (good_ebs mtd p eb) \<Longrightarrow> good_ebs mtd p (next_eb mtd p eb n) = drop n (good_ebs mtd p eb)"
proof (induction n arbitrary: eb)
  case (Suc n)
  then obtain x xs where g: "good_ebs mtd p eb = x # xs" by (cases "good_ebs mtd p eb") auto
  have x: "good_ebs mtd p (x + 1) = xs" using filter_upto_Cons [OF g [unfolded good_ebs_def]] by (simp add: good_ebs_def)
  show ?case using Suc.IH [of "x + 1"] Suc.prems g x by (simp add: next_eb_Suc [OF g x])
qed (simp add: next_eb_def)

lemma stored_pebs_append: "stored_pebs e (ps @ qs) c = stored_pebs e qs (stored_pebs e ps c)"
  by (simp add: stored_pebs_def)

lemma stored_pebs_outside:
  "0 < e \<Longrightarrow> list_all (\<lambda>(x, img). int (length img) = e) ps \<Longrightarrow> a div e \<notin> fst ` set ps \<Longrightarrow> stored_pebs e ps c a = c a"
proof (induction ps arbitrary: c)
  case (Cons q ps)
  then show ?case using stored_outside [of e "snd q" a "fst q"] by (cases q) simp
qed simp

lemma stored_pebs_inside:
  assumes e: "0 < eb_size mtd"
  shows "list_all (\<lambda>(x, img). int (length img) = eb_size mtd) ps \<Longrightarrow> distinct (map fst ps) \<Longrightarrow> (x, img) \<in> set ps \<Longrightarrow>
    block_bytes mtd (stored_pebs (eb_size mtd) ps c) x = img"
proof (induction ps arbitrary: c)
  case (Cons q ps)
  obtain y d where q: "q = (y, d)" by (cases q)
  show ?case
  proof (cases "(x, img) = q")
    case True
    then have "x \<notin> fst ` set ps" using Cons.prems(2) q by simp
    then have "block_bytes mtd (stored_pebs (eb_size mtd) ps (stored c (x * eb_size mtd) img)) x = block_bytes mtd (stored c (x * eb_size mtd) img) x"
      using Cons.prems(1) by (intro block_bytes_cong [OF e] stored_pebs_outside [OF e]) auto
    then show ?thesis using block_bytes_stored [OF e, of img c x] Cons.prems(1) True q by auto
  next
    case False
    then have "(x, img) \<in> set ps" using Cons.prems(3) by auto
    then show ?thesis using Cons.IH Cons.prems(1,2) q by simp
  qed
qed simp

text \<open>What the good blocks of the partition hold in the end.\<close>

definition installed :: "mtd_dev \<Rightarrow> ubi_params \<Rightarrow> ubigen_vol_info \<Rightarrow> ubi_vtbl_record list \<Rightarrow> u8 list \<Rightarrow> nat \<Rightarrow> int list \<Rightarrow> (int \<times> u8 list) list" where
  "installed mtd p vi vtbl buf n xs = volume_pebs p vi (up_vid_hdr_lnum p) (take n (drop 2 xs)) buf @
     [(xs ! 0, layout_peb p vtbl 0 (xs ! 0)), (xs ! 1, layout_peb p vtbl 1 (xs ! 1))] @ map (\<lambda>x. (x, empty_peb mtd p x)) (drop (2 + n) xs)"

lemma volume_pebs_fst: "map fst (volume_pebs p vi lnum xs buf) = xs"
  by (induction xs arbitrary: lnum buf) simp_all

lemma volume_pebs_length:
  "ubi_geometry mtd (up_ui p) \<Longrightarrow> int (length buf) = int (length xs) * gi_leb_size (up_ui p) \<Longrightarrow>
     list_all (\<lambda>(x, img). int (length img) = eb_size mtd) (volume_pebs p vi lnum xs buf)"
proof (induction xs arbitrary: lnum buf)
  case (Cons x xs)
  have l: "0 < gi_leb_size (up_ui p)" using Cons.prems(1) by (simp add: ubi_geometry_def)
  note r = buffer_split [OF Cons.prems(2) [unfolded length_Cons] l]
  show ?case using Cons.IH [OF Cons.prems(1) r(2)] length_peb_of [OF Cons.prems(1) r(1)] by simp
qed simp

lemma volume_pebs_nth:
  "i < length xs \<Longrightarrow> volume_pebs p vi lnum xs buf ! i = (xs ! i, peb_of p vi (lnum + int i) (xs ! i) (leb_data p buf i))"
proof (induction xs arbitrary: lnum buf i)
  case (Cons x xs)
  then show ?case by (cases i) (simp_all add: leb_data_def add.commute add.left_commute)
qed simp

lemma length_layout_peb: "outbuf_ready mtd p \<Longrightarrow> wf_vtbl (up_ui p) vtbl \<Longrightarrow> int (length (layout_peb p vtbl lnum x)) = eb_size mtd"
  using length_ubi_buffer [of mtd "up_ui p" "vid_hdr_bytes (ubigen_init_vid_hdr (up_ui p) (layout_volume (up_ui p)) lnum [])" "table_leb (up_ui p) vtbl"]
    table_bytes(1) [of "up_ui p" vtbl]
  by (auto simp: layout_peb_def outbuf_ready_def ubi_geometry_def table_leb_def wf_vtbl_def)

lemma installed_fst: "length xs \<ge> 2 + n \<Longrightarrow> set (map fst (installed mtd p vi vtbl buf n xs)) = set xs"
  "length xs \<ge> 2 + n \<Longrightarrow> distinct xs \<Longrightarrow> distinct (map fst (installed mtd p vi vtbl buf n xs))"
proof -
  assume l: "length xs \<ge> 2 + n"
  then obtain x y zs where xs: "xs = x # y # zs" by (cases xs; cases "tl xs") auto
  have m: "map fst (installed mtd p vi vtbl buf n xs) = take n zs @ [x, y] @ drop n zs"
    by (simp add: installed_def volume_pebs_fst xs o_def)
  have s: "set (take n zs) \<union> set (drop n zs) = set zs" by (metis append_take_drop_id set_append)
  show "set (map fst (installed mtd p vi vtbl buf n xs)) = set xs" unfolding m using s by (auto simp: xs)
  show "distinct (map fst (installed mtd p vi vtbl buf n xs))" if "distinct xs"
  proof -
    have "distinct (take n zs @ drop n zs)" using that by (simp add: xs)
    then have "set (take n zs) \<inter> set (drop n zs) = {}" by (simp only: distinct_append)
    then show ?thesis unfolding m using that s by (auto simp: xs)
  qed
qed

lemma installed_length:
  assumes "outbuf_ready mtd p" "wf_vtbl (up_ui p) vtbl" "int (length buf) = int n * gi_leb_size (up_ui p)" "length xs \<ge> 2 + n"
  shows "list_all (\<lambda>(x, img). int (length img) = eb_size mtd) (installed mtd p vi vtbl buf n xs)"
proof -
  have g: "ubi_geometry mtd (up_ui p)" "64 \<le> eb_size mtd" using assms(1) by (auto simp: outbuf_ready_def ubi_geometry_def)
  have l: "int (length buf) = int (length (take n (drop 2 xs))) * gi_leb_size (up_ui p)" using assms(3,4) by simp
  show ?thesis
    using volume_pebs_length [OF g(1) l] length_layout_peb [OF assms(1,2)] length_empty_peb [OF g(2)]
    by (simp add: installed_def list.pred_map o_def list.pred_True)
qed

lemma write_done_good:
  assumes dev: "ubi_device K mtd (fds w (part_id mtd)) cells pos" and t: "table_spans mtd w" and wf: "wf_ubi mtd p" and u: "us_ubi u = Some p"
    and vi: "up_vi p = Some vi" and vt: "up_vtbl p = Some vtbl" "wf_vtbl (up_ui p) vtbl"
    and fs: "params fs = Some q" "p_mtd q = Some mtd" "p_max_size q \<noteq> 0" "p_length q = int (length (p_buf q))" "fs_mtd fs2 = Some mtd"
    and n: "int (length (p_buf q)) = int n * gi_leb_size (up_ui p)" "n < length zs"
    and xs: "good_ebs mtd p (up_start_eb p) = x # y # zs" "0 \<le> up_start_eb p"
      "MTD_EB_ABSOLUTE_TO_RELATIVE mtd (MTD_OFFSET_TO_EB_INDEX mtd (p_offset q)) = y + 1"
  shows "\<exists>r fs' m1 w2. ubifs_write K env fs (u, w) = Some (r, fs', m1) \<and> 
    ubifs_done K env fs2 m1 = Some (MTD_EB_RELATIVE_TO_ABSOLUTE mtd (eb_cnt mtd) * eb_size mtd, \<lparr>us_ubi = None, us_run = us_run u\<rparr>, w2) \<and>
    cells (kern w2) = stored_pebs (eb_size mtd) (installed mtd p vi vtbl (p_buf q) n (x # y # zs)) (cells (kern w))"
proof -
  let ?buf = "p_buf q" and ?e = "eb_size mtd"
  have r: "outbuf_ready mtd p" and vu: "vi_usable_leb_size vi = gi_leb_size (up_ui p)" using wf vi by (simp_all add: wf_ubi_def)
  have peb: "gi_peb_size (up_ui p) = ?e" using r unfolding outbuf_ready_def ubi_geometry_def by blast
  have gx: "good_ebs mtd p (x + 1) = y # zs" "up_start_eb p \<le> x"
    using filter_upto_Cons [OF xs(1) [unfolded good_ebs_def]] by (simp_all add: good_ebs_def)
  have gy: "good_ebs mtd p (y + 1) = zs" "x + 1 \<le> y"
    using filter_upto_Cons [OF gx(1) [unfolded good_ebs_def]] by (simp_all add: good_ebs_def)
  have y0: "0 \<le> y + 1" using gx(2) gy(2) xs(2) by simp
  have nz: "n \<le> length (good_ebs mtd p (y + 1))" using n(2) gy(1) by simp
  let ?f = "next_eb mtd p (y + 1) n"
  obtain fs' out w1 where w1: "ubi_write_volume K env mtd ?buf (y + 1) (int (length ?buf)) fs (p, us_run u, w) = Some (?f, fs',
      p\<lparr>up_outbuf := out, up_vid_hdr_lnum := up_vid_hdr_lnum p + int n, up_format_eb := ?f\<rparr>, us_run u, w1)"
    "fds w1 = fds w" "table_spans mtd w1" "outbuf_ready mtd (p\<lparr>up_outbuf := out\<rparr>)" "0 \<le> ?f"
    "cells (kern w1) = stored_pebs ?e (volume_pebs p vi (up_vid_hdr_lnum p) (take n zs) ?buf) (cells (kern w))"
    using write_volume_good [OF dev t r vi vu fs(1,3) nz y0 n(1), of env "us_run u"] unfolding gy(1) by (elim exE conjE) (rule that)
  let ?p = "p\<lparr>up_outbuf := out, up_vid_hdr_lnum := up_vid_hdr_lnum p + int n, up_format_eb := ?f\<rparr>"
  have m: "eb_mark ?p = eb_mark p" "next_ec ?p = next_ec p" by (simp_all add: eb_mark_def next_ec_def fun_eq_iff)
  have g2: "good_ebs mtd ?p = good_ebs mtd p" by (simp add: good_ebs_def m fun_eq_iff)
  have lay: "layout_peb ?p = layout_peb p" "empty_peb mtd ?p = empty_peb mtd p" by (simp_all add: layout_peb_def empty_peb_def m fun_eq_iff)
  have r2: "outbuf_ready mtd ?p" using w1(4) by simp
  have dev1: "ubi_device K mtd (fds w1 (part_id mtd)) cells pos" using dev by (simp add: w1(2))
  obtain w2 where w2: "ubi_write_layout_vol K mtd (up_start_eb p) (up_ec p) (up_ec p) vtbl (?p, us_run u, w1) = Some (0, ?p, us_run u, w2)"
    "fds w2 = fds w1" "table_spans mtd w2" "cells (kern w2) = stored (stored (cells (kern w1)) (x * ?e) (layout_peb p vtbl 0 x)) (y * ?e) (layout_peb p vtbl 1 y)"
    using layout_vol_good [OF dev1 w1(3) r2 _ xs(2), of x y zs vtbl "up_ec p" "up_ec p" "us_run u"] xs(1) vt(2) unfolding g2 lay by auto
  have dev2: "ubi_device K mtd (fds w2 (part_id mtd)) cells pos" using dev1 by (simp add: w2(2))
  have gf: "good_ebs mtd p ?f = drop n zs" using good_ebs_after [OF nz] gy(1) by simp
  then obtain z where "z \<in> set (good_ebs mtd p ?f)" using n(2) by (metis drop_eq_Nil ex_in_conv leD set_empty)
  then have f: "?f < eb_cnt mtd" using good_ebs_range [of z mtd p ?f] by simp
  obtain w3 where w3: "ubi_format_tail K env mtd ?f True (?p, us_run u, w2) = Some (eb_cnt mtd, ?p, us_run u, w3)"
    "cells (kern w3) = stored_pebs ?e (map (\<lambda>x. (x, empty_peb mtd p x)) (drop n zs)) (cells (kern w2))"
    using format_tail_good [OF dev2 w2(3) r2 w1(5) f, of env "us_run u"] unfolding g2 lay gf by blast
  have "ubifs_write K env fs (u, w) = Some (MTD_EB_RELATIVE_TO_ABSOLUTE mtd ?f * ?e, fs', \<lparr>us_ubi = Some ?p, us_run = us_run u\<rparr>, w1)"
    using u fs xs(3) w1(1,5) peb by (simp add: ubifs_write_def put_ubi_def)
  moreover have "0 < eb_cnt mtd" using f w1(5) by simp
  then have "ubifs_done K env fs2 (\<lparr>us_ubi = Some ?p, us_run = us_run u\<rparr>, w1) =
      Some (MTD_EB_RELATIVE_TO_ABSOLUTE mtd (eb_cnt mtd) * ?e, \<lparr>us_ubi = None, us_run = us_run u\<rparr>, w3)"
    using fs(5) vt(1) w2(1) w3(1) peb by (simp add: ubifs_done_def put_ubi_def)
  moreover have "cells (kern w3) = stored_pebs ?e (installed mtd p vi vtbl ?buf n (x # y # zs)) (cells (kern w))"
    by (simp add: w3(2) w2(4) w1(6) installed_def stored_pebs_append)
  ultimately show ?thesis by blast
qed

lemma empty_record_length: "length (vtbl_record_bytes (seal_record r)) = 172" if "length (vr_name r) = 128" "length (vr_padding r) = 23"
  using that by (simp add: vtbl_record_bytes_def vtbl_record_body_def seal_record_def)

lemma empty_vtbl_wf:
  assumes "0 \<le> gi_max_volumes ui" "gi_vtbl_size ui = gi_max_volumes ui * 172" "gi_vtbl_size ui \<le> gi_leb_size ui"
  shows "wf_vtbl ui (ubigen_create_empty_vtbl ui)"
  using assms empty_record_length [of zero_record] by (auto simp: wf_vtbl_def ubigen_create_empty_vtbl_def zero_record_def)

lemma add_volume_wf: "ubigen_add_volume ui vi vtbl = Some (r, vtbl') \<Longrightarrow> wf_vtbl ui vtbl \<Longrightarrow> wf_vtbl ui vtbl'"
  by (auto simp: ubigen_add_volume_def Let_def wf_vtbl_def zero_record_def UBI_VOL_NAME_MAX_def split: if_splits dest!: set_update_subset_insert [THEN subsetD]
      intro!: empty_record_length)

text \<open>The parameters of a volume, once set, are those the rest relies on.\<close>

lemma volume_params_ready:
  assumes "ubi_volume_params_set len p = Some (0, p')" "0 \<le> gi_max_volumes (up_ui p)" "gi_vtbl_size (up_ui p) = gi_max_volumes (up_ui p) * 172"
    "gi_vtbl_size (up_ui p) \<le> gi_leb_size (up_ui p)"
  shows "\<exists>vi vtbl. up_vi p' = Some vi \<and> up_vtbl p' = Some vtbl \<and> wf_vtbl (up_ui p') vtbl \<and> up_ui p' = up_ui p"
  using assms(1) add_volume_wf [OF _ empty_vtbl_wf [OF assms(2-4)]]
  by (auto simp: ubi_volume_params_set_def ubi_generate_vi_info_def Let_def split: option.splits if_splits prod.splits)

text \<open>
  C5. An image is installed as a UBI volume. On a device that behaves, writing an image of
  \<open>n\<close> logical blocks behind the two blocks set aside, with a good block to spare, and finishing
  makes the partition what the kernel attaches: the two blocks set aside are the layout volume,
  each with the volume table, the next \<open>n\<close> good blocks are the volume, in order, the good
  blocks behind them hold an erase counter and nothing else, and no other byte of the flash
  changed. The filesystem object is released.
\<close>

theorem ubifs_installs_volume:
  assumes dev: "ubi_device K mtd (fds w (part_id mtd)) cells pos" and t: "table_spans mtd w" and wf: "wf_ubi mtd p" and u: "us_ubi u = Some p"
    and vi: "up_vi p = Some vi" and vt: "up_vtbl p = Some vtbl" "wf_vtbl (up_ui p) vtbl"
    and fs: "params fs = Some q" "p_mtd q = Some mtd" "p_max_size q \<noteq> 0" "p_length q = int (length (p_buf q))" "fs_mtd fs2 = Some mtd"
    and n: "int (length (p_buf q)) = int n * gi_leb_size (up_ui p)" "n < length zs"
    and xs: "good_ebs mtd p (up_start_eb p) = x # y # zs" "0 \<le> up_start_eb p"
      "MTD_EB_ABSOLUTE_TO_RELATIVE mtd (MTD_OFFSET_TO_EB_INDEX mtd (p_offset q)) = y + 1"
  shows "\<exists>r fs' m1 w2. ubifs_write K env fs (u, w) = Some (r, fs', m1) \<and>
    ubifs_done K env fs2 m1 = Some (MTD_EB_RELATIVE_TO_ABSOLUTE mtd (eb_cnt mtd) * eb_size mtd, \<lparr>us_ubi = None, us_run = us_run u\<rparr>, w2) \<and>
    block_bytes mtd (cells (kern w2)) x = layout_peb p vtbl 0 x \<and> block_bytes mtd (cells (kern w2)) y = layout_peb p vtbl 1 y \<and>
    (\<forall>i < n. block_bytes mtd (cells (kern w2)) (zs ! i) = peb_of p vi (up_vid_hdr_lnum p + int i) (zs ! i) (leb_data p (p_buf q) i)) \<and>
    (\<forall>z \<in> set (drop n zs). block_bytes mtd (cells (kern w2)) z = empty_peb mtd p z) \<and>
    (\<forall>a. a div eb_size mtd \<notin> {x, y} \<union> set zs \<longrightarrow> cells (kern w2) a = cells (kern w) a)"
proof -
  let ?xs = "x # y # zs"
  let ?ps = "installed mtd p vi vtbl (p_buf q) n ?xs"
  obtain r fs' m1 w2 where run: "ubifs_write K env fs (u, w) = Some (r, fs', m1)"
    "ubifs_done K env fs2 m1 = Some (MTD_EB_RELATIVE_TO_ABSOLUTE mtd (eb_cnt mtd) * eb_size mtd, \<lparr>us_ubi = None, us_run = us_run u\<rparr>, w2)"
    "cells (kern w2) = stored_pebs (eb_size mtd) ?ps (cells (kern w))"
    using write_done_good [OF dev t wf u vi vt fs n xs, of env] by (elim exE conjE) (rule that)
  have r: "outbuf_ready mtd p" and e: "0 < eb_size mtd" using wf wf_ubi_size [OF wf] by (simp_all add: wf_ubi_def)
  have l: "length ?xs \<ge> 2 + n" using n(2) by simp
  have d: "distinct ?xs" using distinct_good_ebs [of mtd p "up_start_eb p"] xs(1) by simp
  note L = installed_length [OF r vt(2) n(1) l, of vi] and D = installed_fst [OF l, of mtd p vi vtbl "p_buf q"]
  have B: "block_bytes mtd (cells (kern w2)) b = img" if "(b, img) \<in> set ?ps" for b img
    unfolding run(3) by (rule stored_pebs_inside [OF e L D(2) [OF d] that])
  have "(zs ! i, peb_of p vi (up_vid_hdr_lnum p + int i) (zs ! i) (leb_data p (p_buf q) i)) \<in> set ?ps" if "i < n" for i
  proof -
    have i: "i < length (take n zs)" using that n(2) by simp
    have "volume_pebs p vi (up_vid_hdr_lnum p) (take n zs) (p_buf q) ! i \<in> set (volume_pebs p vi (up_vid_hdr_lnum p) (take n zs) (p_buf q))"
      using i volume_pebs_fst [of p vi "up_vid_hdr_lnum p" "take n zs" "p_buf q"] by (metis length_map nth_mem)
    then show ?thesis using volume_pebs_nth [OF i, of p vi "up_vid_hdr_lnum p" "p_buf q"] that by (simp add: installed_def)
  qed
  moreover have "(x, layout_peb p vtbl 0 x) \<in> set ?ps" "(y, layout_peb p vtbl 1 y) \<in> set ?ps" by (simp_all add: installed_def)
  moreover have "(z, empty_peb mtd p z) \<in> set ?ps" if "z \<in> set (drop n zs)" for z using that by (simp add: installed_def)
  moreover have "cells (kern w2) a = cells (kern w) a" if "a div eb_size mtd \<notin> {x, y} \<union> set zs" for a
  proof -
    have "a div eb_size mtd \<notin> fst ` set ?ps" using that D(1) by auto
    then show ?thesis unfolding run(3) by (rule stored_pebs_outside [OF e L])
  qed
  ultimately show ?thesis using run(1,2) B by blast
qed

end
