(* ===== verification/UbiChip.thy ===== *)
theory UbiChip
  imports UbiDone Chip
begin

text \<open>
  A chip large enough for UBI: four blocks of 512 bytes with pages of 64, the second of them
  bad. The theorems about UBI are witnessed at it.
\<close>

definition ubi_mtd :: mtd_dev where
  "ubi_mtd = \<lparr>mtd_name = ''rootfs'', mtd_type = NANDFLASH, mtd_size = 2048, eb_size = 512, eb_cnt = 4, min_io_size = 64,
     subpage_size = 64, oob_size = 16, bb_allowed = True, part_start = 0, part_id = 0\<rparr>"

definition ubi_info :: ubigen_info where
  "ubi_info = ubigen_info_init 512 64 64 0 1 42"

lemma ubi_info_fields [simp]: "gi_peb_size ubi_info = 512" "gi_vid_hdr_offs ubi_info = 64" "gi_data_offs ubi_info = 128"
    "gi_leb_size ubi_info = 384" "gi_max_volumes ubi_info = 2" "gi_ubi_ver ubi_info = 1"
  by (simp_all add: ubi_info_def ubigen_info_init_def round_up_def Let_def UBI_EC_HDR_SIZE_def UBI_VID_HDR_SIZE_def
      UBI_VTBL_RECORD_SIZE_def UBI_MAX_VOLUMES_def)

lemma ubi_mtd_select [simp]:
  "mtd_size ubi_mtd = 2048" "eb_size ubi_mtd = 512" "eb_cnt ubi_mtd = 4" "part_start ubi_mtd = 0" "part_id ubi_mtd = 0"
  "bb_allowed ubi_mtd" "min_io_size ubi_mtd = 64" "subpage_size ubi_mtd = 64" "mtd_name ubi_mtd = ''rootfs''"
  by (simp_all add: ubi_mtd_def)

lemma ubi_mtd_wf: "wf_mtd ubi_mtd"
proof -
  have "\<exists>k. (512 :: int) = 2 ^ k" by (rule exI [of _ 9]) simp
  then show ?thesis by (simp add: wf_mtd_def)
qed

section \<open>A partition scanned\<close>

text \<open>One block with the counter 7, the bad one, and two erased.\<close>

definition ubi_cells :: "int \<Rightarrow> u8" where
  "ubi_cells a = (if a < 64 then ec_hdr_bytes (ubigen_init_ec_hdr ubi_info 7) ! nat a else 0xff)"

definition ubi_world :: "chip_state world" where
  "ubi_world = (chip_world None)\<lparr>kern := (ubi_cells, 0)\<rparr>"

definition ubi_kinds :: "block_kind list" where
  "ubi_kinds = [Counted_block 7, Bad_block, Blank_block, Blank_block]"

lemma ubi_chip_partition: "ubi_partition (chip chip_bad 512) ubi_mtd fd fst snd ubi_info ubi_kinds"
proof -
  have "(ubi_kinds ! nat eb = Bad_block) = chip_bad eb" if "0 \<le> eb" "eb < 4" for eb
  proof -
    have "eb \<in> {0, 1, 2, 3}" using that by auto
    then show ?thesis by (auto simp: ubi_kinds_def chip_bad_def)
  qed
  then have "queryable_device (chip chip_bad 512) ubi_mtd fd fst (\<lambda>eb. ubi_kinds ! nat eb = Bad_block)"
    by (auto simp: queryable_device_def split_paired_all)
  then show ?thesis
    by (simp add: ubi_partition_def ubi_mtd_wf chip_readable sound_offsets_def) (simp add: ubi_kinds_def)
qed

lemma ubi_partition_holds: "partition_holds ubi_mtd ubi_info (fst (kern ubi_world)) ubi_kinds"
proof -
  have "header_of ubi_mtd ubi_cells 0 = ec_hdr_bytes (ubigen_init_ec_hdr ubi_info 7)"
    by (rule nth_equalityI) (simp_all add: header_of_def ubi_cells_def length_generated)
  moreover have "header_of ubi_mtd ubi_cells eb = replicate 64 0xff" if "1 \<le> eb" for eb
    using that by (intro nth_equalityI) (simp_all add: header_of_def ubi_cells_def)
  ultimately have "block_holds ubi_info (header_of ubi_mtd ubi_cells (int i)) (ubi_kinds ! i)" if "i < 4" for i
  proof -
    have "i \<in> {0, 1, 2, 3}" using that by auto
    then show ?thesis
      using \<open>header_of ubi_mtd ubi_cells 0 = _\<close> \<open>\<And>eb. 1 \<le> eb \<Longrightarrow> header_of ubi_mtd ubi_cells eb = _\<close>
      by (auto simp: ubi_kinds_def EC_MAX_def)
  qed
  then show ?thesis by (simp add: partition_holds_def ubi_world_def) (simp add: ubi_kinds_def)
qed

theorem ubi_scan_recognises_witness:
  "\<exists>si w'. ubi_scan (chip chip_bad 512) ubi_mtd 3 ubi_world = Some (Some si, w') \<and>
     sc_ec si = [7, EB_BAD, EB_EMPTY, EB_EMPTY] \<and> sc_mean_ec si = 7 \<and> sc_good_cnt si = 3 \<and> sc_data_offs si = 128"
  using ubi_scan_recognises [OF ubi_chip_partition ubi_partition_holds]
  by (fastforce simp: ubi_kinds_def counters_def count_kind_def)

section \<open>A volume planned\<close>

text \<open>What the scan finds, and a volume of two logical blocks.\<close>

definition ubi_scanned :: ubi_scan_info where
  "ubi_scanned = \<lparr>sc_ec = [7, EB_BAD, EB_EMPTY, EB_EMPTY], sc_mean_ec = 7, sc_ok_cnt = 1, sc_empty_cnt = 2, sc_corrupted_cnt = 0,
     sc_alien_cnt = 0, sc_bad_cnt = 1, sc_good_cnt = 3, sc_vid_hdr_offs = 64, sc_data_offs = 128\<rparr>"

definition ubi_volume :: ubigen_vol_info where
  "ubi_volume = \<lparr>vi_id = 0, vi_type = UBI_VID_DYNAMIC, vi_alignment = 1, vi_data_pad = 0, vi_usable_leb_size = 384,
     vi_name = name_bytes ''rootfs'', vi_name_len = 6, vi_compat = 0, vi_used_ebs = 2, vi_bytes = 768, vi_flags = 0\<rparr>"

definition ubi_made :: ubi_params where
  "ubi_made = \<lparr>up_vol_name = ''rootfs'', up_max_beb_per1024 = 20, up_ubi_reserved_blks = 4, up_lebsize = 384, up_vol_size = 768,
     up_override_ec = False, up_ec = 0, up_vid_hdr_lnum = 0, up_start_eb = 0, up_layout_volume_start_eb = 0, up_format_eb = 0,
     up_outbuf = ubi_buffer ubi_info 0 (replicate 64 0xff) (replicate 384 0),
     up_devinfo = \<lparr>di_peb_size = 512, di_page_size = 64, di_subpage_size = 64, di_partition_size = 2048, di_device_size = 2048\<rparr>,
     up_ui = ubi_info, up_si = ubi_scanned, up_vtbl = None, up_vi = Some ubi_volume\<rparr>"

definition ubi_mapped :: "chip_state world" where
  "ubi_mapped = ubi_world\<lparr>block_map := Some chip_map\<rparr>"

lemma chip_erasable: "erasable_device (chip bad e) fd fst limit"
  by (simp add: erasable_device_def split_paired_all)

lemma ubi_chip_device: "ubi_device (chip chip_bad 512) ubi_mtd fd fst snd"
  by (simp add: ubi_device_def ubi_mtd_wf chip_readable chip_writable chip_erasable)

section \<open>The operations of the filesystem object\<close>

definition ubi_host1 :: "chip_state ubi_host" where
  "ubi_host1 = \<lparr>uh_writable = (\<lambda>_. True), uh_detach = (\<lambda>_ k. (0, k)), uh_rand = (\<lambda>_. 42)\<rparr>"

definition ubi_request :: filesystem where
  "ubi_request = (normal_init (static_fs ''ubifs''))\<lparr>params := Some (zero_params\<lparr>p_mtd := Some ubi_mtd\<rparr>)\<rparr>"

definition no_ubi_yet :: ubi_state where
  "no_ubi_yet = \<lparr>us_ubi = None, us_run = \<lparr>consecutive_bad_blocks = 0, prev_bb = -1\<rparr>\<rparr>"

lemma ubi_request_mtd: "fs_mtd ubi_request = Some ubi_mtd" "params ubi_request = Some (zero_params\<lparr>p_mtd := Some ubi_mtd\<rparr>)"
  by (simp_all add: fs_mtd_def ubi_request_def)

lemma ubi_room: "room_for_data ubi_mtd"
  by (simp add: room_for_data_def ubigen_info_init_def round_up_def Let_def UBI_EC_HDR_SIZE_def UBI_VID_HDR_SIZE_def)

lemma ubi_good_kinds: "good_kinds ubi_mtd ubi_kinds 0 = [0, 2, 3]"
proof -
  have "[0..3] = [0, 1, 2, 3 :: int]" by (simp add: upto_rec1)
  then show ?thesis by (simp add: good_kinds_def ubi_kinds_def)
qed

lemma ubi_started:
  obtains p w where "ubifs_get_operate_start_address (chip chip_bad 512) ubi_host1 chip_env ubi_request (no_ubi_yet, ubi_mapped) =
      Some (1536, \<lparr>us_ubi = Some p, us_run = us_run no_ubi_yet\<rparr>, w)" "sc_ec (up_si p) = [7, EB_BAD, EB_EMPTY, EB_EMPTY]"
    "fst (kern w) = blanked (blanked (fst (kern ubi_mapped)) 0 512) 1024 512"
proof -
  have h: "partition_holds ubi_mtd ubi_info (fst (kern ubi_mapped)) ubi_kinds" using ubi_partition_holds by (simp add: ubi_mapped_def)
  have H: "ready_host ubi_host1 ubi_mtd fst (kern ubi_mapped)" by (simp add: ready_host_def ubi_host1_def)
  have io: "is_power_of_2 (min_io_size ubi_mtd)" by (simp add: is_power_of_2_def)
  have q: "p_mtd (zero_params\<lparr>p_mtd := Some ubi_mtd\<rparr>) = Some ubi_mtd" by simp
  have eb: "0 = MTD_EB_ABSOLUTE_TO_RELATIVE ubi_mtd (cdiv (p_offset (zero_params\<lparr>p_mtd := Some ubi_mtd\<rparr>)) (eb_size ubi_mtd))"
    by (simp add: zero_params_def MTD_EB_ABSOLUTE_TO_RELATIVE_def MTD_OFFSET_TO_EB_INDEX_def cdiv_def)
  have a: "MTD_EB_RELATIVE_TO_ABSOLUTE ubi_mtd (2 + 1) * eb_size ubi_mtd = 1536"
    by (simp add: MTD_EB_RELATIVE_TO_ABSOLUTE_def MTD_OFFSET_TO_EB_INDEX_def cdiv_def)
  have "\<exists>p w. ubifs_get_operate_start_address (chip chip_bad 512) ubi_host1 chip_env ubi_request (no_ubi_yet, ubi_mapped) =
      Some (1536, \<lparr>us_ubi = Some p, us_run = us_run no_ubi_yet\<rparr>, w) \<and> sc_ec (up_si p) = map block_mark ubi_kinds \<and>
      fst (kern w) = blanked (blanked (fst (kern ubi_mapped)) 0 512) 1024 512"
    using start_good [OF ubi_chip_partition h ubi_chip_device H io ubi_room ubi_request_mtd(2) q eb order_refl ubi_good_kinds, of chip_env no_ubi_yet]
    unfolding a by auto
  then show ?thesis by (elim exE conjE) (rule that, simp_all add: ubi_kinds_def)
qed

text \<open>After the scan the erased blocks are announced and the formatting begins.\<close>

lemma ubi_formatting:
  assumes "us_ubi u = Some p"
  shows "(ubifs_step K env mtd)\<^sup>*\<^sup>* (u, w) (u\<lparr>us_ubi := Some (p\<lparr>up_format_eb := up_layout_volume_start_eb p\<rparr>)\<rparr>, w)"
proof -
  have "ubi_format ubi_request (u, w) = Some (0, ubi_request, u\<lparr>us_ubi := Some (p\<lparr>up_format_eb := up_layout_volume_start_eb p\<rparr>)\<rparr>, w)"
    using assms by (simp add: ubi_format_def)
  then show ?thesis by (intro r_into_rtranclp step_format)
qed

theorem ubifs_states_wf_witness:
  "\<exists>p w. (\<exists>m1. ubifs_get_operate_start_address (chip chip_bad 512) ubi_host1 chip_env ubi_request (no_ubi_yet, ubi_mapped) = Some (1536, m1) \<and>
     (ubifs_step (chip chip_bad 512) chip_env ubi_mtd)\<^sup>*\<^sup>* m1 (\<lparr>us_ubi = Some p, us_run = us_run no_ubi_yet\<rparr>, w)) \<and>
     wf_ubi ubi_mtd p \<and> int (length (up_outbuf p)) = 512"
proof -
  obtain p w where s: "ubifs_get_operate_start_address (chip chip_bad 512) ubi_host1 chip_env ubi_request (no_ubi_yet, ubi_mapped) =
      Some (1536, \<lparr>us_ubi = Some p, us_run = us_run no_ubi_yet\<rparr>, w)"
    by (rule ubi_started) (rule that)
  let ?p = "p\<lparr>up_format_eb := up_layout_volume_start_eb p\<rparr>"
  have st: "(ubifs_step (chip chip_bad 512) chip_env ubi_mtd)\<^sup>*\<^sup>* (\<lparr>us_ubi = Some p, us_run = us_run no_ubi_yet\<rparr>, w)
      (\<lparr>us_ubi = Some ?p, us_run = us_run no_ubi_yet\<rparr>, w)"
    using ubi_formatting [of "\<lparr>us_ubi = Some p, us_run = us_run no_ubi_yet\<rparr>" p "chip chip_bad 512" chip_env ubi_mtd w] by simp
  have wf: "wf_ubi ubi_mtd ?p"
    by (rule ubifs_states_wf [OF s ubi_request_mtd(1) ubi_mtd_wf ubi_room st]) simp
  then obtain ec v d where b: "up_outbuf ?p = ubi_buffer (up_ui ?p) ec v d" "length v = 64" "int (length d) = gi_peb_size (up_ui ?p) - gi_data_offs (up_ui ?p)"
    and g: "ubi_geometry ubi_mtd (up_ui ?p)" unfolding wf_ubi_def outbuf_ready_def by blast
  have "int (length (up_outbuf ?p)) = 512" using length_ubi_buffer [OF g b(2,3), of ec] unfolding b(1) by simp
  with s st wf show ?thesis by blast
qed

theorem ubifs_steps_confined_witness:
  "\<exists>p w m2. ubifs_get_operate_start_address (chip chip_bad 512) ubi_host1 chip_env ubi_request (no_ubi_yet, ubi_mapped) =
      Some (1536, \<lparr>us_ubi = Some p, us_run = us_run no_ubi_yet\<rparr>, w) \<and> eb_mark p 1 = Some EB_BAD \<and>
     (ubifs_step (chip chip_bad 512) chip_env ubi_mtd)\<^sup>*\<^sup>* (\<lparr>us_ubi = Some p, us_run = us_run no_ubi_yet\<rparr>, w) m2 \<and>
     (\<exists>cs. trace (snd m2) = trace w @ cs \<and> (\<forall>(fd, c) \<in> set cs. \<exists>eb. mtd_valid_erase_block ubi_mtd eb \<and> in_block ubi_mtd eb c \<and>
        (eb_mark p eb = Some EB_BAD \<longrightarrow> is_query c)))"
proof -
  obtain p w where s: "ubifs_get_operate_start_address (chip chip_bad 512) ubi_host1 chip_env ubi_request (no_ubi_yet, ubi_mapped) =
      Some (1536, \<lparr>us_ubi = Some p, us_run = us_run no_ubi_yet\<rparr>, w)" "sc_ec (up_si p) = [7, EB_BAD, EB_EMPTY, EB_EMPTY]"
    by (rule ubi_started) (rule that)
  let ?p = "p\<lparr>up_format_eb := up_layout_volume_start_eb p\<rparr>"
  have st: "(ubifs_step (chip chip_bad 512) chip_env ubi_mtd)\<^sup>*\<^sup>* (\<lparr>us_ubi = Some p, us_run = us_run no_ubi_yet\<rparr>, w)
      (\<lparr>us_ubi = Some ?p, us_run = us_run no_ubi_yet\<rparr>, w)"
    using ubi_formatting [of "\<lparr>us_ubi = Some p, us_run = us_run no_ubi_yet\<rparr>" p "chip chip_bad 512" chip_env ubi_mtd w] by simp
  have "us_ubi \<lparr>us_ubi = Some p, us_run = us_run no_ubi_yet\<rparr> = Some p" by simp
  note c = ubifs_steps_confined [OF s(1) ubi_request_mtd(1) ubi_mtd_wf ubi_room this st]
  have "eb_mark p 1 = Some EB_BAD" by (simp add: eb_mark_def s(2))
  then show ?thesis using s(1) st c by fastforce
qed

section \<open>A volume installed\<close>

text \<open>Two blocks more: the blocks 0 and 2 are set aside, the volume takes 3 and 4, the last is left.\<close>

definition ubi_six :: mtd_dev where
  "ubi_six = ubi_mtd\<lparr>mtd_size := 3072, eb_cnt := 6\<rparr>"

definition ubi_planned :: ubi_params where
  "ubi_planned = ubi_made\<lparr>up_si := ubi_scanned\<lparr>sc_ec := [7, EB_BAD, EB_EMPTY, EB_EMPTY, EB_EMPTY, 9], sc_good_cnt := 5\<rparr>,
     up_layout_volume_start_eb := 3, up_vtbl := Some (ubigen_create_empty_vtbl ubi_info)\<rparr>"

definition ubi_six_world :: "chip_state world" where
  "ubi_six_world = ubi_world\<lparr>block_map := Some \<lparr>es = replicate 6 MTD_BLK_SCAN, map_eb_start = 0, map_eb_cnt = 6, bad_cnt = 0\<rparr>\<rparr>"

definition ubi_image :: fs_operation_params where
  "ubi_image = zero_params\<lparr>p_mtd := Some ubi_six, p_buf := replicate 768 0x5a, p_length := 768, p_max_size := 768, p_offset := 1536\<rparr>"

definition ubi_image_fs :: filesystem where
  "ubi_image_fs = (normal_init (static_fs ''ubifs''))\<lparr>params := Some ubi_image\<rparr>"

lemma ubi_six_wf: "wf_mtd ubi_six"
proof -
  have "\<exists>k. (512 :: int) = 2 ^ k" by (rule exI [of _ 9]) simp
  then show ?thesis by (simp add: wf_mtd_def ubi_six_def)
qed

lemma ubi_six_device: "ubi_device (chip chip_bad 512) ubi_six fd fst snd"
  by (simp add: ubi_device_def ubi_six_wf chip_readable chip_writable chip_erasable) (simp add: ubi_six_def)

lemma ubi_six_spans: "table_spans ubi_six ubi_six_world"
  by (simp add: table_spans_def block_state_def ubi_six_world_def first_eb_def ubi_six_def)

lemma ubi_planned_fields [simp]:
  "up_ui ubi_planned = ubi_info" "up_vi ubi_planned = Some ubi_volume" "up_vtbl ubi_planned = Some (ubigen_create_empty_vtbl ubi_info)"
  "up_start_eb ubi_planned = 0" "up_vid_hdr_lnum ubi_planned = 0" "sc_ec (up_si ubi_planned) = [7, EB_BAD, EB_EMPTY, EB_EMPTY, EB_EMPTY, 9]"
  "up_outbuf ubi_planned = up_outbuf ubi_made"
  by (simp_all add: ubi_planned_def ubi_made_def)

lemma ubi_planned_wf: "wf_ubi ubi_six ubi_planned"
proof -
  have "ubi_geometry ubi_six ubi_info" by (simp add: ubi_geometry_def ubi_six_def)
  moreover have "\<exists>ec v d. up_outbuf ubi_planned = ubi_buffer ubi_info ec v d \<and> length v = 64 \<and> int (length d) = gi_peb_size ubi_info - gi_data_offs ubi_info"
    by (intro exI [of _ 0] exI [of _ "replicate 64 0xff"] exI [of _ "replicate 384 0"]) (simp add: ubi_made_def)
  ultimately show ?thesis by (simp add: wf_ubi_def outbuf_ready_def ubi_volume_def) (simp add: ubi_six_def)
qed

lemma ubi_planned_good: "good_ebs ubi_six ubi_planned 0 = [0, 2, 3, 4, 5]"
proof -
  have "[0..5] = [0, 1, 2, 3, 4, 5 :: int]" by (simp add: upto_rec1)
  then show ?thesis by (simp add: good_ebs_def eb_mark_def ubi_six_def EB_BAD_def EB_EMPTY_def)
qed

lemma ubi_info_table: "0 \<le> gi_max_volumes ubi_info" "gi_vtbl_size ubi_info = gi_max_volumes ubi_info * 172" "gi_vtbl_size ubi_info \<le> gi_leb_size ubi_info"
  by (simp_all add: ubi_info_def ubigen_info_init_def round_up_def Let_def UBI_EC_HDR_SIZE_def UBI_VID_HDR_SIZE_def UBI_VTBL_RECORD_SIZE_def UBI_MAX_VOLUMES_def)

theorem ubifs_installs_volume_witness:
  "\<exists>r fs' m1 w2. ubifs_write (chip chip_bad 512) chip_env ubi_image_fs (\<lparr>us_ubi = Some ubi_planned, us_run = us_run no_ubi_yet\<rparr>, ubi_six_world) =
      Some (r, fs', m1) \<and>
    ubifs_done (chip chip_bad 512) chip_env ubi_image_fs m1 = Some (3072, no_ubi_yet, w2) \<and>
    drop 128 (block_bytes ubi_six (fst (kern w2)) 4) = replicate 384 0x5a \<and> drop 64 (block_bytes ubi_six (fst (kern w2)) 5) = replicate 448 0xff \<and>
    fst (kern w2) 512 = fst (kern ubi_six_world) 512"
proof -
  let ?u = "\<lparr>us_ubi = Some ubi_planned, us_run = us_run no_ubi_yet\<rparr>"
  have u: "us_ubi ?u = Some ubi_planned" by simp
  have vt: "wf_vtbl (up_ui ubi_planned) (ubigen_create_empty_vtbl ubi_info)" using empty_vtbl_wf [OF ubi_info_table] by simp
  have fs: "params ubi_image_fs = Some ubi_image" "p_mtd ubi_image = Some ubi_six" "p_max_size ubi_image \<noteq> 0"
    "p_length ubi_image = int (length (p_buf ubi_image))" "fs_mtd ubi_image_fs = Some ubi_six" "p_buf ubi_image = replicate 768 0x5a"
    by (simp_all add: ubi_image_fs_def ubi_image_def fs_mtd_def)
  have n: "int (length (p_buf ubi_image)) = int 2 * gi_leb_size (up_ui ubi_planned)" "2 < length [3, 4, 5 :: int]" by (simp_all add: fs(6))
  have xs: "good_ebs ubi_six ubi_planned (up_start_eb ubi_planned) = 0 # 2 # [3, 4, 5]" "0 \<le> up_start_eb ubi_planned"
    by (simp_all add: ubi_planned_good)
  have eb: "MTD_EB_ABSOLUTE_TO_RELATIVE ubi_six (MTD_OFFSET_TO_EB_INDEX ubi_six (p_offset ubi_image)) = 2 + 1"
    by (simp add: ubi_image_def ubi_six_def MTD_EB_ABSOLUTE_TO_RELATIVE_def MTD_OFFSET_TO_EB_INDEX_def cdiv_def)
  have last: "MTD_EB_RELATIVE_TO_ABSOLUTE ubi_six (eb_cnt ubi_six) * eb_size ubi_six = 3072" "eb_size ubi_six = 512"
    by (simp_all add: MTD_EB_RELATIVE_TO_ABSOLUTE_def MTD_OFFSET_TO_EB_INDEX_def ubi_six_def cdiv_def)
  have d: "drop 128 (peb_of ubi_planned vi lnum x (leb_data ubi_planned (replicate 768 0x5a) 1)) = replicate 384 0x5a" for vi lnum x
    by (simp add: peb_of_def ubi_buffer_def leb_data_def)
  have f: "drop 64 (empty_peb ubi_six ubi_planned 5) = replicate 448 0xff" by (simp add: empty_peb_def last(2))
  obtain r fs' m1 w2 where
    "ubifs_write (chip chip_bad 512) chip_env ubi_image_fs (?u, ubi_six_world) = Some (r, fs', m1)"
    "ubifs_done (chip chip_bad 512) chip_env ubi_image_fs m1 = Some (3072, \<lparr>us_ubi = None, us_run = us_run ?u\<rparr>, w2)"
    "block_bytes ubi_six (fst (kern w2)) 0 = layout_peb ubi_planned (ubigen_create_empty_vtbl ubi_info) 0 0"
    "block_bytes ubi_six (fst (kern w2)) 2 = layout_peb ubi_planned (ubigen_create_empty_vtbl ubi_info) 1 2"
    "\<forall>i < 2. block_bytes ubi_six (fst (kern w2)) ([3, 4, 5] ! i) = peb_of ubi_planned ubi_volume (up_vid_hdr_lnum ubi_planned + int i) ([3, 4, 5] ! i)
       (leb_data ubi_planned (p_buf ubi_image) i)"
    "\<forall>z \<in> set (drop 2 [3, 4, 5]). block_bytes ubi_six (fst (kern w2)) z = empty_peb ubi_six ubi_planned z"
    "\<forall>a. a div eb_size ubi_six \<notin> {0, 2} \<union> set [3, 4, 5] \<longrightarrow> fst (kern w2) a = fst (kern ubi_six_world) a"
    using ubifs_installs_volume [OF ubi_six_device ubi_six_spans ubi_planned_wf u ubi_planned_fields(2,3) vt fs(1-5) n xs eb, of chip_env, unfolded last(1)]
    by (elim exE conjE) (rule that)
  moreover from this(5) have "drop 128 (block_bytes ubi_six (fst (kern w2)) 4) = replicate 384 0x5a"
    using d by (auto simp: fs(6) dest: spec [of _ 1])
  ultimately show ?thesis using f by (fastforce simp: no_ubi_yet_def last(2))
qed

end
