(* ===== verification/MtdLegacy.thy ===== *)
theory MtdLegacy
  imports LoadKeys OtaMerge FileOps
begin

text \<open>
  MTD devices on a kernel without sysfs, \<open>client/recovery/lib/mtd/libmtd_legacy.c\<close>: the table of
  devices is the text of \<open>/proc/mtd\<close>, read once into a buffer of 4096 bytes. \<open>None\<close> is a search
  that never ends.
\<close>

section \<open>State\<close>

definition MTD_NAME_MAX :: nat where "MTD_NAME_MAX = 127"
definition MTD_DEV_MAJOR :: int where "MTD_DEV_MAJOR = 90"
definition INT_MAX :: int where "INT_MAX = 0x7FFFFFFF"
definition newline :: char where "newline = CHR 0x0A"
definition PROC_MTD_FIRST :: string where "PROC_MTD_FIRST = ''dev:    size   erasesize  name'' @ [newline]"

record mtd_info =
  mi_dev_cnt :: int
  mi_lowest :: int
  mi_highest :: int
  mi_sysfs :: bool

record mtd_dev_info =
  md_num :: int
  md_major :: int
  md_minor :: int
  md_type :: int
  md_type_str :: string
  md_name :: string
  md_size :: int
  md_eb_cnt :: int
  md_eb_size :: int
  md_min_io_size :: int
  md_subpage_size :: int
  md_oob_size :: int
  md_region_cnt :: int
  md_writable :: bool
  md_bb_allowed :: bool

definition MTD_ABSENT :: int where "MTD_ABSENT = 0"
definition MTD_RAM :: int where "MTD_RAM = 1"
definition MTD_ROM :: int where "MTD_ROM = 2"
definition MTD_NORFLASH :: int where "MTD_NORFLASH = 3"
definition MTD_NANDFLASH :: int where "MTD_NANDFLASH = 4"
definition MTD_DATAFLASH :: int where "MTD_DATAFLASH = 6"
definition MTD_UBIVOLUME :: int where "MTD_UBIVOLUME = 7"
definition MTD_MLCNANDFLASH :: int where "MTD_MLCNANDFLASH = 8"
definition MTD_WRITEABLE :: u32 where "MTD_WRITEABLE = 0x400"

text \<open>\<open>memset\<close> with 0 of the two.\<close>

definition no_mtd_info :: mtd_info where
  "no_mtd_info = \<lparr>mi_dev_cnt = 0, mi_lowest = 0, mi_highest = 0, mi_sysfs = False\<rparr>"

definition no_dev_info :: mtd_dev_info where
  "no_dev_info = \<lparr>md_num = 0, md_major = 0, md_minor = 0, md_type = 0, md_type_str = [], md_name = [], md_size = 0, md_eb_cnt = 0,
     md_eb_size = 0, md_min_io_size = 0, md_subpage_size = 0, md_oob_size = 0, md_region_cnt = 0, md_writable = False, md_bb_allowed = False\<rparr>"

text \<open>
  \<open>buf\<close> and \<open>data_size\<close> of the structure are the argument \<open>buf\<close> of the operations, \<open>next\<close> is a
  position in it. \<open>tail\<close> is what the memory behind the data holds up to the next NUL.
\<close>

record proc_parse_info =
  pi_mtd_num :: int
  pi_size :: int
  pi_eb_size :: int
  pi_name :: string
  pi_next :: nat

section \<open>Parsing\<close>

text \<open>The argument is what the one read of the file delivers, \<open>None\<close> when it cannot be opened or read.\<close>

definition proc_parse_start :: "string option \<Rightarrow> proc_parse_info \<Rightarrow> (string \<times> proc_parse_info) option" where
  "proc_parse_start data pi =
     (case data of
        None \<Rightarrow> None
      | Some buf \<Rightarrow>
          if length buf < length PROC_MTD_FIRST \<or> take (length PROC_MTD_FIRST) buf \<noteq> PROC_MTD_FIRST then None
          else Some (buf, pi\<lparr>pi_next := length PROC_MTD_FIRST\<rparr>))"

definition scan_llx :: "string \<Rightarrow> (int \<times> string) option" where
  "scan_llx s =
     (let (neg, s) = scan_sign (skip_ws s)
      in if dangling_0x s then None
         else map_option (\<lambda>(v, r). (if v \<ge> 2 ^ 64 then -1 else sint (word_of_int (if neg then - int v else int v) :: 64 word), r))
                (scan_digits 16 (strip_0x s)))"

definition lits :: "string \<Rightarrow> string \<Rightarrow> string option" where
  "lits p s = (if take (length p) s = p then Some (drop (length p) s) else None)"

text \<open>\<open>sscanf\<close> with \<open>mtd%d: %llx %x\<close>: how many fields it stores, and the fields.\<close>

definition scan_proc :: "string \<Rightarrow> proc_parse_info \<Rightarrow> nat \<times> proc_parse_info" where
  "scan_proc s pi =
     (case Option.bind (lits ''mtd'' s) scan_d of
        None \<Rightarrow> (0, pi)
      | Some (n, s) \<Rightarrow>
          let pi = pi\<lparr>pi_mtd_num := n\<rparr>
          in case Option.bind (lit CHR '':'' s) scan_llx of
               None \<Rightarrow> (1, pi)
             | Some (v, s) \<Rightarrow>
                 let pi = pi\<lparr>pi_size := v\<rparr>
                 in case scan_x s of None \<Rightarrow> (2, pi) | Some (e, s) \<Rightarrow> (3, pi\<lparr>pi_eb_size := sint e\<rparr>))"

definition quote :: char where "quote = CHR 0x22"

text \<open>The distance to the next quotation mark.\<close>

definition to_quote :: "string \<Rightarrow> nat option" where
  "to_quote s = (let n = length (takeWhile (\<lambda>c. c \<noteq> quote) s) in if n < length s then Some n else None)"

definition proc_parse_next :: "string \<Rightarrow> string \<Rightarrow> proc_parse_info \<Rightarrow> int \<times> proc_parse_info" where
  "proc_parse_next buf tail pi =
     (let pos = pi_next pi
      in if pos \<ge> length buf then (0, pi)
         else case scan_proc (drop pos buf @ tail) pi of (ret, pi) \<Rightarrow>
         if ret \<noteq> 3 then (-1, pi)
         else case to_quote (drop pos buf) of None \<Rightarrow> (-1, pi) | Some i \<Rightarrow>
         let p = pos + i + 1
         in if p \<ge> length buf then (-1, pi)
            else case to_quote (drop p buf) of None \<Rightarrow> (-1, pi) | Some len \<Rightarrow>
            if len > MTD_NAME_MAX then (-1, pi)
            else let pi = pi\<lparr>pi_name := take len (drop p buf)\<rparr>
                 in if take 1 (drop (p + len + 1) (buf @ tail)) \<noteq> [newline] then (-1, pi)
                    else (1, pi\<lparr>pi_next := p + len + 2\<rparr>))"

section \<open>The operations\<close>

text \<open>The argument is the error of opening the table, 0 when it opened; the result is the answer and \<open>errno\<close>.\<close>

definition legacy_libmtd_open :: "int \<Rightarrow> int \<times> int" where
  "legacy_libmtd_open err = (if err = 0 then (0, err) else if err = ENOENT then (-1, 0) else (-1, err))"

text \<open>
  The loops go on as long as the parser does not return 0, so also when it failed; it then
  stays where it is.
\<close>

partial_function (option) find_dev :: "string \<Rightarrow> string \<Rightarrow> int \<Rightarrow> proc_parse_info \<Rightarrow> proc_parse_info option option" where
  "find_dev buf tail n pi =
     (let (r, pi) = proc_parse_next buf tail pi
      in if r = 0 then Some None
         else if pi_mtd_num pi = n then Some (Some pi) else find_dev buf tail n pi)"

definition legacy_dev_present :: "string option \<Rightarrow> string \<Rightarrow> proc_parse_info \<Rightarrow> int \<Rightarrow> int option" where
  "legacy_dev_present data tail pi mtd_num =
     (case proc_parse_start data pi of
        None \<Rightarrow> Some (-1)
      | Some (buf, pi) \<Rightarrow> map_option (\<lambda>x. if x = None then 0 else 1) (find_dev buf tail mtd_num pi))"

partial_function (option) count_devs :: "string \<Rightarrow> string \<Rightarrow> mtd_info \<Rightarrow> proc_parse_info \<Rightarrow> mtd_info option" where
  "count_devs buf tail info pi =
     (let (r, pi) = proc_parse_next buf tail pi; n = pi_mtd_num pi
      in if r = 0 then Some info
         else count_devs buf tail (info\<lparr>mi_dev_cnt := mi_dev_cnt info + 1, mi_highest := max n (mi_highest info), mi_lowest := min n (mi_lowest info)\<rparr>) pi)"

definition legacy_mtd_get_info :: "string option \<Rightarrow> string \<Rightarrow> proc_parse_info \<Rightarrow> mtd_info \<Rightarrow> (int \<times> mtd_info) option" where
  "legacy_mtd_get_info data tail pi info =
     (case proc_parse_start data pi of
        None \<Rightarrow> Some (-1, info)
      | Some (buf, pi) \<Rightarrow> map_option (Pair 0) (count_devs buf tail (info\<lparr>mi_lowest := INT_MAX\<rparr>) pi))"

section \<open>A device by its node\<close>

record mtd_info_user =
  ui_type :: int
  ui_flags :: u32
  ui_size :: u32
  ui_erasesize :: u32
  ui_writesize :: u32
  ui_oobsize :: u32

text \<open>
  What the kernel says of a node. \<open>dn_stat\<close> is whether \<open>stat\<close> failed, and whether the structure
  then describes a character device, and which; when it failed the structure is what the memory
  held. \<open>dn_badblock\<close> is the answer to \<open>MEMGETBADBLOCK\<close>, with the error.
\<close>

record dev_node =
  dn_stat :: "bool \<times> bool \<times> int \<times> int"
  dn_opens :: bool
  dn_info :: "mtd_info_user option"
  dn_badblock :: "int \<times> int"

definition flash_name :: "int \<Rightarrow> string option" where
  "flash_name t =
     (if t = MTD_RAM then Some ''ram'' else if t = MTD_ROM then Some ''rom'' else if t = MTD_NORFLASH then Some ''nor''
      else if t = MTD_NANDFLASH then Some ''nand'' else if t = MTD_MLCNANDFLASH then Some ''mlc-nand''
      else if t = MTD_DATAFLASH then Some ''dataflash'' else if t = MTD_UBIVOLUME then Some ''ubi'' else None)"

definition legacy_geometry :: "mtd_info_user \<Rightarrow> mtd_dev_info \<Rightarrow> int \<times> mtd_dev_info" where
  "legacy_geometry ui mtd =
     (let mtd = mtd\<lparr>md_type := ui_type ui, md_size := uint (ui_size ui), md_eb_size := sint (ui_erasesize ui),
                    md_min_io_size := sint (ui_writesize ui), md_oob_size := sint (ui_oobsize ui)\<rparr>
      in if md_min_io_size mtd \<le> 0 then (-1, mtd)
         else if md_eb_size mtd \<le> 0 \<or> md_eb_size mtd < md_min_io_size mtd then (-1, mtd)
         else if md_size mtd \<le> 0 \<or> md_size mtd < md_eb_size mtd then (-1, mtd)
         else let mtd = mtd\<lparr>md_eb_cnt := md_size mtd div md_eb_size mtd\<rparr>
              in case flash_name (md_type mtd) of
                   None \<Rightarrow> (-1, mtd)
                 | Some name \<Rightarrow> (0, mtd\<lparr>md_type_str := name, md_writable := (ui_flags ui AND MTD_WRITEABLE \<noteq> 0), md_subpage_size := md_min_io_size mtd\<rparr>))"

definition legacy_get_dev_info ::
  "(string \<Rightarrow> dev_node) \<Rightarrow> string option \<Rightarrow> string \<Rightarrow> proc_parse_info \<Rightarrow> string \<Rightarrow> mtd_dev_info \<Rightarrow> (int \<times> mtd_dev_info) option" where
  "legacy_get_dev_info nodetab data tail pi node mtd =
     (case dn_stat (nodetab node) of (_, ischr, mjr, mnr) \<Rightarrow>
      if \<not> ischr then Some (-1, mtd)
      else let mtd = no_dev_info\<lparr>md_major := mjr, md_minor := mnr\<rparr>
      in if mjr \<noteq> MTD_DEV_MAJOR then Some (-1, mtd)
      else let mtd = mtd\<lparr>md_num := cdiv mnr 2\<rparr>
      in if \<not> dn_opens (nodetab node) then Some (-1, mtd)
      else case dn_info (nodetab node) of None \<Rightarrow> Some (-1, mtd) | Some ui \<Rightarrow>
      case dn_badblock (nodetab node) of (ret, err) \<Rightarrow>
      if ret = -1 \<and> err \<noteq> EOPNOTSUPP then Some (-1, mtd)
      else case legacy_geometry ui (mtd\<lparr>md_bb_allowed := (ret \<noteq> -1)\<rparr>) of (r, mtd) \<Rightarrow>
      if r \<noteq> 0 then Some (-1, mtd)
      else case proc_parse_start data pi of None \<Rightarrow> Some (-1, mtd) | Some (buf, pi) \<Rightarrow>
      map_option (\<lambda>x. case x of None \<Rightarrow> (-1, mtd) | Some pi \<Rightarrow> (0, mtd\<lparr>md_name := takeWhile (\<lambda>c. c \<noteq> CHR 0x00) (pi_name pi)\<rparr>)) (find_dev buf tail (md_num mtd) pi))"

definition legacy_get_dev_info1 ::
  "(string \<Rightarrow> dev_node) \<Rightarrow> string option \<Rightarrow> string \<Rightarrow> proc_parse_info \<Rightarrow> int \<Rightarrow> mtd_dev_info \<Rightarrow> (int \<times> mtd_dev_info) option" where
  "legacy_get_dev_info1 nodetab data tail pi mtd_num mtd = legacy_get_dev_info nodetab data tail pi (''/dev/mtd'' @ show_int mtd_num) mtd"

section \<open>The table as the kernel prints it\<close>

record mtd_row =
  row_num :: nat
  row_size :: nat
  row_eb :: nat
  row_name :: string

text \<open>\<open>%8.8llx\<close>\<close>

definition show_hex8 :: "nat \<Rightarrow> string" where
  "show_hex8 v = (let ds = show_base 16 v in replicate (8 - length ds) CHR ''0'' @ ds)"

definition show_row :: "mtd_row \<Rightarrow> string" where
  "show_row r = ''mtd'' @ show_base 10 (row_num r) @ '': '' @ show_hex8 (row_size r) @ '' '' @ show_hex8 (row_eb r) @ '' '' @
     quote # row_name r @ [quote, newline]"

definition show_table :: "mtd_row list \<Rightarrow> string" where
  "show_table rows = PROC_MTD_FIRST @ concat (map show_row rows)"

definition wf_row :: "mtd_row \<Rightarrow> bool" where
  "wf_row r \<longleftrightarrow> row_num r < 2 ^ 31 \<and> row_size r < 2 ^ 63 \<and> row_eb r < 2 ^ 31 \<and> length (row_name r) \<le> MTD_NAME_MAX \<and> quote \<notin> set (row_name r)"

text \<open>What one row leaves in the structure.\<close>

definition row_info :: "mtd_row \<Rightarrow> nat \<Rightarrow> proc_parse_info" where
  "row_info r pos = \<lparr>pi_mtd_num = int (row_num r), pi_size = int (row_size r), pi_eb_size = int (row_eb r), pi_name = row_name r, pi_next = pos\<rparr>"

section \<open>Reading a row\<close>

lemma digits_val_zeros: "digits_val b (replicate k CHR ''0'' @ ds) = digits_val b ds"
proof -
  have "digits_val b (replicate k CHR ''0'') = 0" by (induction k) (simp_all add: digits_val_def digit_val_def)
  then show ?thesis by (simp add: digits_val_def)
qed

lemma show_hex8:
  "digits_val 16 (show_hex8 v) = v" "show_hex8 v \<noteq> []" "\<forall>c \<in> set (show_hex8 v). is_digit 16 c \<and> \<not> is_space c \<and> c \<notin> set ''-+xX'' \<and> c \<noteq> quote"
proof -
  have d: "digits_val 16 (show_base 16 v) = v \<and> show_base 16 v \<noteq> [] \<and>
      (\<forall>c \<in> set (show_base 16 v). is_digit 16 c \<and> \<not> is_space c \<and> c \<notin> set ''-+xX'')"
    by (rule show_base_digits) simp_all
  then show "digits_val 16 (show_hex8 v) = v" "show_hex8 v \<noteq> []" by (simp_all add: show_hex8_def digits_val_zeros Let_def)
  have q: "\<not> is_digit 16 quote" by (simp add: quote_def is_digit_def digit_val_def)
  have z: "is_digit 16 CHR ''0'' \<and> \<not> is_space CHR ''0'' \<and> CHR ''0'' \<notin> set ''-+xX''" by (simp add: is_digit_def digit_val_def is_space_def)
  show "\<forall>c \<in> set (show_hex8 v). is_digit 16 c \<and> \<not> is_space c \<and> c \<notin> set ''-+xX'' \<and> c \<noteq> quote"
  proof
    fix c assume "c \<in> set (show_hex8 v)"
    then have "c = CHR ''0'' \<or> c \<in> set (show_base 16 v)" by (auto simp: show_hex8_def Let_def split: if_splits)
    then have "is_digit 16 c \<and> \<not> is_space c \<and> c \<notin> set ''-+xX''" using d z by blast
    then show "is_digit 16 c \<and> \<not> is_space c \<and> c \<notin> set ''-+xX'' \<and> c \<noteq> quote" using q by blast
  qed
qed

lemma no_prefix:
  assumes "ds \<noteq> []" "\<forall>c \<in> set ds. c \<noteq> CHR ''x'' \<and> c \<noteq> CHR ''X''" "c \<noteq> CHR ''x''" "c \<noteq> CHR ''X''"
  shows "\<not> dangling_0x (ds @ c # r)" "strip_0x (ds @ c # r) = ds @ c # r"
proof -
  obtain d e t where s: "ds @ c # r = d # e # t" "e \<noteq> CHR ''x''" "e \<noteq> CHR ''X''"
  proof (cases ds)
    case (Cons d ds')
    then show ?thesis using that assms by (cases ds') auto
  qed (use assms(1) in simp)
  show "\<not> dangling_0x (ds @ c # r)" unfolding s(1) using s(2,3) by (simp add: dangling_0x_def)
  show "strip_0x (ds @ c # r) = ds @ c # r" unfolding s(1) using s(2,3) by (cases t) (simp_all add: strip_0x_def)
qed

lemma scan_hex8:
  "scan_digits 16 (show_hex8 v @ CHR '' '' # r) = Some (v, CHR '' '' # r)" (is ?a)
  "scan_llx (CHR '' '' # show_hex8 v @ CHR '' '' # r) = Some (if v \<ge> 2 ^ 64 then -1 else sint (word_of_int (int v) :: 64 word), CHR '' '' # r)" (is ?b)
  "scan_x (CHR '' '' # show_hex8 v @ CHR '' '' # r) = Some (strtoul_val False v, CHR '' '' # r)" (is ?c)
proof -
  have sp: "\<not> is_digit 16 CHR '' ''" "is_space CHR '' ''" by (simp_all add: is_digit_def digit_val_def is_space_def)
  have t: "takeWhile (is_digit 16) (show_hex8 v @ CHR '' '' # r) = show_hex8 v" "dropWhile (is_digit 16) (show_hex8 v @ CHR '' '' # r) = CHR '' '' # r"
    using show_hex8(3) [of v] sp by (simp_all add: takeWhile_append2 dropWhile_append2)
  then show a: ?a using show_hex8(1,2) [of v] by (simp add: scan_digits_def Let_def)
  obtain d ds where d: "show_hex8 v = d # ds" using show_hex8(2) [of v] by (cases "show_hex8 v") auto
  then have n: "\<not> is_space d" "d \<notin> set ''-+''" using show_hex8(3) [of v] by auto
  have p: "\<not> dangling_0x (show_hex8 v @ CHR '' '' # r)" "strip_0x (show_hex8 v @ CHR '' '' # r) = show_hex8 v @ CHR '' '' # r"
    using show_hex8(2,3) [of v] by (intro no_prefix; auto)+
  have w: "skip_ws (CHR '' '' # show_hex8 v @ CHR '' '' # r) = show_hex8 v @ CHR '' '' # r"
    using sp(2) n(1) by (simp add: skip_ws_def d)
  have g: "scan_sign (show_hex8 v @ CHR '' '' # r) = (False, show_hex8 v @ CHR '' '' # r)" using n(2) by (simp add: scan_sign_def d)
  show ?b ?c by (simp_all add: scan_llx_def scan_x_def w g p a)
qed

lemma scan_d_show:
  assumes "n < 2 ^ 31" "\<not> is_digit 10 c" shows "scan_d (show_base 10 n @ c # r) = Some (int n, c # r)"
proof -
  obtain d ds where d: "show_base 10 n = d # ds" "\<not> is_space d" "d \<notin> set ''-+''" by (rule show_base_cons [of 10 n]) auto
  have "skip_ws (show_base 10 n @ c # r) = show_base 10 n @ c # r" using d by (simp add: skip_ws_def)
  moreover have "scan_sign (show_base 10 n @ c # r) = (False, show_base 10 n @ c # r)" using d by (simp add: scan_sign_def)
  moreover have "scan_digits 10 (show_base 10 n @ c # r) = Some (n, c # r)" using assms(2) by (intro scan_digits_show) simp_all
  ultimately show ?thesis using assms(1) by (simp add: scan_d_def strtol_val_def)
qed

lemma sint64: "v < 2 ^ 63 \<Longrightarrow> sint (word_of_int (int v) :: 64 word) = int v"
  by (simp only: sint_sbintrunc') (simp add: signed_take_bit_int_eq_self)

lemma strtoul_small: "v < 2 ^ 31 \<Longrightarrow> sint (strtoul_val False v) = int v"
proof -
  assume v: "v < 2 ^ 31"
  have "sint (word_of_int (int v) :: u32) = int v" using v by (simp only: sint_sbintrunc') (simp add: signed_take_bit_int_eq_self)
  then show ?thesis using v by (simp add: strtoul_val_def)
qed

text \<open>The part of a row in front of the name.\<close>

definition row_front :: "mtd_row \<Rightarrow> string" where
  "row_front r = ''mtd'' @ show_base 10 (row_num r) @ '': '' @ show_hex8 (row_size r) @ '' '' @ show_hex8 (row_eb r) @ '' ''"

lemma row_parts: "show_row r = row_front r @ quote # row_name r @ [quote, newline]"
  by (simp add: show_row_def row_front_def)

lemma scan_front:
  assumes "wf_row r"
  shows "scan_proc (row_front r @ t) pi = (3, pi\<lparr>pi_mtd_num := int (row_num r), pi_size := int (row_size r), pi_eb_size := int (row_eb r)\<rparr>)"
proof -
  have w: "row_num r < 2 ^ 31" "row_size r < 2 ^ 63" "row_eb r < 2 ^ 31" using assms by (simp_all add: wf_row_def)
  let ?e = "CHR '' '' # show_hex8 (row_eb r) @ CHR '' '' # t"
  let ?z = "CHR '' '' # show_hex8 (row_size r) @ ?e"
  have c: "\<not> is_digit 10 CHR '':''" by (simp add: is_digit_def digit_val_def)
  have 1: "lits ''mtd'' (row_front r @ t) = Some (show_base 10 (row_num r) @ CHR '':'' # ?z)" by (simp add: lits_def row_front_def)
  have 2: "scan_d (show_base 10 (row_num r) @ CHR '':'' # ?z) = Some (int (row_num r), CHR '':'' # ?z)" by (rule scan_d_show [OF w(1) c])
  have "row_size r < 2 ^ 64" using w(2) by simp
  then have 3: "scan_llx ?z = Some (int (row_size r), ?e)" using scan_hex8(2) [of "row_size r"] sint64 [OF w(2)] by simp
  have 4: "scan_x ?e = Some (strtoul_val False (row_eb r), CHR '' '' # t)" by (rule scan_hex8(3))
  show ?thesis using strtoul_small [OF w(3)] by (simp add: scan_proc_def 1 2 3 4 lit_def)
qed

lemma to_quote_none: "quote \<notin> set s \<Longrightarrow> to_quote s = None"
proof -
  assume "quote \<notin> set s"
  then have "takeWhile (\<lambda>c. c \<noteq> quote) s = s" by (subst takeWhile_eq_all_conv) blast
  then show ?thesis by (simp only: to_quote_def Let_def) simp
qed

lemma to_quote_here: "quote \<notin> set a \<Longrightarrow> to_quote (a @ quote # b) = Some (length a)"
proof -
  assume "quote \<notin> set a"
  then have "takeWhile (\<lambda>c. c \<noteq> quote) (a @ quote # b) = a" by (subst takeWhile_append2) auto
  then show ?thesis by (simp add: to_quote_def)
qed

lemma row_front_quote: "quote \<notin> set (row_front r)"
proof -
  have ten: "2 \<le> (10 :: nat)" "(10 :: nat) \<le> 16" by simp_all
  have q: "\<not> is_digit 10 quote" "quote \<notin> set ''mtd'' \<and> quote \<notin> set '': '' \<and> quote \<notin> set '' ''" by (simp_all add: quote_def is_digit_def digit_val_def)
  have "quote \<notin> set (show_base 10 (row_num r))" using show_base_digits [OF ten, of "row_num r"] q(1) by blast
  moreover have "quote \<notin> set (show_hex8 v)" for v using show_hex8(3) [of v] by blast
  ultimately show ?thesis using q(2) by (simp add: row_front_def)
qed

lemma parse_row:
  assumes "wf_row r" "buf = a @ show_row r @ b" "pi_next pi = length a"
  shows "proc_parse_next buf tail pi = (1, row_info r (length (a @ show_row r)))"
proof -
  have q: "quote \<notin> set (row_name r)" "length (row_name r) \<le> MTD_NAME_MAX" using assms(1) by (simp_all add: wf_row_def)
  let ?p = "Suc (length a + length (row_front r))" and ?n = "length (row_name r)"
  have d: "drop (length a) buf = row_front r @ quote # row_name r @ quote # newline # b" "drop ?p buf = row_name r @ quote # newline # b"
    by (simp_all add: assms(2) row_parts)
  have S: "scan_proc (drop (length a) buf @ tail) pi = (3, pi\<lparr>pi_mtd_num := int (row_num r), pi_size := int (row_size r), pi_eb_size := int (row_eb r)\<rparr>)"
    using scan_front [OF assms(1), of "quote # row_name r @ quote # newline # b @ tail" pi] by (simp add: assms(2) row_parts)
  have L: "\<not> length buf \<le> length a" "\<not> length buf \<le> ?p" by (simp_all add: assms(2) row_parts)
  have Q: "to_quote (drop (length a) buf) = Some (length (row_front r))" "to_quote (drop ?p buf) = Some ?n"
    unfolding d by (rule to_quote_here [OF row_front_quote], rule to_quote_here [OF q(1)])
  have N: "take ?n (drop ?p buf) = row_name r" "take (Suc 0) (drop (Suc (?p + ?n)) (buf @ tail)) = [newline]"
    by (simp_all add: assms(2) row_parts)
  have e: "length (a @ show_row r) = Suc (Suc (?p + ?n))" by (simp add: row_parts)
  show ?thesis
    unfolding proc_parse_next_def Let_def assms(3) e
    using L S Q N q(2) by (simp add: row_info_def del: drop_append take_append)
qed

lemma parse_end: "pi_next pi \<ge> length buf \<Longrightarrow> proc_parse_next buf tail pi = (0, pi)"
  by (simp add: proc_parse_next_def)

section \<open>A whole table\<close>

text \<open>The first of the rows with the number looked for.\<close>

definition row_of :: "int \<Rightarrow> mtd_row list \<Rightarrow> mtd_row option" where
  "row_of n rows = find (\<lambda>r. int (row_num r) = n) rows"

lemma find_rows:
  assumes "list_all wf_row rows" "buf = a @ concat (map show_row rows)" "pi_next pi = length a"
  shows "\<exists>x. find_dev buf tail n pi = Some x \<and> map_option pi_name x = map_option row_name (row_of n rows)"
  using assms
proof (induction rows arbitrary: a pi)
  case Nil
  then show ?case by (subst find_dev.simps) (simp add: parse_end row_of_def)
next
  case (Cons r rows)
  have p: "proc_parse_next buf tail pi = (1, row_info r (length (a @ show_row r)))"
    using Cons.prems by (intro parse_row [where b = "concat (map show_row rows)"]) simp_all
  show ?case
  proof (cases "int (row_num r) = n")
    case True
    then show ?thesis by (subst find_dev.simps) (simp add: p row_of_def row_info_def)
  next
    case False
    have "\<exists>x. find_dev buf tail n (row_info r (length (a @ show_row r))) = Some x \<and> map_option pi_name x = map_option row_name (row_of n rows)"
      using Cons.prems by (intro Cons.IH [of "a @ show_row r"]) (simp_all add: row_info_def)
    then show ?thesis using False by (subst find_dev.simps) (simp add: p row_of_def row_info_def)
  qed
qed

lemma count_rows:
  assumes "list_all wf_row rows" "buf = a @ concat (map show_row rows)" "pi_next pi = length a"
  shows "count_devs buf tail info pi =
      Some (info\<lparr>mi_dev_cnt := mi_dev_cnt info + int (length rows), mi_highest := fold (\<lambda>r. max (int (row_num r))) rows (mi_highest info),
                 mi_lowest := fold (\<lambda>r. min (int (row_num r))) rows (mi_lowest info)\<rparr>)"
  using assms
proof (induction rows arbitrary: a pi info)
  case Nil
  then show ?case by (subst count_devs.simps) (simp add: parse_end)
next
  case (Cons r rows)
  have p: "proc_parse_next buf tail pi = (1, row_info r (length (a @ show_row r)))"
    using Cons.prems by (intro parse_row [where b = "concat (map show_row rows)"]) simp_all
  have "count_devs buf tail i (row_info r (length (a @ show_row r))) =
      Some (i\<lparr>mi_dev_cnt := mi_dev_cnt i + int (length rows), mi_highest := fold (\<lambda>r. max (int (row_num r))) rows (mi_highest i),
              mi_lowest := fold (\<lambda>r. min (int (row_num r))) rows (mi_lowest i)\<rparr>)" for i
    using Cons.prems by (intro Cons.IH [of "a @ show_row r"]) (simp_all add: row_info_def)
  then show ?case by (subst count_devs.simps) (simp add: p row_info_def Let_def add.assoc)
qed

lemma start_table: "proc_parse_start (Some (show_table rows)) pi = Some (show_table rows, pi\<lparr>pi_next := length PROC_MTD_FIRST\<rparr>)"
  by (simp add: proc_parse_start_def show_table_def)

lemma row_of_none: "row_of n rows = None \<longleftrightarrow> n \<notin> (int \<circ> row_num) ` set rows"
  by (auto simp: row_of_def find_None_iff)

lemma legacy_present:
  assumes "list_all wf_row rows"
  shows "legacy_dev_present (Some (show_table rows)) tail pi n = Some (if n \<in> (int \<circ> row_num) ` set rows then 1 else 0)"
proof -
  have "\<exists>x. find_dev (show_table rows) tail n (pi\<lparr>pi_next := length PROC_MTD_FIRST\<rparr>) = Some x \<and> map_option pi_name x = map_option row_name (row_of n rows)"
    by (rule find_rows [OF assms show_table_def]) simp
  then obtain x where x: "find_dev (show_table rows) tail n (pi\<lparr>pi_next := length PROC_MTD_FIRST\<rparr>) = Some x"
    "map_option pi_name x = map_option row_name (row_of n rows)" by blast
  have "x = None \<longleftrightarrow> row_of n rows = None" using x(2) by (cases x; cases "row_of n rows") simp_all
  then show ?thesis by (simp add: legacy_dev_present_def start_table x(1) row_of_none)
qed

section \<open>A table that was cut\<close>

text \<open>The parser fails where it is and leaves it there.\<close>

lemma scan_proc_next: "pi_next (snd (scan_proc s pi)) = pi_next pi"
  by (simp add: scan_proc_def Let_def split: option.splits prod.splits)

lemma parse_failed_stays:
  "fst (proc_parse_next buf tail pi) = -1 \<Longrightarrow> pi_next (snd (proc_parse_next buf tail pi)) = pi_next pi"
  using scan_proc_next [of "drop (pi_next pi) buf @ tail" pi]
  by (cases "scan_proc (drop (pi_next pi) buf @ tail) pi"; cases "to_quote (drop (pi_next pi) buf)")
    (auto simp: proc_parse_next_def Let_def split: option.splits)

text \<open>So a search whose number is not read there never ends.\<close>

lemma find_stuck:
  assumes "\<And>pi. pi_next pi = p \<Longrightarrow> P pi \<Longrightarrow> fst (proc_parse_next buf tail pi) = -1 \<and> P (snd (proc_parse_next buf tail pi)) \<and> pi_mtd_num (snd (proc_parse_next buf tail pi)) \<noteq> n"
    and "pi_next pi = p" "P pi"
  shows "find_dev buf tail n pi = None"
proof -
  have "find_dev buf tail n pi = Some y \<Longrightarrow> buf = buf \<and> tail = tail \<and> n = n \<and> pi_next pi = p \<longrightarrow> \<not> P pi" for y
  proof (rule find_dev.raw_induct [where P = "\<lambda>b t m pi y. b = buf \<and> t = tail \<and> m = n \<and> pi_next pi = p \<longrightarrow> \<not> P pi"])
    fix f b t m pi y
    assume IH: "\<And>b t m pi y. f b t m pi = Some y \<Longrightarrow> b = buf \<and> t = tail \<and> m = n \<and> pi_next pi = p \<longrightarrow> \<not> P pi"
      and step: "(let (r, pi) = proc_parse_next b t pi in if r = 0 then Some None else if pi_mtd_num pi = m then Some (Some pi) else f b t m pi) = Some y"
    show "b = buf \<and> t = tail \<and> m = n \<and> pi_next pi = p \<longrightarrow> \<not> P pi"
    proof (intro impI notI, elim conjE)
      assume e: "b = buf" "t = tail" "m = n" and q: "pi_next pi = p" "P pi"
      obtain r pi' where s: "proc_parse_next buf tail pi = (r, pi')" by force
      have k: "r = -1" "P pi'" "pi_mtd_num pi' \<noteq> n" using assms(1) [OF q] s by simp_all
      have "pi_next pi' = p" using parse_failed_stays [of buf tail pi] s k(1) q(1) by simp
      moreover have "f buf tail n pi' = Some y" using step e s k(1,3) by simp
      ultimately show False using IH k(2) by blast
    qed
  qed
  then show ?thesis using assms(2,3) by (cases "find_dev buf tail n pi") auto
qed


text \<open>The count never ends either.\<close>

lemma count_stuck:
  assumes "\<And>pi. pi_next pi = p \<Longrightarrow> fst (proc_parse_next buf tail pi) = -1" and "pi_next pi = p"
  shows "count_devs buf tail info pi = None"
proof -
  have "count_devs buf tail info pi = Some y \<Longrightarrow> buf = buf \<and> tail = tail \<longrightarrow> pi_next pi \<noteq> p" for y
  proof (rule count_devs.raw_induct [where P = "\<lambda>b t i pi y. b = buf \<and> t = tail \<longrightarrow> pi_next pi \<noteq> p"])
    fix f b t i pi y
    assume IH: "\<And>b t i pi y. f b t i pi = Some y \<Longrightarrow> b = buf \<and> t = tail \<longrightarrow> pi_next pi \<noteq> p"
      and step: "(let (r, pi) = proc_parse_next b t pi; n = pi_mtd_num pi in if r = 0 then Some i
         else f b t (i\<lparr>mi_dev_cnt := mi_dev_cnt i + 1, mi_highest := max n (mi_highest i), mi_lowest := min n (mi_lowest i)\<rparr>) pi) = Some y"
    show "b = buf \<and> t = tail \<longrightarrow> pi_next pi \<noteq> p"
    proof (intro impI notI, elim conjE)
      assume e: "b = buf" "t = tail" and q: "pi_next pi = p"
      obtain r pi' where s: "proc_parse_next buf tail pi = (r, pi')" by force
      have k: "r = -1" using assms(1) [OF q] s by simp
      have "pi_next pi' = p" using parse_failed_stays [of buf tail pi] s k q by simp
      moreover obtain j where "f buf tail j pi' = Some y" using step e s k by (auto simp: Let_def)
      ultimately show False using IH by blast
    qed
  qed
  then show ?thesis using assms(2) by (cases "count_devs buf tail info pi") auto
qed

lemma skip_rows:
  assumes "list_all wf_row rows" "buf = a @ concat (map show_row rows) @ b" "pi_next pi = length a" "n \<notin> (int \<circ> row_num) ` set rows"
  shows "\<exists>pi'. pi_next pi' = length (a @ concat (map show_row rows)) \<and> find_dev buf tail n pi = find_dev buf tail n pi'"
    and "\<exists>pi' info'. pi_next pi' = length (a @ concat (map show_row rows)) \<and> count_devs buf tail info pi = count_devs buf tail info' pi'"
  using assms
proof (induction rows arbitrary: a pi info)
  case Nil
  { case 1 then show ?case by (intro exI [of _ pi]) simp }
  { case 2 then show ?case by (intro exI [of _ pi] exI [of _ info]) simp }
next
  case (Cons r rows)
  have p: "proc_parse_next buf tail pi = (1, row_info r (length (a @ show_row r)))"
    if "wf_row r" "buf = a @ concat (map show_row (r # rows)) @ b" "pi_next pi = length a" for a pi
    using that by (intro parse_row [where b = "concat (map show_row rows) @ b"]) simp_all
  {
    case 1
    have P: "proc_parse_next buf tail pi = (1, row_info r (length (a @ show_row r)))" using 1 by (intro p) simp_all
    have "find_dev buf tail n pi = find_dev buf tail n (row_info r (length (a @ show_row r)))"
      using 1(4) by (subst find_dev.simps) (simp add: P row_info_def)
    moreover have "\<exists>pi'. pi_next pi' = length ((a @ show_row r) @ concat (map show_row rows)) \<and>
        find_dev buf tail n (row_info r (length (a @ show_row r))) = find_dev buf tail n pi'"
      using 1 by (intro Cons.IH(1)) (simp_all add: row_info_def)
    ultimately show ?case by simp
  next
    case 2
    have P: "proc_parse_next buf tail pi = (1, row_info r (length (a @ show_row r)))" using 2 by (intro p) simp_all
    have "\<exists>i. count_devs buf tail info pi = count_devs buf tail i (row_info r (length (a @ show_row r)))"
      by (subst count_devs.simps) (auto simp: P Let_def)
    then obtain i where i: "count_devs buf tail info pi = count_devs buf tail i (row_info r (length (a @ show_row r)))" by blast
    have "\<exists>pi' info'. pi_next pi' = length ((a @ show_row r) @ concat (map show_row rows)) \<and>
        count_devs buf tail i (row_info r (length (a @ show_row r))) = count_devs buf tail info' pi'"
      using 2 by (intro Cons.IH(2)) (simp_all add: row_info_def)
    then show ?case by (simp add: i)
  }
qed


lemma parse_cut:
  assumes "wf_row r" "length (row_front r) \<le> k" "k < length (show_row r) - 1" "buf = a @ take k (show_row r)" "pi_next pi = length a"
  shows "fst (proc_parse_next buf tail pi) = -1 \<and> pi_mtd_num (snd (proc_parse_next buf tail pi)) = int (row_num r)"
proof -
  let ?m = "k - length (row_front r)"
  have k: "?m \<le> length (row_name r) + 1" using assms(2,3) by (simp add: row_parts)
  have t: "take k (show_row r) = row_front r @ take ?m (quote # row_name r @ [quote, newline])" using assms(2) by (simp add: row_parts)
  have d: "drop (length a) buf = row_front r @ take ?m (quote # row_name r @ [quote, newline])" by (simp add: assms(4) t)
  have f: "row_front r \<noteq> []" by (simp add: row_front_def)
  have S: "scan_proc (drop (length a) buf @ tail) pi = (3, pi\<lparr>pi_mtd_num := int (row_num r), pi_size := int (row_size r), pi_eb_size := int (row_eb r)\<rparr>)"
    using scan_front [OF assms(1)] by (simp add: d)
  have L: "\<not> length buf \<le> length a" using f by (simp add: assms(4) t)
  show ?thesis
  proof (cases "?m = 0")
    case True
    have "to_quote (drop (length a) buf) = None"
      using row_front_quote [of r] True by (simp add: d to_quote_none)
    then show ?thesis unfolding proc_parse_next_def Let_def assms(5) using L S by simp
  next
    case False
    then have m: "take ?m (quote # row_name r @ [quote, newline]) = quote # take (?m - 1) (row_name r)"
      using k by (cases ?m) simp_all
    have Q: "to_quote (drop (length a) buf) = Some (length (row_front r))" unfolding d m by (rule to_quote_here [OF row_front_quote])
    have D: "drop (Suc (length a + length (row_front r))) buf = take (?m - 1) (row_name r)" by (simp add: assms(4) t m)
    have "quote \<notin> set (take (?m - 1) (row_name r))" using assms(1) set_take_subset by (fastforce simp: wf_row_def)
    then have "to_quote (drop (Suc (length a + length (row_front r))) buf) = None" unfolding D by (rule to_quote_none)
    then show ?thesis unfolding proc_parse_next_def Let_def assms(5) using L S Q by simp
  qed
qed


section \<open>What the operations answer\<close>

lemma legacy_count:
  assumes "list_all wf_row rows"
  shows "legacy_mtd_get_info (Some (show_table rows)) tail pi info =
      Some (0, info\<lparr>mi_dev_cnt := mi_dev_cnt info + int (length rows), mi_highest := fold (\<lambda>r. max (int (row_num r))) rows (mi_highest info),
                     mi_lowest := fold (\<lambda>r. min (int (row_num r))) rows INT_MAX\<rparr>)"
  by (simp add: legacy_mtd_get_info_def start_table count_rows [OF assms show_table_def])

text \<open>The device that is described has a sane geometry and the name of its row.\<close>

lemma legacy_geometry_sane:
  assumes "legacy_geometry ui mtd = (0, m)"
  shows "0 < md_min_io_size m" "md_min_io_size m \<le> md_eb_size m" "md_eb_size m \<le> md_size m" "md_eb_cnt m = md_size m div md_eb_size m"
    "flash_name (md_type m) = Some (md_type_str m)" "md_num m = md_num mtd"
  using assms by (auto simp: legacy_geometry_def Let_def split: if_splits option.splits)

lemma legacy_dev_info:
  assumes "list_all wf_row rows" "legacy_get_dev_info nodetab (Some (show_table rows)) tail pi node mtd = Some (0, m)"
  shows "0 < md_min_io_size m \<and> md_min_io_size m \<le> md_eb_size m \<and> md_eb_size m \<le> md_size m \<and> md_eb_cnt m = md_size m div md_eb_size m \<and>
    (\<exists>r \<in> set rows. int (row_num r) = md_num m \<and> md_name m = takeWhile (\<lambda>c. c \<noteq> CHR 0x00) (row_name r))"
proof -
  obtain ui mt m' x where g: "legacy_geometry ui mt = (0, m')"
    and f: "find_dev (show_table rows) tail (md_num m') (pi\<lparr>pi_next := length PROC_MTD_FIRST\<rparr>) = Some (Some x)"
    and m: "m = m'\<lparr>md_name := takeWhile (\<lambda>c. c \<noteq> CHR 0x00) (pi_name x)\<rparr>"
    using assms(2) by (auto simp: legacy_get_dev_info_def Let_def start_table split: prod.splits if_splits option.splits)
  have "\<exists>x. find_dev (show_table rows) tail (md_num m') (pi\<lparr>pi_next := length PROC_MTD_FIRST\<rparr>) = Some x \<and>
      map_option pi_name x = map_option row_name (row_of (md_num m') rows)"
    by (rule find_rows [OF assms(1) show_table_def]) simp
  then obtain r where r: "row_of (md_num m') rows = Some r" "row_name r = pi_name x"
    using f by (cases "row_of (md_num m') rows") auto
  have "r \<in> set rows \<and> int (row_num r) = md_num m'" using r(1) by (auto simp: row_of_def find_Some_iff)
  then show ?thesis using legacy_geometry_sane [OF g] r(2) by (auto simp: m)
qed


definition two_rows :: "mtd_row list" where
  "two_rows = [\<lparr>row_num = 3, row_size = 0x100000, row_eb = 0x20000, row_name = ''uboot''\<rparr>,
               \<lparr>row_num = 1, row_size = 0x1800000, row_eb = 0x20000, row_name = ''system image''\<rparr>]"

definition blank_parse :: proc_parse_info where
  "blank_parse = \<lparr>pi_mtd_num = 0, pi_size = 0, pi_eb_size = 0, pi_name = [], pi_next = 0\<rparr>"

lemma two_rows_wf: "list_all wf_row two_rows"
  by (simp add: two_rows_def wf_row_def MTD_NAME_MAX_def quote_def)


text \<open>
  C23. A table that does not fit the buffer: when the data ends inside the name of a row, behind any
  number of whole rows, the search for a device that is in none of them never ends, and neither
  does the count of the devices: the parser fails without moving on, and the loops only stop at
  the end of the data.
\<close>

theorem cut_table_never_ends:
  assumes "list_all wf_row rows" "wf_row r" "length (row_front r) \<le> k" "k < length (show_row r) - 1"
    and "n \<notin> (int \<circ> row_num) ` set (rows @ [r])"
  shows "legacy_dev_present (Some (show_table rows @ take k (show_row r))) tail pi n = None \<and>
    legacy_mtd_get_info (Some (show_table rows @ take k (show_row r))) tail pi info = None"
proof -
  let ?buf = "show_table rows @ take k (show_row r)" and ?pi = "pi\<lparr>pi_next := length PROC_MTD_FIRST\<rparr>"
  have s: "proc_parse_start (Some ?buf) pi = Some (?buf, ?pi)" by (simp add: proc_parse_start_def show_table_def)
  have b: "?buf = PROC_MTD_FIRST @ concat (map show_row rows) @ take k (show_row r)" by (simp add: show_table_def)
  have n: "n \<notin> (int \<circ> row_num) ` set rows" "n \<noteq> int (row_num r)" using assms(5) by auto
  have c: "fst (proc_parse_next ?buf tail q) = -1 \<and> pi_mtd_num (snd (proc_parse_next ?buf tail q)) = int (row_num r)"
    if "pi_next q = length (show_table rows)" for q
    by (rule parse_cut [OF assms(2,3,4) refl that])
  have N: "pi_next ?pi = length PROC_MTD_FIRST" by simp
  obtain q where q: "pi_next q = length (show_table rows)" "find_dev ?buf tail n ?pi = find_dev ?buf tail n q"
    using skip_rows(1) [OF assms(1) b N n(1)] by (auto simp: show_table_def)
  have "find_dev ?buf tail n q = None"
    by (rule find_stuck [where P = "\<lambda>_. True", OF _ q(1)]) (use c n(2) in auto)
  moreover obtain q' i where q': "pi_next q' = length (show_table rows)"
    "count_devs ?buf tail (info\<lparr>mi_lowest := INT_MAX\<rparr>) ?pi = count_devs ?buf tail i q'"
  proof -
    have "\<exists>pi' info'. pi_next pi' = length (PROC_MTD_FIRST @ concat (map show_row rows)) \<and>
        count_devs ?buf tail (info\<lparr>mi_lowest := INT_MAX\<rparr>) ?pi = count_devs ?buf tail info' pi'"
      by (rule skip_rows(2) [OF assms(1) b N n(1)])
    then show thesis using that by (auto simp: show_table_def)
  qed
  moreover have "count_devs ?buf tail i q' = None" by (rule count_stuck [OF _ q'(1)]) (use c in auto)
  ultimately show ?thesis using q(2) by (simp add: legacy_dev_present_def legacy_mtd_get_info_def s)
qed

theorem cut_table_never_ends_witness:
  "let r = hd two_rows; data = show_table (tl two_rows) @ take (length (row_front r) + 3) (show_row r)
   in legacy_dev_present (Some data) [] blank_parse 7 = None \<and> legacy_mtd_get_info (Some data) [] blank_parse no_mtd_info = None"
  using cut_table_never_ends [of "tl two_rows" "hd two_rows" "length (row_front (hd two_rows)) + 3" 7 "[]" blank_parse no_mtd_info] two_rows_wf
  by (simp add: two_rows_def row_parts)

end
