(* ===== verification/MtdProbe.thy ===== *)
theory MtdProbe
  imports MtdLegacy
begin

text \<open>
  Opening the MTD library and describing the devices, the first half of
  \<open>client/recovery/lib/mtd/libmtd.c\<close>: the files of sysfs are read and scanned, and a kernel
  without them is left to the operations of \<open>MtdLegacy\<close>. The kernel's answers are one argument.
  The result \<open>None\<close> is an access outside an object, a division by zero, or a search that never
  ends; in a result the error number stands last.
\<close>

section \<open>The kernel's answers\<close>

text \<open>
  A file: the error of opening and of closing it (0 is none), what a first read delivers of so many
  bytes asked for, and what a read of one byte delivers after it.
\<close>

record sysfs_file =
  fl_open :: int
  fl_first :: "nat \<Rightarrow> int + string"
  fl_second :: "nat \<Rightarrow> int + string"
  fl_close :: int

text \<open>A directory: the error of opening it, its entries, the error the last reading ends with, and the error of closing it.\<close>

record sysfs_dir =
  dr_open :: int
  dr_names :: "string list"
  dr_end :: int
  dr_close :: int

text \<open>
  \<open>sf_stat\<close> is the error of \<open>stat\<close>; \<open>sf_node\<close> describes the device nodes. The last four are what
  uninitialised memory holds: behind a buffer on the stack, behind the text of \<open>/proc/mtd\<close>, in
  the parser's structure, and in the flag of a new library descriptor.
\<close>

record sysfs =
  sf_file :: "string \<Rightarrow> sysfs_file"
  sf_dir :: "string \<Rightarrow> sysfs_dir"
  sf_stat :: "string \<Rightarrow> int"
  sf_node :: "string \<Rightarrow> dev_node"
  sf_proc :: "string option"
  sf_junk :: string
  sf_tail :: string
  sf_parse :: proc_parse_info
  sf_flag :: bool

record libmtd =
  lib_sysfs_mtd :: "string option"
  lib_mtd :: "string option"
  lib_mtd_dev :: "string option"
  lib_mtd_name :: "string option"
  lib_mtd_type :: "string option"
  lib_mtd_eb_size :: "string option"
  lib_mtd_size :: "string option"
  lib_mtd_min_io_size :: "string option"
  lib_mtd_subpage_size :: "string option"
  lib_mtd_oob_size :: "string option"
  lib_mtd_region_cnt :: "string option"
  lib_mtd_flags :: "string option"
  lib_sysfs_supported :: bool
  lib_offs64_ioctls :: offs64_support

definition ENODEV :: int where "ENODEV = 19"
definition MTD_TYPE_MAX :: nat where "MTD_TYPE_MAX = 64"
definition SYSFS_MTD :: string where "SYSFS_MTD = ''class/mtd''"
definition MTD_NAME_PATT :: string where "MTD_NAME_PATT = ''mtd%d''"

section \<open>Paths\<close>

text \<open>The first path is not empty.\<close>

definition mkpath :: "string \<Rightarrow> string \<Rightarrow> string" where
  "mkpath path name = (if List.last path \<noteq> CHR ''/'' then path @ CHR ''/'' # name else path @ name)"

text \<open>\<open>sprintf\<close> with one \<open>%d\<close>. A pattern that is a null pointer has no length.\<close>

fun sprintf_d :: "string \<Rightarrow> int \<Rightarrow> string" where
  "sprintf_d (c # d # s) n = (if c = CHR ''%'' \<and> d = CHR ''d'' then show_int n @ s else c # sprintf_d (d # s) n)" |
  "sprintf_d s n = s"

section \<open>Reading files\<close>

definition read_data :: "sysfs_file \<Rightarrow> nat \<Rightarrow> int \<Rightarrow> string option \<times> int" where
  "read_data f buf_len e =
     (let shut = (\<lambda>e. (None, if fl_close f \<noteq> 0 then fl_close f else e))
      in if fl_open f \<noteq> 0 then (None, fl_open f)
         else case fl_first f buf_len of Inl err \<Rightarrow> shut err | Inr buf \<Rightarrow>
         if length buf = buf_len then shut EINVAL
         else case fl_second f buf_len of Inl err \<Rightarrow> shut EINVAL | Inr extra \<Rightarrow>
         if length extra = 1 then shut e
         else if fl_close f \<noteq> 0 then (None, fl_close f) else (Some buf, e))"

text \<open>The two numbers of \<open>%d:%d\<close>.\<close>

definition scan_major :: "string \<Rightarrow> (int \<times> int) option" where
  "scan_major buf = do { (a, s) \<leftarrow> scan_d buf; s \<leftarrow> lit CHR '':'' s; (b, s) \<leftarrow> scan_d s; Some (a, b) }"

definition read_major :: "sysfs_file \<Rightarrow> int \<Rightarrow> (int \<times> int) option \<times> int" where
  "read_major f e =
     (case read_data f 50 e of
        (None, e) \<Rightarrow> (None, e)
      | (Some buf, e) \<Rightarrow>
          (case scan_major buf of
             None \<Rightarrow> (None, EINVAL)
           | Some (major, minor) \<Rightarrow> if major < 0 \<or> minor < 0 then (None, EINVAL) else (Some (major, minor), e)))"

text \<open>\<open>%lld\<close>, which saturates.\<close>

definition scan_lld :: "string \<Rightarrow> (int \<times> string) option" where
  "scan_lld s =
     (let (neg, s) = scan_sign (skip_ws s)
      in map_option (\<lambda>(v, r). (if neg then max (- (2 ^ 63)) (- int v) else min (2 ^ 63 - 1) (int v), r)) (scan_digits 10 s))"

text \<open>The rest of the two readers of a number; they differ in the conversion and in what the buffer is closed with.\<close>

definition read_number :: "(string \<Rightarrow> (int \<times> string) option) \<Rightarrow> string \<Rightarrow> sysfs_file \<Rightarrow> int \<Rightarrow> int option \<times> int" where
  "read_number scan behind f e =
     (let shut = (\<lambda>e. (None, if fl_close f \<noteq> 0 then fl_close f else e))
      in if fl_open f \<noteq> 0 then (None, fl_open f)
         else case fl_first f 50 of Inl err \<Rightarrow> shut err | Inr buf \<Rightarrow>
         if length buf = 50 then shut EINVAL
         else case scan (buf @ behind) of None \<Rightarrow> shut EINVAL | Some (value, _) \<Rightarrow>
         if value < 0 then shut EINVAL
         else if fl_close f \<noteq> 0 then (None, fl_close f) else (Some value, e))"

definition read_hex_ll :: "sysfs_file \<Rightarrow> int \<Rightarrow> int option \<times> int" where
  "read_hex_ll f e = read_number scan_llx [] f e"

text \<open>The decimal reader does not close its buffer with a NUL: \<open>junk\<close> is what the stack holds behind the data.\<close>

definition read_pos_ll :: "string \<Rightarrow> sysfs_file \<Rightarrow> int \<Rightarrow> int option \<times> int" where
  "read_pos_ll junk f e = read_number scan_lld junk f e"

definition read_hex_int :: "sysfs_file \<Rightarrow> int \<Rightarrow> int option \<times> int" where
  "read_hex_int f e =
     (case read_hex_ll f e of
        (None, e) \<Rightarrow> (None, e)
      | (Some res, e) \<Rightarrow> if res > INT_MAX \<or> res < - INT_MAX - 1 then (None, EINVAL) else (Some res, e))"

definition read_pos_int :: "string \<Rightarrow> sysfs_file \<Rightarrow> int \<Rightarrow> int option \<times> int" where
  "read_pos_int junk f e =
     (case read_pos_ll junk f e of
        (None, e) \<Rightarrow> (None, e)
      | (Some res, e) \<Rightarrow> if res > INT_MAX then (None, EINVAL) else (Some res, e))"

section \<open>The files of a device\<close>

definition dev_get_major :: "sysfs \<Rightarrow> libmtd \<Rightarrow> int \<Rightarrow> int \<Rightarrow> ((int \<times> int) option \<times> int) option" where
  "dev_get_major S lib mtd_num e = map_option (\<lambda>patt. read_major (sf_file S (sprintf_d patt mtd_num)) e) (lib_mtd_dev lib)"

definition dev_read_data :: "sysfs \<Rightarrow> string option \<Rightarrow> int \<Rightarrow> nat \<Rightarrow> int \<Rightarrow> (string option \<times> int) option" where
  "dev_read_data S patt mtd_num buf_len e = map_option (\<lambda>patt. read_data (sf_file S (sprintf_d patt mtd_num)) buf_len e) patt"

definition dev_read_hex_int :: "sysfs \<Rightarrow> string option \<Rightarrow> int \<Rightarrow> int \<Rightarrow> (int option \<times> int) option" where
  "dev_read_hex_int S patt mtd_num e = map_option (\<lambda>patt. read_hex_int (sf_file S (sprintf_d patt mtd_num)) e) patt"

definition dev_read_pos_int :: "sysfs \<Rightarrow> string option \<Rightarrow> int \<Rightarrow> int \<Rightarrow> (int option \<times> int) option" where
  "dev_read_pos_int S patt mtd_num e = map_option (\<lambda>patt. read_pos_int (sf_junk S) (sf_file S (sprintf_d patt mtd_num)) e) patt"

definition dev_read_pos_ll :: "sysfs \<Rightarrow> string option \<Rightarrow> int \<Rightarrow> int \<Rightarrow> (int option \<times> int) option" where
  "dev_read_pos_ll S patt mtd_num e = map_option (\<lambda>patt. read_pos_ll (sf_junk S) (sf_file S (sprintf_d patt mtd_num)) e) patt"

definition type_str2int :: "string \<Rightarrow> int" where
  "type_str2int str =
     (if str = ''nand'' then MTD_NANDFLASH else if str = ''mlc-nand'' then MTD_MLCNANDFLASH else if str = ''nor'' then MTD_NORFLASH
      else if str = ''rom'' then MTD_ROM else if str = ''absent'' then MTD_ABSENT else if str = ''dataflash'' then MTD_DATAFLASH
      else if str = ''ram'' then MTD_RAM else if str = ''ubi'' then MTD_UBIVOLUME else -1)"

section \<open>Opening the library\<close>

text \<open>An entry that is \<open>mtd\<close>, a number and nothing else.\<close>

definition scan_entry :: "string \<Rightarrow> int option" where
  "scan_entry name = do { s \<leftarrow> lits ''mtd'' name; (n, s) \<leftarrow> scan_d s; if skip_ws s = [] then Some n else None }"

text \<open>The loop over the directory: an entry too long ends it, as does the first device.\<close>

datatype entry_search = TooLong | Entry int | NoEntry

fun first_entry :: "string list \<Rightarrow> entry_search" where
  "first_entry [] = NoEntry" |
  "first_entry (name # names) =
     (if length name \<ge> 255 then TooLong else case scan_entry name of Some n \<Rightarrow> Entry n | None \<Rightarrow> first_entry names)"

definition sysfs_is_supported :: "sysfs \<Rightarrow> string \<Rightarrow> string \<Rightarrow> int" where
  "sysfs_is_supported S sysfs_mtd name_patt =
     (let d = sf_dir S sysfs_mtd
      in if dr_open d \<noteq> 0 then (if dr_open d = ENOENT then 0 else -1)
         else let found = first_entry (dr_names d); num = (case found of Entry n \<Rightarrow> n | _ \<Rightarrow> -1); f = sf_file S (sprintf_d name_patt num)
         in if found = TooLong then -1
            else if dr_close d \<noteq> 0 then -1
            else if num = -1 then 0
            else if fl_open f \<noteq> 0 then 0
            else if fl_close f \<noteq> 0 then -1 else 1)"

text \<open>Only the answer 0 counts as no sysfs; the flag is then what the new memory held.\<close>

definition libmtd_open :: "sysfs \<Rightarrow> libmtd" where
  "libmtd_open S =
     (let sysfs_mtd = mkpath ''/sys'' SYSFS_MTD; mtd = mkpath sysfs_mtd MTD_NAME_PATT; name = mkpath mtd ''name''
      in if sysfs_is_supported S sysfs_mtd name = 0
         then \<lparr>lib_sysfs_mtd = None, lib_mtd = None, lib_mtd_dev = None, lib_mtd_name = None, lib_mtd_type = None, lib_mtd_eb_size = None,
               lib_mtd_size = None, lib_mtd_min_io_size = None, lib_mtd_subpage_size = None, lib_mtd_oob_size = None,
               lib_mtd_region_cnt = None, lib_mtd_flags = None, lib_sysfs_supported = sf_flag S, lib_offs64_ioctls = OFFS64_IOCTLS_UNKNOWN\<rparr>
         else \<lparr>lib_sysfs_mtd = Some sysfs_mtd, lib_mtd = Some mtd, lib_mtd_dev = Some (mkpath mtd ''dev''), lib_mtd_name = Some name,
               lib_mtd_type = Some (mkpath mtd ''type''), lib_mtd_eb_size = Some (mkpath mtd ''erasesize''), lib_mtd_size = Some (mkpath mtd ''size''),
               lib_mtd_min_io_size = Some (mkpath mtd ''writesize''), lib_mtd_subpage_size = Some (mkpath mtd ''subpagesize''),
               lib_mtd_oob_size = Some (mkpath mtd ''oobsize''), lib_mtd_region_cnt = Some (mkpath mtd ''numeraseregions''),
               lib_mtd_flags = Some (mkpath mtd ''flags''), lib_sysfs_supported = True, lib_offs64_ioctls = OFFS64_IOCTLS_UNKNOWN\<rparr>)"

section \<open>The devices\<close>

definition mtd_dev_present :: "sysfs \<Rightarrow> libmtd \<Rightarrow> int \<Rightarrow> bool option" where
  "mtd_dev_present S lib mtd_num =
     (if \<not> lib_sysfs_supported lib then map_option (\<lambda>r. r = 1) (legacy_dev_present (sf_proc S) (sf_tail S) (sf_parse S) mtd_num)
      else map_option (\<lambda>patt. sf_stat S (sprintf_d patt mtd_num) = 0) (lib_mtd lib))"

fun count_entries :: "string list \<Rightarrow> mtd_info \<Rightarrow> mtd_info option" where
  "count_entries [] info = Some info" |
  "count_entries (name # names) info =
     (if length name \<ge> 255 then None
      else case scan_entry name of
             None \<Rightarrow> count_entries names info
           | Some n \<Rightarrow> count_entries names (info\<lparr>mi_dev_cnt := mi_dev_cnt info + 1, mi_highest := max n (mi_highest info), mi_lowest := min n (mi_lowest info)\<rparr>))"

text \<open>The operations of \<open>MtdLegacy\<close> do not show the error number they leave; nothing reads it.\<close>

definition mtd_get_info :: "sysfs \<Rightarrow> libmtd \<Rightarrow> int \<Rightarrow> (mtd_info option \<times> int) option" where
  "mtd_get_info S lib e =
     (if \<not> lib_sysfs_supported lib
      then map_option (\<lambda>(r, info). (if r = 0 then Some info else None, e)) (legacy_mtd_get_info (sf_proc S) (sf_tail S) (sf_parse S) no_mtd_info)
      else case lib_sysfs_mtd lib of None \<Rightarrow> None | Some path \<Rightarrow>
      let d = sf_dir S path; shut = (\<lambda>e. Some (None, if dr_close d \<noteq> 0 then dr_close d else e))
      in if dr_open d \<noteq> 0 then Some (None, if dr_open d = ENOENT then ENODEV else dr_open d)
         else case count_entries (dr_names d) (no_mtd_info\<lparr>mi_sysfs := True, mi_lowest := INT_MAX\<rparr>) of None \<Rightarrow> shut EINVAL | Some info \<Rightarrow>
         if dr_end d \<noteq> 0 then shut (dr_end d)
         else if dr_close d \<noteq> 0 then Some (None, dr_close d)
         else Some (Some (if mi_lowest info = INT_MAX then info\<lparr>mi_lowest := 0\<rparr> else info), 0))"

text \<open>The search for the device with the numbers of a node, over the numbers \<open>i\<close> up to \<open>highest\<close>.\<close>

function find_major :: "sysfs \<Rightarrow> libmtd \<Rightarrow> int \<times> int \<Rightarrow> int \<Rightarrow> int \<Rightarrow> int \<Rightarrow> (int option \<times> int) option" where
  "find_major S lib mm highest i e =
     (if i > highest then Some (None, ENODEV)
      else case dev_get_major S lib i e of
             None \<Rightarrow> None
           | Some (None, e) \<Rightarrow> if e = ENOENT then find_major S lib mm highest (i + 1) e else if e = 0 then Some (None, ENODEV) else Some (None, e)
           | Some (Some mm1, e) \<Rightarrow> if mm1 = mm then Some (Some i, 0) else find_major S lib mm highest (i + 1) e)"
  by pat_completeness auto
termination by (relation "measure (\<lambda>(S, lib, mm, highest, i, e). nat (highest + 1 - i))") auto

declare find_major.simps [simp del]

definition dev_node2num :: "sysfs \<Rightarrow> libmtd \<Rightarrow> string \<Rightarrow> int \<Rightarrow> (int option \<times> int) option" where
  "dev_node2num S lib node e =
     (if sf_stat S node \<noteq> 0 then Some (None, sf_stat S node)
      else case dn_stat (sf_node S node) of (_, ischr, mjr, mnr) \<Rightarrow>
      if \<not> ischr then Some (None, EINVAL)
      else case mtd_get_info S lib e of
             None \<Rightarrow> None
           | Some (None, e) \<Rightarrow> Some (None, e)
           | Some (Some info, e) \<Rightarrow> find_major S lib (mjr, mnr) (mi_highest info) (mi_lowest info) e)"

text \<open>The text that was read without its last character, up to a NUL. With no text the code writes in front of the array.\<close>

definition chop_line :: "string \<Rightarrow> string option" where
  "chop_line buf = (if buf = [] then None else Some (takeWhile (\<lambda>c. c \<noteq> CHR 0x00) (butlast buf)))"

text \<open>A step that fails ends the operation; a step without a value has no value as a whole.\<close>

definition and_then :: "('a option \<times> int) option \<Rightarrow> ('a \<Rightarrow> int \<Rightarrow> ('b option \<times> int) option) \<Rightarrow> ('b option \<times> int) option" where
  "and_then m f = (case m of None \<Rightarrow> None | Some (None, e) \<Rightarrow> Some (None, e) | Some (Some x, e) \<Rightarrow> f x e)"

text \<open>Of a description that failed nothing is kept; the callers drop it.\<close>

definition mtd_get_dev_info1 :: "sysfs \<Rightarrow> libmtd \<Rightarrow> int \<Rightarrow> int \<Rightarrow> (mtd_dev_info option \<times> int) option" where
  "mtd_get_dev_info1 S lib n e =
     (case mtd_dev_present S lib n of None \<Rightarrow> None | Some present \<Rightarrow>
      if \<not> present then Some (None, ENODEV)
      else if \<not> lib_sysfs_supported lib
      then map_option (\<lambda>(r, mtd). (if r = 0 then Some mtd else None, e))
             (legacy_get_dev_info1 (sf_node S) (sf_proc S) (sf_tail S) (sf_parse S) n (no_dev_info\<lparr>md_num := n\<rparr>))
      else and_then (dev_get_major S lib n e) (\<lambda>(mjr, mnr) e.
           and_then (dev_read_data S (lib_mtd_name lib) n (MTD_NAME_MAX + 1) e) (\<lambda>name e.
           case chop_line name of None \<Rightarrow> None | Some name \<Rightarrow>
           and_then (dev_read_data S (lib_mtd_type lib) n (MTD_TYPE_MAX + 1) e) (\<lambda>type_str e.
           case chop_line type_str of None \<Rightarrow> None | Some type_str \<Rightarrow>
           and_then (dev_read_pos_int S (lib_mtd_eb_size lib) n e) (\<lambda>eb_size e.
           and_then (dev_read_pos_ll S (lib_mtd_size lib) n e) (\<lambda>sz e.
           and_then (dev_read_pos_int S (lib_mtd_min_io_size lib) n e) (\<lambda>min_io_size e.
           and_then (dev_read_pos_int S (lib_mtd_subpage_size lib) n e) (\<lambda>subpage_size e.
           and_then (dev_read_pos_int S (lib_mtd_oob_size lib) n e) (\<lambda>oob_size e.
           and_then (dev_read_pos_int S (lib_mtd_region_cnt lib) n e) (\<lambda>region_cnt e.
           and_then (dev_read_hex_int S (lib_mtd_flags lib) n e) (\<lambda>flags e.
           if eb_size = 0 then None
           else let t = type_str2int type_str
                in Some (Some \<lparr>md_num = n, md_major = mjr, md_minor = mnr, md_type = t, md_type_str = type_str, md_name = name, md_size = sz,
                               md_eb_cnt = sint (word_of_int (cdiv sz eb_size) :: u32), md_eb_size = eb_size, md_min_io_size = min_io_size,
                               md_subpage_size = subpage_size, md_oob_size = oob_size, md_region_cnt = region_cnt,
                               md_writable = ((word_of_int flags :: u32) AND MTD_WRITEABLE \<noteq> 0),
                               md_bb_allowed = (t = MTD_NANDFLASH \<or> t = MTD_MLCNANDFLASH)\<rparr>, e))))))))))))"

definition mtd_get_dev_info :: "sysfs \<Rightarrow> libmtd \<Rightarrow> string \<Rightarrow> int \<Rightarrow> (mtd_dev_info option \<times> int) option" where
  "mtd_get_dev_info S lib node e =
     (if \<not> lib_sysfs_supported lib
      then map_option (\<lambda>(r, mtd). (if r = 0 then Some mtd else None, e)) (legacy_get_dev_info (sf_node S) (sf_proc S) (sf_tail S) (sf_parse S) node no_dev_info)
      else and_then (dev_node2num S lib node e) (\<lambda>n e. mtd_get_dev_info1 S lib n e))"

section \<open>What sysfs shows\<close>

definition text_file :: "string \<Rightarrow> sysfs_file" where
  "text_file s = \<lparr>fl_open = 0, fl_first = (\<lambda>k. Inr (take k s)), fl_second = (\<lambda>k. Inr (take 1 (drop k s))), fl_close = 0\<rparr>"

definition dev_path :: "int \<Rightarrow> string" where
  "dev_path n = ''/sys/class/mtd/mtd'' @ show_int n"

definition attr :: "int \<Rightarrow> string \<Rightarrow> string" where
  "attr n a = dev_path n @ CHR ''/'' # a"

text \<open>The attributes of a device and their texts; the flags of the device are \<open>fl\<close>.\<close>

definition dev_texts :: "mtd_dev_info \<Rightarrow> nat \<Rightarrow> (string \<times> string) list" where
  "dev_texts d fl =
     [(''dev'', show_int (md_major d) @ CHR '':'' # show_int (md_minor d) @ [newline]), (''name'', md_name d @ [newline]),
      (''type'', md_type_str d @ [newline]), (''erasesize'', show_int (md_eb_size d) @ [newline]), (''size'', show_int (md_size d) @ [newline]),
      (''writesize'', show_int (md_min_io_size d) @ [newline]), (''subpagesize'', show_int (md_subpage_size d) @ [newline]),
      (''oobsize'', show_int (md_oob_size d) @ [newline]), (''numeraseregions'', show_int (md_region_cnt d) @ [newline]),
      (''flags'', ''0x'' @ show_base 16 fl @ [newline])]"

definition small :: "int \<Rightarrow> bool" where
  "small v \<longleftrightarrow> 0 \<le> v \<and> v \<le> INT_MAX"

definition wf_dev :: "mtd_dev_info \<Rightarrow> nat \<Rightarrow> bool" where
  "wf_dev d fl \<longleftrightarrow> small (md_num d) \<and> small (md_major d) \<and> small (md_minor d) \<and> small (md_eb_size d) \<and> md_eb_size d \<noteq> 0 \<and>
     0 \<le> md_size d \<and> md_size d < 2 ^ 63 \<and> small (md_eb_cnt d) \<and> md_eb_cnt d = md_size d div md_eb_size d \<and>
     small (md_min_io_size d) \<and> small (md_subpage_size d) \<and> small (md_oob_size d) \<and> small (md_region_cnt d) \<and> small (int fl) \<and>
     length (md_name d) < MTD_NAME_MAX \<and> CHR 0x00 \<notin> set (md_name d) \<and> length (md_type_str d) < MTD_TYPE_MAX \<and> CHR 0x00 \<notin> set (md_type_str d) \<and>
     md_type d = type_str2int (md_type_str d) \<and> md_writable d = ((word_of_nat fl :: u32) AND MTD_WRITEABLE \<noteq> 0) \<and>
     md_bb_allowed d = (md_type d = MTD_NANDFLASH \<or> md_type d = MTD_MLCNANDFLASH)"

definition shows_dev :: "sysfs \<Rightarrow> mtd_dev_info \<Rightarrow> nat \<Rightarrow> bool" where
  "shows_dev S d fl \<longleftrightarrow> sf_stat S (dev_path (md_num d)) = 0 \<and>
     list_all (\<lambda>(a, t). sf_file S (attr (md_num d) a) = text_file t) (dev_texts d fl)"

section \<open>Reading what sysfs shows\<close>

lemma length_show_base: "2 \<le> b \<Longrightarrow> 0 < k \<Longrightarrow> n < b ^ k \<Longrightarrow> length (show_base b n) \<le> k"
proof (induction k arbitrary: n)
  case (Suc k)
  show ?case
  proof (cases "n < b")
    case False
    then have "k \<noteq> 0" using Suc.prems by (cases k) auto
    moreover have "n div b < b ^ k" using Suc.prems by (simp add: less_mult_imp_div_less mult.commute)
    ultimately have "length (show_base b (n div b)) \<le> k" using Suc.IH Suc.prems(1) by simp
    then show ?thesis using False Suc.prems(1) by (simp add: show_base.simps [of b n])
  qed (simp add: show_base.simps)
qed simp

lemma read_text: "length s < n \<Longrightarrow> read_data (text_file s) n e = (Some s, e)"
  by (simp add: read_data_def text_file_def)

lemma newline_end: "\<not> is_digit 10 newline" "\<not> is_digit 16 newline"
  by (simp_all add: newline_def is_digit_def digit_val_def)

lemma scan_lld_show:
  assumes "v < 2 ^ 63" "\<not> is_digit 10 c" shows "scan_lld (show_base 10 v @ c # r) = Some (int v, c # r)"
proof -
  obtain d ds where d: "show_base 10 v = d # ds" "\<not> is_space d" "d \<notin> set ''-+''" by (rule show_base_cons [of 10 v]) auto
  have "skip_ws (show_base 10 v @ c # r) = show_base 10 v @ c # r" using d by (simp add: skip_ws_def)
  moreover have "scan_sign (show_base 10 v @ c # r) = (False, show_base 10 v @ c # r)" using d by (simp add: scan_sign_def)
  moreover have "scan_digits 10 (show_base 10 v @ c # r) = Some (v, c # r)" using assms(2) by (intro scan_digits_show) simp_all
  ultimately show ?thesis using assms(1) by (simp add: scan_lld_def)
qed

lemma read_pos_text:
  assumes "0 \<le> v" "v < 2 ^ 63" shows "read_pos_ll junk (text_file (show_int v @ [newline])) e = (Some v, e)"
proof -
  have v: "nat v < 2 ^ 63" using assms by (simp add: nat_less_iff)
  then have "nat v < 10 ^ 20" by simp
  then have "length (show_base 10 (nat v)) \<le> 20" by (intro length_show_base) simp_all
  then show ?thesis using scan_lld_show [OF v newline_end(1), of junk] assms(1)
    by (simp add: read_pos_ll_def read_number_def text_file_def show_int_def)
qed

lemma read_int_text: "small v \<Longrightarrow> read_pos_int junk (text_file (show_int v @ [newline])) e = (Some v, e)"
  using read_pos_text [of v] by (simp add: read_pos_int_def small_def INT_MAX_def)

lemma scan_hex_show:
  assumes "v < 2 ^ 31" shows "scan_llx (''0x'' @ show_base 16 v @ [newline]) = Some (int v, [newline])"
proof -
  obtain d ds where d: "show_base 16 v = d # ds" using show_base_digits [of 16 v] by (cases "show_base 16 v") auto
  then have g: "is_digit 16 d" using show_base_digits [of 16 v] by auto
  have s: "scan_digits 16 (show_base 16 v @ newline # []) = Some (v, [newline])" by (rule scan_digits_show) (simp_all add: newline_end)
  have z: "\<not> is_space CHR ''0''" by (simp add: is_space_def)
  have w: "sint (word_of_int (int v) :: 64 word) = int v" using assms by (intro sint64) simp
  show ?thesis using g s z w assms by (simp add: scan_llx_def skip_ws_def scan_sign_def dangling_0x_def strip_0x_def d)
qed

lemma read_hex_text:
  assumes "small (int v)" shows "read_hex_int (text_file (''0x'' @ show_base 16 v @ [newline])) e = (Some (int v), e)"
proof -
  have v: "v < 2 ^ 31" using assms by (simp add: small_def INT_MAX_def)
  then have "v < 16 ^ 8" by simp
  then have "length (show_base 16 v) \<le> 8" by (intro length_show_base) simp_all
  then show ?thesis using scan_hex_show [OF v] assms
    by (simp add: read_hex_int_def read_hex_ll_def read_number_def text_file_def small_def)
qed

lemma read_major_text:
  assumes "small a" "small b" shows "read_major (text_file (show_int a @ CHR '':'' # show_int b @ [newline])) e = (Some (a, b), e)"
proof -
  have n: "nat a < 2 ^ 31" "nat b < 2 ^ 31" using assms by (simp_all add: small_def INT_MAX_def nat_less_iff)
  then have "nat a < 10 ^ 10" "nat b < 10 ^ 10" by simp_all
  then have l: "length (show_base 10 (nat a)) \<le> 10" "length (show_base 10 (nat b)) \<le> 10" by (intro length_show_base; simp)+
  have c: "\<not> is_digit 10 CHR '':''" by (simp add: is_digit_def digit_val_def)
  have s: "scan_major (show_base 10 (nat a) @ CHR '':'' # show_base 10 (nat b) @ [newline]) = Some (a, b)"
    using scan_d_show [OF n(1) c] scan_d_show [OF n(2) newline_end(1)] assms by (simp add: scan_major_def lit_def small_def)
  have r: "read_data (text_file (show_base 10 (nat a) @ CHR '':'' # show_base 10 (nat b) @ [newline])) 50 e =
      (Some (show_base 10 (nat a) @ CHR '':'' # show_base 10 (nat b) @ [newline]), e)" by (rule read_text) (use l in simp)
  show ?thesis using assms by (simp add: read_major_def show_int_def s r small_def)
qed

lemma read_line:
  "length s + 1 < k \<Longrightarrow> read_data (text_file (s @ [newline])) k e = (Some (s @ [newline]), e)"
  "CHR 0x00 \<notin> set s \<Longrightarrow> chop_line (s @ [newline]) = Some s"
proof -
  show "length s + 1 < k \<Longrightarrow> read_data (text_file (s @ [newline])) k e = (Some (s @ [newline]), e)" by (rule read_text) simp
  assume "CHR 0x00 \<notin> set s"
  then have "takeWhile (\<lambda>c. c \<noteq> CHR 0x00) s = s" by (subst takeWhile_eq_all_conv) blast
  then show "chop_line (s @ [newline]) = Some s" by (simp add: chop_line_def)
qed

section \<open>The library on such a kernel\<close>

definition sysfs_lib :: libmtd where
  "sysfs_lib = \<lparr>lib_sysfs_mtd = Some ''/sys/class/mtd'', lib_mtd = Some ''/sys/class/mtd/mtd%d'', lib_mtd_dev = Some ''/sys/class/mtd/mtd%d/dev'',
     lib_mtd_name = Some ''/sys/class/mtd/mtd%d/name'', lib_mtd_type = Some ''/sys/class/mtd/mtd%d/type'',
     lib_mtd_eb_size = Some ''/sys/class/mtd/mtd%d/erasesize'', lib_mtd_size = Some ''/sys/class/mtd/mtd%d/size'',
     lib_mtd_min_io_size = Some ''/sys/class/mtd/mtd%d/writesize'', lib_mtd_subpage_size = Some ''/sys/class/mtd/mtd%d/subpagesize'',
     lib_mtd_oob_size = Some ''/sys/class/mtd/mtd%d/oobsize'', lib_mtd_region_cnt = Some ''/sys/class/mtd/mtd%d/numeraseregions'',
     lib_mtd_flags = Some ''/sys/class/mtd/mtd%d/flags'', lib_sysfs_supported = True, lib_offs64_ioctls = OFFS64_IOCTLS_UNKNOWN\<rparr>"

lemma open_paths:
  "mkpath ''/sys'' SYSFS_MTD = ''/sys/class/mtd''" "mkpath ''/sys/class/mtd'' MTD_NAME_PATT = ''/sys/class/mtd/mtd%d''"
  "mkpath ''/sys/class/mtd/mtd%d'' a = ''/sys/class/mtd/mtd%d/'' @ a"
  by (simp_all add: mkpath_def SYSFS_MTD_def MTD_NAME_PATT_def)

lemma open_supported:
  "sysfs_is_supported S ''/sys/class/mtd'' ''/sys/class/mtd/mtd%d/name'' \<noteq> 0 \<Longrightarrow> libmtd_open S = sysfs_lib"
  by (simp add: libmtd_open_def open_paths sysfs_lib_def Let_def)

lemma patt_dev: "sprintf_d ''/sys/class/mtd/mtd%d'' n = dev_path n"
  by (simp add: dev_path_def)

lemma patt_attr: "sprintf_d (''/sys/class/mtd/mtd%d/'' @ a) n = attr n a"
  by (simp add: attr_def dev_path_def)

lemmas lib_patts = patt_attr [of "''dev''", simplified] patt_attr [of "''name''", simplified] patt_attr [of "''type''", simplified]
  patt_attr [of "''erasesize''", simplified] patt_attr [of "''size''", simplified] patt_attr [of "''writesize''", simplified]
  patt_attr [of "''subpagesize''", simplified] patt_attr [of "''oobsize''", simplified] patt_attr [of "''numeraseregions''", simplified]
  patt_attr [of "''flags''", simplified]

text \<open>Without sysfs the flag of the new descriptor decides: when it happens to be set, no device can be asked for.\<close>

lemma open_flag_unset:
  assumes "sysfs_is_supported S ''/sys/class/mtd'' ''/sys/class/mtd/mtd%d/name'' = 0" "sf_flag S"
  shows "mtd_dev_present S (libmtd_open S) n = None \<and> mtd_get_info S (libmtd_open S) e = None \<and> mtd_get_dev_info1 S (libmtd_open S) n e = None"
proof -
  have l: "lib_sysfs_supported (libmtd_open S)" "lib_mtd (libmtd_open S) = None" "lib_sysfs_mtd (libmtd_open S) = None"
    using assms by (simp_all add: libmtd_open_def open_paths Let_def)
  then have "mtd_dev_present S (libmtd_open S) n = None" by (simp add: mtd_dev_present_def)
  then show ?thesis using l by (simp add: mtd_get_info_def mtd_get_dev_info1_def)
qed

section \<open>The description of a device\<close>

lemma shown_files:
  assumes "shows_dev S d fl" "wf_dev d fl"
  shows "dev_get_major S sysfs_lib (md_num d) e = Some (Some (md_major d, md_minor d), e)"
    "dev_read_data S (lib_mtd_name sysfs_lib) (md_num d) (MTD_NAME_MAX + 1) e = Some (Some (md_name d @ [newline]), e)"
    "dev_read_data S (lib_mtd_type sysfs_lib) (md_num d) (MTD_TYPE_MAX + 1) e = Some (Some (md_type_str d @ [newline]), e)"
    "dev_read_pos_int S (lib_mtd_eb_size sysfs_lib) (md_num d) e = Some (Some (md_eb_size d), e)"
    "dev_read_pos_ll S (lib_mtd_size sysfs_lib) (md_num d) e = Some (Some (md_size d), e)"
    "dev_read_pos_int S (lib_mtd_min_io_size sysfs_lib) (md_num d) e = Some (Some (md_min_io_size d), e)"
    "dev_read_pos_int S (lib_mtd_subpage_size sysfs_lib) (md_num d) e = Some (Some (md_subpage_size d), e)"
    "dev_read_pos_int S (lib_mtd_oob_size sysfs_lib) (md_num d) e = Some (Some (md_oob_size d), e)"
    "dev_read_pos_int S (lib_mtd_region_cnt sysfs_lib) (md_num d) e = Some (Some (md_region_cnt d), e)"
    "dev_read_hex_int S (lib_mtd_flags sysfs_lib) (md_num d) e = Some (Some (int fl), e)"
proof -
  note F = assms(1) [unfolded shows_dev_def dev_texts_def list.pred_inject prod.case]
  note W = assms(2) [unfolded wf_dev_def]
  note D = sysfs_lib_def libmtd.simps option.map lib_patts
  show "dev_get_major S sysfs_lib (md_num d) e = Some (Some (md_major d, md_minor d), e)"
    using F W read_major_text by (simp add: dev_get_major_def D)
  show "dev_read_data S (lib_mtd_name sysfs_lib) (md_num d) (MTD_NAME_MAX + 1) e = Some (Some (md_name d @ [newline]), e)"
    using F W read_line(1) [of "md_name d"] by (simp add: dev_read_data_def D)
  show "dev_read_data S (lib_mtd_type sysfs_lib) (md_num d) (MTD_TYPE_MAX + 1) e = Some (Some (md_type_str d @ [newline]), e)"
    using F W read_line(1) [of "md_type_str d"] by (simp add: dev_read_data_def D)
  show "dev_read_pos_int S (lib_mtd_eb_size sysfs_lib) (md_num d) e = Some (Some (md_eb_size d), e)"
    "dev_read_pos_int S (lib_mtd_min_io_size sysfs_lib) (md_num d) e = Some (Some (md_min_io_size d), e)"
    "dev_read_pos_int S (lib_mtd_subpage_size sysfs_lib) (md_num d) e = Some (Some (md_subpage_size d), e)"
    "dev_read_pos_int S (lib_mtd_oob_size sysfs_lib) (md_num d) e = Some (Some (md_oob_size d), e)"
    "dev_read_pos_int S (lib_mtd_region_cnt sysfs_lib) (md_num d) e = Some (Some (md_region_cnt d), e)"
    using F W read_int_text by (simp_all add: dev_read_pos_int_def D)
  show "dev_read_pos_ll S (lib_mtd_size sysfs_lib) (md_num d) e = Some (Some (md_size d), e)"
    using F W read_pos_text by (simp add: dev_read_pos_ll_def D)
  show "dev_read_hex_int S (lib_mtd_flags sysfs_lib) (md_num d) e = Some (Some (int fl), e)"
    using F W read_hex_text by (simp add: dev_read_hex_int_def D)
qed

lemma get_dev_info1_shown:
  assumes "shows_dev S d fl" "wf_dev d fl"
  shows "mtd_get_dev_info1 S sysfs_lib (md_num d) e = Some (Some d, e)"
proof -
  have p: "mtd_dev_present S sysfs_lib (md_num d) = Some True"
    using assms(1) by (simp add: mtd_dev_present_def shows_dev_def sysfs_lib_def patt_dev [simplified])
  have s: "lib_sysfs_supported sysfs_lib" by (simp add: sysfs_lib_def)
  note W = assms(2) [unfolded wf_dev_def]
  have c: "chop_line (md_name d @ [newline]) = Some (md_name d)" "chop_line (md_type_str d @ [newline]) = Some (md_type_str d)"
    using W read_line(2) by simp_all
  have q: "sint (word_of_int (cdiv (md_size d) (md_eb_size d)) :: u32) = md_eb_cnt d"
  proof -
    have k: "cdiv (md_size d) (md_eb_size d) = md_eb_cnt d" using W by (simp add: cdiv_def)
    obtain v where v: "md_eb_cnt d = int v" "v < 2 ^ 31" using W by (intro that [of "nat (md_eb_cnt d)"]) (simp_all add: small_def INT_MAX_def nat_less_iff)
    have "sint (word_of_int (int v) :: u32) = int v" using v(2) by (simp only: sint_sbintrunc') (simp add: signed_take_bit_int_eq_self)
    then show ?thesis by (simp add: k v)
  qed
  show ?thesis
    unfolding mtd_get_dev_info1_def p option.case not_True_eq_False if_False s
      shown_files [OF assms] and_then_def prod.case c
    using W q s by (simp add: Let_def)
qed

section \<open>The directory\<close>

lemma scan_d_end: "n < 2 ^ 31 \<Longrightarrow> scan_d (show_base 10 n) = Some (int n, [])"
proof -
  assume n: "n < 2 ^ 31"
  have ten: "2 \<le> (10 :: nat)" "(10 :: nat) \<le> 16" by simp_all
  note g = show_base_digits [OF ten, of n]
  have t: "takeWhile (is_digit 10) (show_base 10 n) = show_base 10 n" using g by (subst takeWhile_eq_all_conv) blast
  have u: "dropWhile (is_digit 10) (show_base 10 n) = []" using g by (subst dropWhile_eq_Nil_conv) blast
  have s: "scan_digits 10 (show_base 10 n) = Some (n, [])" using g unfolding scan_digits_def Let_def t u by simp
  obtain d ds where d: "show_base 10 n = d # ds" "\<not> is_space d" "d \<notin> set ''-+''" by (rule show_base_cons [OF ten, of n])
  have "skip_ws (show_base 10 n) = show_base 10 n" using d by (simp add: skip_ws_def)
  moreover have "scan_sign (show_base 10 n) = (False, show_base 10 n)" using d by (simp add: scan_sign_def)
  ultimately show ?thesis using n s by (simp add: scan_d_def strtol_val_def)
qed

definition entry :: "int \<Rightarrow> string" where
  "entry n = ''mtd'' @ show_int n"

lemma scan_entry_shown: "small n \<Longrightarrow> scan_entry (entry n) = Some n"
proof -
  assume n: "small n"
  then have "nat n < 2 ^ 31" by (simp add: small_def INT_MAX_def nat_less_iff)
  from scan_d_end [OF this] show ?thesis using n
    by (simp add: scan_entry_def entry_def lits_def small_def show_int_def skip_ws_def)
qed

text \<open>The numbers of the devices among the entries.\<close>

definition entry_nums :: "string list \<Rightarrow> int list" where
  "entry_nums names = List.map_filter scan_entry names"

lemma count_entries:
  "list_all (\<lambda>s. length s < 255) names \<Longrightarrow> count_entries names info =
     Some (info\<lparr>mi_dev_cnt := mi_dev_cnt info + int (length (entry_nums names)), mi_highest := fold max (entry_nums names) (mi_highest info),
                mi_lowest := fold min (entry_nums names) (mi_lowest info)\<rparr>)"
proof (induction names arbitrary: info)
  case (Cons a names)
  then show ?case by (cases "scan_entry a") (simp_all add: entry_nums_def map_filter_simps)
qed (simp add: entry_nums_def map_filter_simps)

lemma fold_max_min: "fold min ns a = Min (insert a (set ns))" "fold max ns b = Max (insert b (set ns))" for a b :: int
  by (simp_all add: Min.set_eq_fold Max.set_eq_fold flip: list.set)

lemma first_entry_found:
  "list_all (\<lambda>s. length s < 255) names \<Longrightarrow> entry_nums names \<noteq> [] \<Longrightarrow> \<exists>n \<in> set (entry_nums names). first_entry names = Entry n"
  by (induction names) (auto simp: entry_nums_def map_filter_simps split: option.splits)

section \<open>The search for a node\<close>

lemma find_major_shown:
  assumes "shows_dev S d fl" "wf_dev d fl" "md_num d \<le> highest"
    and "\<And>i. lo \<le> i \<Longrightarrow> i < md_num d \<Longrightarrow>
      (\<exists>c f. md_num c = i \<and> shows_dev S c f \<and> wf_dev c f \<and> (md_major c, md_minor c) \<noteq> (md_major d, md_minor d)) \<or> fl_open (sf_file S (attr i ''dev'')) = ENOENT"
    and "lo \<le> md_num d"
  shows "find_major S sysfs_lib (md_major d, md_minor d) highest lo e = Some (Some (md_num d), 0)"
  using assms(4,5)
proof (induction "nat (md_num d - lo)" arbitrary: lo e)
  case 0
  then have "lo = md_num d" by simp
  then show ?case using assms(3) by (simp add: find_major.simps [of _ _ _ _ "md_num d"] shown_files(1) [OF assms(1,2)])
next
  case (Suc k)
  have l: "lo < md_num d" using Suc.hyps(2) by simp
  have IH: "find_major S sysfs_lib (md_major d, md_minor d) highest (lo + 1) e = Some (Some (md_num d), 0)" for e
    by (rule Suc.hyps(1)) (use Suc.hyps(2) Suc.prems l in auto)
  consider (other) c f where "md_num c = lo" "shows_dev S c f" "wf_dev c f" "(md_major c, md_minor c) \<noteq> (md_major d, md_minor d)"
    | (absent) "fl_open (sf_file S (attr lo ''dev'')) = ENOENT"
    using Suc.prems(1) [OF _ l] by blast
  then show ?case
  proof cases
    case other
    then have "dev_get_major S sysfs_lib lo e = Some (Some (md_major c, md_minor c), e)" using shown_files(1) [OF other(2,3)] by simp
    then show ?thesis using l assms(3) other(4) IH by (simp add: find_major.simps [of _ _ _ _ lo])
  next
    case absent
    then have "dev_get_major S sysfs_lib lo e = Some (None, ENOENT)"
      by (simp add: dev_get_major_def sysfs_lib_def lib_patts read_major_def read_data_def Let_def ENOENT_def)
    then show ?thesis using l assms(3) IH by (simp add: find_major.simps [of _ _ _ _ lo])
  qed
qed

text \<open>
  A kernel with sysfs: its directory has an entry for each device, and no other entry that looks like one;
  no two devices share their number or their node, and where a number is missing there is no file.
\<close>

definition shows_devs :: "sysfs \<Rightarrow> (mtd_dev_info \<times> nat) list \<Rightarrow> bool" where
  "shows_devs S ds \<longleftrightarrow>
     (let d = sf_dir S ''/sys/class/mtd''; nums = map (md_num \<circ> fst) ds
      in dr_open d = 0 \<and> dr_end d = 0 \<and> dr_close d = 0 \<and> list_all (\<lambda>s. length s < 255) (dr_names d) \<and>
         set (entry_nums (dr_names d)) = set nums \<and> distinct nums \<and> distinct (map (\<lambda>(d, fl). (md_major d, md_minor d)) ds) \<and>
         list_all (\<lambda>(d, fl). wf_dev d fl \<and> shows_dev S d fl) ds \<and>
         (\<forall>i \<in> {0..Max (set nums)} - set nums. fl_open (sf_file S (attr i ''dev'')) = ENOENT))"

lemma lib_open_shown:
  assumes "shows_devs S ds" "ds \<noteq> []" shows "libmtd_open S = sysfs_lib"
proof (rule open_supported)
  let ?d = "sf_dir S ''/sys/class/mtd''"
  have d: "dr_open ?d = 0" "dr_close ?d = 0" "list_all (\<lambda>s. length s < 255) (dr_names ?d)" "set (entry_nums (dr_names ?d)) = (md_num \<circ> fst) ` set ds"
    and l: "list_all (\<lambda>(d, fl). wf_dev d fl \<and> shows_dev S d fl) ds"
    using assms(1) by (simp_all add: shows_devs_def Let_def)
  have "entry_nums (dr_names ?d) \<noteq> []" using d(4) assms(2) by (metis image_is_empty set_empty)
  then obtain n where n: "n \<in> (md_num \<circ> fst) ` set ds" "first_entry (dr_names ?d) = Entry n" using first_entry_found [OF d(3)] d(4) by blast
  then obtain c f where c: "(c, f) \<in> set ds" "md_num c = n" by auto
  then have w: "wf_dev c f" "shows_dev S c f" using l by (auto simp: list_all_iff)
  have "sf_file S (attr n ''name'') = text_file (md_name c @ [newline])" using w(2) c(2) by (simp add: shows_dev_def dev_texts_def)
  moreover have p: "sprintf_d ''/sys/class/mtd/mtd%d/name'' n = attr n ''name''" using patt_attr [of "''name''" n] by simp
  moreover have "n \<noteq> -1" using w(1) c(2) by (auto simp: wf_dev_def small_def)
  ultimately have "sysfs_is_supported S ''/sys/class/mtd'' ''/sys/class/mtd/mtd%d/name'' = 1"
    unfolding sysfs_is_supported_def Let_def n(2) d(1,2) entry_search.case p by (simp add: text_file_def)
  then show "sysfs_is_supported S ''/sys/class/mtd'' ''/sys/class/mtd/mtd%d/name'' \<noteq> 0" by simp
qed

lemma get_info_shown:
  assumes "shows_devs S ds" "ds \<noteq> []"
  obtains info where "mtd_get_info S sysfs_lib e = Some (Some info, 0)"
    "mi_dev_cnt info = int (length (entry_nums (dr_names (sf_dir S ''/sys/class/mtd''))))"
    "0 \<le> mi_lowest info" "\<forall>n \<in> set (map (md_num \<circ> fst) ds). mi_lowest info \<le> n" "mi_highest info = Max (set (map (md_num \<circ> fst) ds))"
proof -
  let ?d = "sf_dir S ''/sys/class/mtd''" and ?nums = "set (map (md_num \<circ> fst) ds)"
  have d: "dr_open ?d = 0" "dr_end ?d = 0" "dr_close ?d = 0" "list_all (\<lambda>s. length s < 255) (dr_names ?d)" "set (entry_nums (dr_names ?d)) = ?nums"
    and l: "list_all (\<lambda>(d, fl). wf_dev d fl \<and> shows_dev S d fl) ds"
    using assms(1) by (simp_all add: shows_devs_def Let_def)
  have b: "0 \<le> n" if "n \<in> ?nums" for n using that l by (auto simp: list_all_iff wf_dev_def small_def)
  have ne: "finite ?nums" "?nums \<noteq> {}" using assms(2) by simp_all
  have hi: "Max (insert 0 ?nums) = Max ?nums" using b [OF Max_in [OF ne]] by (subst Max_insert [OF ne]) simp
  have lo: "0 \<le> Min (insert INT_MAX ?nums)" "\<forall>n \<in> ?nums. Min (insert INT_MAX ?nums) \<le> n"
    using b by (simp_all add: INT_MAX_def)
  define i where "i = no_mtd_info\<lparr>mi_sysfs := True, mi_lowest := INT_MAX\<rparr>\<lparr>mi_dev_cnt := int (length (entry_nums (dr_names ?d))),
      mi_highest := Max ?nums, mi_lowest := Min (insert INT_MAX ?nums)\<rparr>"
  have c: "count_entries (dr_names ?d) (no_mtd_info\<lparr>mi_sysfs := True, mi_lowest := INT_MAX\<rparr>) = Some i"
    unfolding count_entries [OF d(4)] fold_max_min d(5) i_def using hi by (simp add: no_mtd_info_def)
  let ?i = "if mi_lowest i = INT_MAX then i\<lparr>mi_lowest := 0\<rparr> else i"
  have "mtd_get_info S sysfs_lib e = Some (Some ?i, 0)"
    using c d(1-3) by (simp add: mtd_get_info_def sysfs_lib_def)
  then show thesis by (rule that) (use lo b in \<open>auto simp: i_def\<close>)
qed

lemma node2num_shown:
  assumes "shows_devs S ds" "(d, fl) \<in> set ds" "sf_stat S node = 0" "snd (dn_stat (sf_node S node)) = (True, md_major d, md_minor d)"
  shows "dev_node2num S sysfs_lib node e = Some (Some (md_num d), 0)"
proof -
  let ?nums = "set (map (md_num \<circ> fst) ds)"
  have n: "distinct (map (\<lambda>(d, fl). (md_major d, md_minor d)) ds)" "list_all (\<lambda>(d, fl). wf_dev d fl \<and> shows_dev S d fl) ds"
    "\<forall>i \<in> {0..Max ?nums} - ?nums. fl_open (sf_file S (attr i ''dev'')) = ENOENT"
    using assms(1) by (simp_all add: shows_devs_def Let_def)
  have w: "wf_dev c f" "shows_dev S c f" if "(c, f) \<in> set ds" for c f using that n(2) by (auto simp: list_all_iff)
  have other: "(md_major c, md_minor c) \<noteq> (md_major d, md_minor d)" if "(c, f) \<in> set ds" "md_num c \<noteq> md_num d" for c f
    using n(1) assms(2) that by (auto simp: distinct_map dest!: inj_onD [where x = "(c, f)" and y = "(d, fl)"])
  have ne: "ds \<noteq> []" using assms(2) by auto
  have m: "md_num d \<in> ?nums" using assms(2) by force
  obtain info where i: "mtd_get_info S sysfs_lib e = Some (Some info, 0)" "0 \<le> mi_lowest info" "\<forall>n \<in> ?nums. mi_lowest info \<le> n" "mi_highest info = Max ?nums"
    by (rule get_info_shown [OF assms(1) ne])
  have top: "md_num d \<le> Max ?nums" using m by (intro Max_ge) simp_all
  have "find_major S sysfs_lib (md_major d, md_minor d) (mi_highest info) (mi_lowest info) 0 = Some (Some (md_num d), 0)"
  proof (rule find_major_shown [OF w(2) [OF assms(2)] w(1) [OF assms(2)]])
    show "md_num d \<le> mi_highest info" using top i(4) by simp
    show "mi_lowest info \<le> md_num d" using i(3) m by blast
    fix k assume k: "mi_lowest info \<le> k" "k < md_num d"
    show "(\<exists>c f. md_num c = k \<and> shows_dev S c f \<and> wf_dev c f \<and> (md_major c, md_minor c) \<noteq> (md_major d, md_minor d)) \<or> fl_open (sf_file S (attr k ''dev'')) = ENOENT"
    proof (cases "k \<in> ?nums")
      case True
      then obtain c f where c: "(c, f) \<in> set ds" "md_num c = k" by auto
      have "(md_major c, md_minor c) \<noteq> (md_major d, md_minor d)" by (rule other [OF c(1)]) (use c(2) k(2) in simp)
      then show ?thesis using w [OF c(1)] c(2) by blast
    next
      case False
      then have "k \<in> {0..Max ?nums} - ?nums" using k i(2) top by simp
      then show ?thesis using n(3) by blast
    qed
  qed
  moreover obtain x where "dn_stat (sf_node S node) = (x, True, md_major d, md_minor d)" using assms(4) by (cases "dn_stat (sf_node S node)") auto
  ultimately show ?thesis using assms(3) i(1) by (simp add: dev_node2num_def)
qed


section \<open>The whole way\<close>

text \<open>
  C24. Describing a device through sysfs: on a kernel whose files print the devices as sysfs does, the
  library that was just opened answers for the node of any device with exactly the description the
  files were printed from, whatever holes the numbering has, whatever else lies in the
  directory and whatever the uninitialised memory holds; and it finds the device present.
\<close>

theorem mtd_probe_describes:
  assumes "shows_devs S ds" "(d, fl) \<in> set ds" "sf_stat S node = 0" "snd (dn_stat (sf_node S node)) = (True, md_major d, md_minor d)"
  shows "mtd_get_dev_info S (libmtd_open S) node e = Some (Some d, 0) \<and> mtd_dev_present S (libmtd_open S) (md_num d) = Some True"
proof -
  have ne: "ds \<noteq> []" using assms(2) by auto
  have w: "wf_dev d fl" "shows_dev S d fl" using assms(1,2) by (auto simp: shows_devs_def Let_def list_all_iff)
  have p: "mtd_dev_present S sysfs_lib (md_num d) = Some True"
    using w(2) by (simp add: mtd_dev_present_def shows_dev_def sysfs_lib_def patt_dev [simplified])
  have "lib_sysfs_supported sysfs_lib" by (simp add: sysfs_lib_def)
  then show ?thesis
    by (simp add: lib_open_shown [OF assms(1) ne] mtd_get_dev_info_def node2num_shown [OF assms] and_then_def
        get_dev_info1_shown [OF w(2,1)] p)
qed

definition dev_nand :: mtd_dev_info where
  "dev_nand = \<lparr>md_num = 0, md_major = 90, md_minor = 0, md_type = MTD_NANDFLASH, md_type_str = ''nand'', md_name = ''boot loader'', md_size = 0x800000,
     md_eb_cnt = 64, md_eb_size = 0x20000, md_min_io_size = 2048, md_subpage_size = 2048, md_oob_size = 64, md_region_cnt = 0,
     md_writable = True, md_bb_allowed = True\<rparr>"

definition dev_nor :: mtd_dev_info where
  "dev_nor = \<lparr>md_num = 2, md_major = 90, md_minor = 4, md_type = MTD_NORFLASH, md_type_str = ''nor'', md_name = ''env'', md_size = 0x10000,
     md_eb_cnt = 16, md_eb_size = 0x1000, md_min_io_size = 1, md_subpage_size = 1, md_oob_size = 0, md_region_cnt = 0,
     md_writable = False, md_bb_allowed = False\<rparr>"

definition two_devs :: "(mtd_dev_info \<times> nat) list" where
  "two_devs = [(dev_nor, 0x800), (dev_nand, 0x400)]"

definition two_files :: "(string \<times> string) list" where
  "two_files = concat (map (\<lambda>(d, fl). map (\<lambda>(a, t). (attr (md_num d) a, t)) (dev_texts d fl)) two_devs)"

definition two_sysfs :: sysfs where
  "two_sysfs = \<lparr>
     sf_file = (\<lambda>p. case map_of two_files p of Some t \<Rightarrow> text_file t | None \<Rightarrow> (text_file [])\<lparr>fl_open := ENOENT\<rparr>),
     sf_dir = (\<lambda>_. \<lparr>dr_open = 0, dr_names = [''.'', ''..'', ''mtd0'', ''mtd0ro'', ''mtd2'', ''mtd2ro''], dr_end = 0, dr_close = 0\<rparr>),
     sf_stat = (\<lambda>_. 0),
     sf_node = (\<lambda>p. \<lparr>dn_stat = (False, True, 90, if p = ''/dev/mtd2'' then 4 else 0), dn_opens = True, dn_info = None, dn_badblock = (0, 0)\<rparr>),
     sf_proc = None, sf_junk = ''3'', sf_tail = [], sf_parse = blank_parse, sf_flag = True\<rparr>"

lemma attr_inj: "0 \<le> n \<Longrightarrow> 0 \<le> m \<Longrightarrow> attr n a = attr m b \<longleftrightarrow> n = m \<and> a = b"
proof (rule iffI)
  assume nm: "0 \<le> n" "0 \<le> m" and "attr n a = attr m b"
  then have e: "show_base 10 (nat n) @ CHR ''/'' # a = show_base 10 (nat m) @ CHR ''/'' # b" by (simp add: attr_def dev_path_def show_int_def)
  have D: "scan_digits 10 (show_base 10 (nat k) @ CHR ''/'' # c) = Some (nat k, CHR ''/'' # c)" for k c
    by (rule scan_digits_show) (simp_all add: is_digit_def digit_val_def)
  have "Some (nat n, CHR ''/'' # a) = Some (nat m, CHR ''/'' # b)" using D [of n a] unfolding e D by (rule sym)
  then show "n = m \<and> a = b" using nm by (simp add: eq_nat_nat_iff)
qed simp

lemma two_files_found: "list_all (\<lambda>(d, fl). list_all (\<lambda>(a, t). map_of two_files (attr (md_num d) a) = Some t) (dev_texts d fl)) two_devs"
  by (simp add: two_files_def two_devs_def dev_texts_def dev_nand_def dev_nor_def attr_inj)

lemma two_wf: "list_all (\<lambda>(d, fl). wf_dev d fl) two_devs"
  by (simp add: two_devs_def dev_nand_def dev_nor_def wf_dev_def small_def INT_MAX_def MTD_NAME_MAX_def MTD_TYPE_MAX_def type_str2int_def
      MTD_WRITEABLE_def MTD_NANDFLASH_def MTD_MLCNANDFLASH_def MTD_NORFLASH_def)

lemma two_hole: "map_of two_files (attr 1 ''dev'') = None"
  by (simp add: two_files_def two_devs_def dev_texts_def dev_nand_def dev_nor_def attr_inj)

lemma two_entries: "entry_nums [''.'', ''..'', ''mtd0'', ''mtd0ro'', ''mtd2'', ''mtd2ro''] = [0, 2]"
  by (simp add: entry_nums_def map_filter_simps scan_entry_def lits_def scan_d_def skip_ws_def is_space_def scan_sign_def scan_digits_def
      is_digit_def digit_val_def digits_val_def strtol_val_def)

lemma two_shown: "shows_devs two_sysfs two_devs"
proof -
  have w: "list_all (\<lambda>(d, fl). wf_dev d fl \<and> shows_dev two_sysfs d fl) two_devs"
    using two_files_found two_wf by (fastforce simp: list_all_iff shows_dev_def two_sysfs_def)
  have n: "map (md_num \<circ> fst) two_devs = [2, 0]" "map (\<lambda>(d, fl). (md_major d, md_minor d)) two_devs = [(90, 4), (90, 0)]"
    by (simp_all add: two_devs_def dev_nand_def dev_nor_def)
  have h: "fl_open (sf_file two_sysfs (attr i ''dev'')) = ENOENT" if "i \<in> {0..Max {2, 0}} - {2, 0}" for i :: int
  proof -
    have "i = 1" using that by auto
    then show ?thesis using two_hole by (simp add: two_sysfs_def)
  qed
  show ?thesis unfolding shows_devs_def Let_def n using w h two_entries by (simp add: two_sysfs_def) auto
qed

theorem mtd_probe_describes_witness:
  "mtd_get_dev_info two_sysfs (libmtd_open two_sysfs) ''/dev/mtd2'' 0 = Some (Some dev_nor, 0) \<and> mtd_dev_present two_sysfs (libmtd_open two_sysfs) 2 = Some True"
  using mtd_probe_describes [OF two_shown, where d = dev_nor and fl = "0x800" and node = "''/dev/mtd2''" and e = 0]
  by (simp add: two_devs_def two_sysfs_def dev_nor_def)

end
