(* ===== verification/Spec2Isabelle.thy ===== *)
theory Spec2Isabelle
  imports Prelude Crc CStrings Sha1 Rsa Verifier Scan LoadKeys UpdateFile World Libmtd FsManager MtdBase FlashRead
    Chip SysInfo MtdWrite FlashWrite SysFlag EraseSafe FirstBlock
    Registry Mtd BlockManager FileOps Mount Netlink Storage OtaMerge OtaWrite OtaStore
    BadBlock Ota OtaSafe Signed OtaChip UbiGen UbiScan Ubifs UbiWrite UbiSafe UbiStart UbiDone UbiChip MtdLegacy MtdProbe
begin

text \<open>
  A model of the recovery client of linux-recovery (\<open>src/client/recovery\<close>), the program a
  device starts when its normal system is to be replaced. It finds an update on a mounted
  storage device or on a server, checks the signature of every package, and writes the images
  to the raw flash (MTD). The theories follow the program's own parts, bottom up; all paths
  below are relative to \<open>src/client/recovery\<close>.

  \<^bold>\<open>Parts and theories.\<close>

  \<^item> \<open>Prelude\<close>, \<open>Scan\<close>: machine integers, byte order, number scanning and printing.
  \<^item> \<open>CStrings\<close> (\<open>utils/compare_string.c\<close>), \<open>FileOps\<close> (\<open>utils/file_ops.c\<close>), \<open>Crc\<close>
    (\<open>lib/crc/libcrc.c\<close>): the helpers.
  \<^item> \<open>Sha1\<close>, \<open>Rsa\<close> (\<open>lib/mincrypt\<close>), \<open>Verifier\<close>, \<open>LoadKeys\<close> (\<open>utils/verifier.c\<close>): the signature
    of a package. The digest and the modular arithmetic are the code's, word by word, and are
    proved against mathematical definitions.
  \<^item> \<open>UpdateFile\<close> (\<open>configure/update_file.c\<close>): the XML descriptions. The vendored Mini-XML parser
    is a parameter; the tree it returns is walked as the code walks it.
  \<^item> \<open>World\<close>, \<open>Libmtd\<close> (\<open>lib/mtd/libmtd.c\<close>): the flash. A kernel is a parameter, a function from
    a descriptor, a system call and its state to a reply and its next state. The record
    \<open>world\<close> holds the kernel's state, \<open>errno\<close>, the descriptors, the table of bad blocks, the
    events delivered and the system areas; the ghost field \<open>trace\<close> lists the calls made.
  \<^item> \<open>MtdLegacy\<close> (\<open>lib/mtd/libmtd_legacy.c\<close>): the table of devices in \<open>/proc/mtd\<close>, for kernels without
    sysfs. What the one read of it delivers, and what the kernel says of a node, are arguments.
    \<open>MtdProbe\<close> (the first half of \<open>lib/mtd/libmtd.c\<close>): opening the library and describing a device
    through sysfs, whose files and directories are the argument \<open>sysfs\<close>.
  \<^item> \<open>FsManager\<close> (\<open>block/fs/fs_manager.c\<close> and the constructors of the filesystems), \<open>Registry\<close>: the
    filesystem objects and the registry they share with the block managers, an interface stated
    once as the locale \<open>named_registry\<close>.
  \<^item> \<open>MtdBase\<close>, \<open>MtdWrite\<close> (\<open>block/blocks/mtd/base.c\<close>, \<open>block/fs/jffs2.c\<close>): scanning, reading, erasing and
    writing a partition around bad blocks. \<open>FlashRead\<close>, \<open>FlashWrite\<close>, \<open>EraseSafe\<close> prove what they do
    to a device.
  \<^item> \<open>SysInfo\<close>, \<open>SysFlag\<close> (\<open>block/sysinfo\<close>): the areas of the first block the system keeps for itself,
    and the update flag in one of them; \<open>FirstBlock\<close> proves that they are changed alone.
  \<^item> \<open>Mtd\<close> (\<open>block/blocks/mtd/mtd.c\<close>, the operations of the normal, cramfs, jffs2 and yaffs2
    filesystems) and \<open>BlockManager\<close> (\<open>block/block_manager.c\<close>): the block manager the rest of the
    program sees. Its record \<open>bm\<close> holds the partitions, the filesystems, the prepared operation
    and the \<open>world\<close>. UBIFS is a parameter \<open>U\<close> with a state of its own.
  \<^item> \<open>UbiGen\<close>, \<open>UbiScan\<close> (\<open>lib/mtd/ubi/libubigen.c\<close>, \<open>libscan.c\<close>): the headers of UBI as records and as
    bytes, and the scan of a partition for them. \<open>UbiChip\<close> is the chip they are witnessed at.
  \<^item> \<open>Ubifs\<close> (\<open>block/fs/ubifs.c\<close>): the filesystem object that makes a UBI volume of an image. It is
    what the parameter \<open>U\<close> of the block manager stands for. \<open>UbiWrite\<close>, \<open>UbiStart\<close> and
    \<open>UbiDone\<close> follow it over a device that behaves, from the scan to the finished volume; \<open>UbiSafe\<close>
    has its operations as the steps of a relation and what holds whatever the kernel answers.
  \<^item> \<open>Mount\<close> (\<open>mount/mount_manager.c\<close>), \<open>Netlink\<close> (\<open>netlink\<close>), \<open>Storage\<close> (the first part of
    \<open>ota/ota_manager.c\<close>): storage devices, from the kernel's event text to mounted volumes.
  \<^item> \<open>OtaMerge\<close>, \<open>OtaWrite\<close>, \<open>OtaStore\<close> (\<open>ota/ota_manager.c\<close>): judging an update against the flash and
    writing one package of it. \<open>OtaStore\<close> states what the loop needs of the block manager as the
    locale \<open>piece_writer\<close>, of which the model's own write is the instance. \<open>BadBlock\<close> shows where its
    fixed distance between two pieces goes wrong.
  \<^item> \<open>Ota\<close> (the rest of \<open>ota/ota_manager.c\<close>): the update from storage, the update from the network
    and the main task. The record \<open>ota\<close> is the state of the manager, with the block manager inside
    it; its ghost field \<open>o_log\<close> lists the flags written, the packages accepted and the files
    written. \<open>OtaSafe\<close> states the protocol as a step relation on five phases and proves that every
    run follows it; the two sources of packages are instances of the locale \<open>package_source\<close>.
  \<^item> \<open>Chip\<close>: a small simulated NAND chip, the kernel at which theorems about devices are witnessed.
    \<open>Signed\<close>: a real key of 2048 bits and an archive signed with it. \<open>OtaChip\<close>: a stick with that
    archive and a flash of two partitions, on which a whole update is evaluated.

  \<^bold>\<open>Conventions.\<close> A C function that changes state takes the state and returns it updated. The
  value \<open>None\<close> stands for what has no C result: an access outside an object or through a null
  pointer, a failed assertion, a loop that never ends, a lock that is never released; where a
  component has several such outcomes they are constructors of its own type. Failures the code
  reports are return values, as in the code. Integers whose wrap-around the code can meet are
  words; offsets into the flash, which the code keeps in 64 bits far from the limit, are integers,
  and where the code narrows them to 32 bits the model does so too. Loops are recursive functions
  with a termination proof, or partial functions with value in \<open>option\<close> where the code may not
  end; no fuel is used. Allocation succeeds unless a theory says otherwise.

  \<^bold>\<open>What is shown.\<close> The checksums and the digest equal their reference definitions; a signature is
  accepted exactly when the mathematics says so; a package is accepted exactly when its archive
  is well formed and a key verifies it. The descriptions, the key file, the table of mounted
  volumes, the table of flash devices and the files of sysfs are read back as printed. Scan, read, write and erase of a partition do what their
  callers rely on, for every device that obeys the system calls' documentation, and the erase
  stays in its partition whatever the kernel answers. The registries and the block manager
  return to where they started. Hot plugging implements its abstract history. Images go to the
  partitions they lie in, and a package of an image is stored where it belongs. The UBIFS object
  turns an image into a volume with its table, never leaves its partition and never touches a
  block it knows to be bad. The main task
  writes nothing that was not verified, records the start of an update before it and its end
  after it, and an update from storage that succeeds wrote every chunk once, in order.
  Some theorems state what goes wrong, at the place the code goes wrong: the short archive
  comment, the exponent that is never set, the list of device types without an end, the device
  entries that are never cleared, the list heads the merge leaves uninitialised, the piece of a
  package that lands on a bad block and is overwritten by the next, the handlers that are lost, the table of devices that does not fit its
  buffer.

  \<^bold>\<open>Not modelled.\<close> The user interface (\<open>graphics\<close>, \<open>fb\<close>, \<open>input\<close>), the eeprom, gpio and i2c drivers,
  the configuration file and network interface code are input, output or calls into vendored
  libraries. \<open>recovery/recovery_handler.c\<close> and \<open>utils/configure_file.c\<close> are not part of the build. The
  libraries under \<open>lib\<close> other than those named (zlib, libpng, minizip, Mini-XML, libconfig, md5) are
  vendored. Of \<open>lib/mtd\<close>, the ioctls of
  \<open>libubi.c\<close> are left out, as are the operations of \<open>libmtd.c\<close> nothing calls; the detaching of a
  partition from UBI is a parameter.
\<close>

end
